(* ===== verification/Prelude.thy ===== *)
theory Prelude
  imports Main
begin

text \<open>
  Shared vocabulary of the development: the result type that models JavaScript exceptions, the
  error classes the services throw, the interface of a state machine whose operations keep an
  invariant, and generic facts about lists and distinct sets.
\<close>

section \<open>Exceptions as values\<close>

text \<open>
  Every service declares its own subclass of \<open>Error\<close> with a \<open>reasonCode\<close>; handlers
  discriminate with \<open>instanceof\<close>. A thrown error is the class with its reason code, or one of
  the two built-in classes the code raises without a reason code.
\<close>

datatype error_class =
    TrustModelDefinitionError
  | TrustSmoothingError
  | TrustTransitionControlError
  | TrustStateStorageError
  | TrustScoreLookupError
  | TrustConfigurationManagementError
  | TrustTransitionExplanationError
  | ValidatedEvidenceConsumptionError
  | CertificateLifecycleFeedbackError
  | TenantContextError
  | AuthorizationError
  | SecurityActionStateMachineError
  | SecurityActionOrchestrationError
  | SecurityActionOperationsError
  | SecurityStateInvalidationError
  | GovernedRecoveryError
  | AdaptiveAuthorizationPolicyError
  | PolicyDecisionUnavailableError
  | CertificateStatusError
  | EvidenceRejectedError
  | EvidenceIngestionUnavailableError
  | EvidenceEventError
  | CertificateEventError
  | AuditOutboxError
  | SecurityActionAuditError
  | PolicyBundleError

datatype js_error =
    Thrown error_class string
  | TypeErrorThrown
  | RangeErrorThrown
  | ForeignError "string option"
    \<comment> \<open>an error of a collaborator outside the repository, with its \<open>reasonCode\<close> when it has one\<close>

type_synonym 'a res = "js_error + 'a"

abbreviation throw :: "error_class \<Rightarrow> string \<Rightarrow> 'a res" where
  "throw c r \<equiv> Inl (Thrown c r)"

fun error_is :: "error_class \<Rightarrow> js_error \<Rightarrow> bool" where
  "error_is c (Thrown d r) = (c = d)"
| "error_is c _ = False"

definition and_then :: "'a res \<Rightarrow> ('a \<Rightarrow> 'b res) \<Rightarrow> 'b res" where
  "and_then m f = (case m of Inl e \<Rightarrow> Inl e | Inr a \<Rightarrow> f a)"

text \<open>\<open>try ... catch\<close>: every error of the body is replaced by the handler's result.\<close>

definition catch :: "'a res \<Rightarrow> (js_error \<Rightarrow> 'a res) \<Rightarrow> 'a res" where
  "catch m h = (case m of Inl e \<Rightarrow> h e | Inr a \<Rightarrow> Inr a)"

named_theorems res_simps \<open>equations that reduce the result operations\<close>

lemma and_then_Inl [simp, res_simps]: "and_then (Inl e) f = Inl e"
  by (simp add: and_then_def)

lemma and_then_Inr [simp, res_simps]: "and_then (Inr a) f = f a"
  by (simp add: and_then_def)

lemma catch_Inl [simp, res_simps]: "catch (Inl e) h = h e"
  by (simp add: catch_def)

lemma catch_Inr [simp, res_simps]: "catch (Inr a) h = Inr a"
  by (simp add: catch_def)

lemma and_then_eq_Inr [simp, res_simps]:
  "(and_then m f = Inr b) \<longleftrightarrow> (\<exists>a. m = Inr a \<and> f a = Inr b)"
  by (cases m) auto

lemma and_then_eq_Inl [res_simps]:
  "(and_then m f = Inl e) \<longleftrightarrow> (m = Inl e \<or> (\<exists>a. m = Inr a \<and> f a = Inl e))"
  by (cases m) auto

lemma and_then_cong [fundef_cong]:
  "m = n \<Longrightarrow> (\<And>a. n = Inr a \<Longrightarrow> f a = g a) \<Longrightarrow> and_then m f = and_then n g"
  by (cases n) auto

lemma catch_eq_Inr [res_simps]:
  "(catch m h = Inr a) \<longleftrightarrow> (m = Inr a \<or> (\<exists>e. m = Inl e \<and> h e = Inr a))"
  by (cases m) auto

text \<open>A chain of guards that throw succeeds exactly when every guard is false.\<close>

lemma guard_eq_Inr [simp, res_simps]:
  "((if b then Inl e else m) = Inr x) \<longleftrightarrow> \<not> b \<and> m = Inr x"
  by simp

lemma guard_not_eq_Inr [simp, res_simps]:
  "((if b then m else Inl e) = Inr x) \<longleftrightarrow> b \<and> m = Inr x"
  by simp

text \<open>\<open>xs.map(f)\<close> where \<open>f\<close> may throw: the first exception ends the loop.\<close>

fun map_res :: "('a \<Rightarrow> 'b res) \<Rightarrow> 'a list \<Rightarrow> 'b list res" where
  "map_res f [] = Inr []"
| "map_res f (x # xs) =
     and_then (f x) (\<lambda>y. and_then (map_res f xs) (\<lambda>ys. Inr (y # ys)))"

lemma map_res_length: "map_res f xs = Inr ys \<Longrightarrow> length ys = length xs"
  by (induction xs arbitrary: ys) auto

lemma map_res_set: "map_res f xs = Inr ys \<Longrightarrow> y \<in> set ys \<Longrightarrow> \<exists>x \<in> set xs. f x = Inr y"
  by (induction xs arbitrary: ys) auto

lemma map_res_all:
  "map_res f xs = Inr ys \<Longrightarrow> (\<And>x y. x \<in> set xs \<Longrightarrow> f x = Inr y \<Longrightarrow> P y) \<Longrightarrow> list_all P ys"
  by (metis list_all_iff map_res_set)

lemma map_res_nth: "map_res f xs = Inr ys \<Longrightarrow> i < length xs \<Longrightarrow> f (xs ! i) = Inr (ys ! i)"
  by (induction xs arbitrary: ys i) (auto simp: nth_Cons split: nat.splits)

lemma map_res_errors:
  "map_res f xs = Inl e \<Longrightarrow> \<exists>x \<in> set xs. f x = Inl e"
  by (induction xs) (auto simp: and_then_eq_Inl)

section \<open>Machines that keep an invariant\<close>

text \<open>
  The interface of every stateful component: an operation takes the state and an input, returns
  a new state and an output, and promises to keep the component's invariant. The client is
  anything that runs a sequence of operations; it gets the invariant of every state it can reach.
\<close>

fun run_machine :: "('s \<Rightarrow> 'i \<Rightarrow> 's \<times> 'o) \<Rightarrow> 's \<Rightarrow> 'i list \<Rightarrow> 's \<times> 'o list" where
  "run_machine step s [] = (s, [])"
| "run_machine step s (i # is) =
     (case step s i of (s', out) \<Rightarrow>
      case run_machine step s' is of (s'', outs) \<Rightarrow> (s'', out # outs))"

lemma run_machine_append:
  "run_machine step s (xs @ ys) =
     (case run_machine step s xs of (s', os) \<Rightarrow>
      case run_machine step s' ys of (s'', os') \<Rightarrow> (s'', os @ os'))"
  by (induction xs arbitrary: s) (auto split: prod.splits)

lemma run_machine_append_fst:
  "fst (run_machine step s (xs @ ys)) = fst (run_machine step (fst (run_machine step s xs)) ys)"
  by (simp add: run_machine_append split: prod.splits)

lemma run_machine_length: "length (snd (run_machine step s is)) = length is"
  by (induction "is" arbitrary: s) (auto split: prod.splits, metis snd_conv)

locale invariant_machine =
  fixes step :: "'s \<Rightarrow> 'i \<Rightarrow> 's \<times> 'o"
    and inv :: "'s \<Rightarrow> bool"
    and admissible :: "'i \<Rightarrow> bool"
  assumes step_inv: "inv s \<Longrightarrow> admissible i \<Longrightarrow> inv (fst (step s i))"
begin

lemma run_inv: "inv s \<Longrightarrow> list_all admissible is \<Longrightarrow> inv (fst (run_machine step s is))"
proof (induction "is" arbitrary: s)
  case Nil
  then show ?case by simp
next
  case (Cons i "is")
  obtain s' out where st: "step s i = (s', out)" by fastforce
  then have "inv s'" using step_inv[OF Cons.prems(1), of i] Cons.prems(2) by simp
  with Cons.IH[of s'] Cons.prems(2) st show ?case by (auto split: prod.splits)
qed

end

text \<open>
  A machine with a measure that no operation decreases: versions, sequence numbers, counts.
\<close>

locale monotone_machine = invariant_machine step inv admissible
  for step :: "'s \<Rightarrow> 'i \<Rightarrow> 's \<times> 'o" and inv :: "'s \<Rightarrow> bool" and admissible :: "'i \<Rightarrow> bool" +
  fixes leq :: "'s \<Rightarrow> 's \<Rightarrow> bool"
  assumes leq_refl: "leq s s"
    and leq_trans: "leq s t \<Longrightarrow> leq t u \<Longrightarrow> leq s u"
    and step_leq: "inv s \<Longrightarrow> admissible i \<Longrightarrow> leq s (fst (step s i))"
begin

lemma run_leq: "inv s \<Longrightarrow> list_all admissible is \<Longrightarrow> leq s (fst (run_machine step s is))"
proof (induction "is" arbitrary: s)
  case Nil
  then show ?case by (simp add: leq_refl)
next
  case (Cons i "is")
  obtain s' out where st: "step s i = (s', out)" by fastforce
  have "leq s s'" and "inv s'"
    using step_leq[OF Cons.prems(1), of i] step_inv[OF Cons.prems(1), of i] Cons.prems(2) st by auto
  with Cons.IH[of s'] Cons.prems(2) st show ?case
    by (auto split: prod.splits intro: leq_trans)
qed

end

section \<open>Lists\<close>

lemma length_eq_subset_distinct:
  assumes "distinct xs" "distinct ys" "length xs = length ys" "set xs \<subseteq> set ys"
  shows "set xs = set ys"
  using assms by (metis card_subset_eq distinct_card finite_set)

lemma filter_length_le_Suc_0_iff_mem: "0 < length (filter P xs) \<longleftrightarrow> (\<exists>x \<in> set xs. P x)"
  by (induction xs) auto

end
