(* ===== verification/JsDouble.thy ===== *)
theory JsDouble
  imports Complex_Main Prelude
begin

text \<open>
  JavaScript numbers. A finite number is a rational; the arithmetic operators round the exact
  result to the nearest binary64 value, ties to even (\<open>rnd64\<close>), as ECMAScript prescribes. The
  theory proves that this rounding is monotone and exact on the values the trust engine needs.
  Negative zero is identified with zero: no modelled code distinguishes them.
\<close>

section \<open>Rounding to binary64\<close>

fun bit_len :: "nat \<Rightarrow> nat" where
  "bit_len n = (if n = 0 then 0 else Suc (bit_len (n div 2)))"

declare bit_len.simps [simp del]

lemma bit_len_bounds: "0 < n \<Longrightarrow> 2 ^ (bit_len n - 1) \<le> n \<and> n < 2 ^ bit_len n \<and> 0 < bit_len n"
proof (induction n rule: bit_len.induct)
  case (1 n)
  show ?case
  proof (cases "n div 2 = 0")
    case True
    then have "n = 1" using 1(2) by auto
    moreover have "bit_len 1 = 1" by (subst bit_len.simps) (simp add: bit_len.simps[of 0])
    ultimately show ?thesis by simp
  next
    case False
    then have IH: "2 ^ (bit_len (n div 2) - 1) \<le> n div 2" "n div 2 < 2 ^ bit_len (n div 2)"
        "0 < bit_len (n div 2)"
      using 1 by auto
    have "bit_len n = Suc (bit_len (n div 2))" using 1(2) by (simp add: bit_len.simps[of n])
    moreover have "2 ^ bit_len (n div 2) = 2 * (2::nat) ^ (bit_len (n div 2) - 1)"
      using IH(3) by (cases "bit_len (n div 2)") auto
    ultimately show ?thesis using IH by (auto simp: less_eq_div_iff_mult_less_eq div_less_iff_less_mult)
  qed
qed

text \<open>The binary exponent of a positive rational: \<open>2 powi e \<le> x < 2 powi (e + 1)\<close>.\<close>

definition bin_exp :: "rat \<Rightarrow> int" where
  "bin_exp x = (case quotient_of x of (p, q) \<Rightarrow>
     let k = int (bit_len (nat p)) - int (bit_len (nat q))
     in if 2 powi k \<le> x then k else k - 1)"

text \<open>Evaluation works on binary integers.\<close>

function bit_length :: "int \<Rightarrow> int" where
  "bit_length n = (if n \<le> 0 then 0 else bit_length (n div 2) + 1)"
  by auto
termination by (relation "measure nat") auto
declare bit_length.simps [simp del]

lemma bit_length_eq: "bit_length n = int (bit_len (nat n))"
proof (induction n rule: bit_length.induct)
  case (1 n)
  show ?case
  proof (cases "n \<le> 0")
    case True
    then show ?thesis by (simp add: bit_length.simps[of n] bit_len.simps[of 0])
  next
    case False
    then have "nat n \<noteq> 0" by simp
    then have "bit_len (nat n) = Suc (bit_len (nat (n div 2)))"
      using False by (subst bit_len.simps) (simp add: nat_div_distrib)
    then show ?thesis using False 1 by (simp add: bit_length.simps[of n])
  qed
qed

lemma bin_exp_code [code]:
  "bin_exp x = (case quotient_of x of (p, q) \<Rightarrow>
     let k = bit_length p - bit_length q in if 2 powi k \<le> x then k else k - 1)"
  by (simp add: bin_exp_def bit_length_eq)

definition round_half_even :: "rat \<Rightarrow> int" where
  "round_half_even x =
     (let f = \<lfloor>x\<rfloor>; d = x - of_int f
      in if d < 1/2 then f else if 1/2 < d then f + 1 else if even f then f else f + 1)"

definition unit64 :: "rat \<Rightarrow> rat" where
  "unit64 x = 2 powi (max (bin_exp x) (-1022) - 52)"

definition rnd64_pos :: "rat \<Rightarrow> rat" where
  "rnd64_pos x = of_int (round_half_even (x / unit64 x)) * unit64 x"

definition rnd64 :: "rat \<Rightarrow> rat" where
  "rnd64 x = (if x = 0 then 0 else if x < 0 then - rnd64_pos (- x) else rnd64_pos x)"

lemma bit_len_bounds_rat:
  assumes "0 < p"
  shows "(2::rat) ^ (bit_len (nat p) - 1) \<le> of_int p" and "of_int p < (2::rat) ^ bit_len (nat p)"
    and "0 < bit_len (nat p)"
proof -
  have r: "(of_int p :: rat) = of_nat (nat p)" using assms by simp
  have b: "2 ^ (bit_len (nat p) - 1) \<le> nat p" "nat p < 2 ^ bit_len (nat p)" "0 < bit_len (nat p)"
    using bit_len_bounds[of "nat p"] assms by auto
  from b(1) have "(of_nat (2 ^ (bit_len (nat p) - 1)) :: rat) \<le> of_nat (nat p)"
    by (simp only: of_nat_le_iff)
  then show "(2::rat) ^ (bit_len (nat p) - 1) \<le> of_int p" unfolding r by simp
  from b(2) have "(of_nat (nat p) :: rat) < of_nat (2 ^ bit_len (nat p))"
    by (simp only: of_nat_less_iff)
  then show "of_int p < (2::rat) ^ bit_len (nat p)" unfolding r by simp
  show "0 < bit_len (nat p)" by (rule b(3))
qed

lemma powi_diff_nat: "(2::rat) powi (int m - int n) = 2 ^ m / 2 ^ n"
  by (simp add: power_int_diff)

lemma bin_exp_bounds:
  assumes "0 < x"
  shows "2 powi bin_exp x \<le> x" and "x < 2 powi (bin_exp x + 1)"
proof -
  obtain p q where pq: "quotient_of x = (p, q)" by fastforce
  have q: "0 < q" using quotient_of_denom_pos[OF pq] .
  have x: "x = of_int p / of_int q" using quotient_of_div[OF pq] .
  have p: "0 < p" using assms q unfolding x by (simp add: zero_less_divide_iff)
  define a where "a = bit_len (nat p)"
  define b where "b = bit_len (nat q)"
  have pa: "(2::rat) ^ (a - 1) \<le> of_int p" "of_int p < (2::rat) ^ a" and a0: "0 < a"
    using bit_len_bounds_rat[OF p] by (simp_all add: a_def)
  have qb: "(2::rat) ^ (b - 1) \<le> of_int q" "of_int q < (2::rat) ^ b" and b0: "0 < b"
    using bit_len_bounds_rat[OF q] by (simp_all add: b_def)
  define k where "k = int a - int b"
  have k1: "(2::rat) powi (k - 1) = 2 ^ (a - 1) / 2 ^ b"
    using powi_diff_nat[of "a - 1" b] a0 by (simp add: k_def of_nat_diff algebra_simps)
  have k2: "(2::rat) powi (k + 1) = 2 ^ a / 2 ^ (b - 1)"
    using powi_diff_nat[of a "b - 1"] b0 by (simp add: k_def of_nat_diff algebra_simps)
  have qpos: "(0::rat) < of_int q" using q by simp
  have low: "2 powi (k - 1) \<le> x"
    unfolding k1 x using pa(1) qb(2) qpos p by (intro frac_le) auto
  have high: "x < 2 powi (k + 1)"
    unfolding k2 x using pa(2) qb(1) qpos by (intro frac_less) (use p in auto)
  show "2 powi bin_exp x \<le> x" "x < 2 powi (bin_exp x + 1)"
    using low high by (auto simp: bin_exp_def pq a_def[symmetric] b_def[symmetric] k_def[symmetric] Let_def)
qed

section \<open>Monotonicity\<close>

lemma round_half_even_bounds: "\<lfloor>x\<rfloor> \<le> round_half_even x" "round_half_even x \<le> \<lfloor>x\<rfloor> + 1"
  by (auto simp: round_half_even_def Let_def)

lemma round_half_even_of_int [simp]: "round_half_even (of_int m) = m"
  by (simp add: round_half_even_def)

lemma round_half_even_mono:
  assumes "x \<le> y"
  shows "round_half_even x \<le> round_half_even y"
proof (cases "\<lfloor>x\<rfloor> = \<lfloor>y\<rfloor>")
  case True
  then show ?thesis using assms by (auto simp: round_half_even_def Let_def)
next
  case False
  with assms have "\<lfloor>x\<rfloor> + 1 \<le> \<lfloor>y\<rfloor>" using floor_mono[OF assms] by linarith
  then show ?thesis using round_half_even_bounds[of x] round_half_even_bounds[of y] by linarith
qed

lemma round_half_even_err: "\<bar>of_int (round_half_even x) - x\<bar> \<le> 1/2"
proof -
  have "of_int \<lfloor>x\<rfloor> \<le> x" "x < of_int \<lfloor>x\<rfloor> + 1" by (simp, linarith)
  then show ?thesis by (auto simp: round_half_even_def Let_def abs_le_iff)
qed

lemma bin_exp_mono:
  assumes "0 < x" "x \<le> y"
  shows "bin_exp x \<le> bin_exp y"
proof (rule ccontr)
  assume "\<not> ?thesis"
  then have "(2::rat) powi (bin_exp y + 1) \<le> 2 powi bin_exp x"
    by (intro power_int_increasing) auto
  then show False using bin_exp_bounds[of x] bin_exp_bounds[of y] assms by linarith
qed

lemma unit64_pos [simp]: "0 < unit64 x"
  by (simp add: unit64_def)

lemma powi_53: "(2::rat) powi (e - 52) * 2 ^ 53 = 2 powi (e + 1)"
  by (simp add: power_int_diff power_int_add)

lemma powi_52: "(2::rat) powi (e - 52) * 2 ^ 52 = 2 powi e"
  by (simp add: power_int_diff)

lemma rnd64_pos_le_next:
  assumes "0 < x"
  shows "rnd64_pos x \<le> 2 powi (max (bin_exp x) (-1022) + 1)"
proof -
  let ?e = "max (bin_exp x) (-1022)"
  have "x \<le> 2 powi (bin_exp x + 1)" using bin_exp_bounds(2)[OF assms] by simp
  also have "\<dots> \<le> 2 powi (?e + 1)" by (intro power_int_increasing) auto
  also have "\<dots> = unit64 x * 2 ^ 53" by (simp only: unit64_def powi_53)
  finally have "x / unit64 x \<le> of_int (2 ^ 53)" by (simp add: divide_le_eq mult.commute)
  from round_half_even_mono[OF this] have "round_half_even (x / unit64 x) \<le> 2 ^ 53"
    by (simp only: round_half_even_of_int)
  then have "(of_int (round_half_even (x / unit64 x)) :: rat) \<le> of_int (2 ^ 53)"
    by (simp only: of_int_le_iff)
  then have "rnd64_pos x \<le> of_int (2 ^ 53) * unit64 x"
    unfolding rnd64_pos_def by (intro mult_right_mono) (auto intro: less_imp_le)
  also have "\<dots> = 2 powi (?e + 1)" using powi_53[of ?e] by (simp add: unit64_def mult.commute)
  finally show ?thesis .
qed

lemma rnd64_pos_ge_exp:
  assumes "0 < x" "-1022 \<le> bin_exp x"
  shows "2 powi bin_exp x \<le> rnd64_pos x"
proof -
  have u: "unit64 x = 2 powi (bin_exp x - 52)" using assms(2) by (simp add: unit64_def max_def)
  have "unit64 x * 2 ^ 52 \<le> x" using bin_exp_bounds(1)[OF assms(1)] by (simp only: u powi_52)
  then have "of_int (2 ^ 52) \<le> x / unit64 x" by (simp add: le_divide_eq mult.commute)
  from round_half_even_mono[OF this] have "2 ^ 52 \<le> round_half_even (x / unit64 x)"
    by (simp only: round_half_even_of_int)
  then have "(of_int (2 ^ 52) :: rat) \<le> of_int (round_half_even (x / unit64 x))"
    by (simp only: of_int_le_iff)
  then have "of_int (2 ^ 52) * unit64 x \<le> rnd64_pos x"
    unfolding rnd64_pos_def by (intro mult_right_mono) (auto intro: less_imp_le)
  then show ?thesis using powi_52[of "bin_exp x"] by (simp add: u mult.commute)
qed

lemma rnd64_pos_mono:
  assumes "0 < x" "x \<le> y"
  shows "rnd64_pos x \<le> rnd64_pos y"
proof (cases "max (bin_exp x) (-1022) = max (bin_exp y) (-1022)")
  case True
  then have u: "unit64 x = unit64 y" by (simp add: unit64_def)
  have "x / unit64 y \<le> y / unit64 y" using assms by (simp add: divide_right_mono less_imp_le)
  from round_half_even_mono[OF this]
  have "(of_int (round_half_even (x / unit64 y)) :: rat) \<le> of_int (round_half_even (y / unit64 y))"
    by (simp only: of_int_le_iff)
  then show ?thesis unfolding rnd64_pos_def u by (intro mult_right_mono) (auto intro: less_imp_le)
next
  case False
  then have lt: "max (bin_exp x) (-1022) < bin_exp y" using bin_exp_mono[OF assms] by auto
  have "rnd64_pos x \<le> 2 powi (max (bin_exp x) (-1022) + 1)" by (rule rnd64_pos_le_next[OF assms(1)])
  also have "\<dots> \<le> 2 powi bin_exp y" using lt by (intro power_int_increasing) auto
  also have "\<dots> \<le> rnd64_pos y" using lt assms by (intro rnd64_pos_ge_exp) auto
  finally show ?thesis .
qed

lemma rnd64_pos_nonneg: "0 < x \<Longrightarrow> 0 \<le> rnd64_pos x"
proof -
  assume "0 < x"
  then have "(of_int 0 :: rat) \<le> x / unit64 x" by (simp add: less_imp_le)
  from round_half_even_mono[OF this] have "0 \<le> round_half_even (x / unit64 x)"
    by (simp only: round_half_even_of_int)
  then show ?thesis by (simp add: rnd64_pos_def less_imp_le)
qed

lemma rnd64_0 [simp]: "rnd64 0 = 0"
  by (simp add: rnd64_def)

lemma rnd64_minus: "rnd64 (- x) = - rnd64 x"
  by (simp add: rnd64_def)

theorem rnd64_mono: "x \<le> y \<Longrightarrow> rnd64 x \<le> rnd64 y"
proof -
  assume le: "x \<le> y"
  consider "0 < x" | "x \<le> 0" "0 \<le> y" | "y < 0" using le by linarith
  then show ?thesis
  proof cases
    case 1
    then show ?thesis using le by (simp add: rnd64_def rnd64_pos_mono)
  next
    case 2
    then show ?thesis
      using rnd64_pos_nonneg[of y] rnd64_pos_nonneg[of "- x"] by (auto simp: rnd64_def)
  next
    case 3
    then show ?thesis using le by (simp add: rnd64_def rnd64_pos_mono)
  qed
qed

section \<open>Exactness and error\<close>

lemma bin_exp_less:
  assumes "0 < x" "x < 2 powi k"
  shows "bin_exp x < k"
proof (rule ccontr)
  assume "\<not> ?thesis"
  then have "(2::rat) powi k \<le> 2 powi bin_exp x" by (intro power_int_increasing) auto
  then show False using bin_exp_bounds[of x] assms by linarith
qed

lemma rnd64_pos_exact:
  assumes x: "x = of_int m * 2 powi k" and m: "0 < m" "m < 2 ^ 53" and k: "-1074 \<le> k"
  shows "rnd64_pos x = x"
proof -
  have x0: "0 < x" using m by (simp add: x)
  have "(of_int m :: rat) < of_int (2 ^ 53)" using m(2) by (simp only: of_int_less_iff)
  then have "x < 2 ^ 53 * 2 powi k" unfolding x by (intro mult_strict_right_mono) auto
  also have "\<dots> = 2 powi (k + 53)" by (simp add: power_int_add)
  finally have e: "bin_exp x < k + 53" using x0 by (rule bin_exp_less[rotated])
  let ?e = "max (bin_exp x) (-1022) - 52"
  have ek: "?e \<le> k" using e k by auto
  have "x / unit64 x = of_int m * 2 powi (k - ?e)"
    unfolding unit64_def by (subst x) (simp add: power_int_diff)
  also have "\<dots> = of_int (m * 2 ^ nat (k - ?e))" using ek by (simp add: power_int_def)
  finally have q: "x / unit64 x = of_int (m * 2 ^ nat (k - ?e))" .
  have "rnd64_pos x = x / unit64 x * unit64 x"
    unfolding rnd64_pos_def q round_half_even_of_int ..
  then show ?thesis using unit64_pos[of x] by (simp del: unit64_pos)
qed

text \<open>Every dyadic rational that fits in 53 bits is a binary64 value.\<close>

theorem rnd64_exact:
  assumes "x = of_int m * 2 powi k" "\<bar>m\<bar> < 2 ^ 53" "-1074 \<le> k"
  shows "rnd64 x = x"
proof -
  consider "m = 0" | "0 < m" | "m < 0" by linarith
  then show ?thesis
  proof cases
    case 1
    then show ?thesis using assms by simp
  next
    case 2
    then have "rnd64_pos x = x" using assms rnd64_pos_exact[of x m k] by simp
    moreover have "0 < x" using 2 assms by simp
    ultimately show ?thesis by (simp add: rnd64_def)
  next
    case 3
    then have "rnd64_pos (- x) = - x" using assms rnd64_pos_exact[of "- x" "- m" k] by simp
    moreover have "x < 0" using 3 assms by (simp add: mult_less_0_iff)
    ultimately show ?thesis by (simp add: rnd64_def)
  qed
qed

corollary rnd64_int: "\<bar>m\<bar> < 2 ^ 53 \<Longrightarrow> rnd64 (of_int m) = of_int m"
  by (rule rnd64_exact[of _ m 0]) auto

lemma rnd64_between:
  assumes "of_int a \<le> x" "x \<le> of_int b" "\<bar>a\<bar> < 2 ^ 53" "\<bar>b\<bar> < 2 ^ 53"
  shows "of_int a \<le> rnd64 x \<and> rnd64 x \<le> of_int b"
  using rnd64_mono[OF assms(1)] rnd64_mono[OF assms(2)] assms(3,4) by (simp add: rnd64_int)

lemma rnd64_pos_err:
  assumes "0 < x"
  shows "\<bar>rnd64_pos x - x\<bar> \<le> x * 2 powi (-53) + 2 powi (-1075)"
proof -
  have u0: "0 \<le> unit64 x" by (simp add: less_imp_le)
  have "rnd64_pos x - x = (of_int (round_half_even (x / unit64 x)) - x / unit64 x) * unit64 x"
    using unit64_pos[of x] by (simp add: rnd64_pos_def left_diff_distrib del: unit64_pos)
  then have "\<bar>rnd64_pos x - x\<bar> = \<bar>of_int (round_half_even (x / unit64 x)) - x / unit64 x\<bar> * unit64 x"
    using u0 by (simp add: abs_mult)
  also have "\<dots> \<le> 1/2 * unit64 x" using u0 by (intro mult_right_mono round_half_even_err)
  also have "\<dots> = 2 powi (max (bin_exp x) (-1022) - 53)"
    by (simp add: unit64_def power_int_diff)
  also have "\<dots> \<le> x * 2 powi (-53) + 2 powi (-1075)"
  proof (cases "bin_exp x \<le> -1022")
    case True
    then show ?thesis using assms by (simp add: max_def)
  next
    case False
    then have "(2::rat) powi (max (bin_exp x) (-1022) - 53) = 2 powi bin_exp x * 2 powi (-53)"
      by (simp add: max_def power_int_diff)
    also have "\<dots> \<le> x * 2 powi (-53)"
      using bin_exp_bounds(1)[OF assms] by (intro mult_right_mono) auto
    finally show ?thesis by (simp add: add_increasing2)
  qed
  finally show ?thesis .
qed

theorem rnd64_err: "\<bar>rnd64 x - x\<bar> \<le> \<bar>x\<bar> * 2 powi (-53) + 2 powi (-1075)"
proof -
  consider "x = 0" | "0 < x" | "x < 0" by linarith
  then show ?thesis
  proof cases
    case 1
    then show ?thesis by simp
  next
    case 2
    then show ?thesis using rnd64_pos_err[of x] by (simp add: rnd64_def)
  next
    case 3
    then show ?thesis using rnd64_pos_err[of "- x"] by (simp add: rnd64_def abs_minus_commute)
  qed
qed

section \<open>Numbers close to a binary64 value\<close>

lemma round_half_even_near: "\<bar>y - of_int k\<bar> < 1/2 \<Longrightarrow> round_half_even y = k"
proof -
  assume a: "\<bar>y - of_int k\<bar> < 1/2"
  show ?thesis
  proof (cases "of_int k \<le> y")
    case True
    then have "\<lfloor>y\<rfloor> = k" using a by (intro floor_unique) auto
    then show ?thesis using a True by (simp add: round_half_even_def)
  next
    case False
    then have "\<lfloor>y\<rfloor> = k - 1" using a by (intro floor_unique) auto
    then show ?thesis using a False by (simp add: round_half_even_def)
  qed
qed

lemma unit64_multiple:
  assumes "rnd64 x = x" "0 < x"
  obtains k where "x = of_int k * unit64 x" "0 < k"
proof -
  have "x = of_int (round_half_even (x / unit64 x)) * unit64 x"
    using assms by (simp add: rnd64_def rnd64_pos_def)
  moreover from this have "0 < round_half_even (x / unit64 x)"
    using assms(2) unit64_pos[of x] by (metis not_less mult_nonpos_nonneg of_int_le_0_iff less_imp_le)
  ultimately show thesis using that by blast
qed

text \<open>A rational close to a binary64 value, relatively by less than \<open>2 powi (- 54)\<close>, rounds to it.\<close>

lemma unit64_le:
  assumes "bin_exp d \<le> bin_exp x"
  shows "\<exists>n. unit64 x = 2 ^ n * unit64 d"
proof -
  let ?m = "\<lambda>x. max (bin_exp x) (-1022) - 52"
  have "unit64 x = 2 powi (?m x - ?m d) * unit64 d"
    by (simp add: unit64_def flip: power_int_add)
  moreover have "(2::rat) powi (?m x - ?m d) = 2 ^ nat (?m x - ?m d)"
    using assms by (simp add: power_int_def)
  ultimately show ?thesis by metis
qed

lemma bin_exp_unit: "0 < x \<Longrightarrow> 2 powi bin_exp x \<le> 2 ^ 52 * unit64 x"
proof -
  have "(2::rat) powi bin_exp x \<le> 2 powi (max (bin_exp x) (-1022))" by (intro power_int_increasing) auto
  also have "\<dots> = 2 powi (52 + (max (bin_exp x) (-1022) - 52))" by simp
  also have "\<dots> = 2 powi 52 * unit64 x" unfolding unit64_def by (rule power_int_add) simp
  finally show ?thesis by simp
qed

lemma below_next_power:
  assumes "x = of_int k * unit64 x" "0 < k"
  shows "\<exists>j. 2 powi (bin_exp x + 1) = of_int j * unit64 x \<and> k < j \<and> j \<le> 2 ^ 53"
proof -
  let ?m = "max (bin_exp x) (-1022) - 52"
  have x0: "0 < x" using assms unit64_pos[of x] by (metis mult_pos_pos of_int_0_less_iff)
  have u: "unit64 x \<le> x" using assms unit64_pos[of x] by (metis mult_le_cancel_right1 of_int_1_le_iff not_less zless_imp_add1_zle add_0 less_imp_le)
  have lt: "?m < bin_exp x + 1"
  proof (rule ccontr)
    assume "\<not> ?thesis"
    then have "(2::rat) powi (bin_exp x + 1) \<le> 2 powi ?m" by (intro power_int_increasing) auto
    then show False using bin_exp_bounds(2)[OF x0] u by (simp add: unit64_def)
  qed
  define n where "n = nat (bin_exp x + 1 - ?m)"
  have n: "int n = bin_exp x + 1 - ?m" using lt by (simp add: n_def)
  have "int n + ?m = bin_exp x + 1" using n by simp
  then have "(2::rat) powi (bin_exp x + 1) = 2 powi (int n + ?m)" by (simp only:)
  also have "\<dots> = 2 powi int n * unit64 x" unfolding unit64_def by (rule power_int_add) simp
  finally have e: "2 powi (bin_exp x + 1) = of_int (2 ^ n) * unit64 x" by simp
  have "of_int k * unit64 x < of_int (2 ^ n) * unit64 x"
    using bin_exp_bounds(2)[OF x0] e assms(1) by simp
  then have "(of_int k :: rat) < of_int (2 ^ n)" using unit64_pos[of x] by (simp only: mult_less_cancel_right_pos)
  then have "k < 2 ^ n" by (simp only: of_int_less_iff)
  moreover have "n \<le> 53" using n by simp
  then have "(2::int) ^ n \<le> 2 ^ 53" by (intro power_increasing) auto
  ultimately show ?thesis using e by blast
qed

theorem rnd64_near:
  assumes x: "rnd64 x = x" "0 < x" and d: "0 < d" "\<bar>d - x\<bar> * 2 ^ 54 < x"
  shows "rnd64 d = x"
proof -
  obtain k where k: "x = of_int k * unit64 x" "0 < k" using unit64_multiple[OF x] .
  obtain j where j: "2 powi (bin_exp x + 1) = of_int j * unit64 x" "k < j" "j \<le> 2 ^ 53"
    using below_next_power[OF k] by blast
  have "bin_exp d \<le> bin_exp x"
  proof (rule ccontr)
    assume "\<not> ?thesis"
    then have "(2::rat) powi (bin_exp x + 1) \<le> 2 powi bin_exp d" by (intro power_int_increasing) auto
    then have "of_int j * unit64 x \<le> d" using bin_exp_bounds(1)[OF d(1)] j(1) by simp
    moreover have "of_int (k + 1) * unit64 x \<le> of_int j * unit64 x"
      using j(2) by (intro mult_right_mono) (simp_all del: of_int_add add: less_imp_le)
    ultimately have "unit64 x \<le> d - x" using k(1) by (simp add: algebra_simps)
    moreover have "x < 2 ^ 53 * unit64 x"
    proof -
      have "(of_int k :: rat) < of_int (2 ^ 53)" using j by (simp only: of_int_less_iff)
      then have "of_int k * unit64 x < of_int (2 ^ 53) * unit64 x" by (intro mult_strict_right_mono) auto
      then show ?thesis using k(1) by simp
    qed
    ultimately show False using d(2) by (simp add: abs_if split: if_splits)
  qed
  then obtain n where n: "unit64 x = 2 ^ n * unit64 d" using unit64_le by blast
  define K where "K = k * 2 ^ n"
  have K: "x = of_int K * unit64 d" using k(1) n by (simp add: K_def)
  have K0: "0 < K" using k(2) by (simp add: K_def)
  have ud: "0 < unit64 d" by simp
  define y where "y = d / unit64 d"
  have y: "d = y * unit64 d" using ud by (simp add: y_def del: unit64_pos)
  have "d < 2 powi (bin_exp d + 1)" by (rule bin_exp_bounds(2)[OF d(1)])
  also have "\<dots> = 2 * 2 powi bin_exp d" by (simp add: power_int_add)
  also have "\<dots> \<le> 2 ^ 53 * unit64 d" using bin_exp_unit[OF d(1)] by simp
  finally have "y * unit64 d < 2 ^ 53 * unit64 d" using y by (simp only:)
  then have y53: "y < 2 ^ 53" using ud by (simp only: mult_less_cancel_right_pos)
  have "d - x = (y - of_int K) * unit64 d" unfolding left_diff_distrib using y K by (simp only:)
  then have "\<bar>d - x\<bar> = \<bar>y - of_int K\<bar> * unit64 d" using ud by (simp only: abs_mult abs_of_pos)
  with d(2) have "(\<bar>y - of_int K\<bar> * 2 ^ 54) * unit64 d < of_int K * unit64 d"
    unfolding K[symmetric] by (simp only: mult_ac)
  then have near: "\<bar>y - of_int K\<bar> * 2 ^ 54 < of_int K" using ud by (simp only: mult_less_cancel_right_pos)
  have "(of_int K :: rat) < 2 ^ 53 + 1"
  proof -
    have "of_int K - y \<le> \<bar>y - of_int K\<bar>" by simp
    then show ?thesis using near y53 by simp
  qed
  then have "(of_int K :: rat) < of_int (2 ^ 53 + 1)" by simp
  then have "K \<le> 2 ^ 53" by (simp only: of_int_less_iff) 
  then have "(of_int K :: rat) \<le> of_int (2 ^ 53)" by (simp only: of_int_le_iff)
  then have "\<bar>y - of_int K\<bar> < 1/2" using near by simp
  then have "round_half_even y = K" by (rule round_half_even_near)
  then show ?thesis using d(1) K by (simp add: rnd64_def rnd64_pos_def y_def)
qed

end
