(* ===== verification/JsText.thy ===== *)
theory JsText
  imports Prelude "HOL-Library.List_Lexorder" "HOL-Library.Char_ord"
begin

text \<open>
  JavaScript strings and the regular expressions of the code. A string is a list of code units;
  the model's units are 8-bit characters, which is enough because every regular expression below
  only accepts ASCII. An anchored regular expression without alternation is a sequence of
  character classes.
\<close>

section \<open>Character classes\<close>

definition lower_hex :: "char \<Rightarrow> bool" where
  "lower_hex c \<longleftrightarrow> c \<in> set ''0123456789abcdef''"

definition upper_hex :: "char \<Rightarrow> bool" where
  "upper_hex c \<longleftrightarrow> c \<in> set ''0123456789ABCDEF''"

definition digit :: "char \<Rightarrow> bool" where
  "digit c \<longleftrightarrow> c \<in> set ''0123456789''"

definition lower :: "char \<Rightarrow> bool" where
  "lower c \<longleftrightarrow> c \<in> set ''abcdefghijklmnopqrstuvwxyz''"

definition upper :: "char \<Rightarrow> bool" where
  "upper c \<longleftrightarrow> c \<in> set ''ABCDEFGHIJKLMNOPQRSTUVWXYZ''"

fun matches :: "(char \<Rightarrow> bool) list \<Rightarrow> string \<Rightarrow> bool" where
  "matches [] s = (s = [])"
| "matches (p # ps) [] = False"
| "matches (p # ps) (c # s) = (p c \<and> matches ps s)"

lemma matches_length: "matches ps s \<Longrightarrow> length s = length ps"
  by (induction ps s rule: matches.induct) auto

lemma matches_nth: "matches ps s \<Longrightarrow> i < length ps \<Longrightarrow> (ps ! i) (s ! i)"
  by (induction ps s arbitrary: i rule: matches.induct) (auto simp: nth_Cons split: nat.splits)

lemma matches_Cons_left:
  "matches (p # ps) s \<longleftrightarrow> (\<exists>c t. s = c # t \<and> p c \<and> matches ps t)"
  by (cases s) auto

lemma matches_append:
  "matches (ps @ qs) s \<longleftrightarrow> (\<exists>u v. s = u @ v \<and> matches ps u \<and> matches qs v)"
proof (induction ps arbitrary: s)
  case Nil
  then show ?case by simp
next
  case (Cons p ps)
  then show ?case by (auto simp: matches_Cons_left) (metis append_Cons)+
qed

definition lit :: "string \<Rightarrow> (char \<Rightarrow> bool) list" where
  "lit s = map (\<lambda>c d. d = c) s"

lemma matches_lit [simp]: "matches (lit s) t \<longleftrightarrow> t = s"
proof (induction s arbitrary: t)
  case Nil
  then show ?case by (simp add: lit_def)
next
  case (Cons c s)
  then show ?case by (cases t) (auto simp: lit_def)
qed

section \<open>Identifiers\<close>

text \<open>
  \<^verbatim>\<open>[0-9a-f]{8}-[0-9a-f]{4}-[1-8][0-9a-f]{3}-[89ab][0-9a-f]{3}-[0-9a-f]{12}\<close>,
  the UUID part of every prefixed identifier of the system.
\<close>

definition uuid_classes :: "(char \<Rightarrow> bool) list" where
  "uuid_classes =
     replicate 8 lower_hex @ lit ''-'' @ replicate 4 lower_hex @ lit ''-''
     @ [\<lambda>c. c \<in> set ''12345678''] @ replicate 3 lower_hex @ lit ''-''
     @ [\<lambda>c. c \<in> set ''89ab''] @ replicate 3 lower_hex @ lit ''-'' @ replicate 12 lower_hex"

definition is_id :: "string \<Rightarrow> string \<Rightarrow> bool" where
  "is_id prefix s = matches (lit prefix @ lit ''_'' @ uuid_classes) s"

lemma is_id_length: "is_id p s \<Longrightarrow> length s = length p + 37"
  by (auto simp: is_id_def uuid_classes_def lit_def dest!: matches_length)

lemma is_id_prefix: "is_id p s \<Longrightarrow> \<exists>u. s = p @ ''_'' @ u"
  by (auto simp: is_id_def matches_append)

text \<open>Identifiers with different prefixes of the same length are different strings.\<close>

lemma is_id_disjoint: "is_id p s \<Longrightarrow> is_id q t \<Longrightarrow> length p = length q \<Longrightarrow> p \<noteq> q \<Longrightarrow> s \<noteq> t"
  by (auto dest!: is_id_prefix)

text \<open>\<^verbatim>\<open>[0-9a-f]{64}\<close>\<close>

definition is_sha256 :: "string \<Rightarrow> bool" where
  "is_sha256 s = (length s = 64 \<and> list_all lower_hex s)"

text \<open>A first class, then between \<open>lo\<close> and \<open>hi\<close> characters of a second class.\<close>

fun head_tail :: "(char \<Rightarrow> bool) \<Rightarrow> (char \<Rightarrow> bool) \<Rightarrow> nat \<Rightarrow> nat \<Rightarrow> string \<Rightarrow> bool" where
  "head_tail p q lo hi [] = False"
| "head_tail p q lo hi (c # s) = (p c \<and> lo \<le> length s \<and> length s \<le> hi \<and> list_all q s)"

text \<open>\<^verbatim>\<open>[a-z0-9][a-z0-9._:-]{2,127}\<close>: worker identifiers and consumer names.\<close>

definition is_worker_id :: "string \<Rightarrow> bool" where
  "is_worker_id = head_tail (\<lambda>c. lower c \<or> digit c)
     (\<lambda>c. lower c \<or> digit c \<or> c \<in> set ''._:-'') 2 127"

text \<open>\<^verbatim>\<open>[A-Z][A-Z0-9_]{2,63}\<close>\<close>

definition is_reason_code :: "string \<Rightarrow> bool" where
  "is_reason_code = head_tail upper (\<lambda>c. upper c \<or> digit c \<or> c = CHR ''_'') 2 63"

text \<open>\<^verbatim>\<open>[A-Za-z0-9][A-Za-z0-9._:/-]{2,255}\<close>\<close>

definition is_external_reference :: "string \<Rightarrow> bool" where
  "is_external_reference = head_tail (\<lambda>c. upper c \<or> lower c \<or> digit c)
     (\<lambda>c. upper c \<or> lower c \<or> digit c \<or> c \<in> set ''._:/-'') 2 255"

text \<open>\<^verbatim>\<open>[a-z0-9][a-z0-9._:/-]{7,159}\<close>\<close>

definition is_idempotency_key :: "string \<Rightarrow> bool" where
  "is_idempotency_key = head_tail (\<lambda>c. lower c \<or> digit c)
     (\<lambda>c. lower c \<or> digit c \<or> c \<in> set ''._:/-'') 7 159"

text \<open>\<^verbatim>\<open>[a-z][a-z0-9-]{0,63}\<close>\<close>

definition is_key_namespace :: "string \<Rightarrow> bool" where
  "is_key_namespace = head_tail lower (\<lambda>c. lower c \<or> digit c \<or> c = CHR ''-'') 0 63"

text \<open>\<^verbatim>\<open>(0|[1-9][0-9]*)\.(0|[1-9][0-9]*)\.(0|[1-9][0-9]*)\<close>\<close>

fun split_on :: "char \<Rightarrow> string \<Rightarrow> string list" where
  "split_on d [] = [[]]"
| "split_on d (c # s) =
     (if c = d then [] # split_on d s
      else case split_on d s of [] \<Rightarrow> [[c]] | w # ws \<Rightarrow> (c # w) # ws)"

fun is_decimal_numeral :: "string \<Rightarrow> bool" where
  "is_decimal_numeral [] = False"
| "is_decimal_numeral (c # s) =
     ((c = CHR ''0'' \<and> s = []) \<or> (digit c \<and> c \<noteq> CHR ''0'' \<and> list_all digit s))"

definition is_model_version :: "string \<Rightarrow> bool" where
  "is_model_version s =
     (let ps = split_on (CHR ''.'') s in length ps = 3 \<and> list_all is_decimal_numeral ps)"

section \<open>Decimal numerals\<close>

definition digit_char :: "nat \<Rightarrow> char" where
  "digit_char n = ''0123456789'' ! n"

definition digit_val :: "char \<Rightarrow> nat" where
  "digit_val c = of_char c - of_char (CHR ''0'')"

fun show_nat :: "nat \<Rightarrow> string" where
  "show_nat n = (if n < 10 then [digit_char n] else show_nat (n div 10) @ [digit_char (n mod 10)])"

declare show_nat.simps [simp del]

fun read_nat :: "nat \<Rightarrow> string \<Rightarrow> nat" where
  "read_nat acc [] = acc"
| "read_nat acc (c # s) = read_nat (10 * acc + digit_val c) s"

definition show_int :: "int \<Rightarrow> string" where
  "show_int i = (if i < 0 then ''-'' @ show_nat (nat (- i)) else show_nat (nat i))"

text \<open>\<open>padStart(w, "0")\<close>\<close>

definition pad_zeros :: "nat \<Rightarrow> string \<Rightarrow> string" where
  "pad_zeros w s = replicate (w - length s) (CHR ''0'') @ s"

lemma less_10_cases: "(n::nat) < 10 \<Longrightarrow> n = 0 \<or> n = 1 \<or> n = 2 \<or> n = 3 \<or> n = 4 \<or> n = 5 \<or> n = 6 \<or> n = 7 \<or> n = 8 \<or> n = 9"
  by auto

lemma digit_val_char [simp]: "n < 10 \<Longrightarrow> digit_val (digit_char n) = n"
  by (drule less_10_cases) (auto simp: digit_val_def digit_char_def)

lemma digit_digit_char [simp]: "n < 10 \<Longrightarrow> digit (digit_char n)"
  by (drule less_10_cases) (auto simp: digit_def digit_char_def)

lemma digit_val_less: "digit c \<Longrightarrow> digit_val c < 10"
  by (auto simp: digit_def digit_val_def)

lemma digit_val_zero [simp]: "digit_val (CHR ''0'') = 0"
  by (simp add: digit_val_def)

lemma digit_zero [simp]: "digit (CHR ''0'')"
  by (simp add: digit_def)

lemma read_nat_append [simp]: "read_nat acc (s @ t) = read_nat (read_nat acc s) t"
  by (induction s arbitrary: acc) auto

lemma read_show_nat [simp]: "read_nat 0 (show_nat n) = n"
proof (induction n rule: show_nat.induct)
  case (1 n)
  then show ?case by (cases "n < 10") (simp_all add: show_nat.simps[of n])
qed

lemma read_nat_zeros [simp]: "read_nat 0 (replicate k (CHR ''0'')) = 0"
  by (induction k) auto

lemma read_pad_zeros [simp]: "read_nat 0 (pad_zeros w s) = read_nat 0 s"
  by (simp add: pad_zeros_def)

lemma show_nat_digits: "list_all digit (show_nat n)"
proof (induction n rule: show_nat.induct)
  case (1 n)
  then show ?case by (cases "n < 10") (simp_all add: show_nat.simps[of n])
qed

lemma show_nat_nonempty [simp]: "show_nat n \<noteq> []"
  by (subst show_nat.simps) simp

lemma show_nat_length_le: "n < 10 ^ k \<Longrightarrow> 0 < k \<Longrightarrow> length (show_nat n) \<le> k"
proof (induction n arbitrary: k rule: show_nat.induct)
  case (1 n)
  show ?case
  proof (cases "n < 10")
    case True
    then show ?thesis using 1 by (simp add: show_nat.simps[of n])
  next
    case False
    then obtain j where k: "k = Suc j" "0 < j" using 1 by (cases k; cases "k - 1") auto
    then have "n div 10 < 10 ^ j" using 1(2) by (simp add: less_mult_imp_div_less mult.commute)
    then have "length (show_nat (n div 10)) \<le> j" using 1(1) False k by blast
    then show ?thesis using False k by (simp add: show_nat.simps[of n])
  qed
qed

lemma pad_zeros_length: "n < 10 ^ w \<Longrightarrow> 0 < w \<Longrightarrow> length (pad_zeros w (show_nat n)) = w"
  using show_nat_length_le[of n w] by (simp add: pad_zeros_def)

lemma pad_zeros_digits: "list_all digit s \<Longrightarrow> list_all digit (pad_zeros w s)"
  by (auto simp: pad_zeros_def list_all_iff)

lemma show_nat_inj [simp]: "show_nat m = show_nat n \<longleftrightarrow> m = n"
  by (metis read_show_nat)

text \<open>The same on integers, for evaluation.\<close>

function show_pos :: "int \<Rightarrow> string" where
  "show_pos n = (if n < 10 then [digit_char (nat n)] else show_pos (n div 10) @ [digit_char (nat (n mod 10))])"
  by auto
termination by (relation "measure nat") auto
declare show_pos.simps [simp del]

lemma show_pos_eq: "0 \<le> n \<Longrightarrow> show_pos n = show_nat (nat n)"
proof (induction n rule: show_pos.induct)
  case (1 n)
  then show ?case
    by (subst show_pos.simps, subst show_nat.simps) (auto simp: nat_div_distrib nat_mod_distrib)
qed

fun read_pos :: "int \<Rightarrow> string \<Rightarrow> int" where
  "read_pos acc [] = acc"
| "read_pos acc (c # cs) = read_pos (10 * acc + int (digit_val c)) cs"

lemma read_pos_eq: "read_pos (int a) s = int (read_nat a s)"
proof (induction s arbitrary: a)
  case (Cons c cs)
  show ?case using Cons.IH[of "10 * a + digit_val c"] by simp
qed simp

lemma read_show_pos [simp]: "0 \<le> n \<Longrightarrow> read_pos 0 (show_pos n) = n"
  using read_pos_eq[of 0 "show_pos n"] by (simp add: show_pos_eq)

lemma read_pos_append: "read_pos a (s @ t) = read_pos (read_pos a s) t"
  by (induction a s rule: read_pos.induct) auto

lemma read_pos_acc: "read_pos a s = a * 10 ^ length s + read_pos 0 s"
proof (induction s arbitrary: a)
  case (Cons c cs)
  show ?case
    using Cons.IH[of "10 * a + int (digit_val c)"] Cons.IH[of "int (digit_val c)"] by (simp add: algebra_simps)
qed simp

lemma read_pos_replicate [simp]: "read_pos a (replicate k (CHR ''0'')) = a * 10 ^ k"
  by (induction k arbitrary: a) (auto simp: algebra_simps)

lemma read_pos_nonneg: "0 \<le> a \<Longrightarrow> 0 \<le> read_pos a s"
  by (induction a s rule: read_pos.induct) auto

end
