(* ===== verification/JsDate.thy ===== *)
theory JsDate
  imports JsText
begin

text \<open>
  Time values (milliseconds since the epoch), \<open>Date.prototype.toISOString\<close> and the parsing of
  the strings it produces. The calendar follows ECMAScript's \<open>DayFromYear\<close>. The code reads times
  in two ways: strings that it first requires to be canonical (\<open>parsed.toISOString() === value\<close>)
  and \<open>Date\<close> objects; \<open>date_parse\<close> therefore accepts exactly the canonical strings, and treats
  any other string as an invalid date.
\<close>

section \<open>The calendar\<close>

definition ms_per_day :: int where
  "ms_per_day = 86400000"

definition max_time :: int where
  "max_time = 8640000000000000"

definition valid_time :: "int \<Rightarrow> bool" where
  "valid_time t \<longleftrightarrow> \<bar>t\<bar> \<le> max_time"

definition days_before_year :: "int \<Rightarrow> int" where
  "days_before_year y =
     365 * (y - 1970) + (y - 1969) div 4 - (y - 1901) div 100 + (y - 1601) div 400"

definition leap_year :: "int \<Rightarrow> bool" where
  "leap_year y \<longleftrightarrow> (y mod 4 = 0 \<and> y mod 100 \<noteq> 0) \<or> y mod 400 = 0"

definition year_of_day :: "int \<Rightarrow> int" where
  "year_of_day n =
     (let e = 1970 + (400 * n) div 146097
      in if n < days_before_year e then e - 1
         else if days_before_year (e + 1) \<le> n then e + 1 else e)"

definition month_starts :: "bool \<Rightarrow> int list" where
  "month_starts lp =
     (if lp then [0, 31, 60, 91, 121, 152, 182, 213, 244, 274, 305, 335]
      else [0, 31, 59, 90, 120, 151, 181, 212, 243, 273, 304, 334])"

definition month_of_day :: "bool \<Rightarrow> int \<Rightarrow> nat" where
  "month_of_day lp d = length (filter (\<lambda>s. s \<le> d) (month_starts lp))"

definition make_time :: "int \<Rightarrow> nat \<Rightarrow> nat \<Rightarrow> nat \<Rightarrow> nat \<Rightarrow> nat \<Rightarrow> nat \<Rightarrow> int" where
  "make_time y m d h mi s ms =
     (days_before_year y + month_starts (leap_year y) ! (m - 1) + int d - 1) * ms_per_day
     + int h * 3600000 + int mi * 60000 + int s * 1000 + int ms"

lemma div_bounds: "0 < k \<Longrightarrow> (k::int) * (a div k) \<le> a \<and> a < k * (a div k) + k"
  by (metis add.commute add_strict_left_mono mult_div_mod_eq pos_mod_bound pos_mod_sign
      le_add_same_cancel1)

lemma days_before_year_estimate:
  fixes q :: int
  shows "400 * days_before_year (1970 + q) \<le> 146097 * q + 589"
    and "146097 * q - 506 \<le> 400 * days_before_year (1970 + q)"
  using div_bounds[of 4 "q + 1"] div_bounds[of 100 "q + 69"] div_bounds[of 400 "q + 369"]
  by (simp_all add: days_before_year_def algebra_simps)

lemma year_of_day_bounds:
  "days_before_year (year_of_day n) \<le> n \<and> n < days_before_year (year_of_day n + 1)"
proof -
  define q where "q = (400 * n) div 146097"
  have q: "146097 * q \<le> 400 * n" "400 * n < 146097 * q + 146097"
    using div_bounds[of 146097 "400 * n"] by (auto simp: q_def)
  have lo: "days_before_year (1970 + q - 1) \<le> n"
    using days_before_year_estimate(1)[of "q - 1"] q by (simp add: algebra_simps)
  have hi: "n < days_before_year (1970 + q + 2)"
    using days_before_year_estimate(2)[of "q + 2"] q by (simp add: algebra_simps)
  define e where "e = 1970 + q"
  have "year_of_day n = (if n < days_before_year e then e - 1
      else if days_before_year (e + 1) \<le> n then e + 1 else e)"
    by (simp only: year_of_day_def q_def[symmetric] e_def Let_def)
  moreover have "days_before_year (e - 1) \<le> n" "n < days_before_year (e + 1 + 1)"
    using lo hi by (simp_all add: e_def add.assoc)
  ultimately show ?thesis
    by (cases "n < days_before_year e"; cases "days_before_year (e + 1) \<le> n")
      (simp_all only: if_True if_False not_less not_le diff_add_cancel, simp_all)
qed

lemma div_succ:
  assumes "0 < (k::int)"
  shows "(a + 1) div k = a div k + (if (a + 1) mod k = 0 then 1 else 0)"
proof -
  have a: "a + 1 = k * (a div k) + (a mod k + 1)" by simp
  have r: "0 \<le> a mod k" "a mod k < k" using assms by auto
  show ?thesis
  proof (cases "a mod k + 1 = k")
    case True
    then have eq: "a + 1 = k * (a div k + 1)" using a by (simp add: distrib_left)
    show ?thesis using assms unfolding eq by simp
  next
    case False
    then have lt: "a mod k + 1 < k" using r by simp
    have "(a + 1) div k = a div k" using int_div_pos_eq[OF a] r lt by simp
    moreover have "(a + 1) mod k = a mod k + 1" using int_mod_pos_eq[OF a] r lt by simp
    ultimately show ?thesis using r by simp
  qed
qed

lemma year_length: "days_before_year (y + 1) - days_before_year y = (if leap_year y then 366 else 365)"
proof -
  have m: "(y - 1968) mod 4 = y mod 4" "(y - 1900) mod 100 = y mod 100" "(y - 1600) mod 400 = y mod 400"
    by (simp_all add: mod_eq_dvd_iff)
  have s: "y - 1969 + 1 = y - 1968" "y - 1901 + 1 = y - 1900" "y - 1601 + 1 = y - 1600" by simp_all
  have a: "(y - 1968) div 4 = (y - 1969) div 4 + (if y mod 4 = 0 then 1 else 0)"
    by (rule div_succ[of 4 "y - 1969", OF zero_less_numeral, unfolded s m])
  have b: "(y - 1900) div 100 = (y - 1901) div 100 + (if y mod 100 = 0 then 1 else 0)"
    by (rule div_succ[of 100 "y - 1901", OF zero_less_numeral, unfolded s m])
  have c: "(y - 1600) div 400 = (y - 1601) div 400 + (if y mod 400 = 0 then 1 else 0)"
    by (rule div_succ[of 400 "y - 1601", OF zero_less_numeral, unfolded s m])
  have sum: "365 * (y + 1 - 1970) + (p + i) - (q + j) + (r + k) - (365 * (y - 1970) + p - q + r)
      = 365 + i - j + k" for p q r i j k :: int
    by (simp add: algebra_simps)
  have e: "y + 1 - 1969 = y - 1968" "y + 1 - 1901 = y - 1900" "y + 1 - 1601 = y - 1600" by simp_all
  have "days_before_year (y + 1) - days_before_year y = 365 + (if y mod 4 = 0 then 1 else 0)
      - (if y mod 100 = 0 then 1 else 0) + (if y mod 400 = 0 then 1 else 0)"
    unfolding days_before_year_def e a b c by (rule sum)
  moreover have "y mod 100 = 0" if "y mod 400 = 0"
    using that dvd_trans[of 100 400 y] by (simp add: mod_eq_0_iff_dvd)
  moreover have "y mod 4 = 0" if "y mod 100 = 0"
    using that dvd_trans[of 4 100 y] by (simp add: mod_eq_0_iff_dvd)
  ultimately show ?thesis
    unfolding leap_year_def by (cases "y mod 400 = 0"; cases "y mod 100 = 0"; cases "y mod 4 = 0") simp_all
qed

lemma sorted_count_le:
  assumes "sorted xs" "i < length xs"
  shows "xs ! i \<le> d \<longleftrightarrow> i < length (filter (\<lambda>s. s \<le> d) xs)"
  using assms
proof (induction xs arbitrary: i)
  case Nil
  then show ?case by simp
next
  case (Cons x xs)
  have "filter (\<lambda>s. s \<le> d) xs = []" if "\<not> x \<le> d"
    using that Cons.prems by (auto simp: filter_empty_conv dest: order_trans)
  then show ?case using Cons by (cases i; cases "x \<le> d") (auto dest!: nth_mem dest: order_trans)
qed

lemma month_starts_sorted: "sorted (month_starts lp)"
  by (cases lp) (simp_all add: month_starts_def)

lemma month_starts_length [simp]: "length (month_starts lp) = 12"
  by (cases lp) (simp_all add: month_starts_def)

lemma month_gap:
  "i < 11 \<Longrightarrow> month_starts lp ! Suc i - month_starts lp ! i \<le> 31"
  by (cases lp; simp add: month_starts_def less_Suc_eq numeral_eq_Suc; elim disjE; simp)

lemma month_of_day_bounds:
  assumes "0 \<le> d" "d < (if lp then 366 else 365)"
  shows "1 \<le> month_of_day lp d" "month_of_day lp d \<le> 12"
    "0 \<le> d - month_starts lp ! (month_of_day lp d - 1)"
    "d - month_starts lp ! (month_of_day lp d - 1) < 31"
proof -
  let ?k = "month_of_day lp d"
  note count = sorted_count_le[OF month_starts_sorted[of lp], of _ d, folded month_of_day_def]
  have "month_starts lp ! 0 \<le> d" using assms by (cases lp) (simp_all add: month_starts_def)
  then show k1: "1 \<le> ?k" using count[of 0] by simp
  show k12: "?k \<le> 12" unfolding month_of_day_def by (rule order_trans[OF length_filter_le]) simp
  show "0 \<le> d - month_starts lp ! (?k - 1)" using count[of "?k - 1"] k1 k12 by simp
  show "d - month_starts lp ! (?k - 1) < 31"
  proof (cases "?k = 12")
    case True
    then show ?thesis using assms by (cases lp) (simp_all add: month_starts_def)
  next
    case False
    then have "d < month_starts lp ! ?k" using count[of ?k] k12 by simp
    moreover have "month_starts lp ! ?k - month_starts lp ! (?k - 1) \<le> 31"
      using month_gap[of "?k - 1" lp] False k1 k12 by simp
    ultimately show ?thesis by linarith
  qed
qed

section \<open>toISOString and its inverse\<close>

definition show_year :: "int \<Rightarrow> string" where
  "show_year y =
     (if 0 \<le> y \<and> y \<le> 9999 then pad_zeros 4 (show_nat (nat y))
      else (if y < 0 then ''-'' else ''+'') @ pad_zeros 6 (show_nat (nat \<bar>y\<bar>)))"

definition time_to_iso :: "int \<Rightarrow> string" where
  "time_to_iso t =
     (let day = t div ms_per_day; ms = nat (t mod ms_per_day);
          y = year_of_day day; lp = leap_year y; yd = day - days_before_year y;
          m = month_of_day lp yd; d = nat (yd - month_starts lp ! (m - 1)) + 1
      in show_year y @ ''-'' @ pad_zeros 2 (show_nat m) @ ''-'' @ pad_zeros 2 (show_nat d) @ ''T''
         @ pad_zeros 2 (show_nat (ms div 3600000)) @ '':''
         @ pad_zeros 2 (show_nat (ms div 60000 mod 60)) @ '':''
         @ pad_zeros 2 (show_nat (ms div 1000 mod 60)) @ ''.''
         @ pad_zeros 3 (show_nat (ms mod 1000)) @ ''Z'')"

text \<open>Everything after the year: \<^verbatim>\<open>-MM-DDTHH:mm:ss.sssZ\<close>.\<close>

definition read_after_year :: "int \<Rightarrow> string \<Rightarrow> int" where
  "read_after_year y s =
     make_time y (read_nat 0 (take 2 (drop 1 s))) (read_nat 0 (take 2 (drop 4 s)))
       (read_nat 0 (take 2 (drop 7 s))) (read_nat 0 (take 2 (drop 10 s)))
       (read_nat 0 (take 2 (drop 13 s))) (read_nat 0 (take 3 (drop 16 s)))"

definition read_iso :: "string \<Rightarrow> int option" where
  "read_iso s =
     (if length s = 24 then
        Some (read_after_year (int (read_nat 0 (take 4 s))) (drop 4 s))
      else if length s = 27 then
        (case s of [] \<Rightarrow> None
         | c # r \<Rightarrow> Some (read_after_year
             ((if c = CHR ''-'' then -1 else 1) * int (read_nat 0 (take 6 r))) (drop 6 r)))
      else None)"

text \<open>
  \<open>Date.parse\<close> on canonical strings: the time value whose \<open>toISOString\<close> is the string.
\<close>

definition date_parse :: "string \<Rightarrow> int option" where
  "date_parse s =
     (case read_iso s of
        None \<Rightarrow> None
      | Some t \<Rightarrow> if valid_time t \<and> time_to_iso t = s then Some t else None)"

lemma date_parse_Some: "date_parse s = Some t \<Longrightarrow> valid_time t \<and> time_to_iso t = s"
  by (auto simp: date_parse_def split: option.splits if_splits)

definition two :: "nat \<Rightarrow> string" where
  "two n = pad_zeros 2 (show_nat n)"

lemma length_two [simp]: "n < 100 \<Longrightarrow> length (two n) = 2"
  using pad_zeros_length[of n 2] by (simp add: two_def)

lemma read_two [simp]: "read_nat 0 (two n) = n"
  by (simp add: two_def)

lemma read_after_year_show:
  assumes "m < 100" "d < 100" "h < 100" "mi < 100" "s < 100" "ms < 1000"
  shows "read_after_year y (''-'' @ two m @ ''-'' @ two d @ ''T'' @ two h @ '':'' @ two mi @ '':''
           @ two s @ ''.'' @ pad_zeros 3 (show_nat ms) @ ''Z'') = make_time y m d h mi s ms"
proof -
  have "length (pad_zeros 3 (show_nat ms)) = 3" using assms pad_zeros_length[of ms 3] by simp
  then show ?thesis using assms by (simp add: read_after_year_def)
qed

lemma length_after_year:
  assumes "m < 100" "d < 100" "h < 100" "mi < 100" "s < 100" "ms < 1000"
  shows "length (''-'' @ two m @ ''-'' @ two d @ ''T'' @ two h @ '':'' @ two mi @ '':''
           @ two s @ ''.'' @ pad_zeros 3 (show_nat ms) @ ''Z'') = 20"
  using assms pad_zeros_length[of ms 3] by simp

lemma read_iso_show_year:
  assumes "\<bar>y\<bar> < 1000000" "length r = 20"
  shows "read_iso (show_year y @ r) = Some (read_after_year y r)"
proof (cases "0 \<le> y \<and> y \<le> 9999")
  case True
  then have "nat y < 10 ^ 4" by (simp add: nat_less_iff)
  then have "length (pad_zeros 4 (show_nat (nat y))) = 4" by (intro pad_zeros_length) auto
  then show ?thesis using True assms by (simp add: read_iso_def show_year_def)
next
  case False
  have "nat \<bar>y\<bar> < 10 ^ 6" using assms by simp
  then have "length (pad_zeros 6 (show_nat (nat \<bar>y\<bar>))) = 6" by (intro pad_zeros_length) auto
  then show ?thesis using False assms by (auto simp: read_iso_def show_year_def)
qed

lemma valid_day: "valid_time t \<Longrightarrow> \<bar>t div ms_per_day\<bar> \<le> 100000000"
  using div_bounds[of ms_per_day t] by (simp add: valid_time_def max_time_def ms_per_day_def abs_le_iff)

lemma year_printable:
  assumes "\<bar>n\<bar> \<le> 100000000"
  shows "\<bar>year_of_day n\<bar> < 1000000"
proof -
  define q where "q = (400 * n) div 146097"
  have "146097 * q \<le> 400 * n" "400 * n < 146097 * q + 146097"
    using div_bounds[of 146097 "400 * n"] by (auto simp: q_def)
  then have "-300000 \<le> q" "q \<le> 300000" using assms by (auto simp: abs_le_iff)
  moreover have "1970 + q - 1 \<le> year_of_day n" "year_of_day n \<le> 1970 + q + 1"
    by (simp_all add: year_of_day_def q_def[symmetric] Let_def)
  ultimately show ?thesis by (simp add: abs_less_iff)
qed

lemma split_ms:
  "ms div 3600000 * 3600000 + ms div 60000 mod 60 * 60000 + ms div 1000 mod 60 * 1000 + ms mod 1000
     = (ms::nat)"
proof -
  have "ms div 60000 = ms div 1000 div 60" "ms div 3600000 = ms div 60000 div 60"
    by (simp_all flip: div_mult2_eq)
  then have "ms div 3600000 * 60 + ms div 60000 mod 60 = ms div 60000"
      "ms div 60000 * 60 + ms div 1000 mod 60 = ms div 1000" by simp_all
  moreover have "ms div 1000 * 1000 + ms mod 1000 = ms" by simp
  ultimately show ?thesis by linarith
qed

lemma make_time_eq:
  assumes "h * 3600000 + mi * 60000 + s * 1000 + ms = r"
    and "int d = yd - month_starts (leap_year y) ! (m - 1) + 1"
  shows "make_time y m d h mi s ms = (days_before_year y + yd) * ms_per_day + int r"
proof -
  have "int h * 3600000 + int mi * 60000 + int s * 1000 + int ms = int r"
    using assms(1) by (metis (no_types, lifting) of_nat_add of_nat_mult of_nat_numeral)
  then show ?thesis using assms(2) by (simp add: make_time_def)
qed

lemma clock_bounds:
  assumes "(ms::nat) < 86400000"
  shows "ms div 3600000 < 100" "ms div 60000 mod 60 < 100" "ms div 1000 mod 60 < 100" "ms mod 1000 < 1000"
proof -
  show "ms div 3600000 < 100" using assms by (simp add: div_less_iff_less_mult)
  show "ms div 60000 mod 60 < 100" by (rule less_trans[OF mod_less_divisor[of 60]]) simp_all
  show "ms div 1000 mod 60 < 100" by (rule less_trans[OF mod_less_divisor[of 60]]) simp_all
  show "ms mod 1000 < 1000" by simp
qed

theorem date_parse_iso: "valid_time t \<Longrightarrow> date_parse (time_to_iso t) = Some t"
proof -
  assume t: "valid_time t"
  define day where "day = t div ms_per_day"
  define ms where "ms = nat (t mod ms_per_day)"
  define y where "y = year_of_day day"
  define yd where "yd = day - days_before_year y"
  define m where "m = month_of_day (leap_year y) yd"
  define d where "d = nat (yd - month_starts (leap_year y) ! (m - 1)) + 1"
  have yd: "0 \<le> yd" "yd < (if leap_year y then 366 else 365)"
    using year_of_day_bounds[of day] year_length[of y] by (auto simp: yd_def y_def)
  note md = month_of_day_bounds[OF yd, folded m_def]
  have ms: "ms < 86400000" "int ms = t mod ms_per_day" by (auto simp: ms_def ms_per_day_def)
  have y6: "\<bar>y\<bar> < 1000000" unfolding y_def day_def by (intro year_printable valid_day t)
  have d31: "d < 100" using md by (simp add: d_def nat_less_iff)
  have "m < 100" using md(2) by simp
  note bounds = this d31 clock_bounds[OF ms(1)]
  have iso: "time_to_iso t = show_year y @ (''-'' @ two m @ ''-'' @ two d @ ''T'' @ two (ms div 3600000)
      @ '':'' @ two (ms div 60000 mod 60) @ '':'' @ two (ms div 1000 mod 60) @ ''.''
      @ pad_zeros 3 (show_nat (ms mod 1000)) @ ''Z'')"
    by (simp add: time_to_iso_def Let_def two_def day_def ms_def y_def yd_def m_def d_def)
  have "read_iso (time_to_iso t) = Some (make_time y m d (ms div 3600000) (ms div 60000 mod 60)
      (ms div 1000 mod 60) (ms mod 1000))"
    unfolding iso
    by (subst read_iso_show_year[OF y6 length_after_year[OF bounds]])
      (simp only: read_after_year_show[OF bounds])
  moreover have "make_time y m d (ms div 3600000) (ms div 60000 mod 60) (ms div 1000 mod 60) (ms mod 1000) = t"
  proof -
    have "int d = yd - month_starts (leap_year y) ! (m - 1) + 1" using md by (simp add: d_def)
    from make_time_eq[OF split_ms this] have "make_time y m d (ms div 3600000) (ms div 60000 mod 60)
        (ms div 1000 mod 60) (ms mod 1000) = (days_before_year y + yd) * ms_per_day + int ms" .
    also have "\<dots> = day * ms_per_day + t mod ms_per_day" by (simp only: yd_def ms(2)) simp
    also have "\<dots> = t" by (simp only: day_def div_mult_mod_eq)
    finally show ?thesis .
  qed
  ultimately show ?thesis using t by (simp add: date_parse_def)
qed

corollary date_parse_iff: "date_parse s = Some t \<longleftrightarrow> valid_time t \<and> s = time_to_iso t"
  using date_parse_Some date_parse_iso by blast

lemma time_to_iso_ends_Z: "\<exists>u. time_to_iso t = u @ ''Z''"
  by (simp add: time_to_iso_def Let_def)

lemma last_time_to_iso: "time_to_iso t \<noteq> [] \<and> last (time_to_iso t) = CHR ''Z''"
  using time_to_iso_ends_Z[of t] by auto

lemma valid_time_0: "valid_time 0"
  by (simp add: valid_time_def max_time_def)

end
