(* ===== verification/JsValues.thy ===== *)
theory JsValues
  imports JsDouble JsText JsDate
begin

text \<open>
  JavaScript values. Requests, database rows and event payloads reach the services as untyped
  values, and most of the code validates them field by field. The datatype keeps what such a
  validation can observe: the type of a value, the own enumerable properties of an object in
  order, its prototype, the elements of an array and the time of a \<open>Date\<close>.

  Two objects at different positions of an input are taken to be different objects, so \<open>===\<close> never
  holds between objects. Objects carry no own \<open>toString\<close> function.
\<close>

section \<open>Values\<close>

datatype js_num = NaN | PosInf | NegInf | Fin rat

datatype proto = ObjectProto | NullProto | OtherProto

datatype js =
    JUndef
  | JNull
  | JBool bool
  | JNum js_num
  | JStr string
  | JDate "int option"   \<comment> \<open>a \<open>Date\<close> object; \<open>None\<close> is an invalid date\<close>
  | JArr "js list"
  | JObj proto "(string \<times> js) list"
  | JFun string          \<comment> \<open>a function value, named\<close>

abbreviation obj :: "(string \<times> js) list \<Rightarrow> js" where
  "obj fs \<equiv> JObj ObjectProto fs"

abbreviation num :: "rat \<Rightarrow> js" where
  "num x \<equiv> JNum (Fin x)"

text \<open>Names every ordinary object inherits from \<open>Object.prototype\<close>.\<close>

definition object_prototype_names :: "string list" where
  "object_prototype_names =
     [''constructor'', ''toString'', ''toLocaleString'', ''valueOf'', ''hasOwnProperty'',
      ''isPrototypeOf'', ''propertyIsEnumerable'', ''__defineGetter__'', ''__defineSetter__'',
      ''__lookupGetter__'', ''__lookupSetter__'']"

definition inherited :: "string \<Rightarrow> js" where
  "inherited k =
     (if k = ''__proto__'' then JObj NullProto []
      else if k \<in> set object_prototype_names then JFun k else JUndef)"

fun own :: "(string \<times> js) list \<Rightarrow> string \<Rightarrow> js option" where
  "own [] k = None"
| "own ((n, v) # fs) k = (if n = k then Some v else own fs k)"

text \<open>
  \<open>value.name\<close>, and \<open>value?.name\<close>. On \<open>null\<close> and \<open>undefined\<close> the former throws a
  \<open>TypeError\<close>: the code reads only after a check, or with \<open>?.\<close>, and the operations that read
  without one test for it explicitly.
\<close>

fun get :: "js \<Rightarrow> string \<Rightarrow> js" where
  "get (JObj p fs) k =
     (case own fs k of Some v \<Rightarrow> v | None \<Rightarrow> if p = NullProto then JUndef else inherited k)"
| "get (JArr xs) k = (if k = ''length'' then num (of_nat (length xs)) else inherited k)"
| "get (JStr s) k = (if k = ''length'' then num (of_nat (length s)) else inherited k)"
| "get JUndef k = JUndef"
| "get JNull k = JUndef"
| "get (JDate d) k = inherited k"
| "get (JFun f) k = (if k = ''name'' then JStr f else inherited k)"
| "get (JBool b) k = inherited k"
| "get (JNum n) k = inherited k"

definition nullish :: "js \<Rightarrow> bool" where
  "nullish v \<longleftrightarrow> v = JUndef \<or> v = JNull"

text \<open>\<open>v ?? d\<close>\<close>

definition coalesce :: "js \<Rightarrow> js \<Rightarrow> js" where
  "coalesce v d = (if nullish v then d else v)"

fun truthy :: "js \<Rightarrow> bool" where
  "truthy JUndef = False"
| "truthy JNull = False"
| "truthy (JBool b) = b"
| "truthy (JNum n) = (n \<noteq> NaN \<and> n \<noteq> Fin 0)"
| "truthy (JStr s) = (s \<noteq> [])"
| "truthy _ = True"

fun is_object :: "js \<Rightarrow> bool" where
  "is_object (JObj p fs) = True"
| "is_object (JArr xs) = True"
| "is_object (JDate d) = True"
| "is_object _ = False"

fun is_array :: "js \<Rightarrow> bool" where
  "is_array (JArr xs) = True"
| "is_array _ = False"

fun elements :: "js \<Rightarrow> js list" where
  "elements (JArr xs) = xs"
| "elements _ = []"

fun is_bool :: "js \<Rightarrow> bool" where
  "is_bool (JBool b) = True"
| "is_bool _ = False"

fun is_string :: "js \<Rightarrow> bool" where
  "is_string (JStr s) = True"
| "is_string _ = False"

text \<open>\<open>typeof value === "function"\<close>\<close>

fun is_function :: "js \<Rightarrow> bool" where
  "is_function (JFun f) = True"
| "is_function _ = False"

text \<open>\<open>isPlainObject\<close>, which every service defines in the same words.\<close>

fun is_plain_object :: "js \<Rightarrow> bool" where
  "is_plain_object (JObj p fs) = (p = ObjectProto \<or> p = NullProto)"
| "is_plain_object _ = False"

text \<open>\<open>typeof value === "object" && !Array.isArray(value)\<close> for a truthy value.\<close>

definition is_record :: "js \<Rightarrow> bool" where
  "is_record v \<longleftrightarrow> truthy v \<and> is_object v \<and> \<not> is_array v"

text \<open>\<open>Object.keys\<close>\<close>

fun keys :: "js \<Rightarrow> string list" where
  "keys (JObj p fs) = remdups (map fst fs)"
| "keys _ = []"

definition has_exact_keys :: "js \<Rightarrow> string list \<Rightarrow> bool" where
  "has_exact_keys v ks \<longleftrightarrow>
     is_plain_object v \<and> length (keys v) = length ks \<and> list_all (\<lambda>k. k \<in> set ks) (keys v)"

section \<open>Equality\<close>

text \<open>\<open>===\<close> and SameValueZero, the equality of \<open>Set\<close> and \<open>Map\<close>.\<close>

fun strict_eq :: "js \<Rightarrow> js \<Rightarrow> bool" where
  "strict_eq (JNum a) (JNum b) = (a = b \<and> a \<noteq> NaN)"
| "strict_eq (JObj p fs) _ = False"
| "strict_eq (JArr xs) _ = False"
| "strict_eq (JDate d) _ = False"
| "strict_eq v w = (v = w)"

fun same_value :: "js \<Rightarrow> js \<Rightarrow> bool" where
  "same_value (JObj p fs) _ = False"
| "same_value (JArr xs) _ = False"
| "same_value (JDate d) _ = False"
| "same_value v w = (v = w)"

text \<open>\<open>[...new Set(xs)]\<close>: the first of each group of equal values, in order.\<close>

fun distinct_values :: "js list \<Rightarrow> js list \<Rightarrow> js list" where
  "distinct_values seen [] = []"
| "distinct_values seen (v # vs) =
     (if list_ex (same_value v) seen then distinct_values seen vs
      else v # distinct_values (v # seen) vs)"

definition set_of_values :: "js list \<Rightarrow> js list" where
  "set_of_values vs = distinct_values [] vs"

section \<open>Numbers\<close>

text \<open>The binary64 nearest to a value, infinite when the rounded value is out of range.\<close>

definition to_double :: "rat \<Rightarrow> js_num" where
  "to_double x =
     (let r = rnd64 x
      in if r < 2 ^ 1024 \<and> - (2 ^ 1024) < r then Fin r
         else if 0 < r then PosInf else NegInf)"

definition is_finite :: "js \<Rightarrow> bool" where
  "is_finite v \<longleftrightarrow> (case v of JNum (Fin x) \<Rightarrow> True | _ \<Rightarrow> False)"

definition max_safe_integer :: rat where
  "max_safe_integer = 2 ^ 53 - 1"

definition is_integer_rat :: "rat \<Rightarrow> bool" where
  "is_integer_rat x \<longleftrightarrow> of_int \<lfloor>x\<rfloor> = x"

text \<open>\<open>Number.isSafeInteger\<close>\<close>

definition is_safe_integer :: "js \<Rightarrow> bool" where
  "is_safe_integer v \<longleftrightarrow>
     (case v of JNum (Fin x) \<Rightarrow> is_integer_rat x \<and> \<bar>x\<bar> \<le> max_safe_integer | _ \<Rightarrow> False)"

text \<open>The numeric value of a value known to be a finite number.\<close>

fun num_of :: "js \<Rightarrow> rat" where
  "num_of (JNum (Fin x)) = x"
| "num_of _ = 0"

fun str_of :: "js \<Rightarrow> string" where
  "str_of (JStr s) = s"
| "str_of _ = []"

text \<open>\<open>typeof v === "number" && Number.isFinite(v) && lo <= v && v <= hi\<close>\<close>

definition number_between :: "rat \<Rightarrow> rat \<Rightarrow> js \<Rightarrow> bool" where
  "number_between lo hi v \<longleftrightarrow> is_finite v \<and> lo \<le> num_of v \<and> num_of v \<le> hi"

text \<open>\<open>Number.isSafeInteger(v) && v >= lo\<close>\<close>

definition safe_integer_from :: "rat \<Rightarrow> js \<Rightarrow> bool" where
  "safe_integer_from lo v \<longleftrightarrow> is_safe_integer v \<and> lo \<le> num_of v"

section \<open>Number to string\<close>

text \<open>
  \<open>Number::toString\<close>: the shortest decimal that rounds to the number. \<open>dec_exp x\<close> is the \<open>n\<close>
  with \<open>10 powi (n - 1) \<le> x < 10 powi n\<close>; \<open>shortest k x\<close> tries \<open>k\<close>, \<open>k + 1\<close>, \<dots> digits, of which 17
  are always enough, and returns the digits with the exponent of the last one.
\<close>

definition dec_len :: "int \<Rightarrow> int" where
  "dec_len n = int (length (show_pos n))"

definition dec_exp :: "rat \<Rightarrow> int" where
  "dec_exp x = (case quotient_of x of (p, q) \<Rightarrow>
     let k = dec_len p - dec_len q in if 10 powi k \<le> x then k + 1 else k)"

text \<open>
  Of the two \<open>k\<close>-digit numbers around \<open>x\<close> the closer one that rounds to \<open>x\<close> is taken, and the other
  one when only that rounds to \<open>x\<close>.
\<close>

definition rounding_digits :: "rat \<Rightarrow> int \<Rightarrow> int option" where
  "rounding_digits x e =
     (let y = x / 10 powi e; near = round y; far = (if near = \<lfloor>y\<rfloor> then near + 1 else near - 1);
          ok = (\<lambda>s. rnd64 (of_int s * 10 powi e) = x)
      in if ok near then Some near else if ok far then Some far else None)"

fun shortest :: "nat \<Rightarrow> int \<Rightarrow> rat \<Rightarrow> int \<times> int" where
  "shortest 0 k x = (\<lfloor>x\<rfloor>, 0)"
| "shortest (Suc fuel) k x =
     (let e = dec_exp x - k
      in case rounding_digits x e of
           Some s \<Rightarrow> if s = 10 ^ nat k then (1, e + k) else (s, e)
         | None \<Rightarrow> shortest fuel (k + 1) x)"

definition digits_of :: "rat \<Rightarrow> int \<times> int" where
  "digits_of x = shortest 17 1 x"

text \<open>The layout of the digits, for a positive number.\<close>

definition layout :: "int \<Rightarrow> int \<Rightarrow> string" where
  "layout s e =
     (let ds = show_pos s; k = int (length ds); n = e + k
      in if k \<le> n \<and> n \<le> 21 then ds @ replicate (nat (n - k)) (CHR ''0'')
         else if 0 < n \<and> n \<le> 21 then take (nat n) ds @ ''.'' @ drop (nat n) ds
         else if - 6 < n \<and> n \<le> 0 then ''0.'' @ replicate (nat (- n)) (CHR ''0'') @ ds
         else take 1 ds @ (if k = 1 then [] else ''.'' @ drop 1 ds) @ ''e''
              @ (if n - 1 < 0 then ''-'' else ''+'') @ show_pos \<bar>n - 1\<bar>)"

definition rat_to_string :: "rat \<Rightarrow> string" where
  "rat_to_string x =
     (if x = 0 then ''0''
      else if x < 0 then ''-'' @ (case digits_of (- x) of (s, e) \<Rightarrow> layout s e)
      else (case digits_of x of (s, e) \<Rightarrow> layout s e))"

fun num_to_string :: "js_num \<Rightarrow> string" where
  "num_to_string NaN = ''NaN''"
| "num_to_string PosInf = ''Infinity''"
| "num_to_string NegInf = ''-Infinity''"
| "num_to_string (Fin x) = rat_to_string x"

section \<open>Strings of values and regular-expression tests\<close>

fun join :: "string \<Rightarrow> string list \<Rightarrow> string" where
  "join sep [] = []"
| "join sep [w] = w"
| "join sep (w # ws) = w @ sep @ join sep ws"

text \<open>
  \<open>String(value)\<close>. The text of a \<open>Date\<close> or a function is never an identifier of the system and
  is not modelled further.
\<close>

fun to_string :: "js \<Rightarrow> string" where
  "to_string JUndef = ''undefined''"
| "to_string JNull = ''null''"
| "to_string (JBool b) = (if b then ''true'' else ''false'')"
| "to_string (JNum n) = num_to_string n"
| "to_string (JStr s) = s"
| "to_string (JDate d) = ''[date]''"
| "to_string (JArr xs) = join '','' (map (\<lambda>v. if nullish v then [] else to_string v) xs)"
| "to_string (JObj p fs) = ''[object Object]''"
| "to_string (JFun f) = ''[function]''"

text \<open>\<open>RE.test(value)\<close> and \<open>RE.test(value ?? "")\<close>\<close>

definition re_test :: "(string \<Rightarrow> bool) \<Rightarrow> js \<Rightarrow> bool" where
  "re_test re v \<longleftrightarrow> re (to_string v)"

definition re_test_or_empty :: "(string \<Rightarrow> bool) \<Rightarrow> js \<Rightarrow> bool" where
  "re_test_or_empty re v \<longleftrightarrow> re (to_string (coalesce v (JStr '''')))"

text \<open>\<open>STRINGS.has(value)\<close> for a set of strings.\<close>

definition one_of :: "string list \<Rightarrow> js \<Rightarrow> bool" where
  "one_of ws v \<longleftrightarrow> (case v of JStr s \<Rightarrow> s \<in> set ws | _ \<Rightarrow> False)"

section \<open>Times in values\<close>

text \<open>\<open>canonicalUtc\<close>: a string that is its own \<open>toISOString\<close>.\<close>

definition canonical_utc :: "js \<Rightarrow> bool" where
  "canonical_utc v \<longleftrightarrow>
     (case v of JStr s \<Rightarrow> s \<noteq> [] \<and> last s = CHR ''Z'' \<and> date_parse s \<noteq> None | _ \<Rightarrow> False)"

text \<open>\<open>new Date(value).getTime()\<close> for a string or a \<open>Date\<close>; \<open>None\<close> is \<open>NaN\<close>.\<close>

definition time_of :: "js \<Rightarrow> int option" where
  "time_of v = (case v of JStr s \<Rightarrow> date_parse s | JDate d \<Rightarrow> d | _ \<Rightarrow> None)"

definition parse_time :: "js \<Rightarrow> int" where
  "parse_time v = (case time_of v of Some t \<Rightarrow> t | None \<Rightarrow> 0)"

text \<open>\<open>Date.parse\<close> of a string known to be canonical.\<close>

definition ms_of :: "string \<Rightarrow> int" where
  "ms_of s = parse_time (JStr s)"

text \<open>\<open>(later - earlier) / 1000\<close> on two times in milliseconds.\<close>

definition seconds_between :: "int \<Rightarrow> int \<Rightarrow> rat" where
  "seconds_between later earlier = rnd64 (rnd64 (of_int (later - earlier)) / 1000)"

section \<open>Facts about values\<close>

lemma keys_distinct [simp]: "distinct (keys v)"
  by (cases v) auto

text \<open>An object with exactly the listed keys has those keys and no other.\<close>

lemma has_exact_keys_set:
  assumes "has_exact_keys v ks" "distinct ks"
  shows "set (keys v) = set ks"
  using assms by (intro length_eq_subset_distinct) (auto simp: has_exact_keys_def list_all_iff)

lemma own_eq_None: "own fs k = None \<longleftrightarrow> k \<notin> fst ` set fs"
  by (induction fs k rule: own.induct) auto

lemma has_exact_keys_own:
  assumes "has_exact_keys v ks" "distinct ks" "k \<in> set ks"
  shows "\<exists>p fs x. v = JObj p fs \<and> own fs k = Some x \<and> get v k = x"
proof -
  obtain p fs where v: "v = JObj p fs" using assms(1) by (cases v) (auto simp: has_exact_keys_def)
  have "k \<in> set (keys v)" using has_exact_keys_set[OF assms(1,2)] assms(3) by simp
  then have "own fs k \<noteq> None" by (auto simp: v own_eq_None)
  then show ?thesis using v by auto
qed

lemma strict_eq_str [simp]: "strict_eq (JStr s) v \<longleftrightarrow> v = JStr s" "strict_eq v (JStr s) \<longleftrightarrow> v = JStr s"
  by (cases v; auto)+

lemma strict_eq_undef [simp]: "strict_eq JUndef v \<longleftrightarrow> v = JUndef" "strict_eq v JUndef \<longleftrightarrow> v = JUndef"
  by (cases v; auto)+

lemma strict_eq_null [simp]: "strict_eq JNull v \<longleftrightarrow> v = JNull" "strict_eq v JNull \<longleftrightarrow> v = JNull"
  by (cases v; auto)+

lemma same_value_str [simp]: "same_value (JStr s) v \<longleftrightarrow> v = JStr s" "same_value v (JStr s) \<longleftrightarrow> v = JStr s"
  by (cases v; auto)+

lemma re_test_str [simp]: "re_test re (JStr s) = re s" "re_test_or_empty re (JStr s) = re s"
  by (simp_all add: re_test_def re_test_or_empty_def coalesce_def nullish_def)

lemma get_obj_hd [simp]: "get (JObj p ((k, x) # fs)) k = x"
  by simp

lemma one_of_iff: "one_of ws v \<longleftrightarrow> (\<exists>s \<in> set ws. v = JStr s)"
  by (cases v) (auto simp: one_of_def)

lemma is_string_iff: "is_string v \<longleftrightarrow> (\<exists>s. v = JStr s)"
  by (cases v) auto

lemma is_finite_iff: "is_finite v \<longleftrightarrow> (\<exists>x. v = num x)"
  by (cases v) (auto simp: is_finite_def split: js_num.splits)

lemma canonical_utc_iff: "canonical_utc v \<longleftrightarrow> (\<exists>t. valid_time t \<and> v = JStr (time_to_iso t))"
  using last_time_to_iso by (cases v) (auto simp: canonical_utc_def date_parse_iff)

lemma time_of_iso [simp]: "valid_time t \<Longrightarrow> time_of (JStr (time_to_iso t)) = Some t"
  by (simp add: time_of_def date_parse_iso)

lemma canonical_utc_time:
  assumes "canonical_utc v"
  obtains t where "valid_time t" "v = JStr (time_to_iso t)" "time_of v = Some t" "parse_time v = t"
proof -
  obtain t where "valid_time t" "v = JStr (time_to_iso t)" using assms canonical_utc_iff by blast
  then show thesis using that by (simp add: parse_time_def)
qed

text \<open>\<open>[...new Set(xs)]\<close> on strings: the same strings, each once.\<close>

lemma distinct_values_strings:
  "list_all is_string vs \<Longrightarrow> set (distinct_values seen vs) = set vs - set seen \<and> distinct (distinct_values seen vs)"
proof (induction seen vs rule: distinct_values.induct)
  case (2 seen v vs)
  then obtain s where v: "v = JStr s" by (cases v) auto
  have "list_ex (same_value v) seen \<longleftrightarrow> v \<in> set seen" by (auto simp: v list_ex_iff)
  with 2 show ?case by auto
qed simp

lemma set_of_values_strings:
  assumes "list_all is_string vs"
  shows "set (set_of_values vs) = set vs" "distinct (set_of_values vs)"
  using distinct_values_strings[OF assms, of "[]"] by (simp_all add: set_of_values_def)

lemma set_of_values_length_ge_2:
  assumes "list_all is_string vs" "2 \<le> length (set_of_values vs)"
  shows "\<exists>a b. a \<in> set vs \<and> b \<in> set vs \<and> a \<noteq> b"
proof -
  note s = set_of_values_strings[OF assms(1)]
  obtain a b rest where "set_of_values vs = a # b # rest"
    using assms(2) by (metis Suc_le_length_iff numeral_2_eq_2)
  with s show ?thesis by (metis distinct_length_2_or_more list.set_intros)
qed

text \<open>Two entries of \<open>[...new Set(xs)]\<close> come from two positions that \<open>Set\<close> keeps apart.\<close>

lemma distinct_values_same: "list_all (\<lambda>v. same_value v x) vs \<Longrightarrow> distinct_values [x] vs = []"
  by (induction vs) auto

lemma set_of_values_kept_apart:
  assumes "2 \<le> length (set_of_values vs)"
  shows "\<exists>i j. i < j \<and> j < length vs \<and> \<not> same_value (vs ! j) (vs ! i)"
proof (cases vs)
  case (Cons x ws)
  have "\<not> list_all (\<lambda>v. same_value v x) ws"
    using assms distinct_values_same[of x ws] by (auto simp: Cons set_of_values_def)
  then obtain k where "k < length ws" "\<not> same_value (ws ! k) x" by (auto simp: list_all_length)
  then show ?thesis by (intro exI[of _ 0] exI[of _ "Suc k"]) (simp add: Cons)
qed (use assms in \<open>simp add: set_of_values_def\<close>)

text \<open>The text of a number has no underscore, so a number never passes for an identifier.\<close>

lemma show_pos_all_digits: "list_all digit (show_pos n)"
proof (induction n rule: show_pos.induct)
  case (1 n)
  then show ?case by (subst show_pos.simps) auto
qed

definition number_char :: "char \<Rightarrow> bool" where
  "number_char c \<longleftrightarrow> c \<noteq> CHR ''_''"

lemma digits_number_chars: "list_all digit s \<Longrightarrow> list_all number_char s"
  by (auto simp: list_all_iff number_char_def digit_def)

lemma layout_number_chars: "list_all number_char (layout s e)"
proof -
  have d: "list_all number_char (show_pos n)" for n by (rule digits_number_chars[OF show_pos_all_digits])
  have z: "list_all number_char (replicate k (CHR ''0''))" for k by (simp add: list_all_iff number_char_def)
  have t: "list_all number_char (take k (show_pos n))" "list_all number_char (drop k (show_pos n))" for k n
    using d[of n] by (auto simp: list_all_iff dest: in_set_takeD in_set_dropD)
  show ?thesis by (simp add: layout_def Let_def d z t) (simp add: number_char_def)
qed

lemma num_to_string_chars: "list_all number_char (num_to_string n)"
  by (cases n) (auto simp: rat_to_string_def layout_number_chars number_char_def split: prod.splits)

text \<open>An identifier that was compared with \<open>===\<close> against another value is a string.\<close>

lemma id_string:
  assumes "re_test_or_empty (is_id p) v" "strict_eq w v \<or> strict_eq v w"
  shows "v = JStr (str_of v) \<and> is_id p (str_of v)"
proof (cases v)
  case (JStr s)
  then show ?thesis using assms by simp
next
  case (JNum n)
  then have "is_id p (num_to_string n)" using assms(1) by (simp add: re_test_or_empty_def coalesce_def nullish_def)
  then obtain u where "num_to_string n = p @ ''_'' @ u" using is_id_prefix by blast
  then show ?thesis using num_to_string_chars[of n] by (simp add: number_char_def)
next
  case (JBool b)
  then have "is_id p (if b then ''true'' else ''false'')"
    using assms(1) by (simp add: re_test_or_empty_def coalesce_def nullish_def)
  from is_id_length[OF this] show ?thesis by (simp split: if_splits)
next
  case (JFun f)
  then have "is_id p ''[function]''" using assms(1) by (simp add: re_test_or_empty_def coalesce_def nullish_def)
  from is_id_length[OF this] show ?thesis by simp
next
  case JUndef
  then have "is_id p []" using assms(1) by (simp add: re_test_or_empty_def coalesce_def nullish_def)
  from is_id_length[OF this] show ?thesis by simp
next
  case JNull
  then have "is_id p []" using assms(1) by (simp add: re_test_or_empty_def coalesce_def nullish_def)
  from is_id_length[OF this] show ?thesis by simp
qed (use assms(2) in \<open>cases w; simp\<close>)+

end
