(* ===== verification/JsRounding.thy ===== *)
theory JsRounding
  imports JsDouble
begin

text \<open>
  Rounding a score to two decimals, \<open>Math.floor((v + Number.EPSILON) * 100 + 0.5) / 100\<close>, under
  an abstract floating-point rounding. The interface \<open>fp_rounding\<close> states the three facts about
  binary64 that the scores rely on: rounding is monotone, exact on short dyadic numbers and has
  a relative error of at most one half unit in the last place. It is discharged for \<open>rnd64\<close>, and
  for exact arithmetic as the reference.
\<close>

definition round_score_with :: "(rat \<Rightarrow> rat) \<Rightarrow> rat \<Rightarrow> rat" where
  "round_score_with rnd v =
     rnd (of_int \<lfloor>rnd (rnd (rnd (v + 1 / 2 ^ 52) * 100) + 1/2)\<rfloor> / 100)"

locale fp_rounding =
  fixes rnd :: "rat \<Rightarrow> rat"
  assumes mono: "x \<le> y \<Longrightarrow> rnd x \<le> rnd y"
    and dyadic: "\<bar>m\<bar> < 2 ^ 53 \<Longrightarrow> k \<le> 1000 \<Longrightarrow> rnd (of_int m / 2 ^ k) = of_int m / 2 ^ k"
    and err: "\<bar>rnd x - x\<bar> \<le> \<bar>x\<bar> / 2 ^ 53 + 1 / 2 ^ 60"
begin

lemma zero: "rnd 0 = 0"
  using dyadic[of 0 0] by simp

lemma int_exact: "\<bar>m\<bar> < 2 ^ 53 \<Longrightarrow> rnd (of_int m) = of_int m"
  using dyadic[of m 0] by simp

lemma nonneg: "0 \<le> x \<Longrightarrow> 0 \<le> rnd x"
  using mono[of 0 x] by (simp add: zero)

lemma le_dyadic: "x \<le> of_int m / 2 ^ k \<Longrightarrow> \<bar>m\<bar> < 2 ^ 53 \<Longrightarrow> k \<le> 1000 \<Longrightarrow> rnd x \<le> of_int m / 2 ^ k"
  using mono[of x "of_int m / 2 ^ k"] dyadic[of m k] by simp

lemma le_int: "x \<le> of_int m \<Longrightarrow> \<bar>m\<bar> < 2 ^ 53 \<Longrightarrow> rnd x \<le> of_int m"
  using le_dyadic[of x m 0] by simp

lemma ge_int: "of_int m \<le> x \<Longrightarrow> \<bar>m\<bar> < 2 ^ 53 \<Longrightarrow> of_int m \<le> rnd x"
  using mono[of "of_int m" x] by (simp add: int_exact)

lemma err_small:
  assumes "- (2 ^ 14) \<le> x" "x \<le> 2 ^ 14"
  shows "x - 1 / 2 ^ 38 \<le> rnd x" "rnd x \<le> x + 1 / 2 ^ 38"
  using err[of x] assms by (simp_all add: abs_if split: if_splits)

lemma score_mono: "v \<le> w \<Longrightarrow> round_score_with rnd v \<le> round_score_with rnd w"
  unfolding round_score_with_def
  by (intro mono divide_right_mono of_int_le_iff[THEN iffD2] floor_mono add_right_mono mult_right_mono) auto

lemma score_of_floor:
  assumes "of_int k \<le> x" "x < of_int k + 1"
  shows "rnd (of_int \<lfloor>x\<rfloor> / 100) = rnd (of_int k / 100)"
proof -
  have "\<lfloor>x\<rfloor> = k" using assms by (simp add: floor_unique)
  then show ?thesis by simp
qed

text \<open>The value whose floor is taken lies close to \<open>100 * v + 1/2\<close>.\<close>

definition score_arg :: "rat \<Rightarrow> rat" where
  "score_arg v = rnd (rnd (rnd (v + 1 / 2 ^ 52) * 100) + 1/2)"

lemma round_score_arg: "round_score_with rnd v = rnd (of_int \<lfloor>score_arg v\<rfloor> / 100)"
  by (simp add: round_score_with_def score_arg_def)

lemma score_arg_bounds:
  assumes "- 1 / 512 \<le> v" "v \<le> 101"
  shows "100 * v + 1/2 - 1 / 2 ^ 30 \<le> score_arg v" "score_arg v \<le> 100 * v + 1/2 + 1 / 2 ^ 30"
proof -
  define a where "a = rnd (v + 1 / 2 ^ 52)"
  define b where "b = rnd (a * 100)"
  define c where "c = rnd (b + 1/2)"
  have a: "(v + 1 / 2 ^ 52) - 1 / 2 ^ 38 \<le> a" "a \<le> (v + 1 / 2 ^ 52) + 1 / 2 ^ 38"
    unfolding a_def using assms by (intro err_small; simp)+
  have "- 1 \<le> a" "a \<le> 102" using a assms by simp_all
  then have b: "a * 100 - 1 / 2 ^ 38 \<le> b" "b \<le> a * 100 + 1 / 2 ^ 38"
    unfolding b_def by (intro err_small; simp)+
  have "- 101 \<le> b" "b \<le> 10201" using b a assms by simp_all
  then have c: "(b + 1/2) - 1 / 2 ^ 38 \<le> c" "c \<le> (b + 1/2) + 1 / 2 ^ 38"
    unfolding c_def by (intro err_small; simp)+
  have eq: "score_arg v = c" by (simp only: score_arg_def a_def b_def c_def)
  show "100 * v + 1/2 - 1 / 2 ^ 30 \<le> score_arg v" unfolding eq using a b c by simp
  show "score_arg v \<le> 100 * v + 1/2 + 1 / 2 ^ 30" unfolding eq using a b c by simp
qed

lemma score_floor_bounds:
  assumes "- 1 / 512 \<le> v" "v \<le> 100 + 1 / 512"
  shows "0 \<le> \<lfloor>score_arg v\<rfloor>" "\<lfloor>score_arg v\<rfloor> \<le> 10000"
proof -
  have v: "v \<le> 101" using assms(2) by simp
  from score_arg_bounds(1)[OF assms(1) v] assms(1) have "0 \<le> score_arg v" by simp
  then show "0 \<le> \<lfloor>score_arg v\<rfloor>" by simp
  from score_arg_bounds(2)[OF assms(1) v] assms(2) have "score_arg v < 10001" by simp
  then show "\<lfloor>score_arg v\<rfloor> \<le> 10000" by (simp add: floor_le_iff)
qed

lemma hundredth_range:
  assumes "0 \<le> k" "k \<le> 10000"
  shows "0 \<le> rnd (of_int k / 100)" "rnd (of_int k / 100) \<le> 100"
proof -
  show "0 \<le> rnd (of_int k / 100)" using assms by (intro nonneg) simp
  have "(of_int k :: rat) \<le> of_int 10000" using assms(2) by (simp only: of_int_le_iff)
  then have "(of_int k :: rat) / 100 \<le> of_int 100" by simp
  from le_int[OF this] show "rnd (of_int k / 100) \<le> 100" by simp
qed

lemma score_is_hundredths:
  assumes "- 1 / 512 \<le> v" "v \<le> 100 + 1 / 512"
  shows "\<exists>k. 0 \<le> k \<and> k \<le> 10000 \<and> round_score_with rnd v = rnd (of_int k / 100)"
  using score_floor_bounds[OF assms] round_score_arg by blast

lemma score_range:
  assumes "- 1 / 512 \<le> v" "v \<le> 100 + 1 / 512"
  shows "0 \<le> round_score_with rnd v" "round_score_with rnd v \<le> 100"
  using score_is_hundredths[OF assms] hundredth_range by auto

lemma score_error:
  assumes "- 1 / 512 \<le> v" "v \<le> 101"
  shows "v - 1 / 200 - 1 / 2 ^ 20 \<le> round_score_with rnd v"
    "round_score_with rnd v \<le> v + 1 / 200 + 1 / 2 ^ 20"
proof -
  define x where "x = score_arg v"
  define k where "k = \<lfloor>x\<rfloor>"
  note x = score_arg_bounds[OF assms, folded x_def]
  have f: "of_int k \<le> x" "x < of_int k + 1" unfolding k_def by (simp, linarith)
  define q where "q = (of_int k :: rat) / 100"
  have q: "v - 1 / 200 - 1 / 2 ^ 30 \<le> q" "q \<le> v + 1 / 200 + 1 / 2 ^ 30"
    unfolding q_def using x f by simp_all
  have "- (2 ^ 14) \<le> q" "q \<le> 2 ^ 14" using q assms by simp_all
  note r = err_small[OF this]
  have eq: "round_score_with rnd v = rnd q" by (simp only: round_score_arg q_def k_def x_def)
  show "v - 1 / 200 - 1 / 2 ^ 20 \<le> round_score_with rnd v" unfolding eq using r q by simp
  show "round_score_with rnd v \<le> v + 1 / 200 + 1 / 2 ^ 20" unfolding eq using r q by simp
qed

text \<open>A rounded score is a fixed point: rounding anything close to it gives it back.\<close>

lemma score_near_hundredth:
  assumes "0 \<le> k" "k \<le> 10000" "rnd (of_int k / 100) - 1 / 2 ^ 29 \<le> y" "y \<le> rnd (of_int k / 100) + 1 / 2 ^ 29"
  shows "round_score_with rnd y = rnd (of_int k / 100)"
proof -
  define q where "q = (of_int k :: rat) / 100"
  define v where "v = rnd q"
  have v: "0 \<le> v" "v \<le> 100" unfolding v_def q_def using hundredth_range[OF assms(1,2)] .
  have y: "v - 1 / 2 ^ 29 \<le> y" "y \<le> v + 1 / 2 ^ 29" using assms(3,4) by (simp_all add: v_def q_def)
  have "(of_int k :: rat) \<le> of_int 10000" "(of_int 0 :: rat) \<le> of_int k"
    using assms(1,2) by (simp_all only: of_int_le_iff)
  then have q: "0 \<le> q" "q \<le> 100" by (simp_all add: q_def)
  have "- (2 ^ 14) \<le> q" "q \<le> 2 ^ 14" using q by simp_all
  note r = err_small[OF this, folded v_def]
  have "- 1 / 512 \<le> y" "y \<le> 101" using v y by simp_all
  note x = score_arg_bounds[OF this]
  have k: "of_int k = 100 * q" by (simp add: q_def)
  have "of_int k \<le> score_arg y" unfolding k using x(1) r(1) y(1) by simp
  moreover have "score_arg y < of_int k + 1" unfolding k using x(2) r(2) y(2) by simp
  ultimately have "rnd (of_int \<lfloor>score_arg y\<rfloor> / 100) = rnd (of_int k / 100)" by (rule score_of_floor)
  then show ?thesis by (simp only: round_score_arg)
qed

lemma score_hundredths:
  assumes "0 \<le> k" "k \<le> 10000"
  shows "round_score_with rnd (rnd (of_int k / 100)) = rnd (of_int k / 100)"
  by (rule score_near_hundredth[OF assms]) simp_all

lemma score_near_fixed:
  assumes "round_score_with rnd a = a" "0 \<le> a" "a \<le> 100" "a - 1 / 2 ^ 29 \<le> y" "y \<le> a + 1 / 2 ^ 29"
  shows "round_score_with rnd y = a"
proof -
  obtain k where "0 \<le> k" "k \<le> 10000" "a = rnd (of_int k / 100)"
    using score_is_hundredths[of a] assms(1-3) by auto
  then show ?thesis using score_near_hundredth[of k y] assms(4,5) by simp
qed

lemma score_idem:
  assumes "- 1 / 512 \<le> v" "v \<le> 100 + 1 / 512"
  shows "round_score_with rnd (round_score_with rnd v) = round_score_with rnd v"
  using score_is_hundredths[OF assms] score_hundredths by metis

end

lemma rnd64_err_slack: "\<bar>rnd64 x - x\<bar> \<le> \<bar>x\<bar> / 2 ^ 53 + 1 / 2 ^ 60"
proof -
  have a: "(2::rat) powi (- int 53) = 1 / 2 ^ 53" "(2::rat) powi (- int 60) = 1 / 2 ^ 60"
    by (simp_all only: power_int_minus power_int_of_nat inverse_eq_divide)
  have "(2::rat) powi (- 1075) \<le> 2 powi (- int 60)" by (rule power_int_increasing) simp_all
  then have "\<bar>x\<bar> * 2 powi (- int 53) + 2 powi (- 1075) \<le> \<bar>x\<bar> * 2 powi (- int 53) + 2 powi (- int 60)"
    by (rule add_left_mono)
  with rnd64_err[of x] have "\<bar>rnd64 x - x\<bar> \<le> \<bar>x\<bar> * 2 powi (- int 53) + 2 powi (- int 60)"
    unfolding of_nat_numeral by (rule order.trans)
  then show ?thesis unfolding a times_divide_eq_right mult_1_right .
qed

interpretation double: fp_rounding rnd64
proof
  show "rnd64 x \<le> rnd64 y" if "x \<le> y" for x y using that by (rule rnd64_mono)
  show "rnd64 (of_int m / 2 ^ k) = of_int m / 2 ^ k" if "\<bar>m\<bar> < 2 ^ 53" "k \<le> 1000" for m k
  proof (rule rnd64_exact)
    show "of_int m / 2 ^ k = (of_int m :: rat) * 2 powi (- int k)"
      by (simp only: power_int_minus power_int_of_nat divide_inverse)
  qed (use that in simp_all)
  show "\<bar>rnd64 x - x\<bar> \<le> \<bar>x\<bar> / 2 ^ 53 + 1 / 2 ^ 60" for x by (rule rnd64_err_slack)
qed

interpretation exact: fp_rounding "\<lambda>x. x"
  by unfold_locales auto

lemma abs_rnd_near:
  assumes "- 10001 \<le> x" "x \<le> 10001"
  shows "x - 1 / 2 ^ 38 \<le> rnd64 x" "rnd64 x \<le> x + 1 / 2 ^ 38"
  using double.err_small[of x] assms by simp_all

end
