(* ===== verification/TrustModel.thy ===== *)
theory TrustModel
  imports JsValues JsRounding
begin

text \<open>
  \<open>packages/trust-model/src/index.mjs\<close>: the five trust components, their normalised range, the
  initial weights, and the two validators every other trust module builds on. The lemmas show
  what an accepted value satisfies and that the validators accept their own results.
\<close>

section \<open>Components and weights\<close>

definition trust_component_ids :: "string list" where
  "trust_component_ids = [''identity'', ''device'', ''behaviour'', ''certificate'', ''compliance'']"

definition normalized_minimum :: rat where "normalized_minimum = 0"

definition normalized_maximum :: rat where "normalized_maximum = 100"

text \<open>A table with one number per component, in the order of \<open>TRUST_COMPONENT_IDS\<close>.\<close>

type_synonym component_table = "(string \<times> rat) list"

definition initial_trust_weights :: component_table where
  "initial_trust_weights =
     [(''identity'', rnd64 (20/100)), (''device'', rnd64 (25/100)), (''behaviour'', rnd64 (25/100)),
      (''certificate'', rnd64 (15/100)), (''compliance'', rnd64 (15/100))]"

definition table_value :: "component_table \<Rightarrow> js" where
  "table_value t = obj (map (\<lambda>(k, x). (k, num x)) t)"

record model_configuration =
  model_version :: string
  model_weights :: component_table

definition initial_trust_model_configuration :: model_configuration where
  "initial_trust_model_configuration =
     \<lparr> model_version = ''1.0.0'', model_weights = initial_trust_weights \<rparr>"

definition configuration_value :: "model_configuration \<Rightarrow> js" where
  "configuration_value c =
     obj [(''modelVersion'', JStr (model_version c)), (''weights'', table_value (model_weights c))]"

section \<open>Validation\<close>

definition weight_total_tolerance :: rat where
  "weight_total_tolerance = rnd64 (1 / 10 ^ 12)"

definition require_exact_component_keys :: "js \<Rightarrow> string \<Rightarrow> unit res" where
  "require_exact_component_keys v reason =
     (if \<not> is_plain_object v then throw TrustModelDefinitionError reason
      else if length (keys v) \<noteq> length trust_component_ids
              \<or> list_ex (\<lambda>k. k \<notin> set trust_component_ids) (keys v)
           then throw TrustModelDefinitionError reason
      else Inr ())"

definition define_normalized_components :: "js \<Rightarrow> component_table res" where
  "define_normalized_components values =
     and_then (require_exact_component_keys values ''NORMALIZED_COMPONENTS_INVALID'') (\<lambda>_.
       map_res (\<lambda>k. let v = get values k in
                  if \<not> number_between normalized_minimum normalized_maximum v
                  then throw TrustModelDefinitionError ''NORMALIZED_COMPONENT_VALUE_INVALID''
                  else Inr (k, num_of v))
         trust_component_ids)"

text \<open>The loop adds the weights up in the order of the components, rounding after each one.\<close>

definition weight_total :: "component_table \<Rightarrow> rat" where
  "weight_total ws = foldl (\<lambda>total w. rnd64 (total + w)) 0 (map snd ws)"

definition define_trust_model_configuration :: "js \<Rightarrow> model_configuration res" where
  "define_trust_model_configuration c =
     (if \<not> is_plain_object c then throw TrustModelDefinitionError ''TRUST_MODEL_CONFIGURATION_INVALID''
      else if length (keys c) \<noteq> 2 \<or> ''modelVersion'' \<notin> set (keys c) \<or> ''weights'' \<notin> set (keys c)
      then throw TrustModelDefinitionError ''TRUST_MODEL_CONFIGURATION_INVALID''
      else if \<not> is_string (get c ''modelVersion'') \<or> \<not> is_model_version (str_of (get c ''modelVersion''))
      then throw TrustModelDefinitionError ''MODEL_VERSION_INVALID''
      else and_then (require_exact_component_keys (get c ''weights'') ''TRUST_WEIGHTS_INVALID'') (\<lambda>_.
           and_then (map_res (\<lambda>k. let w = get (get c ''weights'') k in
                       if \<not> number_between 0 1 w
                       then throw TrustModelDefinitionError ''TRUST_WEIGHT_INVALID''
                       else Inr (k, num_of w))
                     trust_component_ids) (\<lambda>ws.
             if weight_total_tolerance < \<bar>rnd64 (weight_total ws - 1)\<bar>
             then throw TrustModelDefinitionError ''TRUST_WEIGHT_TOTAL_INVALID''
             else Inr \<lparr> model_version = str_of (get c ''modelVersion''), model_weights = ws \<rparr>)))"

section \<open>What an accepted table satisfies\<close>

definition valid_components :: "component_table \<Rightarrow> bool" where
  "valid_components t \<longleftrightarrow>
     map fst t = trust_component_ids \<and> list_all (\<lambda>(k, x). 0 \<le> x \<and> x \<le> 100) t"

definition valid_weights :: "component_table \<Rightarrow> bool" where
  "valid_weights t \<longleftrightarrow>
     map fst t = trust_component_ids \<and> list_all (\<lambda>(k, x). 0 \<le> x \<and> x \<le> 1) t
     \<and> \<bar>rnd64 (weight_total t - 1)\<bar> \<le> weight_total_tolerance"

definition valid_configuration :: "model_configuration \<Rightarrow> bool" where
  "valid_configuration c \<longleftrightarrow> is_model_version (model_version c) \<and> valid_weights (model_weights c)"

lemma component_ids_distinct [simp]: "distinct trust_component_ids"
  by (simp add: trust_component_ids_def)

lemma table_keys [simp]: "keys (table_value t) = remdups (map fst t)"
  by (simp add: table_value_def case_prod_unfold comp_def)

lemma own_table: "distinct (map fst t) \<Longrightarrow> (k, x) \<in> set t \<Longrightarrow> own (map (\<lambda>(k, x). (k, num x)) t) k = Some (num x)"
  by (induction t) (auto simp: image_iff)

lemma get_table: "distinct (map fst t) \<Longrightarrow> (k, x) \<in> set t \<Longrightarrow> get (table_value t) k = num x"
  by (simp add: table_value_def own_table)

lemma require_keys_table [simp]:
  "map fst t = trust_component_ids \<Longrightarrow> require_exact_component_keys (table_value t) r = Inr ()"
  by (auto simp: require_exact_component_keys_def list_ex_iff remdups_id_iff_distinct)
     (simp add: table_value_def)

text \<open>Reading a table back component by component.\<close>

lemma map_res_table:
  assumes "distinct (map fst t)"
    and "\<And>k x. (k, x) \<in> set t \<Longrightarrow> f k = Inr (k, x)"
  shows "map_res f (map fst t) = Inr t"
  using assms by (induction t) auto

lemma map_res_fst:
  assumes "map_res f ks = Inr t" "\<And>k y. k \<in> set ks \<Longrightarrow> f k = Inr y \<Longrightarrow> fst y = k"
  shows "map fst t = ks"
  using assms by (induction ks arbitrary: t) auto

lemma components_valid:
  assumes "define_normalized_components v = Inr t"
  shows "valid_components t"
proof -
  let ?f = "\<lambda>k. let x = get v k in
      if \<not> number_between normalized_minimum normalized_maximum x
      then throw TrustModelDefinitionError ''NORMALIZED_COMPONENT_VALUE_INVALID''
      else Inr (k, num_of x)"
  have m: "map_res ?f trust_component_ids = Inr t"
    using assms by (simp add: define_normalized_components_def)
  have "map fst t = trust_component_ids"
    by (rule map_res_fst[OF m]) (auto simp: Let_def split: if_splits)
  moreover have "list_all (\<lambda>(k, x). 0 \<le> x \<and> x \<le> 100) t"
    by (rule map_res_all[OF m])
      (auto simp: Let_def number_between_def normalized_minimum_def normalized_maximum_def split: if_splits)
  ultimately show ?thesis by (simp add: valid_components_def)
qed

lemma components_roundtrip:
  assumes "valid_components t"
  shows "define_normalized_components (table_value t) = Inr t"
proof -
  have d: "map fst t = trust_component_ids" using assms by (simp add: valid_components_def)
  then have dt: "distinct (map fst t)" by simp
  have "map_res (\<lambda>k. let v = get (table_value t) k in
                  if \<not> number_between normalized_minimum normalized_maximum v
                  then throw TrustModelDefinitionError ''NORMALIZED_COMPONENT_VALUE_INVALID''
                  else Inr (k, num_of v)) (map fst t) = Inr t"
    using assms
    by (intro map_res_table[OF dt])
       (auto simp: get_table[OF dt] Let_def number_between_def is_finite_def normalized_minimum_def
          normalized_maximum_def valid_components_def list_all_iff)
  then show ?thesis using d by (simp add: define_normalized_components_def)
qed

lemma configuration_valid:
  assumes "define_trust_model_configuration v = Inr c"
  shows "valid_configuration c"
proof -
  let ?f = "\<lambda>k. let w = get (get v ''weights'') k in
      if \<not> number_between 0 1 w then throw TrustModelDefinitionError ''TRUST_WEIGHT_INVALID''
      else Inr (k, num_of w)"
  obtain ws where m: "map_res ?f trust_component_ids = Inr ws"
    and c: "\<not> weight_total_tolerance < \<bar>rnd64 (weight_total ws - 1)\<bar>"
      "c = \<lparr> model_version = str_of (get v ''modelVersion''), model_weights = ws \<rparr>"
      "is_model_version (str_of (get v ''modelVersion''))"
    using assms by (auto simp: define_trust_model_configuration_def split: if_splits)
  have "map fst ws = trust_component_ids"
    by (rule map_res_fst[OF m]) (auto simp: Let_def split: if_splits)
  moreover have "list_all (\<lambda>(k, x). 0 \<le> x \<and> x \<le> 1) ws"
    by (rule map_res_all[OF m]) (auto simp: Let_def number_between_def split: if_splits)
  ultimately show ?thesis using c by (simp add: valid_configuration_def valid_weights_def)
qed

lemma configuration_roundtrip:
  assumes "valid_configuration c"
  shows "define_trust_model_configuration (configuration_value c) = Inr c"
proof -
  let ?t = "model_weights c"
  have d: "map fst ?t = trust_component_ids"
    using assms by (simp add: valid_configuration_def valid_weights_def)
  then have dt: "distinct (map fst ?t)" by simp
  have "map_res (\<lambda>k. let w = get (table_value ?t) k in
      if \<not> number_between 0 1 w then throw TrustModelDefinitionError ''TRUST_WEIGHT_INVALID''
      else Inr (k, num_of w)) (map fst ?t) = Inr ?t"
    using assms
    by (intro map_res_table[OF dt])
       (auto simp: get_table[OF dt] Let_def number_between_def is_finite_def
          valid_configuration_def valid_weights_def list_all_iff)
  then show ?thesis using assms d
    by (simp add: define_trust_model_configuration_def configuration_value_def
        valid_configuration_def valid_weights_def)
qed

text \<open>The rounded total of five weights is close to their exact sum.\<close>

lemma rnd_step:
  assumes "0 \<le> x" "x \<le> 8"
  shows "x - 1 / 2 ^ 49 \<le> rnd64 x" "rnd64 x \<le> x + 1 / 2 ^ 49" "0 \<le> rnd64 x"
  using double.err[of x] double.nonneg[of x] assms by (auto simp: abs_if split: if_splits)

lemma rnd_near:
  assumes "- 8 \<le> x" "x \<le> 8"
  shows "x - 1 / 2 ^ 49 \<le> rnd64 x" "rnd64 x \<le> x + 1 / 2 ^ 49"
  using double.err[of x] assms by (auto simp: abs_if split: if_splits)

definition exact_total :: "component_table \<Rightarrow> rat" where
  "exact_total ws = sum_list (map snd ws)"

lemma weight_total_err:
  assumes "valid_weights ws"
  shows "\<bar>exact_total ws - 1\<bar> \<le> 1 / 10 ^ 11"
proof -
  obtain a b c d e where ws: "ws = [(''identity'', a), (''device'', b), (''behaviour'', c), (''certificate'', d), (''compliance'', e)]"
    using assms by (auto simp: valid_weights_def trust_component_ids_def)
  have r: "0 \<le> a" "a \<le> 1" "0 \<le> b" "b \<le> 1" "0 \<le> c" "c \<le> 1" "0 \<le> d" "d \<le> 1" "0 \<le> e" "e \<le> 1"
    using assms by (auto simp: valid_weights_def ws)
  define p q s u v where "p = rnd64 a" and "q = rnd64 (p + b)" and "s = rnd64 (q + c)"
    and "u = rnd64 (s + d)" and "v = rnd64 (u + e)"
  have p: "a - 1 / 2 ^ 49 \<le> p" "p \<le> a + 1 / 2 ^ 49" "0 \<le> p"
    unfolding p_def using r by (intro rnd_step; simp)+
  have q: "p + b - 1 / 2 ^ 49 \<le> q" "q \<le> p + b + 1 / 2 ^ 49" "0 \<le> q"
    unfolding q_def using r p by (intro rnd_step; simp)+
  have s: "q + c - 1 / 2 ^ 49 \<le> s" "s \<le> q + c + 1 / 2 ^ 49" "0 \<le> s"
    unfolding s_def using r p q by (intro rnd_step; simp)+
  have u: "s + d - 1 / 2 ^ 49 \<le> u" "u \<le> s + d + 1 / 2 ^ 49" "0 \<le> u"
    unfolding u_def using r p q s by (intro rnd_step; simp)+
  have v: "u + e - 1 / 2 ^ 49 \<le> v" "v \<le> u + e + 1 / 2 ^ 49" "0 \<le> v"
    unfolding v_def using r p q s u by (intro rnd_step; simp)+
  have tot: "weight_total ws = v" by (simp add: weight_total_def ws p_def q_def s_def u_def v_def)
  have "- 8 \<le> v - 1" "v - 1 \<le> 8" using r p q s u v by simp_all
  note near = rnd_near[OF this]
  have "\<bar>rnd64 (v - 1)\<bar> \<le> weight_total_tolerance"
    using assms by (simp add: valid_weights_def tot)
  moreover have "weight_total_tolerance \<le> 1 / 10 ^ 12 + 1 / 10 ^ 13"
    using double.err[of "1 / 10 ^ 12"] by (simp add: weight_total_tolerance_def abs_if split: if_splits)
  ultimately have "a + b + c + d + e - 1 \<le> 1 / 10 ^ 11" "- (a + b + c + d + e - 1) \<le> 1 / 10 ^ 11"
    using p q s u v near by (simp_all add: abs_le_iff)
  then have "\<bar>a + b + c + d + e - 1\<bar> \<le> 1 / 10 ^ 11" by (rule abs_leI)
  moreover have "exact_total ws = a + b + c + d + e" by (simp add: exact_total_def ws)
  ultimately show ?thesis by (simp only:)
qed

end
