(* ===== verification/TemporalSmoothing.thy ===== *)
theory TemporalSmoothing
  imports TrustModel
begin

text \<open>
  \<open>services/trust/src/temporal-smoothing.mjs\<close>: exponentially weighted smoothing of fresh
  observations, holding while no fresh evidence arrives, and exponential decay toward a
  conservative baseline once the last fresh evidence is stale. The engine's power function
  \<open>2 ** x\<close> is implementation-defined for fractional exponents, so it is the parameter \<open>pow2\<close>; what
  is used of it is that it maps exponents up to zero into the unit interval, and for one lemma
  that it is monotone.
\<close>

section \<open>Data\<close>

record temporal_configuration =
  initial_score :: rat
  smoothing_alpha :: rat
  stale_after_seconds :: rat

record temporal_state =
  temporal_score :: rat
  anchor_score :: rat
  last_fresh_observed_at :: "string option"
  last_evaluated_at :: string

record trust_observation =
  observed_score :: rat
  observed_at :: string

datatype observation_status = ObservationMissing | ObservationStale | ObservationFresh

datatype smoothing_phase = ColdStart | Initialized | Updated | Held | Decayed

datatype smoothing_calculation =
    Ewa rat rat rat rat "rat option"
    \<comment> \<open>prior score, observed score, alpha, retained weight, observation age\<close>
  | InitialScore rat "rat option"
    \<comment> \<open>initial score, observation age\<close>
  | HoldScore rat rat "rat option"
    \<comment> \<open>age since fresh evidence, staleness limit, observation age\<close>
  | ExponentialDecay rat rat rat rat rat rat "rat option"
    \<comment> \<open>baseline, anchor, age since fresh evidence, time beyond staleness, half life,
      retention factor to 12 decimals, observation age\<close>

record smoothing_result =
  smoothed_score :: rat
  smoothing_phase :: smoothing_phase
  smoothing_observation_status :: observation_status
  smoothing_evaluated_at :: string
  smoothing_configuration :: temporal_configuration
  smoothing_previous_score :: "rat option"
  smoothing_observation_score :: "rat option"
  smoothing_state :: temporal_state
  smoothing_calculation :: smoothing_calculation

definition smoothing_fail :: "string \<Rightarrow> 'a res" where
  "smoothing_fail r = throw TrustSmoothingError r"

definition smoothing_valid_score :: "js \<Rightarrow> bool" where
  "smoothing_valid_score v \<longleftrightarrow> number_between 0 100 v"

definition smoothing_round_score :: "rat \<Rightarrow> rat" where
  "smoothing_round_score v =
     (let factor = 10 ^ 2
      in rnd64 (of_int \<lfloor>rnd64 (rnd64 (rnd64 (v + 1 / 2 ^ 52) * factor) + 1/2)\<rfloor> / factor))"

definition maximum_stale_after_seconds :: rat where
  "maximum_stale_after_seconds = 2592000"

text \<open>The state as the caller stores it and passes it back.\<close>

definition optional_string :: "string option \<Rightarrow> js" where
  "optional_string t = (case t of None \<Rightarrow> JNull | Some s \<Rightarrow> JStr s)"

definition temporal_state_value :: "temporal_state \<Rightarrow> js" where
  "temporal_state_value s =
     obj [(''score'', num (temporal_score s)), (''anchorScore'', num (anchor_score s)),
          (''lastFreshObservedAt'', optional_string (last_fresh_observed_at s)),
          (''lastEvaluatedAt'', JStr (last_evaluated_at s))]"

section \<open>Validation\<close>

definition define_temporal_trust_configuration :: "js \<Rightarrow> temporal_configuration res" where
  "define_temporal_trust_configuration v =
     (if \<not> has_exact_keys v [''initialScore'', ''smoothingAlpha'', ''staleAfterSeconds'']
         \<or> \<not> smoothing_valid_score (get v ''initialScore'')
         \<or> \<not> is_finite (get v ''smoothingAlpha'')
         \<or> num_of (get v ''smoothingAlpha'') \<le> 0 \<or> 1 < num_of (get v ''smoothingAlpha'')
         \<or> \<not> is_safe_integer (get v ''staleAfterSeconds'')
         \<or> num_of (get v ''staleAfterSeconds'') < 1
         \<or> maximum_stale_after_seconds < num_of (get v ''staleAfterSeconds'')
      then smoothing_fail ''TEMPORAL_CONFIGURATION_INVALID''
      else Inr \<lparr> initial_score = num_of (get v ''initialScore''),
                 smoothing_alpha = num_of (get v ''smoothingAlpha''),
                 stale_after_seconds = num_of (get v ''staleAfterSeconds'') \<rparr>)"

definition normalize_temporal_state ::
  "js \<Rightarrow> temporal_configuration \<Rightarrow> int \<Rightarrow> temporal_state option res" where
  "normalize_temporal_state v c evaluated =
     (let fresh = get v ''lastFreshObservedAt''; last = get v ''lastEvaluatedAt'';
          bad = smoothing_fail ''PREVIOUS_TEMPORAL_STATE_INVALID''
      in if nullish v then Inr None
         else if \<not> has_exact_keys v [''score'', ''anchorScore'', ''lastFreshObservedAt'', ''lastEvaluatedAt'']
            \<or> \<not> smoothing_valid_score (get v ''score'')
            \<or> \<not> smoothing_valid_score (get v ''anchorScore'')
            \<or> (fresh \<noteq> JNull \<and> \<not> canonical_utc fresh)
            \<or> \<not> canonical_utc last
         then bad
         else if fresh = JNull
                 \<and> (num_of (get v ''score'') \<noteq> initial_score c \<or> num_of (get v ''anchorScore'') \<noteq> initial_score c)
         then bad
         else if fresh \<noteq> JNull \<and> parse_time last < parse_time fresh then bad
         else if evaluated < parse_time last then bad
         else Inr (Some
           \<lparr> temporal_score = num_of (get v ''score''), anchor_score = num_of (get v ''anchorScore''),
             last_fresh_observed_at = (if fresh = JNull then None else Some (str_of fresh)),
             last_evaluated_at = str_of last \<rparr>))"

definition normalize_observation :: "js \<Rightarrow> int \<Rightarrow> trust_observation option res" where
  "normalize_observation v evaluated =
     (if nullish v then Inr None
      else if \<not> has_exact_keys v [''score'', ''observedAt'']
         \<or> \<not> smoothing_valid_score (get v ''score'')
         \<or> \<not> canonical_utc (get v ''observedAt'')
         \<or> evaluated < parse_time (get v ''observedAt'')
      then smoothing_fail ''TRUST_OBSERVATION_INVALID''
      else Inr (Some \<lparr> observed_score = num_of (get v ''score''),
                       observed_at = str_of (get v ''observedAt'') \<rparr>))"

section \<open>Advancing a score\<close>

definition weighted_average :: "rat \<Rightarrow> rat \<Rightarrow> rat \<Rightarrow> rat" where
  "weighted_average a o_score p_score =
     rnd64 (rnd64 (a * o_score) + rnd64 (rnd64 (1 - a) * p_score))"

text \<open>\<open>Number(x.toFixed(12))\<close> for the factor shown in the calculation.\<close>

definition fixed_12 :: "rat \<Rightarrow> rat" where
  "fixed_12 x = rnd64 (of_int \<lfloor>x * 10 ^ 12 + 1/2\<rfloor> / 10 ^ 12)"

definition decay_score :: "rat \<Rightarrow> rat \<Rightarrow> rat \<Rightarrow> rat" where
  "decay_score base anchor factor =
     smoothing_round_score (rnd64 (base + rnd64 (rnd64 (anchor - base) * factor)))"

definition smoothing_output ::
  "rat \<Rightarrow> smoothing_phase \<Rightarrow> observation_status \<Rightarrow> string \<Rightarrow> temporal_configuration \<Rightarrow> rat option \<Rightarrow> rat option
    \<Rightarrow> temporal_state \<Rightarrow> smoothing_calculation \<Rightarrow> smoothing_result" where
  "smoothing_output score phase status evaluated c previous observation state calculation =
     \<lparr> smoothed_score = score, smoothing_phase = phase, smoothing_observation_status = status,
       smoothing_evaluated_at = evaluated, smoothing_configuration = c,
       smoothing_previous_score = previous, smoothing_observation_score = observation,
       smoothing_state = state, smoothing_calculation = calculation \<rparr>"

definition freeze_state :: "rat \<Rightarrow> rat \<Rightarrow> string option \<Rightarrow> string \<Rightarrow> temporal_state" where
  "freeze_state score anchor fresh evaluated =
     \<lparr> temporal_score = score, anchor_score = anchor, last_fresh_observed_at = fresh,
       last_evaluated_at = evaluated \<rparr>"

definition observation_status ::
  "temporal_configuration \<Rightarrow> trust_observation option \<Rightarrow> int \<Rightarrow> rat option \<times> observation_status" where
  "observation_status c ob evaluated =
     (case ob of
        None \<Rightarrow> (None, ObservationMissing)
      | Some x \<Rightarrow> let age = seconds_between evaluated (ms_of (observed_at x))
                 in (Some age, if stale_after_seconds c < age then ObservationStale else ObservationFresh))"

definition advance_fresh ::
  "temporal_configuration \<Rightarrow> temporal_state option \<Rightarrow> trust_observation \<Rightarrow> rat option \<Rightarrow> string \<Rightarrow> smoothing_result res" where
  "advance_fresh c previous ob age evaluated =
     (let fresh = Option.bind previous last_fresh_observed_at
      in if (case fresh of None \<Rightarrow> False | Some t \<Rightarrow> ms_of (observed_at ob) \<le> ms_of t)
         then smoothing_fail ''TRUST_OBSERVATION_NOT_NEWER''
         else
           let priorScore = (case previous of None \<Rightarrow> initial_score c | Some p \<Rightarrow> temporal_score p);
               score = smoothing_round_score (weighted_average (smoothing_alpha c) (observed_score ob) priorScore)
           in Inr (smoothing_output score (if fresh = None then Initialized else Updated) ObservationFresh
                evaluated c (map_option temporal_score previous) (Some (observed_score ob))
                (freeze_state score score (Some (observed_at ob)) evaluated)
                (Ewa priorScore (observed_score ob) (smoothing_alpha c) (rnd64 (1 - smoothing_alpha c)) age)))"

definition advance_without_fresh ::
  "(rat \<Rightarrow> rat) \<Rightarrow> temporal_configuration \<Rightarrow> temporal_state option \<Rightarrow> trust_observation option \<Rightarrow> rat option
    \<Rightarrow> observation_status \<Rightarrow> string \<Rightarrow> smoothing_result" where
  "advance_without_fresh pow2 c previous ob age status evaluated =
     (case previous of
        None \<Rightarrow> smoothing_output (initial_score c) ColdStart status evaluated c None
            (map_option observed_score ob) (freeze_state (initial_score c) (initial_score c) None evaluated)
            (InitialScore (initial_score c) age)
      | Some p \<Rightarrow>
        (case last_fresh_observed_at p of
           None \<Rightarrow> smoothing_output (initial_score c) ColdStart status evaluated c (Some (temporal_score p))
              (map_option observed_score ob) (freeze_state (initial_score c) (initial_score c) None evaluated)
              (InitialScore (initial_score c) age)
         | Some fresh \<Rightarrow>
             let since = seconds_between (ms_of evaluated) (ms_of fresh);
                 beyond = max 0 (rnd64 (since - stale_after_seconds c))
             in if beyond = 0
                then smoothing_output (temporal_score p) Held status evaluated c (Some (temporal_score p))
                   (map_option observed_score ob)
                   (freeze_state (temporal_score p) (anchor_score p) (Some fresh) evaluated)
                   (HoldScore since (stale_after_seconds c) age)
                else
                  let base = min (initial_score c) (anchor_score p);
                      factor = pow2 (rnd64 (- beyond / stale_after_seconds c));
                      score = decay_score base (anchor_score p) factor
                  in smoothing_output score Decayed status evaluated c (Some (temporal_score p))
                   (map_option observed_score ob)
                   (freeze_state score (anchor_score p) (Some fresh) evaluated)
                   (ExponentialDecay base (anchor_score p) since beyond (stale_after_seconds c)
                      (fixed_12 factor) age)))"

definition advance_smoothed_trust_score ::
  "(rat \<Rightarrow> rat) \<Rightarrow> js \<Rightarrow> js \<Rightarrow> js \<Rightarrow> js \<Rightarrow> smoothing_result res" where
  "advance_smoothed_trust_score pow2 configuration previous observation evaluated =
     (if \<not> canonical_utc evaluated then smoothing_fail ''EVALUATION_TIME_INVALID''
      else
        and_then (define_temporal_trust_configuration configuration) (\<lambda>c.
        and_then (normalize_temporal_state previous c (parse_time evaluated)) (\<lambda>p.
        and_then (normalize_observation observation (parse_time evaluated)) (\<lambda>ob.
          (case observation_status c ob (parse_time evaluated) of (age, status) \<Rightarrow>
            if status = ObservationFresh
            then advance_fresh c p (the ob) age (str_of evaluated)
            else Inr (advance_without_fresh pow2 c p ob age status (str_of evaluated)))))))"

section \<open>Numeric bounds\<close>

lemma smoothing_round_score_eq: "smoothing_round_score = round_score_with rnd64"
  by (simp add: fun_eq_iff smoothing_round_score_def round_score_with_def)

lemma convex_between:
  fixes a x y :: rat
  assumes "0 \<le> a" "a \<le> 1"
  shows "min x y \<le> a * x + (1 - a) * y" "a * x + (1 - a) * y \<le> max x y"
proof -
  define l h where "l = min x y" and "h = max x y"
  have lh: "l \<le> x" "l \<le> y" "x \<le> h" "y \<le> h" by (simp_all add: l_def h_def)
  have "a * l + (1 - a) * l \<le> a * x + (1 - a) * y" "a * x + (1 - a) * y \<le> a * h + (1 - a) * h"
    using lh assms by (intro add_mono mult_left_mono; simp)+
  moreover have "a * l + (1 - a) * l = l" "a * h + (1 - a) * h = h" by (simp_all add: algebra_simps)
  ultimately show "min x y \<le> a * x + (1 - a) * y" "a * x + (1 - a) * y \<le> max x y"
    unfolding l_def[symmetric] h_def[symmetric] by simp_all
qed

lemma mult_unit_bounds:
  fixes a x :: rat
  assumes "0 \<le> a" "a \<le> 1" "0 \<le> x" "x \<le> 100"
  shows "0 \<le> a * x" "a * x \<le> 100" "a * x \<le> x"
  using assms mult_mono[of a 1 x 100] mult_right_mono[of a 1 x] by auto

lemma weighted_average_bounds:
  assumes "0 < a" "a \<le> 1" "0 \<le> x" "x \<le> 100" "0 \<le> y" "y \<le> 100"
  shows "min x y - 1 / 2 ^ 29 \<le> weighted_average a x y" "weighted_average a x y \<le> max x y + 1 / 2 ^ 29"
proof -
  define s t where "s = a * x" and "t = (1 - a) * y"
  define q where "q = rnd64 (1 - a)"
  define m where "m = rnd64 s"
  define n where "n = rnd64 (q * y)"
  have st: "0 \<le> s" "s \<le> 100" "0 \<le> t" "t \<le> 100"
    using mult_unit_bounds[of a x] mult_unit_bounds[of "1 - a" y] assms by (simp_all add: s_def t_def)
  note m = abs_rnd_near[of s, folded m_def]
  have q: "1 - a - 1 / 2 ^ 38 \<le> q" "q \<le> 1 - a + 1 / 2 ^ 38"
    unfolding q_def using assms by (intro abs_rnd_near; simp)+
  have q01: "0 \<le> q" "q \<le> 1"
    using double.nonneg[of "1 - a"] double.le_int[of "1 - a" 1] assms by (simp_all add: q_def)
  define \<delta> where "\<delta> = (1 / 2 ^ 38 :: rat)"
  have \<delta>: "0 \<le> \<delta>" "q - (1 - a) \<le> \<delta>" "1 - a - q \<le> \<delta>" using q by (simp_all add: \<delta>_def)
  have "(q - (1 - a)) * y \<le> \<delta> * y" "(1 - a - q) * y \<le> \<delta> * y" "\<delta> * y \<le> \<delta> * 100"
    using \<delta> assms by (intro mult_right_mono mult_left_mono; simp)+
  then have "(q - (1 - a)) * y \<le> \<delta> * 100" "(1 - a - q) * y \<le> \<delta> * 100" by linarith+
  then have qy: "t - \<delta> * 100 \<le> q * y" "q * y \<le> t + \<delta> * 100"
    by (simp_all only: t_def left_diff_distrib \<delta>_def[symmetric] mult_1)
  have r: "0 \<le> q * y" "q * y \<le> 100" using mult_unit_bounds[OF q01, of y] assms by simp_all
  note n = abs_rnd_near[of "q * y", folded n_def]
  have n': "q * y - 1 / 2 ^ 38 \<le> n" "n \<le> q * y + 1 / 2 ^ 38" using n r by simp_all
  have m': "s - 1 / 2 ^ 38 \<le> m" "m \<le> s + 1 / 2 ^ 38" using m st by simp_all
  have "- 10001 \<le> m + n" "m + n \<le> 10001" using m' n' r st by simp_all
  note f = abs_rnd_near[OF this]
  have eq: "weighted_average a x y = rnd64 (m + n)"
    by (simp add: weighted_average_def m_def n_def q_def s_def)
  define l h where "l = min x y" and "h = max x y"
  have c: "l \<le> s + t" "s + t \<le> h"
    using convex_between[of a x y] assms by (simp_all add: s_def t_def l_def h_def)
  show "min x y - 1 / 2 ^ 29 \<le> weighted_average a x y"
    unfolding eq l_def[symmetric] using f m' n' qy[unfolded \<delta>_def] c by simp
  show "weighted_average a x y \<le> max x y + 1 / 2 ^ 29"
    unfolding eq h_def[symmetric] using f m' n' qy[unfolded \<delta>_def] c by simp
qed

lemma round_near_interval:
  assumes "0 \<le> l" "h \<le> 100" "l - 1 / 2 ^ 29 \<le> y" "y \<le> h + 1 / 2 ^ 29"
  shows "0 \<le> smoothing_round_score y" "smoothing_round_score y \<le> 100"
    "l - 1 / 200 - 1 / 2 ^ 19 \<le> smoothing_round_score y" "smoothing_round_score y \<le> h + 1 / 200 + 1 / 2 ^ 19"
proof -
  have y: "- 1 / 512 \<le> y" "y \<le> 100 + 1 / 512" "y \<le> 101" using assms by simp_all
  show "0 \<le> smoothing_round_score y" "smoothing_round_score y \<le> 100"
    unfolding smoothing_round_score_eq using double.score_range[OF y(1,2)] .
  note e = double.score_error[OF y(1,3)]
  show "l - 1 / 200 - 1 / 2 ^ 19 \<le> smoothing_round_score y"
    unfolding smoothing_round_score_eq using e(1) assms(3) by simp
  show "smoothing_round_score y \<le> h + 1 / 200 + 1 / 2 ^ 19"
    unfolding smoothing_round_score_eq using e(2) assms(4) by simp
qed

lemma decay_arg_bounds:
  assumes "0 \<le> b" "b \<le> a" "a \<le> 100" "0 \<le> f" "f \<le> 1"
  shows "b - 1 / 2 ^ 29 \<le> rnd64 (b + rnd64 (rnd64 (a - b) * f))" "rnd64 (b + rnd64 (rnd64 (a - b) * f)) \<le> a + 1 / 2 ^ 29"
proof -
  define d where "d = rnd64 (a - b)"
  define e where "e = rnd64 (d * f)"
  define y where "y = rnd64 (b + e)"
  have d: "a - b - 1 / 2 ^ 38 \<le> d" "d \<le> a - b + 1 / 2 ^ 38"
    unfolding d_def using assms by (intro abs_rnd_near; simp)+
  have d0: "0 \<le> d" unfolding d_def using assms by (intro double.nonneg) simp
  have df: "0 \<le> d * f" "d * f \<le> d" using d0 assms mult_left_mono[of f 1 d] by auto
  have "- 10001 \<le> d * f" "d * f \<le> 10001" using df d assms by simp_all
  note e = abs_rnd_near[OF this, folded e_def]
  have e0: "0 \<le> e" unfolding e_def using df by (intro double.nonneg) simp
  have be: "b \<le> b + e" "b + e \<le> a + 1 / 2 ^ 37" using e0 e df d by simp_all
  have "- 10001 \<le> b + e" "b + e \<le> 10001" using be assms by simp_all
  note y = abs_rnd_near[OF this, folded y_def]
  have "b - 1 / 2 ^ 29 \<le> y" "y \<le> a + 1 / 2 ^ 29" using y be by simp_all
  then show "b - 1 / 2 ^ 29 \<le> rnd64 (b + rnd64 (rnd64 (a - b) * f))" "rnd64 (b + rnd64 (rnd64 (a - b) * f)) \<le> a + 1 / 2 ^ 29"
    by (simp_all add: d_def e_def y_def)
qed

lemma decay_score_bounds:
  assumes "0 \<le> b" "b \<le> a" "a \<le> 100" "0 \<le> f" "f \<le> 1"
  shows "0 \<le> decay_score b a f" "decay_score b a f \<le> 100"
  unfolding decay_score_def using round_near_interval[OF assms(1,3) decay_arg_bounds[OF assms]] by blast+

text \<open>A score of two decimals is not exceeded by its own decay.\<close>

lemma decay_score_below:
  assumes "0 \<le> b" "b \<le> a" "a \<le> 100" "0 \<le> f" "f \<le> 1" "smoothing_round_score a = a"
  shows "decay_score b a f \<le> a"
proof -
  have "decay_score b a f \<le> smoothing_round_score (a + 1 / 2 ^ 29)"
    unfolding decay_score_def smoothing_round_score_eq using decay_arg_bounds(2)[OF assms(1-5)] by (intro double.score_mono)
  also have "smoothing_round_score (a + 1 / 2 ^ 29) = a"
    using double.score_near_fixed[of a "a + 1 / 2 ^ 29"] assms(1-3,6) by (simp add: smoothing_round_score_eq)
  finally show ?thesis .
qed

lemma decay_score_mono:
  assumes "b \<le> a" "f \<le> g"
  shows "decay_score b a f \<le> decay_score b a g"
proof -
  have "0 \<le> rnd64 (a - b)" using assms by (intro double.nonneg) simp
  then show ?thesis
    unfolding decay_score_def smoothing_round_score_eq
    using assms(2) by (intro double.score_mono double.mono add_left_mono mult_left_mono)
qed

section \<open>States accepted and produced\<close>

definition valid_temporal_configuration :: "temporal_configuration \<Rightarrow> bool" where
  "valid_temporal_configuration c \<longleftrightarrow>
     0 \<le> initial_score c \<and> initial_score c \<le> 100 \<and> 0 < smoothing_alpha c \<and> smoothing_alpha c \<le> 1
     \<and> 1 \<le> stale_after_seconds c \<and> stale_after_seconds c \<le> 2592000"

definition valid_temporal_state :: "temporal_configuration \<Rightarrow> temporal_state \<Rightarrow> bool" where
  "valid_temporal_state c s \<longleftrightarrow>
     0 \<le> temporal_score s \<and> temporal_score s \<le> 100 \<and> 0 \<le> anchor_score s \<and> anchor_score s \<le> 100
     \<and> canonical_utc (JStr (last_evaluated_at s))
     \<and> (case last_fresh_observed_at s of
          None \<Rightarrow> temporal_score s = initial_score c \<and> anchor_score s = initial_score c
        | Some f \<Rightarrow> canonical_utc (JStr f) \<and> ms_of f \<le> ms_of (last_evaluated_at s))"

lemma configuration_accepted:
  "define_temporal_trust_configuration v = Inr c \<Longrightarrow> valid_temporal_configuration c"
  by (auto simp: define_temporal_trust_configuration_def smoothing_fail_def valid_temporal_configuration_def
      smoothing_valid_score_def number_between_def maximum_stale_after_seconds_def simp del: get.simps
      split: if_splits)

lemma canonical_str: "canonical_utc v \<Longrightarrow> v = JStr (str_of v)"
  by (auto simp: canonical_utc_iff)

lemma temporal_state_accepted:
  assumes "normalize_temporal_state v c now = Inr (Some s)"
  shows "valid_temporal_state c s \<and> ms_of (last_evaluated_at s) \<le> now"
proof (cases "get v ''lastFreshObservedAt'' = JNull")
  case True
  then show ?thesis using assms
    by (auto simp: normalize_temporal_state_def smoothing_fail_def Let_def valid_temporal_state_def ms_of_def
        smoothing_valid_score_def number_between_def canonical_str[symmetric] simp del: get.simps
        split: if_splits)
next
  case False
  then show ?thesis using assms
    by (auto simp: normalize_temporal_state_def smoothing_fail_def Let_def valid_temporal_state_def ms_of_def
        smoothing_valid_score_def number_between_def canonical_str[symmetric] simp del: get.simps
        split: if_splits)
qed

lemma optional_string_simps [simp]:
  "optional_string None = JNull" "optional_string (Some s) = JStr s"
  by (simp_all add: optional_string_def)

lemma temporal_value_get [simp]:
  "get (temporal_state_value s) ''score'' = num (temporal_score s)"
  "get (temporal_state_value s) ''anchorScore'' = num (anchor_score s)"
  "get (temporal_state_value s) ''lastFreshObservedAt'' = optional_string (last_fresh_observed_at s)"
  "get (temporal_state_value s) ''lastEvaluatedAt'' = JStr (last_evaluated_at s)"
  by (simp_all add: temporal_state_value_def)

lemma temporal_value_keys [simp]:
  "has_exact_keys (temporal_state_value s) [''score'', ''anchorScore'', ''lastFreshObservedAt'', ''lastEvaluatedAt'']"
  "\<not> nullish (temporal_state_value s)"
  by (simp_all add: temporal_state_value_def has_exact_keys_def nullish_def)

lemma temporal_state_roundtrip:
  assumes "valid_temporal_state c s" "ms_of (last_evaluated_at s) \<le> now"
  shows "normalize_temporal_state (temporal_state_value s) c now = Inr (Some s)"
  using assms
  by (cases s; cases "last_fresh_observed_at s")
     (auto simp: normalize_temporal_state_def Let_def valid_temporal_state_def ms_of_def
        smoothing_valid_score_def number_between_def is_finite_def simp del: get.simps)

lemma observation_accepted:
  assumes "normalize_observation v now = Inr (Some ob)"
  shows "0 \<le> observed_score ob" "observed_score ob \<le> 100" "canonical_utc (JStr (observed_at ob))"
    "ms_of (observed_at ob) \<le> now"
  using assms
  by (auto simp: normalize_observation_def smoothing_fail_def ms_of_def smoothing_valid_score_def
      number_between_def canonical_str[symmetric] simp del: get.simps split: if_splits)

definition unit_power :: "(rat \<Rightarrow> rat) \<Rightarrow> bool" where
  "unit_power pow2 \<longleftrightarrow> (\<forall>x. x \<le> 0 \<longrightarrow> 0 \<le> pow2 x \<and> pow2 x \<le> 1)"

lemma exponent_nonpos:
  assumes "valid_temporal_configuration c"
  shows "rnd64 (- (max 0 b / stale_after_seconds c)) \<le> 0"
proof -
  have "0 \<le> max 0 b / stale_after_seconds c"
    using assms by (intro divide_nonneg_nonneg) (auto simp: valid_temporal_configuration_def)
  then have "- (max 0 b / stale_after_seconds c) \<le> 0" by simp
  from double.mono[OF this] show ?thesis by (simp add: double.zero)
qed

lemma without_fresh_valid:
  assumes "unit_power pow2" "valid_temporal_configuration c" "canonical_utc (JStr e)"
    and "\<And>p. previous = Some p \<Longrightarrow> valid_temporal_state c p \<and> ms_of (last_evaluated_at p) \<le> ms_of e"
  shows "valid_temporal_state c (smoothing_state (advance_without_fresh pow2 c previous ob age status e))
    \<and> last_evaluated_at (smoothing_state (advance_without_fresh pow2 c previous ob age status e)) = e"
proof -
  have cold: "valid_temporal_state c (freeze_state (initial_score c) (initial_score c) None e)"
    using assms(2,3) by (simp add: valid_temporal_state_def freeze_state_def valid_temporal_configuration_def)
  show ?thesis
  proof (cases previous)
    case None
    then show ?thesis using cold
      by (simp add: advance_without_fresh_def smoothing_output_def) (simp add: freeze_state_def)
  next
    case (Some p)
    then have p: "valid_temporal_state c p" "ms_of (last_evaluated_at p) \<le> ms_of e" using assms(4) by auto
    show ?thesis
    proof (cases "last_fresh_observed_at p")
      case None
      then show ?thesis using cold
        by (simp add: advance_without_fresh_def smoothing_output_def Some) (simp add: freeze_state_def)
    next
      case (Some f)
      define beyond where
        "beyond = max 0 (rnd64 (seconds_between (ms_of e) (ms_of f) - stale_after_seconds c))"
      define factor where "factor = pow2 (rnd64 (- (beyond / stale_after_seconds c)))"
      have factor: "0 \<le> factor" "factor \<le> 1"
        using assms(1) exponent_nonpos[OF assms(2)] by (auto simp: factor_def beyond_def unit_power_def)
      have base: "0 \<le> min (initial_score c) (anchor_score p)" "min (initial_score c) (anchor_score p) \<le> anchor_score p"
        "anchor_score p \<le> 100"
        using assms(2) p(1) by (auto simp: valid_temporal_configuration_def valid_temporal_state_def)
      note d = decay_score_bounds(1,2)[OF base factor]
      have t: "canonical_utc (JStr f)" "ms_of f \<le> ms_of e"
        using p Some by (auto simp: valid_temporal_state_def)
      show ?thesis
        using d t p(1) assms(3)
        by (auto simp: advance_without_fresh_def \<open>previous = Some p\<close> Some Let_def smoothing_output_def freeze_state_def
            valid_temporal_state_def beyond_def[symmetric] factor_def[symmetric])
    qed
  qed
qed

lemma fresh_valid:
  assumes "advance_fresh c previous ob age e = Inr r" "valid_temporal_configuration c" "canonical_utc (JStr e)"
    and "\<And>p. previous = Some p \<Longrightarrow> valid_temporal_state c p"
    and "0 \<le> observed_score ob" "observed_score ob \<le> 100" "canonical_utc (JStr (observed_at ob))"
    "ms_of (observed_at ob) \<le> ms_of e"
  defines "prior \<equiv> (case previous of None \<Rightarrow> initial_score c | Some p \<Rightarrow> temporal_score p)"
  shows "valid_temporal_state c (smoothing_state r)" "last_evaluated_at (smoothing_state r) = e"
    "min (observed_score ob) prior - 1 / 200 - 1 / 2 ^ 19 \<le> smoothed_score r"
    "smoothed_score r \<le> max (observed_score ob) prior + 1 / 200 + 1 / 2 ^ 19"
    "temporal_score (smoothing_state r) = anchor_score (smoothing_state r)"
    "smoothing_round_score (anchor_score (smoothing_state r)) = anchor_score (smoothing_state r)"
    "last_fresh_observed_at (smoothing_state r) = Some (observed_at ob)"
proof -
  have prior: "0 \<le> prior" "prior \<le> 100"
    using assms(2,4) by (auto simp: prior_def valid_temporal_configuration_def valid_temporal_state_def split: option.splits)
  let ?w = "weighted_average (smoothing_alpha c) (observed_score ob) prior"
  have a: "0 < smoothing_alpha c" "smoothing_alpha c \<le> 1"
    using assms(2) by (simp_all add: valid_temporal_configuration_def)
  note w = weighted_average_bounds[OF a assms(5,6) prior]
  have lh: "0 \<le> min (observed_score ob) prior" "max (observed_score ob) prior \<le> 100" using prior assms(5,6) by auto
  note b = round_near_interval[OF lh w]
  have r: "r = smoothing_output (smoothing_round_score ?w) (smoothing_phase r) ObservationFresh e c
      (map_option temporal_score previous) (Some (observed_score ob))
      (freeze_state (smoothing_round_score ?w) (smoothing_round_score ?w) (Some (observed_at ob)) e)
      (smoothing_calculation r)"
    using assms(1) by (auto simp: advance_fresh_def smoothing_fail_def Let_def prior_def smoothing_output_def
        split: if_splits)
  have st: "smoothing_state r = freeze_state (smoothing_round_score ?w) (smoothing_round_score ?w) (Some (observed_at ob)) e"
    "smoothed_score r = smoothing_round_score ?w"
    by (subst r, simp add: smoothing_output_def)+
  show "valid_temporal_state c (smoothing_state r)" "last_evaluated_at (smoothing_state r) = e"
    using b(1,2) assms(3,7,8) by (simp_all add: st valid_temporal_state_def freeze_state_def)
  show "min (observed_score ob) prior - 1 / 200 - 1 / 2 ^ 19 \<le> smoothed_score r"
    "smoothed_score r \<le> max (observed_score ob) prior + 1 / 200 + 1 / 2 ^ 19"
    using b(3,4) by (simp_all add: st)
  show "temporal_score (smoothing_state r) = anchor_score (smoothing_state r)"
    "last_fresh_observed_at (smoothing_state r) = Some (observed_at ob)"
    by (simp_all add: st freeze_state_def)
  have "- 1 / 2 ^ 29 \<le> ?w" "?w \<le> 100 + 1 / 2 ^ 29" using w lh by linarith+
  then have "- 1 / 512 \<le> ?w" "?w \<le> 100 + 1 / 512" by simp_all
  from double.score_idem[OF this]
  show "smoothing_round_score (anchor_score (smoothing_state r)) = anchor_score (smoothing_state r)"
    by (simp add: st freeze_state_def smoothing_round_score_eq)
qed

lemma advance_cases:
  assumes "advance_smoothed_trust_score pow2 configuration previous observation evaluated = Inr r"
  obtains c p ob age status e where
    "evaluated = JStr e" "canonical_utc evaluated" "define_temporal_trust_configuration configuration = Inr c"
    "valid_temporal_configuration c"
    "normalize_temporal_state previous c (ms_of e) = Inr p"
    "normalize_observation observation (ms_of e) = Inr ob"
    "observation_status c ob (ms_of e) = (age, status)"
    "if status = ObservationFresh then advance_fresh c p (the ob) age e = Inr r
     else r = advance_without_fresh pow2 c p ob age status e"
proof -
  have ev: "canonical_utc evaluated" using assms
    by (auto simp: advance_smoothed_trust_score_def smoothing_fail_def split: if_splits)
  then obtain e where e: "evaluated = JStr e" using canonical_str by blast
  have t: "parse_time evaluated = ms_of e" "str_of evaluated = e" by (simp_all add: e ms_of_def)
  obtain c p ob where c: "define_temporal_trust_configuration configuration = Inr c"
    and p: "normalize_temporal_state previous c (ms_of e) = Inr p"
    and ob: "normalize_observation observation (ms_of e) = Inr ob"
    and r: "(case observation_status c ob (ms_of e) of (age, status) \<Rightarrow>
            if status = ObservationFresh then advance_fresh c p (the ob) age e
            else Inr (advance_without_fresh pow2 c p ob age status e)) = Inr r"
    using assms ev unfolding advance_smoothed_trust_score_def t by auto
  obtain age status where st: "observation_status c ob (ms_of e) = (age, status)" by fastforce
  have "if status = ObservationFresh then advance_fresh c p (the ob) age e = Inr r
     else r = advance_without_fresh pow2 c p ob age status e" using r st by (auto split: if_splits)
  with that e ev c p ob st configuration_accepted[OF c] show thesis by blast
qed

lemma status_fresh_Some: "observation_status c ob now = (age, ObservationFresh) \<Longrightarrow> \<exists>x. ob = Some x"
  by (cases ob) (auto simp: observation_status_def)

lemma advance_state_valid:
  assumes "advance_smoothed_trust_score pow2 configuration previous observation evaluated = Inr r" "unit_power pow2"
  shows "\<exists>c. define_temporal_trust_configuration configuration = Inr c
    \<and> valid_temporal_state c (smoothing_state r) \<and> JStr (last_evaluated_at (smoothing_state r)) = evaluated"
proof -
  from advance_cases[OF assms(1)] obtain c p ob age status e where a:
    "evaluated = JStr e" "canonical_utc evaluated" "define_temporal_trust_configuration configuration = Inr c"
    "valid_temporal_configuration c" "normalize_temporal_state previous c (ms_of e) = Inr p"
    "normalize_observation observation (ms_of e) = Inr ob" "observation_status c ob (ms_of e) = (age, status)"
    "if status = ObservationFresh then advance_fresh c p (the ob) age e = Inr r
     else r = advance_without_fresh pow2 c p ob age status e" by metis
  have p: "valid_temporal_state c q \<and> ms_of (last_evaluated_at q) \<le> ms_of e" if "p = Some q" for q
    using temporal_state_accepted a(5) that by blast
  show ?thesis
  proof (cases "status = ObservationFresh")
    case True
    then obtain x where x: "ob = Some x" using a(7) status_fresh_Some by blast
    then have n: "normalize_observation observation (ms_of e) = Inr (Some x)" using a(6) by simp
    have f: "advance_fresh c p x age e = Inr r" using a(8) True x by simp
    from fresh_valid(1,2)[OF f a(4) _ _ observation_accepted[OF n]] a p show ?thesis by auto
  next
    case False
    then show ?thesis using without_fresh_valid[OF assms(2) a(4), of e p ob age status] a p by auto
  qed
qed

section \<open>Ageing without fresh evidence\<close>

definition stale_excess :: "temporal_configuration \<Rightarrow> string \<Rightarrow> string \<Rightarrow> rat" where
  "stale_excess c f e = max 0 (rnd64 (seconds_between (ms_of e) (ms_of f) - stale_after_seconds c))"

definition aged_score :: "(rat \<Rightarrow> rat) \<Rightarrow> temporal_configuration \<Rightarrow> temporal_state \<Rightarrow> string \<Rightarrow> string \<Rightarrow> rat" where
  "aged_score pow2 c p f e =
     (if stale_excess c f e = 0 then temporal_score p
      else decay_score (min (initial_score c) (anchor_score p)) (anchor_score p)
             (pow2 (rnd64 (- stale_excess c f e / stale_after_seconds c))))"

lemma aged_result:
  assumes "last_fresh_observed_at p = Some f"
  shows "smoothed_score (advance_without_fresh pow2 c (Some p) ob age status e) = aged_score pow2 c p f e"
    "smoothing_state (advance_without_fresh pow2 c (Some p) ob age status e) =
       freeze_state (aged_score pow2 c p f e) (anchor_score p) (Some f) e"
    "smoothing_phase (advance_without_fresh pow2 c (Some p) ob age status e) =
       (if stale_excess c f e = 0 then Held else Decayed)"
  using assms
  by (simp_all add: advance_without_fresh_def Let_def smoothing_output_def aged_score_def stale_excess_def)

lemma stale_excess_mono:
  assumes "ms_of e \<le> ms_of e'"
  shows "stale_excess c f e \<le> stale_excess c f e'"
proof -
  have "seconds_between (ms_of e) (ms_of f) \<le> seconds_between (ms_of e') (ms_of f)"
    unfolding seconds_between_def using assms by (intro double.mono divide_right_mono) auto
  then have "rnd64 (seconds_between (ms_of e) (ms_of f) - stale_after_seconds c)
      \<le> rnd64 (seconds_between (ms_of e') (ms_of f) - stale_after_seconds c)"
    by (intro double.mono) simp
  then show ?thesis unfolding stale_excess_def by auto
qed

lemma aged_again:
  assumes "ms_of e \<le> ms_of e'" "anchor_score q = anchor_score p"
    "temporal_score q = aged_score pow2 c p f e"
  shows "aged_score pow2 c q f e' = aged_score pow2 c p f e'"
proof (cases "stale_excess c f e' = 0")
  case True
  moreover have "0 \<le> stale_excess c f e" by (simp add: stale_excess_def)
  ultimately have "stale_excess c f e = 0" using stale_excess_mono[OF assms(1), of c f] by simp
  then show ?thesis using True assms by (simp add: aged_score_def)
next
  case False
  then show ?thesis using assms by (simp add: aged_score_def)
qed

text \<open>An evaluation without any observation, reduced to the state it starts from.\<close>

lemma advance_missing:
  assumes "advance_smoothed_trust_score pow2 configuration (temporal_state_value p) JNull evaluated = Inr r"
    and "last_fresh_observed_at p = Some f"
  obtains c e where "evaluated = JStr e" "define_temporal_trust_configuration configuration = Inr c"
    "ms_of (last_evaluated_at p) \<le> ms_of e"
    "r = advance_without_fresh pow2 c (Some p) None None ObservationMissing e"
proof -
  from advance_cases[OF assms(1)] obtain c q ob age status e where a:
    "evaluated = JStr e" "define_temporal_trust_configuration configuration = Inr c"
    "normalize_temporal_state (temporal_state_value p) c (ms_of e) = Inr q"
    "normalize_observation JNull (ms_of e) = Inr ob" "observation_status c ob (ms_of e) = (age, status)"
    "if status = ObservationFresh then advance_fresh c q (the ob) age e = Inr r
     else r = advance_without_fresh pow2 c q ob age status e" by metis
  have "ob = None" using a(4) by (simp add: normalize_observation_def nullish_def)
  then have "age = None" "status = ObservationMissing" using a(5) by (simp_all add: observation_status_def)
  moreover have "q = Some p \<and> ms_of (last_evaluated_at p) \<le> ms_of e"
    using a(3) assms(2)
    by (cases p) (auto simp: normalize_temporal_state_def smoothing_fail_def Let_def ms_of_def simp del: get.simps
        split: if_splits)
  ultimately show thesis using that a \<open>ob = None\<close> by simp
qed

lemma temporal_state_of_value:
  assumes "advance_smoothed_trust_score pow2 configuration (temporal_state_value p) ob evaluated = Inr r"
    "define_temporal_trust_configuration configuration = Inr c"
  shows "valid_temporal_state c p"
proof -
  from advance_cases[OF assms(1)] obtain e q where q: "normalize_temporal_state (temporal_state_value p) c (ms_of e) = Inr q"
    using assms(2) by (metis Inr_inject)
  then have "q = Some p"
    by (cases p; cases "last_fresh_observed_at p")
       (auto simp: normalize_temporal_state_def smoothing_fail_def Let_def simp del: get.simps split: if_splits)
  then show ?thesis using temporal_state_accepted q by blast
qed

section \<open>Properties\<close>

record smoothing_input =
  input_observation :: js
  input_evaluated :: js

text \<open>A caller that stores the temporal state of the last accepted evaluation.\<close>

definition smoothing_step ::
  "(rat \<Rightarrow> rat) \<Rightarrow> js \<Rightarrow> js \<Rightarrow> smoothing_input \<Rightarrow> js \<times> smoothing_result res" where
  "smoothing_step pow2 configuration st i =
     (case advance_smoothed_trust_score pow2 configuration st (input_observation i) (input_evaluated i) of
        Inl e \<Rightarrow> (st, Inl e)
      | Inr r \<Rightarrow> (temporal_state_value (smoothing_state r), Inr r))"

definition smoothing_inv :: "temporal_configuration \<Rightarrow> js \<Rightarrow> bool" where
  "smoothing_inv c st \<longleftrightarrow> st = JNull \<or> (\<exists>s. valid_temporal_state c s \<and> st = temporal_state_value s)"

lemma smoothing_machine:
  assumes "unit_power pow2" "define_temporal_trust_configuration configuration = Inr c"
  shows "invariant_machine (smoothing_step pow2 configuration) (smoothing_inv c) (\<lambda>_. True)"
proof
  fix st i
  assume "smoothing_inv c st"
  then show "smoothing_inv c (fst (smoothing_step pow2 configuration st i))"
    using advance_state_valid[OF _ assms(1)] assms(2)
    by (fastforce simp: smoothing_step_def smoothing_inv_def split: sum.splits)
qed

text \<open>C5: Whatever sequence of observations and evaluation times a caller feeds, from a cold start, the
  state it stores is either still empty or has both scores in range and is accepted again by every
  evaluation at or after its last evaluation time.\<close>

theorem smoothing_states_stay_valid:
  assumes "unit_power pow2" "define_temporal_trust_configuration configuration = Inr c"
    and "st = fst (run_machine (smoothing_step pow2 configuration) JNull inputs)" "st \<noteq> JNull"
  shows "\<exists>s. st = temporal_state_value s \<and> 0 \<le> temporal_score s \<and> temporal_score s \<le> 100
    \<and> 0 \<le> anchor_score s \<and> anchor_score s \<le> 100
    \<and> (\<forall>now. ms_of (last_evaluated_at s) \<le> now \<longrightarrow> normalize_temporal_state st c now = Inr (Some s))"
proof -
  have "smoothing_inv c JNull" by (simp add: smoothing_inv_def)
  from invariant_machine.run_inv[OF smoothing_machine[OF assms(1,2)] this, of inputs]
  have "smoothing_inv c st" by (simp add: assms(3) list_all_iff)
  with assms(4) obtain s where "valid_temporal_state c s" "st = temporal_state_value s"
    by (auto simp: smoothing_inv_def)
  then show ?thesis using temporal_state_roundtrip by (auto simp: valid_temporal_state_def)
qed

definition example_power :: "rat \<Rightarrow> rat" where
  "example_power x = (if x \<le> - 1 then 1 / 4 else if x \<le> 0 then 1 / 2 else 1)"

lemma example_power_unit [simp]: "unit_power example_power"
  by (simp add: unit_power_def example_power_def)

abbreviation example_temporal :: js where
  "example_temporal \<equiv>
     obj [(''initialScore'', num 50), (''smoothingAlpha'', num (1/2)), (''staleAfterSeconds'', num 60)]"

abbreviation example_temporal_configuration :: temporal_configuration where
  "example_temporal_configuration \<equiv>
     \<lparr> initial_score = 50, smoothing_alpha = 1/2, stale_after_seconds = 60 \<rparr>"

lemma example_temporal_accepted [simp]:
  "define_temporal_trust_configuration example_temporal = Inr example_temporal_configuration"
  by (simp add: define_temporal_trust_configuration_def has_exact_keys_def smoothing_valid_score_def
      number_between_def is_finite_def is_safe_integer_def is_integer_rat_def max_safe_integer_def
      maximum_stale_after_seconds_def)

lemma example_cold_start:
  assumes "valid_time t"
  shows "advance_smoothed_trust_score pow2 example_temporal JNull JNull (JStr (time_to_iso t)) =
    Inr (advance_without_fresh pow2 example_temporal_configuration None None None ObservationMissing (time_to_iso t))"
proof -
  have "canonical_utc (JStr (time_to_iso t))" using assms canonical_utc_iff by blast
  then show ?thesis
    by (simp add: advance_smoothed_trust_score_def normalize_temporal_state_def normalize_observation_def
        nullish_def observation_status_def Let_def del: get.simps)
qed

lemma example_cold_state:
  "temporal_state_value (smoothing_state
     (advance_without_fresh pow2 example_temporal_configuration None None None status e)) \<noteq> JNull"
  by (simp add: temporal_state_value_def)

lemma smoothing_states_stay_valid_witness:
  "\<exists>s. fst (run_machine (smoothing_step example_power example_temporal) JNull
        [\<lparr> input_observation = JNull, input_evaluated = JStr (time_to_iso 0) \<rparr>]) = temporal_state_value s
     \<and> temporal_score s \<le> 100"
proof -
  let ?st = "fst (run_machine (smoothing_step example_power example_temporal) JNull
        [\<lparr> input_observation = JNull, input_evaluated = JStr (time_to_iso 0) \<rparr>])"
  have "?st \<noteq> JNull"
    using example_cold_state by (simp add: smoothing_step_def example_cold_start[OF valid_time_0])
  from smoothing_states_stay_valid[OF example_power_unit example_temporal_accepted refl this]
  show ?thesis by blast
qed


abbreviation example_observation :: "int \<Rightarrow> js" where
  "example_observation t \<equiv> obj [(''score'', num 80), (''observedAt'', JStr (time_to_iso t))]"

lemma example_fresh:
  assumes "valid_time t"
  shows "\<exists>r. advance_smoothed_trust_score pow2 example_temporal JNull (example_observation t) (JStr (time_to_iso t)) = Inr r
     \<and> smoothing_observation_status r = ObservationFresh"
proof -
  have c: "canonical_utc (JStr (time_to_iso t))" using assms canonical_utc_iff by blast
  have o: "normalize_observation (example_observation t) (parse_time (JStr (time_to_iso t))) =
      Inr (Some \<lparr> observed_score = 80, observed_at = time_to_iso t \<rparr>)"
    using c by (simp add: normalize_observation_def nullish_def has_exact_keys_def smoothing_valid_score_def
        number_between_def is_finite_def)
  have s: "observation_status example_temporal_configuration
      (Some \<lparr> observed_score = 80, observed_at = time_to_iso t \<rparr>) (parse_time (JStr (time_to_iso t))) = (Some 0, ObservationFresh)"
    by (simp add: observation_status_def seconds_between_def ms_of_def)
  have p: "normalize_temporal_state JNull example_temporal_configuration n = Inr None" for n
    by (simp add: normalize_temporal_state_def nullish_def)
  show ?thesis
    unfolding advance_smoothed_trust_score_def example_temporal_accepted
    using c by (simp only: and_then_Inr o s p) (simp add: advance_fresh_def Let_def smoothing_output_def)
qed


text \<open>Missing and stale observations are interchangeable: without a fresh observation neither the
  score nor the stored state depends on what was observed.\<close>

theorem stale_observation_is_withheld:
  assumes "advance_smoothed_trust_score pow2 configuration previous observation evaluated = Inr r"
    and "smoothing_observation_status r \<noteq> ObservationFresh"
  shows "\<exists>r'. advance_smoothed_trust_score pow2 configuration previous JNull evaluated = Inr r'
    \<and> smoothed_score r' = smoothed_score r \<and> smoothing_state r' = smoothing_state r
    \<and> smoothing_phase r' = smoothing_phase r"
proof -
  from advance_cases[OF assms(1)] obtain c p ob age status e where a:
    "evaluated = JStr e" "canonical_utc evaluated" "define_temporal_trust_configuration configuration = Inr c"
    "normalize_temporal_state previous c (ms_of e) = Inr p"
    "if status = ObservationFresh then advance_fresh c p (the ob) age e = Inr r
     else r = advance_without_fresh pow2 c p ob age status e" by metis
  have "status \<noteq> ObservationFresh"
    using a(5) assms(2) by (auto simp: advance_fresh_def smoothing_fail_def Let_def smoothing_output_def split: if_splits)
  then have r: "r = advance_without_fresh pow2 c p ob age status e" using a(5) by simp
  have "advance_smoothed_trust_score pow2 configuration previous JNull evaluated =
      Inr (advance_without_fresh pow2 c p None None ObservationMissing e)"
    using a(1-4) by (simp add: advance_smoothed_trust_score_def normalize_observation_def nullish_def
        observation_status_def ms_of_def)
  then show ?thesis
    by (simp add: r advance_without_fresh_def smoothing_output_def Let_def split: option.split)
qed

lemma stale_observation_is_withheld_witness:
  "\<exists>r'. advance_smoothed_trust_score example_power example_temporal JNull JNull (JStr (time_to_iso 0)) = Inr r'
     \<and> smoothed_score r' = 50"
proof -
  let ?r = "advance_without_fresh example_power example_temporal_configuration None None None ObservationMissing (time_to_iso 0)"
  have n: "smoothing_observation_status ?r \<noteq> ObservationFresh" and s: "smoothed_score ?r = 50"
    by (simp_all add: advance_without_fresh_def smoothing_output_def)
  from stale_observation_is_withheld[OF example_cold_start[OF valid_time_0] n] s show ?thesis by auto
qed

text \<open>A state stored by the evaluation of a fresh observation, and a power function that stays between 0 and 1
  and is monotone on the exponents of a decay, which ECMAScript leaves to the engine.\<close>

definition after_fresh :: "(rat \<Rightarrow> rat) \<Rightarrow> js \<Rightarrow> temporal_state \<Rightarrow> bool" where
  "after_fresh pow2 configuration p \<longleftrightarrow>
     (\<exists>previous observation evaluated r. advance_smoothed_trust_score pow2 configuration previous observation evaluated = Inr r
        \<and> smoothing_observation_status r = ObservationFresh \<and> p = smoothing_state r)"

definition decay_power :: "(rat \<Rightarrow> rat) \<Rightarrow> bool" where
  "decay_power pow2 \<longleftrightarrow> unit_power pow2 \<and> (\<forall>x y. x \<le> y \<and> y \<le> 0 \<longrightarrow> pow2 x \<le> pow2 y)"

lemma without_fresh_status [simp]:
  "smoothing_observation_status (advance_without_fresh pow2 c p ob age status e) = status"
  by (auto simp: advance_without_fresh_def smoothing_output_def Let_def split: option.splits)

lemma after_fresh_state:
  assumes "after_fresh pow2 configuration p"
  shows "temporal_score p = anchor_score p" "smoothing_round_score (anchor_score p) = anchor_score p"
    "0 \<le> anchor_score p" "anchor_score p \<le> 100" "\<exists>f. last_fresh_observed_at p = Some f"
proof -
  obtain previous observation evaluated r where run:
    "advance_smoothed_trust_score pow2 configuration previous observation evaluated = Inr r"
    "smoothing_observation_status r = ObservationFresh" "p = smoothing_state r"
    using assms by (auto simp: after_fresh_def)
  from advance_cases[OF run(1)] obtain c q ob age status e where a:
    "evaluated = JStr e" "canonical_utc evaluated" "valid_temporal_configuration c"
    "normalize_temporal_state previous c (ms_of e) = Inr q" "normalize_observation observation (ms_of e) = Inr ob"
    "observation_status c ob (ms_of e) = (age, status)"
    "if status = ObservationFresh then advance_fresh c q (the ob) age e = Inr r
     else r = advance_without_fresh pow2 c q ob age status e" by metis
  have "status = ObservationFresh" using a(7) run(2) by (auto split: if_splits)
  then obtain x where x: "ob = Some x" and f: "advance_fresh c q x age e = Inr r"
    using a(6,7) status_fresh_Some by (metis option.sel)
  have n: "normalize_observation observation (ms_of e) = Inr (Some x)" using a(5) x by simp
  have ec: "canonical_utc (JStr e)" using a(1,2) by simp
  have qv: "valid_temporal_state c s" if "q = Some s" for s using temporal_state_accepted a(4) that by blast
  note v = fresh_valid[OF f a(3) ec qv observation_accepted[OF n]]
  show "temporal_score p = anchor_score p" "smoothing_round_score (anchor_score p) = anchor_score p"
    "\<exists>f. last_fresh_observed_at p = Some f" using v(5-7) by (simp_all add: run(3))
  show "0 \<le> anchor_score p" "anchor_score p \<le> 100" using v(1) by (simp_all add: run(3) valid_temporal_state_def)
qed

lemma aged_score_below:
  assumes "unit_power pow2" "valid_temporal_configuration c" "0 \<le> anchor_score p" "anchor_score p \<le> 100"
    "temporal_score p = anchor_score p" "smoothing_round_score (anchor_score p) = anchor_score p"
  shows "aged_score pow2 c p f e \<le> anchor_score p"
proof (cases "stale_excess c f e = 0")
  case False
  have s: "0 < stale_after_seconds c" using assms(2) by (simp add: valid_temporal_configuration_def)
  have "- stale_excess c f e / stale_after_seconds c \<le> 0" using s by (simp add: stale_excess_def divide_nonpos_pos)
  then have "rnd64 (- stale_excess c f e / stale_after_seconds c) \<le> 0" using double.mono[of _ 0] by (simp add: double.zero)
  then have f: "0 \<le> pow2 (rnd64 (- stale_excess c f e / stale_after_seconds c))"
    "pow2 (rnd64 (- stale_excess c f e / stale_after_seconds c)) \<le> 1" using assms(1) by (auto simp: unit_power_def)
  have b: "0 \<le> min (initial_score c) (anchor_score p)" "min (initial_score c) (anchor_score p) \<le> anchor_score p"
    using assms(2,3) by (auto simp: valid_temporal_configuration_def)
  from decay_score_below[OF b assms(4) f assms(6)] show ?thesis using False by (simp add: aged_score_def)
qed (use assms(5) in \<open>simp add: aged_score_def\<close>)

lemma aged_score_falls:
  assumes "decay_power pow2" "valid_temporal_configuration c" "ms_of e \<le> ms_of e'" "0 \<le> anchor_score p" "anchor_score p \<le> 100"
    "stale_excess c f e \<noteq> 0 \<or> (temporal_score p = anchor_score p \<and> smoothing_round_score (anchor_score p) = anchor_score p)"
  shows "aged_score pow2 c p f e' \<le> aged_score pow2 c p f e"
proof -
  have le: "stale_excess c f e \<le> stale_excess c f e'" by (rule stale_excess_mono[OF assms(3)])
  have nonneg: "0 \<le> stale_excess c f e" by (simp add: stale_excess_def)
  have s: "0 < stale_after_seconds c" using assms(2) by (simp add: valid_temporal_configuration_def)
  let ?x = "\<lambda>e. rnd64 (- stale_excess c f e / stale_after_seconds c)"
  have "- stale_excess c f e / stale_after_seconds c \<le> 0" for e
    using s by (simp add: stale_excess_def divide_nonpos_pos)
  then have x: "?x e \<le> 0" for e using double.mono[of _ 0] by (simp add: double.zero)
  have b: "0 \<le> min (initial_score c) (anchor_score p)" "min (initial_score c) (anchor_score p) \<le> anchor_score p"
    using assms(2,4) by (auto simp: valid_temporal_configuration_def)
  show ?thesis
  proof (cases "stale_excess c f e = 0")
    case False
    have "- stale_excess c f e' / stale_after_seconds c \<le> - stale_excess c f e / stale_after_seconds c"
      using le s by (intro divide_right_mono) auto
    then have "pow2 (?x e') \<le> pow2 (?x e)"
      using assms(1) x[of e] double.mono by (simp add: decay_power_def)
    then show ?thesis using False le nonneg decay_score_mono[OF b(2)] by (simp add: aged_score_def)
  next
    case True
    then have t: "temporal_score p = anchor_score p" "smoothing_round_score (anchor_score p) = anchor_score p"
      using assms(6) by auto
    have "unit_power pow2" using assms(1) by (simp add: decay_power_def)
    from aged_score_below[OF this assms(2,4,5) t] show ?thesis using True t(1) by (simp add: aged_score_def)
  qed
qed

text \<open>C7: Decay does not compound and never raises a score: evaluating in two steps without observations ends
  in the same score and state as one evaluation at the later time, for every power function. When the
  power function stays between 0 and 1 and is monotone on exponents up to 0, the later score is at most
  the earlier one when the decay had begun or the state stems from a fresh observation, and in the
  latter case the earlier one is at most the score that was stored, the first step of the decay included.\<close>

theorem decay_is_path_independent:
  assumes "last_fresh_observed_at p = Some f"
    and "advance_smoothed_trust_score pow2 configuration (temporal_state_value p) JNull e1 = Inr r1"
    and "advance_smoothed_trust_score pow2 configuration (temporal_state_value (smoothing_state r1)) JNull e2 = Inr r2"
    and "advance_smoothed_trust_score pow2 configuration (temporal_state_value p) JNull e2 = Inr r3"
  shows "smoothed_score r2 = smoothed_score r3 \<and> smoothing_state r2 = smoothing_state r3
    \<and> (decay_power pow2 \<and> (smoothing_phase r1 = Decayed \<or> after_fresh pow2 configuration p)
         \<longrightarrow> smoothed_score r2 \<le> smoothed_score r1)
    \<and> (decay_power pow2 \<and> after_fresh pow2 configuration p \<longrightarrow> smoothed_score r1 \<le> temporal_score p)"
proof -
  obtain c s1 where one: "e1 = JStr s1" "define_temporal_trust_configuration configuration = Inr c"
    "ms_of (last_evaluated_at p) \<le> ms_of s1"
    "r1 = advance_without_fresh pow2 c (Some p) None None ObservationMissing s1"
    using advance_missing[OF assms(2,1)] by metis
  note st1 = aged_result[OF assms(1), of pow2 c None None ObservationMissing s1, folded one(4)]
  have q: "last_fresh_observed_at (smoothing_state r1) = Some f"
    "temporal_score (smoothing_state r1) = aged_score pow2 c p f s1"
    "anchor_score (smoothing_state r1) = anchor_score p" "last_evaluated_at (smoothing_state r1) = s1"
    by (simp_all add: st1 freeze_state_def)
  obtain s2 where two: "e2 = JStr s2" "ms_of s1 \<le> ms_of s2"
    "r2 = advance_without_fresh pow2 c (Some (smoothing_state r1)) None None ObservationMissing s2"
    using advance_missing[OF assms(3) q(1)] one(2) q(4) by (metis Inr_inject)
  have three: "r3 = advance_without_fresh pow2 c (Some p) None None ObservationMissing s2"
    using advance_missing[OF assms(4,1)] one(2) two(1) by (metis Inr_inject js.inject(3))
  have again: "aged_score pow2 c (smoothing_state r1) f s2 = aged_score pow2 c p f s2"
    by (rule aged_again[OF two(2) q(3,2)])
  have eq: "smoothed_score r2 = smoothed_score r3" "smoothing_state r2 = smoothing_state r3"
    using aged_result(1,2)[OF q(1), of pow2 c None None ObservationMissing s2]
      aged_result(1,2)[OF assms(1), of pow2 c None None ObservationMissing s2] again
    by (simp_all add: two(3) three q(3))
  have later: "smoothed_score r2 = aged_score pow2 c p f s2"
    using eq(1) aged_result(1)[OF assms(1), of pow2 c None None ObservationMissing s2] by (simp add: three)
  have c: "valid_temporal_configuration c" by (rule configuration_accepted[OF one(2)])
  have "valid_temporal_state c p"
    using temporal_state_of_value[OF assms(2) one(2)] assms(1) by simp
  then have anchor: "0 \<le> anchor_score p" "anchor_score p \<le> 100" by (simp_all add: valid_temporal_state_def)
  have falls: "smoothed_score r2 \<le> smoothed_score r1"
    if "decay_power pow2" "smoothing_phase r1 = Decayed \<or> after_fresh pow2 configuration p"
    unfolding later st1(1)
    by (rule aged_score_falls[OF that(1) c two(2) anchor]) (use that(2) st1(3) after_fresh_state(1,2) in \<open>auto split: if_splits\<close>)
  have held: "smoothed_score r1 \<le> temporal_score p" if "decay_power pow2" "after_fresh pow2 configuration p"
  proof (cases "stale_excess c f s1 = 0")
    case False
    note t = after_fresh_state(1,2)[OF that(2)]
    have "unit_power pow2" using that(1) by (simp add: decay_power_def)
    from aged_score_below[OF this c anchor t] show ?thesis using t(1) by (simp add: st1(1))
  qed (simp add: st1(1) aged_score_def)
  show ?thesis using eq falls held by blast
qed

lemma example_advance_missing:
  assumes "valid_temporal_state example_temporal_configuration p" "ms_of (last_evaluated_at p) \<le> t" "valid_time t"
  shows "advance_smoothed_trust_score pow2 example_temporal (temporal_state_value p) JNull (JStr (time_to_iso t)) =
    Inr (advance_without_fresh pow2 example_temporal_configuration (Some p) None None ObservationMissing (time_to_iso t))"
proof -
  have c: "canonical_utc (JStr (time_to_iso t))" using assms(3) canonical_utc_iff by blast
  have t: "parse_time (JStr (time_to_iso t)) = t" using assms(3) by (simp add: parse_time_def)
  show ?thesis
    using c temporal_state_roundtrip[OF assms(1,2)]
    by (simp add: advance_smoothed_trust_score_def normalize_observation_def nullish_def observation_status_def t
        del: get.simps)
qed

lemma decay_is_path_independent_witness:
  "\<exists>p r1 r2 r3.
     advance_smoothed_trust_score example_power example_temporal (temporal_state_value p) JNull (JStr (time_to_iso 120000)) = Inr r1
   \<and> advance_smoothed_trust_score example_power example_temporal
       (temporal_state_value (smoothing_state r1)) JNull (JStr (time_to_iso 240000)) = Inr r2
   \<and> advance_smoothed_trust_score example_power example_temporal (temporal_state_value p) JNull (JStr (time_to_iso 240000)) = Inr r3
   \<and> smoothed_score r2 = smoothed_score r3 \<and> smoothed_score r2 \<le> smoothed_score r1 \<and> smoothed_score r1 \<le> temporal_score p"
proof -
  obtain r0 where r0: "advance_smoothed_trust_score example_power example_temporal JNull (example_observation 0) (JStr (time_to_iso 0)) = Inr r0"
    "smoothing_observation_status r0 = ObservationFresh" using example_fresh[OF valid_time_0] by blast
  let ?p = "smoothing_state r0"
  have fresh: "after_fresh example_power example_temporal ?p" unfolding after_fresh_def using r0 by blast
  then obtain f where f: "last_fresh_observed_at ?p = Some f" using after_fresh_state(5) by blast
  let ?a = "\<lambda>q t. advance_without_fresh example_power example_temporal_configuration (Some q) None None
      ObservationMissing (time_to_iso t)"
  have v: "valid_time 0" "valid_time 120000" "valid_time 240000" by (simp_all add: valid_time_def max_time_def)
  have ms: "ms_of (time_to_iso t) = t" if "valid_time t" for t using that by (simp add: ms_of_def parse_time_def)
  have p: "valid_temporal_state example_temporal_configuration ?p" "last_evaluated_at ?p = time_to_iso 0"
    using advance_state_valid[OF r0(1) example_power_unit] by simp_all
  have a1: "advance_smoothed_trust_score example_power example_temporal (temporal_state_value ?p) JNull
      (JStr (time_to_iso 120000)) = Inr (?a ?p 120000)"
    by (rule example_advance_missing[OF p(1) _ v(2)]) (simp add: p(2) ms[OF v(1)])
  have a3: "advance_smoothed_trust_score example_power example_temporal (temporal_state_value ?p) JNull
      (JStr (time_to_iso 240000)) = Inr (?a ?p 240000)"
    by (rule example_advance_missing[OF p(1) _ v(3)]) (simp add: p(2) ms[OF v(1)])
  have q: "valid_temporal_state example_temporal_configuration (smoothing_state (?a ?p 120000))"
    "last_evaluated_at (smoothing_state (?a ?p 120000)) = time_to_iso 120000"
    using advance_state_valid[OF a1 example_power_unit] by simp_all
  have a2: "advance_smoothed_trust_score example_power example_temporal
      (temporal_state_value (smoothing_state (?a ?p 120000))) JNull
      (JStr (time_to_iso 240000)) = Inr (?a (smoothing_state (?a ?p 120000)) 240000)"
    by (rule example_advance_missing[OF q(1) _ v(3)]) (simp add: q(2) ms[OF v(2)])
  have power: "decay_power example_power" by (simp add: decay_power_def) (simp add: example_power_def)
  from decay_is_path_independent[OF f a1 a2 a3] a1 a2 a3 power fresh show ?thesis by blast
qed

end
