(* ===== verification/JsDecimal.thy ===== *)
theory JsDecimal
  imports JsValues
begin

text \<open>
  The shortest decimal of a number is sound: the digits that \<open>Number::toString\<close> chooses denote a
  value that rounds back to the number, and seventeen digits are always enough, so the search
  never runs out.
\<close>

section \<open>The shortest decimal of a number\<close>

lemma show_pos_length:
  assumes "0 < n"
  shows "10 ^ (length (show_pos n) - 1) \<le> n \<and> n < 10 ^ length (show_pos n) \<and> 0 < length (show_pos n)"
  using assms
proof (induction n rule: show_pos.induct)
  case (1 n)
  show ?case
  proof (cases "n < 10")
    case True
    then show ?thesis using 1(2) by (simp add: show_pos.simps[of n])
  next
    case False
    define l where "l = length (show_pos (n div 10))"
    have l: "10 ^ (l - 1) \<le> n div 10" "n div 10 < 10 ^ l" "0 < l"
      using 1(1)[OF False] False by (auto simp: l_def pos_imp_zdiv_pos_iff)
    have len: "length (show_pos n) = Suc l" using False by (simp add: show_pos.simps[of n] l_def)
    have p: "(10::int) ^ l = 10 * 10 ^ (l - 1)" using l(3) by (cases l) auto
    have "10 * (n div 10) \<le> n" "n < 10 * (n div 10) + 10" by linarith+
    then have "10 ^ l \<le> n" "n < 10 ^ Suc l" using l p by simp_all
    then show ?thesis by (simp add: len)
  qed
qed

lemma dec_len_bounds:
  assumes "0 < n"
  shows "(10::rat) powi (dec_len n - 1) \<le> of_int n" "of_int n < (10::rat) powi dec_len n"
proof -
  define l where "l = length (show_pos n)"
  have l: "10 ^ (l - 1) \<le> n" "n < 10 ^ l" "0 < l" using show_pos_length[OF assms] by (simp_all add: l_def)
  have "(of_int (10 ^ (l - 1)) :: rat) \<le> of_int n" "(of_int n :: rat) < of_int (10 ^ l)"
    using l(1,2) by (simp_all only: of_int_le_iff of_int_less_iff)
  moreover have "dec_len n - 1 = int (l - 1)" "dec_len n = int l" using l(3) by (simp_all only: dec_len_def l_def)
  ultimately show "(10::rat) powi (dec_len n - 1) \<le> of_int n" "of_int n < (10::rat) powi dec_len n"
    by (simp_all only: power_int_of_nat of_int_power of_int_numeral)
qed

lemma dec_exp_bounds:
  assumes "0 < x"
  shows "10 powi (dec_exp x - 1) \<le> x" "x < 10 powi dec_exp x"
proof -
  obtain p q where pq: "quotient_of x = (p, q)" by fastforce
  have q: "0 < q" using quotient_of_denom_pos[OF pq] .
  have x: "x = of_int p / of_int q" using quotient_of_div[OF pq] .
  have p: "0 < p" using assms q unfolding x by (simp add: zero_less_divide_iff)
  define a b where "a = dec_len p" and "b = dec_len q"
  note pb = dec_len_bounds[OF p, folded a_def] and qb = dec_len_bounds[OF q, folded b_def]
  have q0: "(0::rat) < of_int q" using q by simp
  have lo: "(10::rat) powi (a - b - 1) \<le> x"
  proof -
    have "(10::rat) powi (a - b - 1) = 10 powi (a - 1) / 10 powi b"
      by (simp add: algebra_simps flip: power_int_diff)
    also have "\<dots> \<le> of_int p / of_int q" using pb(1) qb(2) q0 p
      by (intro frac_le) (auto intro: less_imp_le)
    finally show ?thesis by (simp add: x)
  qed
  have hi: "x < (10::rat) powi (a - b + 1)"
  proof -
    have "x < 10 powi a / 10 powi (b - 1)" unfolding x using pb(2) qb(1) q0 p
      by (intro frac_less) auto
    also have "\<dots> = (10::rat) powi (a - b + 1)" by (simp add: algebra_simps flip: power_int_diff)
    finally show ?thesis .
  qed
  show "10 powi (dec_exp x - 1) \<le> x" "x < 10 powi dec_exp x"
    using lo hi by (auto simp: dec_exp_def pq Let_def a_def b_def not_le)
qed

lemma rounding_digits_Some: "rounding_digits x e = Some s \<Longrightarrow> rnd64 (of_int s * 10 powi e) = x"
  by (auto simp: rounding_digits_def Let_def split: if_splits)

lemma powi_10_pos [simp]: "(0::rat) < 10 powi e"
  by simp

text \<open>Seventeen digits always suffice.\<close>

lemma rounding_digits_17:
  assumes "rnd64 x = x" "0 < x"
  shows "rounding_digits x (dec_exp x - 17) \<noteq> None"
proof -
  define e where "e = dec_exp x - 17"
  define t where "t = (10::rat) powi e"
  define y where "y = x / t"
  have t: "0 < t" by (simp add: t_def)
  have "dec_exp x - 1 = 16 + e" by (simp add: e_def)
  then have "10 powi (16 + e) \<le> x" using dec_exp_bounds(1)[OF assms(2)] by simp
  moreover have "(10::rat) powi (16 + e) = 10 ^ 16 * t" by (simp add: power_int_add t_def)
  ultimately have big: "10 ^ 16 * t \<le> x" by (simp only:)
  then have y: "10 ^ 16 \<le> y" using t by (simp add: y_def pos_le_divide_eq)
  have r: "\<bar>of_int (round y) - y\<bar> \<le> 1/2" using of_int_round_abs_le[of y] by simp
  have x: "x = y * t" using t by (simp add: y_def)
  have "of_int (round y) * t - x = (of_int (round y) - y) * t" unfolding left_diff_distrib x ..
  then have "\<bar>of_int (round y) * t - x\<bar> = \<bar>of_int (round y) - y\<bar> * t" using t by (simp only: abs_mult abs_of_pos)
  also have "\<dots> \<le> 1/2 * t" using r t by (intro mult_right_mono) auto
  finally have "\<bar>of_int (round y) * t - x\<bar> * 2 ^ 54 \<le> 1/2 * t * 2 ^ 54" by (rule mult_right_mono) simp
  also have "\<dots> < 10 ^ 16 * t" using t by simp
  finally have "\<bar>of_int (round y) * t - x\<bar> * 2 ^ 54 < x" using big by (rule less_le_trans)
  moreover have "0 < of_int (round y) * t"
  proof -
    define R where "R = (of_int (round y) :: rat)"
    have "y - R \<le> 1/2" using abs_le_D2[OF r] by (simp add: R_def)
    then have "0 < R" using y by simp
    then show ?thesis unfolding R_def using t by (rule mult_pos_pos)
  qed
  ultimately show ?thesis using rnd64_near[OF assms, of "of_int (round y) * t"]
    by (simp add: rounding_digits_def Let_def y_def t_def e_def)
qed

lemma rnd64_pos_arg: "0 < rnd64 y \<Longrightarrow> 0 < y"
  using rnd64_mono[of y 0] by (metis not_less rnd64_0)

lemma shortest_sound:
  assumes "rnd64 x = x" "0 < x" "shortest fuel k x = (s, e)" "int fuel + k = 18" "0 < k" "0 < fuel"
  shows "0 < s \<and> rnd64 (of_int s * 10 powi e) = x"
  using assms(3-)
proof (induction fuel arbitrary: k)
  case (Suc fuel)
  define f where "f = dec_exp x - k"
  have sh: "(case rounding_digits x f of
        Some d \<Rightarrow> if d = 10 ^ nat k then (1, f + k) else (d, f)
      | None \<Rightarrow> shortest fuel (k + 1) x) = (s, e)"
    using Suc.prems(1) by (simp only: shortest.simps Let_def f_def)
  show ?case
  proof (cases "rounding_digits x f")
    case (Some d)
    have r: "rnd64 (of_int d * 10 powi f) = x" by (rule rounding_digits_Some[OF Some])
    then have "0 < of_int d * (10::rat) powi f" using rnd64_pos_arg[of "of_int d * 10 powi f"] assms(2) by simp
    then have d: "0 < d" using powi_10_pos[of f] by (metis zero_less_mult_pos2 of_int_0_less_iff)
    show ?thesis
    proof (cases "d = 10 ^ nat k")
      case True
      have "(10::rat) powi (f + k) = 10 powi f * 10 powi k" by (rule power_int_add) simp
      also have "(10::rat) powi k = of_int d" unfolding True using Suc.prems(3) by (simp add: power_int_def)
      finally have "of_int d * (10::rat) powi f = of_int 1 * 10 powi (f + k)"
        by (simp only: of_int_1 mult_1 mult.commute)
      then have "rnd64 (of_int 1 * 10 powi (f + k)) = x" using r by (simp only:)
      moreover have "s = 1" "e = f + k" using sh by (simp_all add: Some True)
      ultimately show ?thesis by (simp only: zero_less_one)
    next
      case False
      then have "s = d" "e = f" using sh Some by (simp_all only: option.case if_False prod.inject)
      then show ?thesis using r d by (simp only:)
    qed
  next
    case None
    have "0 < fuel"
    proof (rule ccontr)
      assume "\<not> 0 < fuel"
      then have "k = 17" using Suc.prems(2) by simp
      then show False using None rounding_digits_17[OF assms(1,2)] by (simp only: f_def)
    qed
    moreover have "shortest fuel (k + 1) x = (s, e)" using sh None by (simp only: option.case)
    ultimately show ?thesis using Suc.IH[of "k + 1"] Suc.prems(2,3) by simp
  qed
qed simp

theorem digits_of_sound:
  assumes "rnd64 x = x" "0 < x" "digits_of x = (s, e)"
  shows "0 < s" "rnd64 (of_int s * 10 powi e) = x"
  using shortest_sound[OF assms(1,2), of 17 1 s e] assms(3) by (simp_all add: digits_of_def)

end
