(* ===== verification/WeightedScore.thy ===== *)
theory WeightedScore
  imports JsDecimal TrustModel
begin

text \<open>
  \<open>services/trust/src/weighted-score.mjs\<close>: the weighted arithmetic mean of the components, computed
  exactly on the decimal texts of the numbers with arbitrary-precision integers and rounded half up.
  The lemmas show that the text of a number denotes a value that rounds back to it, that the exact
  sum is within a tiny distance of the real mean, so the final range check can never fail, and
  that raising a component never lowers the score.
\<close>

section \<open>Decimal arithmetic\<close>

text \<open>A non-negative decimal: \<open>integer / 10 ^ scale\<close>.\<close>

record decimal =
  dec_integer :: int
  dec_scale :: int

text \<open>
  The match of \<open>/^(\d+)(?:\.(\d+))?(?:e([+-]?\d+))?$/\<close>: integer part, fraction (empty when there is
  none) and exponent.
\<close>

definition digit_run :: "string \<Rightarrow> bool" where
  "digit_run s \<longleftrightarrow> s \<noteq> [] \<and> list_all digit s"

definition signed_number :: "string \<Rightarrow> int option" where
  "signed_number s =
     (case s of
        [] \<Rightarrow> None
      | c # cs \<Rightarrow>
          if c = CHR ''-'' then (if digit_run cs then Some (- read_pos 0 cs) else None)
          else if c = CHR ''+'' then (if digit_run cs then Some (read_pos 0 cs) else None)
          else if digit_run s then Some (read_pos 0 s) else None)"

definition decimal_match :: "string \<Rightarrow> (string \<times> string \<times> int) option" where
  "decimal_match s =
     (let mantissa = takeWhile (\<lambda>c. c \<noteq> CHR ''e'') s; rest = dropWhile (\<lambda>c. c \<noteq> CHR ''e'') s;
          whole = takeWhile (\<lambda>c. c \<noteq> CHR ''.'') mantissa; fr = dropWhile (\<lambda>c. c \<noteq> CHR ''.'') mantissa
      in if \<not> digit_run whole \<or> (fr \<noteq> [] \<and> \<not> digit_run (tl fr)) then None
         else if rest = [] then Some (whole, tl fr, 0)
         else map_option (\<lambda>x. (whole, tl fr, x)) (signed_number (tl rest)))"

text \<open>\<open>decimalParts(value)\<close> on the text of the number.\<close>

definition decimal_parts :: "rat \<Rightarrow> decimal res" where
  "decimal_parts v =
     (case decimal_match (rat_to_string v) of
        None \<Rightarrow> Inl TypeErrorThrown
      | Some (whole, fr, expo) \<Rightarrow>
          let i = read_pos 0 (whole @ fr); sc = int (length fr) - expo
          in if sc < 0 then Inr \<lparr> dec_integer = i * 10 ^ nat (- sc), dec_scale = 0 \<rparr>
             else Inr \<lparr> dec_integer = i, dec_scale = sc \<rparr>)"

definition dec_value :: "decimal \<Rightarrow> rat" where
  "dec_value d = of_int (dec_integer d) / 10 ^ nat (dec_scale d)"

lemma dec_value_make: "dec_value \<lparr> dec_integer = i, dec_scale = k \<rparr> = of_int i / 10 ^ nat k"
  by (simp add: dec_value_def)

lemma digit_not_e: "digit c \<Longrightarrow> c \<noteq> CHR ''e''" "digit c \<Longrightarrow> c \<noteq> CHR ''.''" "digit c \<Longrightarrow> c \<noteq> CHR ''-''"
  "digit c \<Longrightarrow> c \<noteq> CHR ''+''"
  by (auto simp: digit_def)

lemma takeWhile_digits:
  assumes "list_all digit s"
  shows "takeWhile (\<lambda>c. c \<noteq> CHR ''e'') s = s" "dropWhile (\<lambda>c. c \<noteq> CHR ''e'') s = []"
    "takeWhile (\<lambda>c. c \<noteq> CHR ''.'') s = s" "dropWhile (\<lambda>c. c \<noteq> CHR ''.'') s = []"
    "takeWhile (\<lambda>c. c \<noteq> CHR ''e'') (s @ c # t) = s @ takeWhile (\<lambda>c. c \<noteq> CHR ''e'') (c # t)"
    "dropWhile (\<lambda>c. c \<noteq> CHR ''e'') (s @ c # t) = dropWhile (\<lambda>c. c \<noteq> CHR ''e'') (c # t)"
    "takeWhile (\<lambda>c. c \<noteq> CHR ''.'') (s @ c # t) = s @ takeWhile (\<lambda>c. c \<noteq> CHR ''.'') (c # t)"
    "dropWhile (\<lambda>c. c \<noteq> CHR ''.'') (s @ c # t) = dropWhile (\<lambda>c. c \<noteq> CHR ''.'') (c # t)"
  using assms by (induction s) (auto simp: digit_not_e)

lemma digits_no_point: "list_all digit s \<Longrightarrow> CHR ''.'' \<notin> set s"
  by (auto simp: list_all_iff dest: digit_not_e(2))

lemma match_plain: "digit_run w \<Longrightarrow> decimal_match w = Some (w, [], 0)"
  by (simp add: decimal_match_def digit_run_def takeWhile_digits digits_no_point)

lemma match_fraction:
  "digit_run w \<Longrightarrow> digit_run f \<Longrightarrow> decimal_match (w @ ''.'' @ f) = Some (w, f, 0)"
  by (simp add: decimal_match_def digit_run_def takeWhile_digits digits_no_point)

lemma match_exponent:
  "digit_run w \<Longrightarrow> decimal_match (w @ ''e'' @ x) = map_option (\<lambda>n. (w, [], n)) (signed_number x)"
  by (simp add: decimal_match_def digit_run_def takeWhile_digits digits_no_point)

lemma match_fraction_exponent:
  "digit_run w \<Longrightarrow> digit_run f \<Longrightarrow>
     decimal_match (w @ ''.'' @ f @ ''e'' @ x) = map_option (\<lambda>n. (w, f, n)) (signed_number x)"
  by (simp add: decimal_match_def digit_run_def takeWhile_digits digits_no_point)

lemma show_pos_digits: "0 \<le> n \<Longrightarrow> digit_run (show_pos n)"
  by (simp add: digit_run_def show_pos_eq show_nat_digits)

lemma digit_run_parts:
  "digit_run s \<Longrightarrow> 0 < n \<Longrightarrow> digit_run (take n s)" "digit_run s \<Longrightarrow> n < length s \<Longrightarrow> digit_run (drop n s)"
  by (auto simp: digit_run_def list_all_iff dest: in_set_takeD in_set_dropD)

lemma digit_run_zeros: "list_all digit (replicate k (CHR ''0''))"
  by (simp add: list_all_iff)

lemma signed_number_show:
  "signed_number ((if n < 0 then ''-'' else ''+'') @ show_pos \<bar>n\<bar>) = Some n"
  using show_pos_digits[of "\<bar>n\<bar>"] by (cases "n < 0") (simp_all add: signed_number_def)

text \<open>Reading the layout of \<open>s\<close> and \<open>e\<close> gives \<open>s * 10 powi e\<close>.\<close>

lemma layout_match:
  assumes "0 < s"
  shows "\<exists>w f x. decimal_match (layout s e) = Some (w, f, x)
    \<and> (of_int (read_pos 0 (w @ f)) :: rat) * 10 powi (x - int (length f)) = of_int s * 10 powi e"
proof -
  define ds where "ds = show_pos s"
  define k where "k = int (length ds)"
  define n where "n = e + k"
  have ds: "digit_run ds" "read_pos 0 ds = s" "0 < length ds"
    using assms show_pos_digits[of s] show_pos_length[OF assms] by (simp_all add: ds_def)
  have k0: "0 < k" using ds(3) by (simp add: k_def)
  have lay: "layout s e =
      (if k \<le> n \<and> n \<le> 21 then ds @ replicate (nat (n - k)) (CHR ''0'')
         else if 0 < n \<and> n \<le> 21 then take (nat n) ds @ ''.'' @ drop (nat n) ds
         else if - 6 < n \<and> n \<le> 0 then ''0.'' @ replicate (nat (- n)) (CHR ''0'') @ ds
         else take 1 ds @ (if k = 1 then [] else ''.'' @ drop 1 ds) @ ''e''
              @ (if n - 1 < 0 then ''-'' else ''+'') @ show_pos \<bar>n - 1\<bar>)"
    unfolding layout_def Let_def ds_def[symmetric] k_def[symmetric] n_def[symmetric] ..
  consider (whole) "k \<le> n \<and> n \<le> 21" | (point) "\<not> k \<le> n" "0 < n \<and> n \<le> 21" | (small) "\<not> k \<le> n" "- 6 < n \<and> n \<le> 0"
    | (sci) "\<not> (k \<le> n \<and> n \<le> 21)" "\<not> (0 < n \<and> n \<le> 21)" "\<not> (- 6 < n \<and> n \<le> 0)"
    by linarith
  then show ?thesis
  proof cases
    case whole
    let ?w = "ds @ replicate (nat (n - k)) (CHR ''0'')"
    have "digit_run ?w" using ds(1) digit_run_zeros by (simp add: digit_run_def)
    then have m: "decimal_match (layout s e) = Some (?w, [], 0)" using whole by (simp add: lay match_plain)
    have "read_pos 0 ?w = s * 10 ^ nat e" using ds(2) by (simp add: read_pos_append n_def)
    moreover have "0 \<le> e" using whole by (simp add: n_def)
    ultimately have "(of_int (read_pos 0 (?w @ [])) :: rat) * 10 powi (0 - int (length [])) = of_int s * 10 powi e"
      by (simp add: power_int_def)
    then show ?thesis using m by blast
  next
    case point
    let ?w = "take (nat n) ds" and ?f = "drop (nat n) ds"
    have len: "nat n < length ds" using point by (simp add: k_def nat_less_iff)
    have "digit_run ?w" "digit_run ?f" using digit_run_parts[OF ds(1)] len point by simp_all
    from match_fraction[OF this] have m: "decimal_match (layout s e) = Some (?w, ?f, 0)" using point by (simp add: lay)
    have "0 - int (length ?f) = e" using len point by (simp add: n_def k_def of_nat_diff)
    then have "(of_int (read_pos 0 (?w @ ?f)) :: rat) * 10 powi (0 - int (length ?f)) = of_int s * 10 powi e"
      using ds(2) by simp
    then show ?thesis using m by blast
  next
    case small
    let ?f = "replicate (nat (- n)) (CHR ''0'') @ ds"
    have "digit_run ?f" using ds(1) digit_run_zeros by (simp add: digit_run_def)
    moreover have "digit_run ''0''" by (simp add: digit_run_def)
    ultimately have m: "decimal_match (layout s e) = Some (''0'', ?f, 0)"
      using small k0 match_fraction[of "''0''" ?f] by (simp add: lay)
    have "0 - int (length ?f) = e" using small by (simp add: n_def k_def)
    moreover have "read_pos 0 (''0'' @ ?f) = s" using ds(2) by (simp add: read_pos_append)
    ultimately have "(of_int (read_pos 0 (''0'' @ ?f)) :: rat) * 10 powi (0 - int (length ?f)) = of_int s * 10 powi e"
      by (simp only:)
    then show ?thesis using m by blast
  next
    case sci
    let ?w = "take 1 ds" and ?f = "drop 1 ds"
    have w: "digit_run ?w" using digit_run_parts(1)[OF ds(1)] by simp
    note lay' = lay[unfolded if_not_P[OF sci(1)] if_not_P[OF sci(2)] if_not_P[OF sci(3)]]
    have m: "decimal_match (layout s e) = Some (?w, ?f, n - 1)"
    proof (cases "k = 1")
      case True
      then have "?f = []" by (simp add: k_def)
      moreover have "layout s e = ?w @ ''e'' @ (if n - 1 < 0 then ''-'' else ''+'') @ show_pos \<bar>n - 1\<bar>"
        unfolding lay' if_P[OF True] by (simp only: append_Nil)
      ultimately show ?thesis by (simp only: match_exponent[OF w] signed_number_show option.map)
    next
      case False
      then have "1 < length ds" using ds(3) False unfolding k_def by linarith
      then have f: "digit_run ?f" by (rule digit_run_parts(2)[OF ds(1)])
      have "layout s e = ?w @ ''.'' @ ?f @ ''e'' @ (if n - 1 < 0 then ''-'' else ''+'') @ show_pos \<bar>n - 1\<bar>"
        unfolding lay' if_not_P[OF False] by (simp only: append_assoc)
      then show ?thesis by (simp only: match_fraction_exponent[OF w f] signed_number_show option.map)
    qed
    have "n - 1 - int (length ?f) = e" using ds(3) by (cases ds) (simp_all add: n_def k_def)
    moreover have "read_pos 0 (?w @ ?f) = s" using ds(2) by simp
    ultimately have "(of_int (read_pos 0 (?w @ ?f)) :: rat) * 10 powi (n - 1 - int (length ?f)) = of_int s * 10 powi e"
      by (simp only:)
    then show ?thesis using m by blast
  qed
qed

text \<open>The decimal of a non-negative binary64 value rounds back to it.\<close>

theorem decimal_parts_sound:
  assumes "rnd64 x = x" "0 \<le> x"
  shows "\<exists>d. decimal_parts x = Inr d \<and> 0 \<le> dec_integer d \<and> 0 \<le> dec_scale d \<and> rnd64 (dec_value d) = x"
proof (cases "x = 0")
  case True
  then have "decimal_parts x = Inr \<lparr> dec_integer = 0, dec_scale = 0 \<rparr>"
    by (simp add: decimal_parts_def rat_to_string_def match_plain digit_run_def)
  then show ?thesis using True by (simp add: dec_value_def)
next
  case False
  then have x: "0 < x" using assms(2) by simp
  obtain s e where d: "digits_of x = (s, e)" by fastforce
  note sound = digits_of_sound[OF assms(1) x d]
  obtain w f n where m: "decimal_match (layout s e) = Some (w, f, n)"
    and v: "(of_int (read_pos 0 (w @ f)) :: rat) * 10 powi (n - int (length f)) = of_int s * 10 powi e"
    using layout_match[OF sound(1)] by blast
  define i where "i = read_pos 0 (w @ f)"
  define sc where "sc = int (length f) - n"
  have i: "0 \<le> i" unfolding i_def by (rule read_pos_nonneg) simp
  define y where "y = (if sc < 0 then \<lparr> dec_integer = i * 10 ^ nat (- sc), dec_scale = 0 \<rparr>
      else \<lparr> dec_integer = i, dec_scale = sc \<rparr>)"
  have "rat_to_string x = layout s e" using x by (simp add: rat_to_string_def d)
  then have "decimal_parts x = Inr y"
    unfolding decimal_parts_def by (simp only: m option.case prod.case Let_def i_def sc_def y_def split: if_split) simp
  moreover have "0 \<le> dec_integer y" "0 \<le> dec_scale y" using i by (simp_all add: y_def)
  moreover have yv: "dec_value y = of_int i * 10 powi (- sc)"
  proof (cases "sc < 0")
    case True
    then show ?thesis by (simp add: dec_value_def y_def power_int_def)
  next
    case False
    have "(10::rat) powi (- sc) = inverse (10 powi sc)" by (rule power_int_minus)
    also have "(10::rat) powi sc = 10 ^ nat sc" using False by (simp add: power_int_def)
    finally have "(10::rat) powi (- sc) = inverse (10 ^ nat sc)" .
    then show ?thesis using False by (simp add: dec_value_def y_def divide_inverse)
  qed
  moreover from yv have "dec_value y = of_int s * 10 powi e" using v by (simp add: i_def sc_def)
  ultimately show ?thesis using sound(2) by (metis)
qed

section \<open>Products, sums and rounding\<close>

definition multiply_decimal :: "rat \<Rightarrow> rat \<Rightarrow> decimal res" where
  "multiply_decimal l r =
     and_then (decimal_parts l) (\<lambda>a. and_then (decimal_parts r) (\<lambda>b.
       Inr \<lparr> dec_integer = dec_integer a * dec_integer b, dec_scale = dec_scale a + dec_scale b \<rparr>))"

definition sum_decimals :: "decimal list \<Rightarrow> decimal" where
  "sum_decimals ds =
     (let sc = foldr max (map dec_scale ds) 0
      in \<lparr> dec_integer = sum_list (map (\<lambda>d. dec_integer d * 10 ^ nat (sc - dec_scale d)) ds), dec_scale = sc \<rparr>)"

definition rounded_integer :: "decimal \<Rightarrow> int \<Rightarrow> int" where
  "rounded_integer v places =
     (if places < dec_scale v
      then let divisor = 10 ^ nat (dec_scale v - places); remainder = dec_integer v mod divisor
           in dec_integer v div divisor + (if divisor \<le> remainder * 2 then 1 else 0)
      else dec_integer v * 10 ^ nat (places - dec_scale v))"

definition rounded_number :: "decimal \<Rightarrow> nat \<Rightarrow> rat" where
  "rounded_number v places =
     (let digits = pad_zeros (places + 1) (show_pos (rounded_integer v (int places)));
          whole = take (length digits - places) digits; fr = drop (length digits - places) digits
      in rnd64 (of_int (read_pos 0 whole) + of_int (read_pos 0 fr) / 10 ^ length fr))"

section \<open>The score\<close>

record contribution =
  normalized_value :: rat
  contribution_weight :: rat
  weighted_contribution :: rat

record weighted_score =
  score_model_version :: string
  weighted_value :: rat
  score_components :: component_table
  score_weights :: component_table
  score_contributions :: "(string \<times> contribution) list"

definition exact_contributions :: "component_table \<Rightarrow> component_table \<Rightarrow> decimal list res" where
  "exact_contributions cs ws = map_res (\<lambda>(c, w). multiply_decimal c w) (zip (map snd cs) (map snd ws))"

definition calculate_weighted_trust_score :: "js \<Rightarrow> js \<Rightarrow> weighted_score res" where
  "calculate_weighted_trust_score component_values configuration =
     and_then (define_normalized_components component_values) (\<lambda>cs.
     and_then (define_trust_model_configuration configuration) (\<lambda>model.
     and_then (exact_contributions cs (model_weights model)) (\<lambda>ds.
       let score = rounded_number (sum_decimals ds) 2
       in if score < normalized_minimum \<or> normalized_maximum < score then Inl RangeErrorThrown
          else Inr \<lparr> score_model_version = model_version model, weighted_value = score,
                     score_components = cs, score_weights = model_weights model,
                     score_contributions =
                       map (\<lambda>((k, c), (_, w), d).
                              (k, \<lparr> normalized_value = c, contribution_weight = w,
                                    weighted_contribution = rounded_number d 6 \<rparr>))
                         (zip cs (zip (model_weights model) ds)) \<rparr>)))"

section \<open>What the arithmetic computes\<close>

lemma read_pad_pos [simp]: "read_pos 0 (pad_zeros w s) = read_pos 0 s"
  by (simp add: pad_zeros_def read_pos_append)

lemma read_take_drop:
  "n \<le> length s \<Longrightarrow> (of_int (read_pos 0 (take n s)) + of_int (read_pos 0 (drop n s)) / 10 ^ length (drop n s) :: rat)
     = of_int (read_pos 0 s) / 10 ^ (length s - n)"
proof -
  assume n: "n \<le> length s"
  have "read_pos 0 s = read_pos (read_pos 0 (take n s)) (drop n s)"
    by (metis append_take_drop_id read_pos_append)
  also have "\<dots> = read_pos 0 (take n s) * 10 ^ (length s - n) + read_pos 0 (drop n s)"
    by (subst read_pos_acc) simp
  finally show ?thesis by (simp add: add_divide_distrib)
qed

lemma half_up_div:
  assumes "0 < D"
  shows "i div D + (if D \<le> i mod D * 2 then 1 else 0) = \<lfloor>(of_int i / of_int D + 1/2 :: rat)\<rfloor>"
proof -
  define q r where "q = i div D" and "r = i mod D"
  have i: "i = q * D + r" and r: "0 \<le> r" "r < D" using assms by (simp_all add: q_def r_def)
  have D: "(0::rat) < of_int D" using assms by simp
  have x: "(of_int i / of_int D :: rat) = of_int q + of_int r / of_int D"
    using D by (simp add: i add_divide_distrib)
  define t where "t = (of_int r / of_int D :: rat)"
  have t: "0 \<le> t" "t < 1" using r D by (simp_all add: t_def)
  have "1/2 \<le> t \<longleftrightarrow> (of_int D :: rat) \<le> of_int (r * 2)" using D by (simp add: t_def pos_le_divide_eq mult.commute)
  also have "\<dots> \<longleftrightarrow> D \<le> r * 2" by (simp only: of_int_le_iff)
  finally have half: "1/2 \<le> t \<longleftrightarrow> D \<le> r * 2" .
  have "\<lfloor>of_int q + t + 1/2\<rfloor> = q + (if D \<le> r * 2 then 1 else 0)"
  proof (cases "D \<le> r * 2")
    case True
    then show ?thesis using t half by (intro floor_unique) auto
  next
    case False
    then show ?thesis using t half by (intro floor_unique) auto
  qed
  then show ?thesis by (simp add: x t_def q_def r_def)
qed

lemma rounded_integer_eq:
  assumes "0 \<le> dec_scale v" "0 \<le> places"
  shows "rounded_integer v places = \<lfloor>dec_value v * 10 ^ nat places + 1/2\<rfloor>"
proof (cases "places < dec_scale v")
  case True
  define D where "D = (10::int) ^ nat (dec_scale v - places)"
  have D: "0 < D" by (simp add: D_def)
  have "nat (dec_scale v) = nat (dec_scale v - places) + nat places" using True assms by simp
  then have "(10::rat) ^ nat (dec_scale v) = of_int D * 10 ^ nat places" by (simp add: D_def power_add)
  then have "dec_value v * 10 ^ nat places = of_int (dec_integer v) / of_int D" by (simp add: dec_value_def)
  then show ?thesis using True half_up_div[OF D, of "dec_integer v"]
    by (simp add: rounded_integer_def Let_def D_def)
next
  case False
  then have "nat places = nat (places - dec_scale v) + nat (dec_scale v)" using assms by simp
  then have "(10::rat) ^ nat places = 10 ^ nat (places - dec_scale v) * 10 ^ nat (dec_scale v)" by (simp add: power_add)
  then have e: "dec_value v * 10 ^ nat places = of_int (dec_integer v * 10 ^ nat (places - dec_scale v))"
    by (simp add: dec_value_def)
  have "\<lfloor>(of_int k + 1/2 :: rat)\<rfloor> = k" for k by (rule floor_unique) auto
  moreover have "rounded_integer v places = dec_integer v * 10 ^ nat (places - dec_scale v)"
    using False by (simp add: rounded_integer_def)
  ultimately show ?thesis by (simp only: e)
qed

lemma rounded_number_eq:
  assumes "0 \<le> dec_scale v" "0 \<le> dec_integer v"
  shows "rounded_number v p = rnd64 (of_int \<lfloor>dec_value v * 10 ^ p + 1/2\<rfloor> / 10 ^ p)"
proof -
  define r where "r = rounded_integer v (int p)"
  have r: "r = \<lfloor>dec_value v * 10 ^ p + 1/2\<rfloor>" using rounded_integer_eq[OF assms(1), of "int p"] by (simp add: r_def)
  have "0 \<le> dec_value v" using assms by (simp add: dec_value_def)
  then have r0: "0 \<le> r" by (simp add: r)
  define ds where "ds = pad_zeros (p + 1) (show_pos r)"
  have len: "p \<le> length ds" by (simp add: ds_def pad_zeros_def)
  have "rounded_number v p = rnd64 (of_int (read_pos 0 (take (length ds - p) ds))
      + of_int (read_pos 0 (drop (length ds - p) ds)) / 10 ^ length (drop (length ds - p) ds))"
    by (simp only: rounded_number_def Let_def r_def ds_def)
  also have "\<dots> = rnd64 (of_int (read_pos 0 ds) / 10 ^ p)"
    by (subst read_take_drop) (use len in simp_all)
  also have "read_pos 0 ds = r" using r0 by (simp add: ds_def)
  finally show ?thesis by (simp add: r)
qed

lemma sum_decimals_value:
  assumes "\<forall>d \<in> set ds. 0 \<le> dec_scale d"
  shows "dec_value (sum_decimals ds) = sum_list (map dec_value ds)" "0 \<le> dec_scale (sum_decimals ds)"
proof -
  define m where "m = foldr max (map dec_scale ds) 0"
  have m: "dec_scale d \<le> m" if "d \<in> set ds" for d
    using that unfolding m_def by (induction ds) auto
  have m0: "0 \<le> m" unfolding m_def by (induction ds) auto
  have one: "(of_int (dec_integer d * 10 ^ nat (m - dec_scale d)) :: rat) / 10 ^ nat m = dec_value d" if "d \<in> set ds" for d
  proof -
    have "nat m = nat (m - dec_scale d) + nat (dec_scale d)" using m[OF that] assms that by auto
    then have "(10::rat) ^ nat m = 10 ^ nat (m - dec_scale d) * 10 ^ nat (dec_scale d)" by (simp add: power_add)
    then show ?thesis by (simp add: dec_value_def)
  qed
  have "(of_int (sum_list (map (\<lambda>d. dec_integer d * 10 ^ nat (m - dec_scale d)) xs)) :: rat) / 10 ^ nat m
      = sum_list (map dec_value xs)" if "set xs \<subseteq> set ds" for xs
    using that
  proof (induction xs)
    case (Cons x xs)
    then show ?case using one[of x] by (simp add: add_divide_distrib)
  qed simp
  then show "dec_value (sum_decimals ds) = sum_list (map dec_value ds)"
    by (simp add: sum_decimals_def dec_value_def[of "\<lparr>dec_integer = _, dec_scale = _\<rparr>"] Let_def flip: m_def)
  show "0 \<le> dec_scale (sum_decimals ds)" using m0 by (simp add: sum_decimals_def m_def Let_def)
qed

section \<open>The exact decimal of a component\<close>

text \<open>The value that the text of a number denotes.\<close>

definition text_value :: "rat \<Rightarrow> rat" where
  "text_value x = (case decimal_parts x of Inr d \<Rightarrow> dec_value d | Inl _ \<Rightarrow> 0)"

definition binary64 :: "rat \<Rightarrow> bool" where
  "binary64 x \<longleftrightarrow> rnd64 x = x"

lemma text_value_sound:
  assumes "binary64 x" "0 \<le> x"
  shows "\<exists>d. decimal_parts x = Inr d \<and> 0 \<le> dec_integer d \<and> 0 \<le> dec_scale d \<and> dec_value d = text_value x"
    "rnd64 (text_value x) = x" "0 \<le> text_value x"
  using decimal_parts_sound[of x] assms by (auto simp: binary64_def text_value_def dec_value_def)

lemma text_value_near:
  assumes "binary64 x" "0 \<le> x" "x \<le> 100"
  shows "x - 1 / 2 ^ 45 \<le> text_value x" "text_value x \<le> x + 1 / 2 ^ 45"
proof -
  define D where "D = text_value x"
  have D: "rnd64 D = x" "0 \<le> D" using text_value_sound(2,3)[OF assms(1,2)] by (simp_all add: D_def)
  have "\<bar>x - D\<bar> \<le> D / 2 ^ 53 + 1 / 2 ^ 60" using double.err[of D] D by simp
  then have e: "x - D \<le> D / 2 ^ 53 + 1 / 2 ^ 60" "D - x \<le> D / 2 ^ 53 + 1 / 2 ^ 60"
    by (auto simp: abs_if split: if_splits)
  have "D \<le> 101" using e(2) assms(3) by simp
  then show "x - 1 / 2 ^ 45 \<le> text_value x" "text_value x \<le> x + 1 / 2 ^ 45"
    unfolding D_def[symmetric] using e by simp_all
qed

lemma text_value_mono:
  assumes "binary64 x" "binary64 y" "0 \<le> x" "x \<le> y"
  shows "text_value x \<le> text_value y"
proof (rule ccontr)
  assume n: "\<not> ?thesis"
  from n have "rnd64 (text_value y) \<le> rnd64 (text_value x)" by (intro double.mono) simp
  then have "y \<le> x" using text_value_sound(2) assms by simp
  then have "x = y" using assms(4) by simp
  then show False using n by simp
qed

lemma multiply_decimal_value:
  assumes "binary64 x" "binary64 y" "0 \<le> x" "0 \<le> y"
  shows "\<exists>d. multiply_decimal x y = Inr d \<and> dec_value d = text_value x * text_value y
    \<and> 0 \<le> dec_scale d \<and> 0 \<le> dec_integer d"
proof -
  obtain a b where a: "decimal_parts x = Inr a" "0 \<le> dec_integer a" "0 \<le> dec_scale a" "dec_value a = text_value x"
    and b: "decimal_parts y = Inr b" "0 \<le> dec_integer b" "0 \<le> dec_scale b" "dec_value b = text_value y"
    using text_value_sound(1)[OF assms(1,3)] text_value_sound(1)[OF assms(2,4)] by blast
  have "dec_value \<lparr> dec_integer = dec_integer a * dec_integer b, dec_scale = dec_scale a + dec_scale b \<rparr>
      = dec_value a * dec_value b"
    unfolding dec_value_def using a(3) b(3) by (simp add: nat_add_distrib power_add)
  then show ?thesis using a b by (simp add: multiply_decimal_def)
qed

definition text_mean :: "component_table \<Rightarrow> component_table \<Rightarrow> rat" where
  "text_mean cs ws = (\<Sum>(c, w) \<leftarrow> zip (map snd cs) (map snd ws). text_value c * text_value w)"

definition real_mean :: "component_table \<Rightarrow> component_table \<Rightarrow> rat" where
  "real_mean cs ws = (\<Sum>(c, w) \<leftarrow> zip (map snd cs) (map snd ws). c * w)"

definition binary64_table :: "component_table \<Rightarrow> bool" where
  "binary64_table t \<longleftrightarrow> list_all (\<lambda>(k, x). binary64 x) t"

lemma map_res_decimals:
  assumes "\<forall>(c, w) \<in> set ps. \<exists>d. f (c, w) = Inr d \<and> dec_value d = g c w \<and> 0 \<le> dec_scale d \<and> 0 \<le> dec_integer d"
  shows "\<exists>ds. map_res f ps = Inr ds \<and> map dec_value ds = map (\<lambda>(c, w). g c w) ps
    \<and> (\<forall>d \<in> set ds. 0 \<le> dec_scale d \<and> 0 \<le> dec_integer d)"
  using assms by (induction ps) force+

lemma weighted_value_eq:
  assumes "binary64_table cs" "binary64_table ws" "valid_components cs" "valid_weights ws"
  shows "\<exists>ds. exact_contributions cs ws = Inr ds
    \<and> rounded_number (sum_decimals ds) 2 = rnd64 (of_int \<lfloor>text_mean cs ws * 100 + 1/2\<rfloor> / 100)"
proof -
  have c: "binary64 x \<and> 0 \<le> x" if "x \<in> set (map snd cs)" for x
    using that assms(1,3) by (auto simp: binary64_table_def valid_components_def list_all_iff)
  have w: "binary64 x \<and> 0 \<le> x" if "x \<in> set (map snd ws)" for x
    using that assms(2,4) by (auto simp: binary64_table_def valid_weights_def list_all_iff)
  have cw: "binary64 x \<and> 0 \<le> x \<and> binary64 y \<and> 0 \<le> y" if "(x, y) \<in> set (zip (map snd cs) (map snd ws))" for x y
    using c[OF set_zip_leftD[OF that]] w[OF set_zip_rightD[OF that]] by blast
  have "\<forall>(c, w) \<in> set (zip (map snd cs) (map snd ws)). \<exists>d. (\<lambda>(c, w). multiply_decimal c w) (c, w) = Inr d
      \<and> dec_value d = text_value c * text_value w \<and> 0 \<le> dec_scale d \<and> 0 \<le> dec_integer d"
  proof (rule ballI)
    fix z
    assume z: "z \<in> set (zip (map snd cs) (map snd ws))"
    obtain x y where xy: "z = (x, y)" by (cases z)
    from cw[OF z[unfolded xy]] show "case z of (c, w) \<Rightarrow> \<exists>d. (\<lambda>(c, w). multiply_decimal c w) (c, w) = Inr d
      \<and> dec_value d = text_value c * text_value w \<and> 0 \<le> dec_scale d \<and> 0 \<le> dec_integer d"
      using multiply_decimal_value[of x y] by (simp add: xy)
  qed
  from map_res_decimals[OF this] obtain ds where ds: "exact_contributions cs ws = Inr ds"
    "map dec_value ds = map (\<lambda>(c, w). text_value c * text_value w) (zip (map snd cs) (map snd ws))"
    "\<forall>d \<in> set ds. 0 \<le> dec_scale d \<and> 0 \<le> dec_integer d"
    unfolding exact_contributions_def by blast
  then have "dec_value (sum_decimals ds) = text_mean cs ws"
    by (subst sum_decimals_value(1)) (auto simp: text_mean_def)
  moreover have "0 \<le> dec_scale (sum_decimals ds)" using ds(3) by (intro sum_decimals_value(2)) simp
  moreover have "0 \<le> dec_integer (sum_decimals ds)" using ds(3)
    by (auto simp: sum_decimals_def Let_def intro!: sum_list_nonneg)
  ultimately show ?thesis using rounded_number_eq[of "sum_decimals ds" 2] ds(1) by simp
qed

lemma product_near:
  assumes "0 \<le> c" "c \<le> 100" "0 \<le> w" "w \<le> 1" "c - e \<le> C" "C \<le> c + e" "w - e \<le> W" "W \<le> w + e" "0 \<le> C" "0 \<le> W"
    "0 \<le> e" "e \<le> (1::rat)"
  shows "c * w - 104 * e \<le> C * W" "C * W \<le> c * w + 104 * e"
proof -
  have a: "C * W \<le> (c + e) * (w + e)" using assms by (intro mult_mono) auto
  have "c * e \<le> 100 * e" "e * w \<le> e * 1" "e * e \<le> e * 1" using assms by (intro mult_right_mono mult_left_mono; simp)+
  then show "C * W \<le> c * w + 104 * e" using a assms(11) by (simp add: algebra_simps)
  have "c * w \<le> (C + e) * (W + e)" using assms by (intro mult_mono) auto
  moreover have "C * e \<le> 101 * e" using assms by (intro mult_right_mono) auto
  moreover have "e * W \<le> e * 1 + e * e" using mult_left_mono[of W "1 + e" e] assms by (simp add: algebra_simps)
  ultimately show "c * w - 104 * e \<le> C * W" using \<open>e * e \<le> e * 1\<close> assms(11) by (simp add: algebra_simps)
qed

text \<open>The exact sum over the texts is close to the real mean.\<close>

lemma text_mean_near:
  assumes "binary64_table cs" "binary64_table ws" "valid_components cs" "valid_weights ws"
  shows "real_mean cs ws - 1 / 2 ^ 35 \<le> text_mean cs ws" "text_mean cs ws \<le> real_mean cs ws + 1 / 2 ^ 35"
    "0 \<le> text_mean cs ws" "0 \<le> real_mean cs ws" "real_mean cs ws \<le> 100 * exact_total ws"
proof -
  obtain a b c d e where ws: "ws = [(''identity'', a), (''device'', b), (''behaviour'', c), (''certificate'', d), (''compliance'', e)]"
    using assms(4) by (auto simp: valid_weights_def trust_component_ids_def)
  obtain p q r s t where cs: "cs = [(''identity'', p), (''device'', q), (''behaviour'', r), (''certificate'', s), (''compliance'', t)]"
    using assms(3) by (auto simp: valid_components_def trust_component_ids_def)
  have w: "0 \<le> x \<and> x \<le> 1 \<and> binary64 x" if "x \<in> {a, b, c, d, e}" for x
    using that assms(2,4) by (auto simp: valid_weights_def ws binary64_table_def)
  have v: "0 \<le> x \<and> x \<le> 100 \<and> binary64 x" if "x \<in> {p, q, r, s, t}" for x
    using that assms(1,3) by (auto simp: valid_components_def cs binary64_table_def)
  have near: "x * y - 1 / 2 ^ 38 \<le> text_value x * text_value y \<and> text_value x * text_value y \<le> x * y + 1 / 2 ^ 38
      \<and> 0 \<le> text_value x * text_value y \<and> 0 \<le> x * y \<and> x * y \<le> 100 * y"
    if "x \<in> {p, q, r, s, t}" "y \<in> {a, b, c, d, e}" for x y
  proof -
    have x: "0 \<le> x" "x \<le> 100" "binary64 x" and y: "0 \<le> y" "y \<le> 1" "binary64 y"
      using v[OF that(1)] w[OF that(2)] by auto
    have y': "y \<le> 100" using y by simp
    note nx = text_value_near[OF x(3,1,2)] and ny = text_value_near[OF y(3,1) y']
    note pos = text_value_sound(3)[OF x(3,1)] text_value_sound(3)[OF y(3,1)]
    note pn = product_near[OF x(1,2) y(1,2) nx ny pos]
    have "x * y - 1 / 2 ^ 38 \<le> text_value x * text_value y" "text_value x * text_value y \<le> x * y + 1 / 2 ^ 38"
      using pn by simp_all
    moreover have "x * y \<le> 100 * y" using x y by (intro mult_right_mono) auto
    ultimately show ?thesis using pos x y by simp
  qed
  define P where "P = [text_value p * text_value a, text_value q * text_value b, text_value r * text_value c,
      text_value s * text_value d, text_value t * text_value e]"
  have n: "p * a - 1 / 2 ^ 38 \<le> P ! 0" "P ! 0 \<le> p * a + 1 / 2 ^ 38" "0 \<le> P ! 0" "0 \<le> p * a" "p * a \<le> 100 * a"
    "q * b - 1 / 2 ^ 38 \<le> P ! 1" "P ! 1 \<le> q * b + 1 / 2 ^ 38" "0 \<le> P ! 1" "0 \<le> q * b" "q * b \<le> 100 * b"
    "r * c - 1 / 2 ^ 38 \<le> P ! 2" "P ! 2 \<le> r * c + 1 / 2 ^ 38" "0 \<le> P ! 2" "0 \<le> r * c" "r * c \<le> 100 * c"
    "s * d - 1 / 2 ^ 38 \<le> P ! 3" "P ! 3 \<le> s * d + 1 / 2 ^ 38" "0 \<le> P ! 3" "0 \<le> s * d" "s * d \<le> 100 * d"
    "t * e - 1 / 2 ^ 38 \<le> P ! 4" "P ! 4 \<le> t * e + 1 / 2 ^ 38" "0 \<le> P ! 4" "0 \<le> t * e" "t * e \<le> 100 * e"
    using near[of p a] near[of q b] near[of r c] near[of s d] near[of t e] unfolding P_def by simp_all
  have tm: "text_mean cs ws = P ! 0 + P ! 1 + P ! 2 + P ! 3 + P ! 4" by (simp add: text_mean_def cs ws P_def)
  have rm: "real_mean cs ws = p * a + q * b + r * c + s * d + t * e" by (simp add: real_mean_def cs ws)
  have et: "exact_total ws = a + b + c + d + e" by (simp add: exact_total_def ws)
  show "real_mean cs ws - 1 / 2 ^ 35 \<le> text_mean cs ws" unfolding tm rm using n(1,6,11,16,21) by simp
  show "text_mean cs ws \<le> real_mean cs ws + 1 / 2 ^ 35" unfolding tm rm using n(2,7,12,17,22) by simp
  show "0 \<le> text_mean cs ws" unfolding tm using n(3,8,13,18,23) by simp
  show "0 \<le> real_mean cs ws" unfolding rm using n(4,9,14,19,24) by simp
  show "real_mean cs ws \<le> 100 * exact_total ws" unfolding rm et using n(5,10,15,20,25) by simp
qed

section \<open>Properties\<close>

lemma floor_hundredths:
  assumes "0 \<le> v" "v \<le> 100 + 1 / 512"
  shows "0 \<le> \<lfloor>v * 100 + 1/2\<rfloor>" "\<lfloor>v * 100 + 1/2\<rfloor> \<le> 10000"
  using assms by (simp_all add: floor_le_iff)

lemma rounded_hundredths:
  assumes "0 \<le> v" "v \<le> 100 + 1 / 512"
  defines "x \<equiv> rnd64 (of_int \<lfloor>v * 100 + 1/2\<rfloor> / 100)"
  shows "0 \<le> x" "x \<le> 100" "v - 1 / 200 - 1 / 2 ^ 38 \<le> x" "x \<le> v + 1 / 200 + 1 / 2 ^ 38"
proof -
  note f = floor_hundredths[OF assms(1,2)]
  show "0 \<le> x" "x \<le> 100" unfolding x_def using double.hundredth_range[OF f] .
  define k where "k = \<lfloor>v * 100 + 1/2\<rfloor>"
  have k: "of_int k \<le> v * 100 + 1/2" "v * 100 + 1/2 < of_int k + 1" unfolding k_def by (simp, linarith)
  define q where "q = (of_int k / 100 :: rat)"
  have q: "v - 1 / 200 \<le> q" "q \<le> v + 1 / 200" using k by (simp_all add: q_def)
  have "- 10001 \<le> q" "q \<le> 10001" using q assms by simp_all
  note r = abs_rnd_near[OF this]
  have x: "x = rnd64 q" by (simp only: x_def q_def k_def)
  show "v - 1 / 200 - 1 / 2 ^ 38 \<le> x" "x \<le> v + 1 / 200 + 1 / 2 ^ 38" unfolding x using r q by simp_all
qed

lemma text_mean_range:
  assumes "binary64_table cs" "binary64_table ws" "valid_components cs" "valid_weights ws"
  shows "0 \<le> text_mean cs ws" "text_mean cs ws \<le> 100 + 1 / 512"
proof -
  note n = text_mean_near[OF assms]
  have "exact_total ws \<le> 1 + 1 / 10 ^ 11" using weight_total_err[OF assms(4)] unfolding abs_le_iff by simp
  then show "text_mean cs ws \<le> 100 + 1 / 512" using n(2,5) by simp
  show "0 \<le> text_mean cs ws" by (rule n(3))
qed

lemma calculate_score:
  assumes "define_normalized_components cv = Inr cs" "define_trust_model_configuration conf = Inr model"
    and "binary64_table cs" "binary64_table (model_weights model)"
  shows "\<exists>r. calculate_weighted_trust_score cv conf = Inr r
    \<and> weighted_value r = rnd64 (of_int \<lfloor>text_mean cs (model_weights model) * 100 + 1/2\<rfloor> / 100)
    \<and> score_components r = cs \<and> score_weights r = model_weights model"
proof -
  have v: "valid_components cs" "valid_weights (model_weights model)"
    using components_valid[OF assms(1)] configuration_valid[OF assms(2)] by (simp_all add: valid_configuration_def)
  obtain ds where ds: "exact_contributions cs (model_weights model) = Inr ds"
    "rounded_number (sum_decimals ds) 2 = rnd64 (of_int \<lfloor>text_mean cs (model_weights model) * 100 + 1/2\<rfloor> / 100)"
    using weighted_value_eq[OF assms(3,4) v] by blast
  note range = rounded_hundredths(1,2)[OF text_mean_range[OF assms(3,4) v]]
  show ?thesis using assms(1,2) ds range
    by (simp add: calculate_weighted_trust_score_def Let_def normalized_minimum_def normalized_maximum_def)
qed


abbreviation example_components :: "rat \<Rightarrow> component_table" where
  "example_components x \<equiv>
     [(''identity'', x), (''device'', 80), (''behaviour'', 50), (''certificate'', 0), (''compliance'', 100)]"

lemma example_model:
  "define_trust_model_configuration (configuration_value initial_trust_model_configuration) = Inr initial_trust_model_configuration"
proof (rule configuration_roundtrip)
  have "is_model_version ''1.0.0''" by code_simp
  moreover have "valid_weights initial_trust_weights" by code_simp
  ultimately show "valid_configuration initial_trust_model_configuration"
    by (simp add: valid_configuration_def initial_trust_model_configuration_def)
qed

lemma rnd64_idem_decimal: "rnd64 (rnd64 (20/100)) = rnd64 (20/100)" "rnd64 (rnd64 (25/100)) = rnd64 (25/100)"
  "rnd64 (rnd64 (15/100)) = rnd64 (15/100)"
  by code_simp+

lemma example_binary64:
  "binary64_table (example_components 60)" "binary64_table (example_components 90)"
  "binary64_table (model_weights initial_trust_model_configuration)"
proof -
  have "rnd64 60 = 60" "rnd64 80 = 80" "rnd64 50 = 50" "rnd64 100 = 100" "rnd64 90 = 90" by code_simp+
  then show "binary64_table (example_components 60)" "binary64_table (example_components 90)"
    by (simp_all add: binary64_table_def binary64_def)
  show "binary64_table (model_weights initial_trust_model_configuration)"
    by (simp add: binary64_table_def binary64_def initial_trust_model_configuration_def initial_trust_weights_def
        rnd64_idem_decimal[simplified])
qed

lemma example_accepted:
  "0 \<le> x \<Longrightarrow> x \<le> 100 \<Longrightarrow> define_normalized_components (table_value (example_components x)) = Inr (example_components x)"
  by (rule components_roundtrip) (simp add: valid_components_def trust_component_ids_def)


text \<open>The score is monotone: raising any component, with the same model, never lowers it.\<close>

theorem weighted_score_mono:
  assumes "define_normalized_components cv = Inr cs" "define_normalized_components cv' = Inr cs'"
    and "define_trust_model_configuration conf = Inr model"
    and "binary64_table cs" "binary64_table cs'" "binary64_table (model_weights model)"
    and "list_all2 (\<lambda>(k, x) (k', x'). x \<le> x') cs cs'"
    and "calculate_weighted_trust_score cv conf = Inr r" "calculate_weighted_trust_score cv' conf = Inr r'"
  shows "weighted_value r \<le> weighted_value r'"
proof -
  have vs: "valid_components cs" "valid_components cs'" "valid_weights (model_weights model)"
    using components_valid[OF assms(1)] components_valid[OF assms(2)] configuration_valid[OF assms(3)]
    by (simp_all add: valid_configuration_def)
  have mono: "text_mean cs ws \<le> text_mean cs' ws" if "binary64_table ws" "list_all (\<lambda>(k, x). 0 \<le> x) ws" for ws
    using assms(7,4,5) vs(1,2)[unfolded valid_components_def, THEN conjunct2] that
  proof (induction cs cs' arbitrary: ws rule: list_all2_induct)
    case (Cons x xs y ys)
    show ?case
    proof (cases ws)
      case (Cons w ws')
      have "text_value (snd x) \<le> text_value (snd y)"
        using Cons.prems Cons.hyps(1) by (intro text_value_mono) (auto simp: binary64_table_def)
      moreover have "0 \<le> text_value (snd w)"
        using Cons.prems(5,6) Cons by (intro text_value_sound(3)) (auto simp: binary64_table_def)
      ultimately have "text_value (snd x) * text_value (snd w) \<le> text_value (snd y) * text_value (snd w)"
        by (rule mult_right_mono)
      moreover have "text_mean xs ws' \<le> text_mean ys ws'"
        using Cons.prems Cons by (intro Cons.IH) (auto simp: binary64_table_def)
      ultimately show ?thesis by (simp add: text_mean_def Cons)
    qed (simp add: text_mean_def)
  qed (simp add: text_mean_def)
  have "list_all (\<lambda>(k, x). 0 \<le> x) (model_weights model)"
    using vs(3) by (auto simp: valid_weights_def list_all_iff)
  from mono[OF assms(6) this]
  have "\<lfloor>text_mean cs (model_weights model) * 100 + 1/2\<rfloor> \<le> \<lfloor>text_mean cs' (model_weights model) * 100 + 1/2\<rfloor>"
    by (intro floor_mono) simp
  then have "rnd64 (of_int \<lfloor>text_mean cs (model_weights model) * 100 + 1/2\<rfloor> / 100)
      \<le> rnd64 (of_int \<lfloor>text_mean cs' (model_weights model) * 100 + 1/2\<rfloor> / 100)"
    by (intro double.mono divide_right_mono of_int_le_iff[THEN iffD2]) simp_all
  then show ?thesis
    using calculate_score[OF assms(1,3,4,6)] calculate_score[OF assms(2,3,5,6)] assms(8,9) by auto
qed

lemma weighted_score_mono_witness:
  "\<exists>r r'. calculate_weighted_trust_score (table_value (example_components 60))
         (configuration_value initial_trust_model_configuration) = Inr r
     \<and> calculate_weighted_trust_score (table_value (example_components 90))
         (configuration_value initial_trust_model_configuration) = Inr r'
     \<and> weighted_value r \<le> weighted_value r'"
proof -
  have a: "define_normalized_components (table_value (example_components 60)) = Inr (example_components 60)"
    "define_normalized_components (table_value (example_components 90)) = Inr (example_components 90)"
    by (rule example_accepted; simp)+
  obtain r r' where r: "calculate_weighted_trust_score (table_value (example_components 60))
         (configuration_value initial_trust_model_configuration) = Inr r"
      "calculate_weighted_trust_score (table_value (example_components 90))
         (configuration_value initial_trust_model_configuration) = Inr r'"
    using calculate_score[OF a(1) example_model example_binary64(1,3)]
      calculate_score[OF a(2) example_model example_binary64(2,3)] by blast
  have "list_all2 (\<lambda>(k, x) (k', x'). x \<le> x') (example_components 60) (example_components 90)" by simp
  from weighted_score_mono[OF a example_model example_binary64 this r] r show ?thesis by blast
qed

end
