(* ===== verification/TransitionControls.thy ===== *)
theory TransitionControls
  imports TrustModel
begin

text \<open>
  \<open>services/trust/src/trust-transition-controls.mjs\<close>: bands with hysteresis, the cap on a source's
  influence, corroborated recovery and critical-evidence overrides. The state is the triple the
  code persists between evaluations; it arrives as an untyped value and is validated again at
  every evaluation. The lemmas show that the states produced are the states accepted, how far a
  single source can move a score, and when a band can rise.
\<close>

section \<open>Configuration\<close>

datatype band = Low | Medium | High

fun band_id :: "band \<Rightarrow> string" where
  "band_id Low = ''low''"
| "band_id Medium = ''medium''"
| "band_id High = ''high''"

fun band_index :: "band \<Rightarrow> nat" where
  "band_index Low = 0"
| "band_index Medium = 1"
| "band_index High = 2"

definition band_of :: "js \<Rightarrow> band option" where
  "band_of v = (if v = JStr ''low'' then Some Low else if v = JStr ''medium'' then Some Medium
                else if v = JStr ''high'' then Some High else None)"

record transition_configuration =
  low_base_maximum :: rat
  low_recovery :: rat
  medium_base_maximum :: rat
  medium_deterioration :: rat
  medium_recovery :: rat
  high_deterioration :: rat
  consecutive_qualifying_evaluations :: int
  required_source_count :: nat
  score_range_points :: rat

definition default_transition_configuration :: transition_configuration where
  "default_transition_configuration =
     \<lparr> low_base_maximum = 40, low_recovery = 45, medium_base_maximum = 70, medium_deterioration = 35,
       medium_recovery = 75, high_deterioration = 65, consecutive_qualifying_evaluations = 2,
       required_source_count = 2, score_range_points = 100 \<rparr>"

abbreviation cfg :: transition_configuration where
  "cfg \<equiv> default_transition_configuration"

definition override_rule :: "string \<Rightarrow> rat \<Rightarrow> js" where
  "override_rule component c =
     obj [(''componentId'', JStr component), (''scoreCeiling'', num c), (''forcedBand'', JStr ''low'')]"

definition critical_evidence_override_rules :: js where
  "critical_evidence_override_rules =
     obj [(''identity-compromised'', override_rule ''identity'' 20),
          (''device-compromised'', override_rule ''device'' 20),
          (''account-takeover-pattern'', override_rule ''behaviour'' 20),
          (''certificate-revoked'', override_rule ''certificate'' 0),
          (''blocking-compliance-breach'', override_rule ''compliance'' 20)]"

section \<open>Validation of the inputs\<close>

record control_state =
  control_score :: rat
  control_band :: band
  control_streak :: int

record influence_source =
  source_id :: js
  source_influence :: rat
  corroborating_ids :: "js list"
  distinct_source_ids :: "js list"

record critical_evidence =
  critical_kind :: js
  critical_component :: js
  critical_rule :: js

definition control_fail :: "string \<Rightarrow> 'a res" where
  "control_fail r = throw TrustTransitionControlError r"

definition control_valid_score :: "js \<Rightarrow> bool" where
  "control_valid_score v \<longleftrightarrow> number_between 0 100 v"

definition control_round_score :: "rat \<Rightarrow> rat" where
  "control_round_score v =
     (let factor = 10 ^ 2
      in rnd64 (of_int \<lfloor>rnd64 (rnd64 (rnd64 (v + 1 / 2 ^ 52) * factor) + 1/2)\<rfloor> / factor))"

definition classify_base_band :: "rat \<Rightarrow> band" where
  "classify_base_band s =
     (if s < low_base_maximum cfg then Low
      else if s < medium_base_maximum cfg then Medium else High)"

fun recovery_threshold :: "band \<Rightarrow> rat option" where
  "recovery_threshold Low = Some (low_recovery cfg)"
| "recovery_threshold Medium = Some (medium_recovery cfg)"
| "recovery_threshold High = None"

definition normalize_previous_state :: "js \<Rightarrow> control_state res" where
  "normalize_previous_state v =
     (let score = num_of (get v ''score''); streak = \<lfloor>num_of (get v ''recoveryStreak'')\<rfloor>
      in if \<not> has_exact_keys v [''score'', ''band'', ''recoveryStreak'']
            \<or> \<not> control_valid_score (get v ''score'')
         then control_fail ''PREVIOUS_CONTROL_STATE_INVALID''
         else case band_of (get v ''band'') of
           None \<Rightarrow> control_fail ''PREVIOUS_CONTROL_STATE_INVALID''
         | Some b \<Rightarrow>
             if \<not> is_safe_integer (get v ''recoveryStreak'') \<or> streak < 0
                \<or> streak \<ge> consecutive_qualifying_evaluations cfg
                \<or> (b = High \<and> score < high_deterioration cfg)
                \<or> (b = Medium \<and> score < medium_deterioration cfg)
                \<or> (streak > 0 \<and> (case recovery_threshold b of None \<Rightarrow> True | Some t \<Rightarrow> score < t))
             then control_fail ''PREVIOUS_CONTROL_STATE_INVALID''
             else Inr \<lparr> control_score = score, control_band = b, control_streak = streak \<rparr>)"

definition is_source_id :: "string \<Rightarrow> bool" where
  "is_source_id = is_id ''src''"

definition normalize_source :: "js \<Rightarrow> influence_source res" where
  "normalize_source v =
     (if \<not> has_exact_keys v [''sourceId'', ''maximumInfluence'', ''corroboratingSourceIds'']
         \<or> \<not> re_test_or_empty is_source_id (get v ''sourceId'')
         \<or> \<not> is_finite (get v ''maximumInfluence'')
         \<or> num_of (get v ''maximumInfluence'') \<le> 0 \<or> 1 < num_of (get v ''maximumInfluence'')
         \<or> \<not> is_array (get v ''corroboratingSourceIds'')
         \<or> \<not> list_all (re_test is_source_id) (elements (get v ''corroboratingSourceIds''))
      then control_fail ''SOURCE_INFLUENCE_INVALID''
      else let ids = elements (get v ''corroboratingSourceIds'')
           in Inr \<lparr> source_id = get v ''sourceId'', source_influence = num_of (get v ''maximumInfluence''),
                    corroborating_ids = ids,
                    distinct_source_ids = sort_key to_string (set_of_values (get v ''sourceId'' # ids)) \<rparr>)"

text \<open>\<open>RULES[value.kind]\<close> reads any property of the table, the inherited ones included.\<close>

definition normalize_critical_evidence :: "js \<Rightarrow> critical_evidence option res" where
  "normalize_critical_evidence v =
     (if nullish v then Inr None
      else if \<not> has_exact_keys v [''kind'', ''componentId''] then control_fail ''CRITICAL_EVIDENCE_INVALID''
      else let rule = get critical_evidence_override_rules (to_string (get v ''kind''))
           in if \<not> truthy rule \<or> \<not> strict_eq (get rule ''componentId'') (get v ''componentId'')
              then control_fail ''CRITICAL_EVIDENCE_INVALID''
              else Inr (Some \<lparr> critical_kind = get v ''kind'',
                               critical_component = get v ''componentId'', critical_rule = rule \<rparr>))"

section \<open>Evaluation\<close>

fun deterioration_band :: "band \<Rightarrow> rat \<Rightarrow> band" where
  "deterioration_band previous s =
     (if s < medium_deterioration cfg then Low
      else if previous = High \<and> s < high_deterioration cfg then Medium
      else previous)"

fun next_recovery_band :: "band \<Rightarrow> band" where
  "next_recovery_band Low = Medium"
| "next_recovery_band Medium = High"
| "next_recovery_band High = High"

datatype transition_kind = CriticalOverride | Deteriorated | Recovered | HeldBand

record influence_report =
  reported_source :: js
  reported_influence :: rat
  maximum_delta_points :: rat
  requested_delta :: rat
  applied_delta :: js_num
  capped :: bool
  bypassed_for_critical :: bool

record recovery_report =
  recovery_eligible :: bool
  distinct_source_count :: nat
  required_distinct_sources :: nat
  qualifying_streak :: int
  required_streak :: int

record override_report =
  override_kind :: js
  override_component :: js
  override_ceiling :: js
  override_band :: js

record control_result =
  result_score :: js_num
  result_band :: js
  result_transition :: transition_kind
  result_streak :: int
  result_influence :: influence_report
  result_recovery :: recovery_report
  result_override :: "override_report option"

text \<open>The \<open>state\<close> field of a result, which the caller passes to the next evaluation.\<close>

definition result_state :: "control_result \<Rightarrow> js" where
  "result_state r =
     obj [(''score'', JNum (result_score r)), (''band'', result_band r),
          (''recoveryStreak'', num (of_int (result_streak r)))]"

definition state_value :: "control_state \<Rightarrow> js" where
  "state_value s =
     obj [(''score'', num (control_score s)), (''band'', JStr (band_id (control_band s))),
          (''recoveryStreak'', num (of_int (control_streak s)))]"

text \<open>\<open>Math.min\<close> of two scores and a ceiling that is missing from an inherited rule.\<close>

fun min_with_ceiling :: "rat \<Rightarrow> js \<Rightarrow> js_num" where
  "min_with_ceiling s (JNum (Fin c)) = Fin (min s c)"
| "min_with_ceiling s _ = NaN"

fun map_finite :: "(rat \<Rightarrow> rat) \<Rightarrow> js_num \<Rightarrow> js_num" where
  "map_finite f (Fin x) = Fin (f x)"
| "map_finite f n = n"

definition initialize_trust_control_state :: "js \<Rightarrow> control_state res" where
  "initialize_trust_control_state v =
     (if \<not> control_valid_score v then control_fail ''INITIAL_CONTROL_SCORE_INVALID''
      else Inr \<lparr> control_score = num_of v, control_band = classify_base_band (num_of v), control_streak = 0 \<rparr>)"

definition build_result ::
  "control_state \<Rightarrow> influence_source \<Rightarrow> rat \<Rightarrow> rat \<Rightarrow> rat \<Rightarrow> band \<Rightarrow> transition_kind \<Rightarrow> int \<Rightarrow> bool \<Rightarrow> control_result" where
  "build_result previous source requested maximum score b transition streak eligible =
     \<lparr> result_score = Fin score, result_band = JStr (band_id b), result_transition = transition,
       result_streak = streak,
       result_influence =
         \<lparr> reported_source = source_id source, reported_influence = source_influence source,
           maximum_delta_points = maximum, requested_delta = control_round_score requested,
           applied_delta = Fin (control_round_score (rnd64 (score - control_score previous))),
           capped = (maximum < \<bar>requested\<bar>), bypassed_for_critical = False \<rparr>,
       result_recovery =
         \<lparr> recovery_eligible = eligible, distinct_source_count = length (distinct_source_ids source),
           required_distinct_sources = required_source_count cfg, qualifying_streak = streak,
           required_streak = consecutive_qualifying_evaluations cfg \<rparr>,
       result_override = None \<rparr>"

definition critical_result ::
  "control_state \<Rightarrow> rat \<Rightarrow> influence_source \<Rightarrow> critical_evidence \<Rightarrow> rat \<Rightarrow> rat \<Rightarrow> control_result" where
  "critical_result previous candidate source critical requested maximum =
     (let limit = get (critical_rule critical) ''scoreCeiling'';
          forced = get (critical_rule critical) ''forcedBand'';
          score = map_finite control_round_score
                    (min_with_ceiling (min (control_score previous) candidate) limit)
      in \<lparr> result_score = score, result_band = forced, result_transition = CriticalOverride,
           result_streak = 0,
           result_influence =
             \<lparr> reported_source = source_id source, reported_influence = source_influence source,
               maximum_delta_points = maximum, requested_delta = control_round_score requested,
               applied_delta =
                 map_finite (\<lambda>s. control_round_score (rnd64 (s - control_score previous))) score,
               capped = False, bypassed_for_critical = True \<rparr>,
           result_recovery =
             \<lparr> recovery_eligible = False, distinct_source_count = length (distinct_source_ids source),
               required_distinct_sources = required_source_count cfg, qualifying_streak = 0,
               required_streak = consecutive_qualifying_evaluations cfg \<rparr>,
           result_override =
             Some \<lparr> override_kind = critical_kind critical, override_component = critical_component critical,
                    override_ceiling = limit, override_band = forced \<rparr> \<rparr>)"

definition evaluate_controls ::
  "control_state \<Rightarrow> rat \<Rightarrow> influence_source \<Rightarrow> critical_evidence option \<Rightarrow> control_result" where
  "evaluate_controls previous candidate source critical =
     (let requested = rnd64 (candidate - control_score previous);
          maximum = control_round_score (rnd64 (source_influence source * score_range_points cfg));
          bounded = max (- maximum) (min maximum requested);
          score = control_round_score (rnd64 (control_score previous + bounded))
      in case critical of
           Some c \<Rightarrow> critical_result previous candidate source c requested maximum
         | None \<Rightarrow>
             let lower = deterioration_band (control_band previous) score
             in if band_index lower < band_index (control_band previous)
                then build_result previous source requested maximum score lower Deteriorated 0 False
                else
                  let enough = required_source_count cfg \<le> length (distinct_source_ids source);
                      eligible = (case recovery_threshold (control_band previous) of
                                    None \<Rightarrow> False | Some t \<Rightarrow> t \<le> score \<and> enough);
                      streak = (if eligible then control_streak previous + 1 else 0);
                      recovered = (consecutive_qualifying_evaluations cfg \<le> streak)
                  in build_result previous source requested maximum score
                       (if recovered then next_recovery_band (control_band previous)
                        else control_band previous)
                       (if recovered then Recovered else HeldBand)
                       (if recovered then 0 else streak) eligible)"

definition apply_trust_transition_controls :: "js \<Rightarrow> js \<Rightarrow> js \<Rightarrow> js \<Rightarrow> control_result res" where
  "apply_trust_transition_controls previous candidate source critical =
     and_then (normalize_previous_state previous) (\<lambda>p.
       if \<not> control_valid_score candidate then control_fail ''CANDIDATE_SCORE_INVALID''
       else and_then (normalize_source source) (\<lambda>s.
            and_then (normalize_critical_evidence critical) (\<lambda>c.
              Inr (evaluate_controls p (num_of candidate) s c))))"

section \<open>The state invariant\<close>

definition valid_control_state :: "control_state \<Rightarrow> bool" where
  "valid_control_state s \<longleftrightarrow>
     0 \<le> control_score s \<and> control_score s \<le> 100
     \<and> (control_streak s = 0 \<or> control_streak s = 1)
     \<and> (control_band s = High \<longrightarrow> 65 \<le> control_score s)
     \<and> (control_band s = Medium \<longrightarrow> 35 \<le> control_score s)
     \<and> (control_streak s = 1 \<longrightarrow>
          control_band s = Low \<and> 45 \<le> control_score s \<or> control_band s = Medium \<and> 75 \<le> control_score s)"

lemmas config_simps = default_transition_configuration_def

lemma control_round_score_eq: "control_round_score = round_score_with rnd64"
  by (simp add: fun_eq_iff control_round_score_def round_score_with_def)

lemma band_of_id [simp]: "band_of (JStr (band_id b)) = Some b"
  by (cases b) (simp_all add: band_of_def)

lemma band_of_names [simp]:
  "band_of (JStr ''low'') = Some Low" "band_of (JStr ''medium'') = Some Medium"
  "band_of (JStr ''high'') = Some High"
  by (simp_all add: band_of_def)

lemma band_of_Some: "band_of v = Some b \<Longrightarrow> v = JStr (band_id b)"
  by (auto simp: band_of_def split: if_splits)

lemma is_safe_integer_int: "\<bar>k\<bar> < 2 ^ 53 \<Longrightarrow> is_safe_integer (num (of_int k))"
proof -
  assume "\<bar>k\<bar> < 2 ^ 53"
  then have "\<bar>k\<bar> \<le> 2 ^ 53 - 1" by simp
  then have "(of_int \<bar>k\<bar> :: rat) \<le> of_int (2 ^ 53 - 1)" by (simp only: of_int_le_iff)
  then show ?thesis by (simp add: is_safe_integer_def is_integer_rat_def max_safe_integer_def)
qed

lemma previous_state_valid:
  assumes "normalize_previous_state v = Inr s"
  shows "valid_control_state s"
proof -
  obtain b where b: "band_of (get v ''band'') = Some b"
    using assms by (auto simp: normalize_previous_state_def control_fail_def Let_def
        split: if_splits option.splits)
  have s: "s = \<lparr> control_score = num_of (get v ''score''), control_band = b,
      control_streak = \<lfloor>num_of (get v ''recoveryStreak'')\<rfloor> \<rparr>"
    using assms b by (auto simp: normalize_previous_state_def control_fail_def Let_def split: if_splits)
  have streak: "control_streak s = 0 \<or> control_streak s = 1"
  proof -
    define k where "k = \<lfloor>num_of (get v ''recoveryStreak'')\<rfloor>"
    have "\<not> k < 0 \<and> \<not> k \<ge> 2"
      using assms b by (auto simp: normalize_previous_state_def control_fail_def Let_def config_simps
          k_def[symmetric] simp del: floor_less_zero zero_le_floor split: if_splits)
    then show ?thesis by (auto simp: s k_def[symmetric])
  qed
  have rest: "0 \<le> control_score s \<and> control_score s \<le> 100
     \<and> (control_band s = High \<longrightarrow> 65 \<le> control_score s)
     \<and> (control_band s = Medium \<longrightarrow> 35 \<le> control_score s)
     \<and> (0 < control_streak s \<longrightarrow> (case recovery_threshold b of None \<Rightarrow> False | Some t \<Rightarrow> t \<le> control_score s))"
    using assms b s
    by (auto simp: normalize_previous_state_def control_fail_def Let_def config_simps not_less
        control_valid_score_def number_between_def not_le split: if_splits option.splits)
  have bs: "control_band s = b" by (simp add: s)
  show ?thesis
    using streak rest bs by (cases b) (auto simp: valid_control_state_def config_simps)
qed

lemma state_value_keys: "has_exact_keys (state_value s) [''score'', ''band'', ''recoveryStreak'']"
  by (simp add: state_value_def has_exact_keys_def)

lemma state_value_get [simp]:
  "get (state_value s) ''score'' = num (control_score s)"
  "get (state_value s) ''band'' = JStr (band_id (control_band s))"
  "get (state_value s) ''recoveryStreak'' = num (of_int (control_streak s))"
  by (simp_all add: state_value_def)

lemma previous_state_roundtrip:
  assumes "valid_control_state s"
  shows "normalize_previous_state (state_value s) = Inr s"
proof -
  have i: "is_safe_integer (num (of_int (control_streak s)))"
    by (rule is_safe_integer_int) (use assms in \<open>auto simp: valid_control_state_def\<close>)
  have v: "control_valid_score (num (control_score s))"
    using assms by (simp add: control_valid_score_def number_between_def is_finite_def valid_control_state_def)
  show ?thesis
    unfolding normalize_previous_state_def state_value_get Let_def num_of.simps band_of_id option.case floor_of_int
    using assms i v state_value_keys[of s]
    by (cases "control_band s") (auto simp: config_simps valid_control_state_def)
qed

lemma initial_state_valid:
  "initialize_trust_control_state v = Inr s \<Longrightarrow> valid_control_state s"
  by (auto simp: initialize_trust_control_state_def control_fail_def valid_control_state_def config_simps
      classify_base_band_def control_valid_score_def number_between_def split: if_splits)

section \<open>Bounds on a step\<close>

definition valid_source :: "influence_source \<Rightarrow> bool" where
  "valid_source s \<longleftrightarrow> 0 < source_influence s \<and> source_influence s \<le> 1"

lemma source_valid: "normalize_source v = Inr s \<Longrightarrow> valid_source s"
  by (auto simp: normalize_source_def control_fail_def valid_source_def Let_def split: if_splits)

text \<open>The cap of a source in points is its influence times 100, up to the rounding to two decimals.\<close>

definition cap_points :: "influence_source \<Rightarrow> rat" where
  "cap_points s = control_round_score (rnd64 (source_influence s * score_range_points cfg))"

lemma cap_points_bounds:
  assumes "valid_source s"
  shows "0 \<le> cap_points s" "cap_points s \<le> 100"
    "cap_points s \<le> 100 * source_influence s + 1 / 200 + 1 / 2 ^ 19"
proof -
  define x where "x = source_influence s * 100"
  define y where "y = rnd64 x"
  have x: "0 \<le> x" "x \<le> 100" using assms by (simp_all add: x_def valid_source_def)
  have y: "x - 1 / 2 ^ 38 \<le> y" "y \<le> x + 1 / 2 ^ 38"
    unfolding y_def using x by (intro abs_rnd_near; simp)+
  have eq: "cap_points s = round_score_with rnd64 y"
    by (simp add: cap_points_def control_round_score_eq config_simps x_def y_def)
  have r: "- 1 / 512 \<le> y" "y \<le> 100 + 1 / 512" "y \<le> 101" using x y by simp_all
  show "0 \<le> cap_points s" "cap_points s \<le> 100"
    unfolding eq using double.score_range[OF r(1,2)] .
  show "cap_points s \<le> 100 * source_influence s + 1 / 200 + 1 / 2 ^ 19"
    unfolding eq using double.score_error(2)[OF r(1,3)] y(2) by (simp add: x_def)
qed

text \<open>The bounded score of an evaluation: previous score plus the capped change.\<close>

definition bounded_score :: "control_state \<Rightarrow> rat \<Rightarrow> influence_source \<Rightarrow> rat" where
  "bounded_score p candidate s =
     (let requested = rnd64 (candidate - control_score p); maximum = cap_points s
      in control_round_score (rnd64 (control_score p + max (- maximum) (min maximum requested))))"

lemma clamp_bounds:
  fixes m r :: rat
  assumes "0 \<le> m"
  shows "max (- m) (min m r) \<le> m" "- m \<le> max (- m) (min m r)"
    "min 0 r \<le> max (- m) (min m r)" "max (- m) (min m r) \<le> max 0 r"
  using assms by auto

lemma bounded_score_bounds:
  assumes "valid_control_state p" "0 \<le> c" "c \<le> 100" "valid_source s"
  shows "0 \<le> bounded_score p c s" "bounded_score p c s \<le> 100"
    "\<bar>bounded_score p c s - control_score p\<bar> \<le> cap_points s + 1 / 200 + 1 / 2 ^ 19"
    "min (control_score p) c - 1 / 200 - 1 / 2 ^ 19 \<le> bounded_score p c s"
    "bounded_score p c s \<le> max (control_score p) c + 1 / 200 + 1 / 2 ^ 19"
proof -
  define q where "q = control_score p"
  define r where "r = rnd64 (c - q)"
  define d where "d = max (- cap_points s) (min (cap_points s) r)"
  define y where "y = rnd64 (q + d)"
  have q: "0 \<le> q" "q \<le> 100" using assms(1) by (simp_all add: q_def valid_control_state_def)
  have r: "c - q - 1 / 2 ^ 38 \<le> r" "r \<le> c - q + 1 / 2 ^ 38"
    unfolding r_def using q assms(2,3) by (intro abs_rnd_near; simp)+
  note d = clamp_bounds[OF cap_points_bounds(1)[OF assms(4)], of r, folded d_def]
  define l h where "l = min q c" and "h = max q c"
  have lo: "l - 1 / 2 ^ 38 \<le> q + d" unfolding l_def using d(3) r by (auto simp: min_def split: if_splits)
  have hi: "q + d \<le> h + 1 / 2 ^ 38" unfolding h_def using d(4) r by (auto simp: max_def split: if_splits)
  have lh: "0 \<le> l" "h \<le> 100" using q assms(2,3) by (auto simp: l_def h_def)
  then have "- 10001 \<le> q + d" "q + d \<le> 10001" using lo hi by simp_all
  note y = abs_rnd_near[OF this, folded y_def]
  have yr: "- 1 / 512 \<le> y" "y \<le> 100 + 1 / 512" "y \<le> 101" using y lo hi lh by simp_all
  have eq: "bounded_score p c s = round_score_with rnd64 y"
    by (simp add: bounded_score_def Let_def control_round_score_eq q_def r_def d_def y_def)
  note e = double.score_error[OF yr(1,3), folded eq]
  show "0 \<le> bounded_score p c s" "bounded_score p c s \<le> 100"
    unfolding eq using double.score_range[OF yr(1,2)] .
  have "bounded_score p c s - q \<le> cap_points s + 1 / 200 + 1 / 2 ^ 19" using e y d(1) by simp
  moreover have "- (bounded_score p c s - q) \<le> cap_points s + 1 / 200 + 1 / 2 ^ 19" using e y d(2) by simp
  ultimately show "\<bar>bounded_score p c s - control_score p\<bar> \<le> cap_points s + 1 / 200 + 1 / 2 ^ 19"
    unfolding q_def by (rule abs_leI)
  show "min (control_score p) c - 1 / 200 - 1 / 2 ^ 19 \<le> bounded_score p c s"
    unfolding q_def[symmetric] l_def[symmetric] using e(1) y(1) lo by simp
  show "bounded_score p c s \<le> max (control_score p) c + 1 / 200 + 1 / 2 ^ 19"
    unfolding q_def[symmetric] h_def[symmetric] using e(2) y(2) hi by simp
qed

text \<open>An evaluation without critical evidence, in one equation over the bounded score.\<close>

lemma evaluate_regular:
  "evaluate_controls p c s None =
     (let requested = rnd64 (c - control_score p); score = bounded_score p c s;
          lower = deterioration_band (control_band p) score
      in if band_index lower < band_index (control_band p)
         then build_result p s requested (cap_points s) score lower Deteriorated 0 False
         else
           let eligible = (case recovery_threshold (control_band p) of
                 None \<Rightarrow> False | Some t \<Rightarrow> t \<le> score \<and> 2 \<le> length (distinct_source_ids s));
               streak = (if eligible then control_streak p + 1 else 0)
           in build_result p s requested (cap_points s) score
                (if 2 \<le> streak then next_recovery_band (control_band p) else control_band p)
                (if 2 \<le> streak then Recovered else HeldBand) (if 2 \<le> streak then 0 else streak) eligible)"
  by (simp add: evaluate_controls_def bounded_score_def cap_points_def config_simps Let_def
      cong: if_cong option.case_cong)

lemma build_result_fields [simp]:
  "result_score (build_result p s r m x b t k e) = Fin x"
  "result_band (build_result p s r m x b t k e) = JStr (band_id b)"
  "result_transition (build_result p s r m x b t k e) = t"
  "result_streak (build_result p s r m x b t k e) = k"
  "recovery_eligible (result_recovery (build_result p s r m x b t k e)) = e"
  "result_override (build_result p s r m x b t k e) = None"
  by (simp_all add: build_result_def)

lemma build_result_state:
  "result_state (build_result p s r m x b t k e) =
     state_value \<lparr> control_score = x, control_band = b, control_streak = k \<rparr>"
  by (simp add: result_state_def state_value_def)

lemma ex_state: "valid_control_state q \<Longrightarrow> \<exists>q'. valid_control_state q' \<and> state_value q = state_value q'"
  by blast

lemma evaluate_regular_state:
  assumes "valid_control_state p" "0 \<le> c" "c \<le> 100" "valid_source s"
  shows "\<exists>q. valid_control_state q \<and> result_state (evaluate_controls p c s None) = state_value q"
proof -
  note b = bounded_score_bounds(1,2)[OF assms]
  have p: "control_streak p = 0 \<or> control_streak p = 1" using assms(1) by (simp add: valid_control_state_def)
  show ?thesis
    using b p
    by (cases "control_band p")
       (auto simp: evaluate_regular Let_def build_result_state config_simps intro!: ex_state,
        simp_all add: valid_control_state_def)
qed

section \<open>Critical evidence\<close>

text \<open>A rule of the table itself: the five kinds with their component and ceiling.\<close>

definition table_rule :: "critical_evidence \<Rightarrow> bool" where
  "table_rule c \<longleftrightarrow>
     (\<exists>component limit. critical_rule c = override_rule component limit \<and> (limit = 0 \<or> limit = 20))"

lemma rules_get:
  "get critical_evidence_override_rules k =
     (if k = ''identity-compromised'' then override_rule ''identity'' 20
      else if k = ''device-compromised'' then override_rule ''device'' 20
      else if k = ''account-takeover-pattern'' then override_rule ''behaviour'' 20
      else if k = ''certificate-revoked'' then override_rule ''certificate'' 0
      else if k = ''blocking-compliance-breach'' then override_rule ''compliance'' 20
      else inherited k)"
  by (auto simp: critical_evidence_override_rules_def)

lemma inherited_component: "get (inherited k) ''componentId'' = JUndef"
  by (simp add: inherited_def object_prototype_names_def)

text \<open>Critical evidence whose kind names an inherited member of the table: it has no component.\<close>

definition inherited_critical :: "js \<Rightarrow> bool" where
  "inherited_critical v \<longleftrightarrow> \<not> nullish v \<and> get v ''componentId'' = JUndef
     \<and> to_string (get v ''kind'') \<in> set (''__proto__'' # object_prototype_names)"

lemma critical_evidence_accepted:
  assumes "normalize_critical_evidence v = Inr (Some c)"
  shows "critical_rule c = get critical_evidence_override_rules (to_string (get v ''kind''))"
    "strict_eq (get (critical_rule c) ''componentId'') (get v ''componentId'')" "truthy (critical_rule c)" "\<not> nullish v"
  using assms by (auto simp: normalize_critical_evidence_def control_fail_def Let_def simp del: get.simps split: if_splits)

lemma critical_evidence_table:
  assumes "normalize_critical_evidence v = Inr (Some c)" "\<not> inherited_critical v"
  shows "table_rule c" "\<exists>component. get v ''componentId'' = JStr component
    \<and> critical_rule c = override_rule component (if component = ''certificate'' then 0 else 20)"
proof -
  note a = critical_evidence_accepted[OF assms(1)]
  have "get (critical_rule c) ''componentId'' \<noteq> JUndef"
  proof
    assume u: "get (critical_rule c) ''componentId'' = JUndef"
    then have "get v ''componentId'' = JUndef" using a(2) by (cases "get v ''componentId''") auto
    moreover have "critical_rule c = inherited (to_string (get v ''kind''))"
      using u unfolding a(1) rules_get by (auto simp: override_rule_def split: if_splits)
    then have "to_string (get v ''kind'') \<in> set (''__proto__'' # object_prototype_names)"
      using a(3) by (auto simp: inherited_def split: if_splits)
    ultimately show False using assms(2) a(4) by (simp add: inherited_critical_def)
  qed
  then have "critical_rule c \<in> {override_rule ''identity'' 20, override_rule ''device'' 20, override_rule ''behaviour'' 20,
      override_rule ''certificate'' 0, override_rule ''compliance'' 20}"
    unfolding a(1) rules_get by (simp add: inherited_component split: if_splits)
  then have "\<exists>component limit. critical_rule c = override_rule component limit \<and> limit = (if component = ''certificate'' then 0 else 20)"
    by (elim insertE emptyE) (intro exI conjI, assumption, simp)+
  then obtain component limit where c: "critical_rule c = override_rule component limit"
    and limit: "limit = (if component = ''certificate'' then 0 else 20)" by blast
  note c = c[unfolded limit]
  then show "table_rule c" by (auto simp: table_rule_def)
  have "get v ''componentId'' = JStr component" using a(2) unfolding c by (simp add: override_rule_def)
  then show "\<exists>component. get v ''componentId'' = JStr component
    \<and> critical_rule c = override_rule component (if component = ''certificate'' then 0 else 20)" using c by blast
qed

lemma critical_evidence_inherited:
  assumes "normalize_critical_evidence v = Inr (Some c)" "inherited_critical v"
  shows "get (critical_rule c) ''scoreCeiling'' = JUndef" "get (critical_rule c) ''forcedBand'' = JUndef"
proof -
  note a = critical_evidence_accepted[OF assms(1)]
  have "critical_rule c = inherited (to_string (get v ''kind''))"
    using a(2) assms(2) unfolding a(1) rules_get by (auto simp: inherited_critical_def override_rule_def split: if_splits)
  then show "get (critical_rule c) ''scoreCeiling'' = JUndef" "get (critical_rule c) ''forcedBand'' = JUndef"
    by (simp_all add: inherited_def object_prototype_names_def)
qed

lemma override_rule_get [simp]:
  "get (override_rule component c) ''componentId'' = JStr component"
  "get (override_rule component c) ''scoreCeiling'' = num c"
  "get (override_rule component c) ''forcedBand'' = JStr ''low''"
  by (simp_all add: override_rule_def)

definition critical_score :: "control_state \<Rightarrow> rat \<Rightarrow> rat \<Rightarrow> rat" where
  "critical_score p c limit = control_round_score (min (min (control_score p) c) limit)"

lemma critical_result_state:
  assumes "critical_rule e = override_rule component limit"
  shows "result_state (critical_result p c s e requested m) =
     state_value \<lparr> control_score = critical_score p c limit, control_band = Low, control_streak = 0 \<rparr>"
  by (simp add: critical_result_def assms Let_def result_state_def state_value_def critical_score_def)

lemma round_score_limit: "limit = 0 \<or> limit = 20 \<Longrightarrow> control_round_score limit = limit"
proof -
  assume "limit = 0 \<or> limit = 20"
  then obtain k where k: "limit = of_int k" "k = 0 \<or> k = 20" by auto
  have "\<bar>k\<bar> < 2 ^ 53" using k(2) by auto
  then have e: "rnd64 (of_int (100 * k) / 100) = of_int k"
    using double.int_exact[of k] by simp
  have "0 \<le> 100 * k" "100 * k \<le> 10000" using k(2) by auto
  from double.score_hundredths[OF this] show ?thesis by (simp only: e k(1) control_round_score_eq)
qed

lemma critical_score_bounds:
  assumes "valid_control_state p" "0 \<le> c" "c \<le> 100" "limit = 0 \<or> limit = 20"
  shows "0 \<le> critical_score p c limit" "critical_score p c limit \<le> limit"
    "critical_score p c limit \<le> control_round_score (control_score p)"
    "critical_score p c limit \<le> control_round_score c"
proof -
  have v: "0 \<le> min (min (control_score p) c) limit" "min (min (control_score p) c) limit \<le> 20"
    using assms by (auto simp: valid_control_state_def)
  show "0 \<le> critical_score p c limit"
    unfolding critical_score_def control_round_score_eq using v by (intro double.score_range) auto
  show "critical_score p c limit \<le> limit"
    using double.score_mono[of "min (min (control_score p) c) limit" limit] round_score_limit[OF assms(4)]
    by (simp add: critical_score_def control_round_score_eq)
  show "critical_score p c limit \<le> control_round_score (control_score p)"
    "critical_score p c limit \<le> control_round_score c"
    unfolding critical_score_def control_round_score_eq by (rule double.score_mono; simp)+
qed

lemma evaluate_critical_state:
  assumes "valid_control_state p" "0 \<le> c" "c \<le> 100" "table_rule e"
  shows "\<exists>q. valid_control_state q \<and> control_band q = Low
           \<and> result_state (evaluate_controls p c s (Some e)) = state_value q"
proof -
  obtain component limit where r: "critical_rule e = override_rule component limit" "limit = 0 \<or> limit = 20"
    using assms(4) by (auto simp: table_rule_def)
  note b = critical_score_bounds[OF assms(1-3) r(2)]
  have "critical_score p c limit \<le> 100" using b(2) r(2) by auto
  with b(1) have "valid_control_state \<lparr> control_score = critical_score p c limit, control_band = Low, control_streak = 0 \<rparr>"
    by (simp add: valid_control_state_def)
  moreover have "result_state (evaluate_controls p c s (Some e)) =
      state_value \<lparr> control_score = critical_score p c limit, control_band = Low, control_streak = 0 \<rparr>"
    by (simp add: evaluate_controls_def Let_def critical_result_state[OF r(1)])
  ultimately show ?thesis
    by (intro exI[of _ "\<lparr> control_score = critical_score p c limit, control_band = Low, control_streak = 0 \<rparr>"]) simp
qed

text \<open>The state after inherited critical evidence: a score that is no number and no band.\<close>

definition spoiled_state :: js where
  "spoiled_state = obj [(''score'', JNum NaN), (''band'', JUndef), (''recoveryStreak'', num 0)]"

lemma spoiled_refused: "normalize_previous_state spoiled_state = control_fail ''PREVIOUS_CONTROL_STATE_INVALID''"
  by (simp add: normalize_previous_state_def spoiled_state_def control_valid_score_def number_between_def is_finite_def)

lemma evaluate_inherited:
  assumes "normalize_critical_evidence v = Inr (Some e)" "inherited_critical v"
  shows "result_score (evaluate_controls p c s (Some e)) = NaN" "result_band (evaluate_controls p c s (Some e)) = JUndef"
    "result_state (evaluate_controls p c s (Some e)) = spoiled_state"
  using critical_evidence_inherited[OF assms]
  by (simp_all add: evaluate_controls_def critical_result_def Let_def result_state_def spoiled_state_def)

lemma evaluate_state:
  assumes "apply_trust_transition_controls previous candidate source critical = Inr r"
  shows "if inherited_critical critical then result_state r = spoiled_state
    else \<exists>q. valid_control_state q \<and> result_state r = state_value q"
proof -
  obtain p s e where p: "normalize_previous_state previous = Inr p" and s: "normalize_source source = Inr s"
    and e: "normalize_critical_evidence critical = Inr e" and c: "control_valid_score candidate"
    and r: "r = evaluate_controls p (num_of candidate) s e"
    using assms(1) by (auto simp: apply_trust_transition_controls_def control_fail_def split: if_splits)
  have c: "0 \<le> num_of candidate" "num_of candidate \<le> 100"
    using c by (auto simp: control_valid_score_def number_between_def)
  show ?thesis
  proof (cases e)
    case None
    then have "nullish critical" using e by (auto simp: normalize_critical_evidence_def control_fail_def Let_def split: if_splits)
    then show ?thesis
      using evaluate_regular_state[OF previous_state_valid[OF p] c source_valid[OF s]] r None
      by (simp add: inherited_critical_def)
  next
    case (Some x)
    then have x: "normalize_critical_evidence critical = Inr (Some x)" using e by simp
    show ?thesis
    proof (cases "inherited_critical critical")
      case True
      then show ?thesis using evaluate_inherited(3)[OF x] r Some by simp
    next
      case False
      then have "table_rule x" using critical_evidence_table(1)[OF x] by blast
      from evaluate_critical_state[OF previous_state_valid[OF p] c this] show ?thesis
        using r Some False by auto
    qed
  qed
qed

section \<open>Sequences of evaluations\<close>

record control_input =
  input_candidate :: js
  input_source :: js
  input_critical :: js

text \<open>A caller that keeps the state of the last accepted evaluation.\<close>

definition control_step :: "js \<Rightarrow> control_input \<Rightarrow> js \<times> control_result res" where
  "control_step st i =
     (case apply_trust_transition_controls st (input_candidate i) (input_source i) (input_critical i) of
        Inl e \<Rightarrow> (st, Inl e)
      | Inr r \<Rightarrow> (result_state r, Inr r))"

definition control_inv :: "js \<Rightarrow> bool" where
  "control_inv st \<longleftrightarrow> (\<exists>q. valid_control_state q \<and> st = state_value q)"

interpretation controls: invariant_machine control_step control_inv "\<lambda>i :: control_input. \<not> inherited_critical (input_critical i)"
proof
  fix st and i :: control_input
  assume "control_inv st" "\<not> inherited_critical (input_critical i)"
  then show "control_inv (fst (control_step st i))"
    using evaluate_state by (force simp: control_step_def control_inv_def split: sum.splits)
qed

interpretation any_controls: invariant_machine control_step "\<lambda>st. control_inv st \<or> st = spoiled_state" "\<lambda>i :: control_input. True"
proof
  fix st and i :: control_input
  assume "control_inv st \<or> st = spoiled_state"
  then show "control_inv (fst (control_step st i)) \<or> fst (control_step st i) = spoiled_state"
    using evaluate_state by (force simp: control_step_def control_inv_def split: sum.splits if_splits)
qed

section \<open>Properties\<close>

lemma apply_cases:
  assumes "apply_trust_transition_controls previous candidate source critical = Inr r"
  obtains p s e where "normalize_previous_state previous = Inr p" "normalize_source source = Inr s"
    "normalize_critical_evidence critical = Inr e" "0 \<le> num_of candidate" "num_of candidate \<le> 100"
    "valid_control_state p" "valid_source s" "r = evaluate_controls p (num_of candidate) s e"
  using assms previous_state_valid source_valid
  by (force simp: apply_trust_transition_controls_def control_fail_def control_valid_score_def
      number_between_def split: if_splits)

abbreviation example_source :: js where
  "example_source \<equiv>
     obj [(''sourceId'', JStr ''src_00000000-0000-4000-8000-000000000001''),
          (''maximumInfluence'', num (1/2)),
          (''corroboratingSourceIds'', JArr [JStr ''src_00000000-0000-4000-8000-000000000002''])]"

abbreviation example_influence :: influence_source where
  "example_influence \<equiv>
     \<lparr> source_id = JStr ''src_00000000-0000-4000-8000-000000000001'', source_influence = 1/2,
       corroborating_ids = [JStr ''src_00000000-0000-4000-8000-000000000002''],
       distinct_source_ids = [JStr ''src_00000000-0000-4000-8000-000000000001'',
                              JStr ''src_00000000-0000-4000-8000-000000000002''] \<rparr>"

lemma example_source_accepted: "normalize_source example_source = Inr example_influence"
  by code_simp

lemma example_apply:
  assumes "valid_control_state p" "0 \<le> c" "c \<le> 100" "normalize_critical_evidence e = Inr x"
  shows "apply_trust_transition_controls (state_value p) (num c) example_source e =
     Inr (evaluate_controls p c example_influence x)"
  using assms
  by (simp add: apply_trust_transition_controls_def previous_state_roundtrip example_source_accepted
      control_valid_score_def number_between_def is_finite_def)

lemma bounded_score_example:
  "bounded_score \<lparr> control_score = 50, control_band = b, control_streak = k \<rparr> 60 example_influence = 60"
  "bounded_score \<lparr> control_score = 70, control_band = b, control_streak = k \<rparr> 10 example_influence = 20"
proof -
  have r: "rnd64 10 = 10" "rnd64 (- 60) = - 60" "rnd64 50 = 50" "rnd64 60 = 60" "rnd64 20 = 20" by code_simp+
  have c: "control_round_score 50 = 50" "control_round_score 60 = 60" "control_round_score 20 = 20" by code_simp+
  show "bounded_score \<lparr> control_score = 50, control_band = b, control_streak = k \<rparr> 60 example_influence = 60"
    "bounded_score \<lparr> control_score = 70, control_band = b, control_streak = k \<rparr> 10 example_influence = 20"
    by (simp_all add: bounded_score_def cap_points_def config_simps r c)
qed

lemma no_critical [simp]: "normalize_critical_evidence JNull = Inr None"
  by (simp add: normalize_critical_evidence_def nullish_def)

text \<open>C1: A state the controls keep is a state the controls accept, or a dead end. Start from any score the
  initialiser accepts and feed any sequence of evaluations, malformed ones included: the state kept after
  the last accepted evaluation passes \<open>normalizePreviousState\<close> and satisfies the band, score and streak
  invariant; the only exception is a sequence with critical evidence whose kind is an inherited member of
  the rule table, and then every later evaluation is refused.\<close>

theorem control_states_stay_valid:
  assumes "initialize_trust_control_state v = Inr s" "st = fst (run_machine control_step (state_value s) is)"
  shows "(\<exists>q. valid_control_state q \<and> normalize_previous_state st = Inr q)
    \<or> ((\<exists>i \<in> set is. inherited_critical (input_critical i))
       \<and> (\<forall>candidate source critical. apply_trust_transition_controls st candidate source critical
            = control_fail ''PREVIOUS_CONTROL_STATE_INVALID''))"
proof -
  have i: "control_inv (state_value s)"
    using initial_state_valid[OF assms(1)] by (auto simp: control_inv_def)
  have ok: "\<exists>q. valid_control_state q \<and> normalize_previous_state st = Inr q" if "control_inv st"
    using that previous_state_roundtrip by (auto simp: control_inv_def)
  show ?thesis
  proof (cases "list_all (\<lambda>i. \<not> inherited_critical (input_critical i)) is")
    case True
    then show ?thesis using controls.run_inv[OF i True] ok assms(2) by blast
  next
    case False
    have "control_inv st \<or> st = spoiled_state"
      using any_controls.run_inv[of "state_value s" "is"] i assms(2) by (auto simp: list_all_iff)
    moreover have "\<exists>i \<in> set is. inherited_critical (input_critical i)" using False by (auto simp: list_all_iff)
    ultimately show ?thesis
      using ok spoiled_refused by (auto simp: apply_trust_transition_controls_def control_fail_def)
  qed
qed

lemma control_states_stay_valid_witness:
  "\<exists>q. valid_control_state q \<and>
     normalize_previous_state (fst (run_machine control_step
       (state_value \<lparr> control_score = 50, control_band = Medium, control_streak = 0 \<rparr>)
       [\<lparr> input_candidate = num 80, input_source = example_source, input_critical = JNull \<rparr>])) = Inr q"
proof -
  have "initialize_trust_control_state (num 50) = Inr \<lparr> control_score = 50, control_band = Medium, control_streak = 0 \<rparr>"
    by (simp add: initialize_trust_control_state_def control_valid_score_def number_between_def is_finite_def
        classify_base_band_def config_simps)
  from control_states_stay_valid[OF this refl, of "[\<lparr> input_candidate = num 80, input_source = example_source, input_critical = JNull \<rparr>]"]
  show ?thesis by (simp add: inherited_critical_def nullish_def del: run_machine.simps)
qed

text \<open>C2: A band rises by exactly one step, and only on the second consecutive qualifying evaluation, with a
  bounded score at the band's recovery threshold and two entries among the primary and corroborating
  source ids that \<open>Set\<close> keeps apart: for string ids, two different ids.\<close>

theorem recovery_is_corroborated:
  assumes "apply_trust_transition_controls previous candidate source critical = Inr r"
    and "normalize_previous_state previous = Inr p"
    and "band_of (result_band r) = Some b" "band_index (control_band p) < band_index b"
    and "ids = get source ''sourceId'' # elements (get source ''corroboratingSourceIds'')"
  shows "result_transition r = Recovered \<and> band_index b = band_index (control_band p) + 1
    \<and> control_streak p = 1
    \<and> (\<exists>x t. result_score r = Fin x \<and> recovery_threshold (control_band p) = Some t \<and> t \<le> x)
    \<and> (\<exists>i j. i < j \<and> j < length ids \<and> \<not> same_value (ids ! j) (ids ! i)
         \<and> (is_string (ids ! i) \<longrightarrow> ids ! i \<noteq> ids ! j))"
proof -
  from apply_cases[OF assms(1)] obtain p' s e where p': "normalize_previous_state previous = Inr p'"
    and s: "normalize_source source = Inr s" and e: "normalize_critical_evidence critical = Inr e"
    and c: "0 \<le> num_of candidate" "num_of candidate \<le> 100" and v: "valid_control_state p'"
    and r: "r = evaluate_controls p' (num_of candidate) s e" by metis
  have [simp]: "p' = p" using p' assms(2) by simp
  have ids: "length (distinct_source_ids s) = length (set_of_values ids)"
    using s assms(5) by (auto simp: normalize_source_def control_fail_def Let_def split: if_splits)
  show ?thesis
  proof (cases e)
    case (Some x)
    then have x: "normalize_critical_evidence critical = Inr (Some x)" using e by simp
    have "band_of (result_band r) \<noteq> Some b"
    proof (cases "inherited_critical critical")
      case True
      then show ?thesis using evaluate_inherited(2)[OF x] by (simp add: r Some band_of_def)
    next
      case False
      then obtain component limit where "critical_rule x = override_rule component limit"
        using critical_evidence_table(2)[OF x] by blast
      then have "result_band r = JStr ''low''" by (simp add: r Some evaluate_controls_def critical_result_def Let_def)
      then show ?thesis using assms(4) by (auto simp: band_of_def)
    qed
    then show ?thesis using assms(3) by simp
  next
    case None
    have two: "2 \<le> length (distinct_source_ids s) \<and> control_streak p = 1 \<and> result_transition r = Recovered
      \<and> b = next_recovery_band (control_band p) \<and> result_score r = Fin (bounded_score p (num_of candidate) s)
      \<and> (\<exists>t. recovery_threshold (control_band p) = Some t \<and> t \<le> bounded_score p (num_of candidate) s)"
      using assms(3,4) v
      by (auto simp: r None evaluate_regular Let_def valid_control_state_def
          split: if_splits option.splits)
    then have "\<exists>i j. i < j \<and> j < length ids \<and> \<not> same_value (ids ! j) (ids ! i)"
      by (intro set_of_values_kept_apart) (simp add: ids)
    then have "\<exists>i j. i < j \<and> j < length ids \<and> \<not> same_value (ids ! j) (ids ! i)
         \<and> (is_string (ids ! i) \<longrightarrow> ids ! i \<noteq> ids ! j)"
      by (metis is_string.elims(2) same_value_str(2))
    moreover have "band_index b = band_index (control_band p) + 1"
      using two assms(4) by (cases "control_band p") auto
    ultimately show ?thesis using two by blast
  qed
qed

lemma recovery_is_corroborated_witness:
  "\<exists>r. apply_trust_transition_controls (state_value \<lparr> control_score = 50, control_band = Low, control_streak = 1 \<rparr>)
         (num 60) example_source JNull = Inr r \<and> result_transition r = Recovered"
proof -
  let ?p = "\<lparr> control_score = 50, control_band = Low, control_streak = 1 \<rparr>"
  have p: "valid_control_state ?p" by (simp add: valid_control_state_def)
  note a = example_apply[OF p _ _ no_critical, of 60, simplified]
  have b: "band_of (result_band (evaluate_controls ?p 60 example_influence None)) = Some Medium"
    by (simp add: evaluate_regular bounded_score_example config_simps)
  show ?thesis using recovery_is_corroborated[OF a previous_state_roundtrip[OF p] b _ refl] a by simp
qed



text \<open>C4: Critical evidence forces the low band at once: the new score is the least of the previous score,
  the candidate and the ceiling of the component (0 for the certificate, 20 for the others), rounded to
  two decimals, whatever the source's influence, and the streak is reset. So the score never rises beyond
  the rounding of the previous score, and not at all from a previous score of two decimals. A kind that
  is an inherited member of the table is the exception: it leaves no score and no band.\<close>

theorem critical_evidence_forces_low:
  assumes "apply_trust_transition_controls previous candidate source critical = Inr r"
    and "normalize_previous_state previous = Inr p" "\<not> nullish critical"
  shows "if inherited_critical critical then result_score r = NaN \<and> result_band r = JUndef
    else result_band r = JStr ''low'' \<and> result_streak r = 0 \<and> result_transition r = CriticalOverride \<and>
      (\<exists>x. result_score r = Fin x \<and> 0 \<le> x \<and> x \<le> 20
        \<and> x = control_round_score (min (min (control_score p) (num_of candidate))
             (if get critical ''componentId'' = JStr ''certificate'' then 0 else 20))
        \<and> (get critical ''componentId'' = JStr ''certificate'' \<longrightarrow> x = 0)
        \<and> x \<le> control_score p + 1 / 200 + 1 / 2 ^ 20
        \<and> (control_round_score (control_score p) = control_score p \<longrightarrow> x \<le> control_score p)
        \<and> x \<le> control_round_score (num_of candidate))"
proof -
  from apply_cases[OF assms(1)] obtain p' s e where p': "normalize_previous_state previous = Inr p'"
    and e: "normalize_critical_evidence critical = Inr e"
    and c: "0 \<le> num_of candidate" "num_of candidate \<le> 100" and v: "valid_control_state p'"
    and r: "r = evaluate_controls p' (num_of candidate) s e" by metis
  have [simp]: "p' = p" using p' assms(2) by simp
  obtain x where x: "e = Some x" using e assms(3)
    by (auto simp: normalize_critical_evidence_def control_fail_def Let_def simp del: get.simps split: if_splits)
  then have nx: "normalize_critical_evidence critical = Inr (Some x)" using e by simp
  show ?thesis
  proof (cases "inherited_critical critical")
    case True
    then show ?thesis using evaluate_inherited(1,2)[OF nx] by (simp add: r x)
  next
    case False
    obtain component where comp: "get critical ''componentId'' = JStr component"
      and rule: "critical_rule x = override_rule component (if component = ''certificate'' then 0 else 20)"
      using critical_evidence_table(2)[OF nx False] by blast
    define limit :: rat where "limit = (if component = ''certificate'' then 0 else 20)"
    have limit: "limit = 0 \<or> limit = 20" by (simp add: limit_def)
    define y where "y = critical_score p (num_of candidate) limit"
    note b = critical_score_bounds[OF v[unfolded \<open>p' = p\<close>] c limit, folded y_def]
    have q: "- 1 / 512 \<le> control_score p" "control_score p \<le> 101" using v by (simp_all add: valid_control_state_def)
    have "control_round_score (control_score p) \<le> control_score p + 1 / 200 + 1 / 2 ^ 20"
      using double.score_error(2)[OF q] by (simp add: control_round_score_eq)
    then have "y \<le> control_score p + 1 / 200 + 1 / 2 ^ 20" "y \<le> 20" "component = ''certificate'' \<longrightarrow> y = 0"
      using b by (auto simp: limit_def split: if_splits)
    moreover have "y = control_round_score (min (min (control_score p) (num_of candidate))
             (if get critical ''componentId'' = JStr ''certificate'' then 0 else 20))"
      by (simp add: y_def critical_score_def limit_def comp)
    moreover have "result_score r = Fin y \<and> result_band r = JStr ''low'' \<and> result_streak r = 0
        \<and> result_transition r = CriticalOverride"
      by (simp add: r x evaluate_controls_def critical_result_def Let_def rule y_def critical_score_def limit_def)
    moreover have "get critical ''componentId'' = JStr ''certificate'' \<longrightarrow> y = 0"
      using \<open>component = ''certificate'' \<longrightarrow> y = 0\<close> comp by simp
    ultimately show ?thesis unfolding if_not_P[OF False] using b(1,3,4)
      by (intro conjI exI[of _ y]) (blast | simp)+
  qed
qed

lemma critical_evidence_forces_low_witness:
  "\<exists>r. apply_trust_transition_controls (state_value \<lparr> control_score = 90, control_band = High, control_streak = 0 \<rparr>)
         (num 85) example_source (obj [(''kind'', JStr ''certificate-revoked''), (''componentId'', JStr ''certificate'')]) = Inr r
       \<and> result_score r = Fin 0 \<and> result_band r = JStr ''low''"
proof -
  let ?p = "\<lparr> control_score = 90, control_band = High, control_streak = 0 \<rparr>"
  let ?e = "obj [(''kind'', JStr ''certificate-revoked''), (''componentId'', JStr ''certificate'')]"
  have p: "valid_control_state ?p" by (simp add: valid_control_state_def)
  have e: "normalize_critical_evidence ?e = Inr (Some \<lparr> critical_kind = JStr ''certificate-revoked'',
      critical_component = JStr ''certificate'', critical_rule = override_rule ''certificate'' 0 \<rparr>)"
    by code_simp
  note a = example_apply[OF p _ _ e, of 85, simplified]
  from critical_evidence_forces_low[OF a previous_state_roundtrip[OF p]] a show ?thesis
    by (auto simp: nullish_def inherited_critical_def)
qed

text \<open>Deterioration is immediate and may cross several bands: without critical evidence a bounded
  score below 35 lands in the low band whatever the previous band was, and one below 65 leaves the
  high band; a band falls for no other reason.\<close>

theorem deterioration_is_immediate:
  assumes "apply_trust_transition_controls previous candidate source critical = Inr r"
    and "normalize_previous_state previous = Inr p" "nullish critical"
    and "result_score r = Fin x" "band_of (result_band r) = Some b"
  shows "(x < 35 \<longrightarrow> b = Low) \<and> (x < 65 \<longrightarrow> b \<noteq> High)
    \<and> (band_index b < band_index (control_band p) \<longrightarrow>
         result_transition r = Deteriorated \<and> result_streak r = 0
         \<and> (x < 35 \<or> control_band p = High \<and> x < 65))"
proof -
  from apply_cases[OF assms(1)] obtain p' s e where p': "normalize_previous_state previous = Inr p'"
    and e: "normalize_critical_evidence critical = Inr e"
    and r: "r = evaluate_controls p' (num_of candidate) s e" by metis
  have eqs: "p' = p" "e = None" using p' assms(2) e assms(3) by (auto simp: normalize_critical_evidence_def)
  define y where "y = bounded_score p (num_of candidate) s"
  have "result_score r = Fin y"
    unfolding r eqs evaluate_regular Let_def y_def by (simp split: if_split)
  then have "x = y" using assms(4) by simp
  then show ?thesis
    using assms(5)
    by (cases "control_band p")
       (auto simp: r eqs evaluate_regular Let_def y_def[symmetric] config_simps split: if_splits)
qed

lemma deterioration_is_immediate_witness:
  "\<exists>r. apply_trust_transition_controls (state_value \<lparr> control_score = 70, control_band = High, control_streak = 0 \<rparr>)
         (num 10) example_source JNull = Inr r \<and> band_of (result_band r) = Some Low"
proof -
  let ?p = "\<lparr> control_score = 70, control_band = High, control_streak = 0 \<rparr>"
  have p: "valid_control_state ?p" by (simp add: valid_control_state_def)
  note a = example_apply[OF p _ _ no_critical, of 10, simplified]
  let ?r = "evaluate_controls ?p 10 example_influence None"
  have r: "result_score ?r = Fin 20" "band_of (result_band ?r) = Some Low"
    by (simp_all add: evaluate_regular bounded_score_example config_simps)
  have n: "nullish JNull" by (simp add: nullish_def)
  from deterioration_is_immediate[OF a previous_state_roundtrip[OF p] n r] a r show ?thesis by auto
qed

section \<open>Two inputs the validation lets through\<close>

text \<open>A kind that names an inherited property of the rule table passes with an undefined component,
  and the resulting score is not a number.\<close>

lemma inherited_kind_gives_nan:
  "\<exists>r. apply_trust_transition_controls (state_value \<lparr> control_score = 50, control_band = Medium, control_streak = 0 \<rparr>)
       (num 60) example_source (obj [(''kind'', JStr ''toString''), (''componentId'', JUndef)]) = Inr r
     \<and> result_score r = NaN"
proof -
  let ?p = "\<lparr> control_score = 50, control_band = Medium, control_streak = 0 \<rparr>"
  let ?e = "obj [(''kind'', JStr ''toString''), (''componentId'', JUndef)]"
  have p: "valid_control_state ?p" by (simp add: valid_control_state_def)
  have e: "normalize_critical_evidence ?e = Inr (Some \<lparr> critical_kind = JStr ''toString'',
      critical_component = JUndef, critical_rule = JFun ''toString'' \<rparr>)"
    by code_simp
  note a = example_apply[OF p _ _ e, of 60, simplified]
  show ?thesis unfolding a
    by (simp add: evaluate_controls_def critical_result_def Let_def inherited_def object_prototype_names_def)
qed

text \<open>An array around the primary source id passes the pattern and counts as a second source.\<close>

lemma wrapped_source_counts_twice:
  "\<exists>s. normalize_source
       (obj [(''sourceId'', JStr ''src_00000000-0000-4000-8000-000000000001''),
             (''maximumInfluence'', num (1/2)),
             (''corroboratingSourceIds'', JArr [JArr [JStr ''src_00000000-0000-4000-8000-000000000001'']])]) = Inr s
     \<and> result_transition (evaluate_controls \<lparr> control_score = 50, control_band = Low, control_streak = 1 \<rparr> 60 s None)
           = Recovered"
proof (intro exI conjI)
  let ?id = "JStr ''src_00000000-0000-4000-8000-000000000001''"
  let ?s = "\<lparr> source_id = ?id, source_influence = 1/2, corroborating_ids = [JArr [?id]],
      distinct_source_ids = [?id, JArr [?id]] \<rparr>"
  show "normalize_source (obj [(''sourceId'', ?id), (''maximumInfluence'', num (1/2)),
      (''corroboratingSourceIds'', JArr [JArr [?id]])]) = Inr ?s" by code_simp
  have "bounded_score \<lparr> control_score = 50, control_band = Low, control_streak = 1 \<rparr> 60 ?s = 60"
    using bounded_score_example(1)[of Low 1] by (simp add: bounded_score_def cap_points_def)
  then show "result_transition (evaluate_controls \<lparr> control_score = 50, control_band = Low, control_streak = 1 \<rparr> 60 ?s None)
      = Recovered"
    by (simp add: evaluate_regular config_simps)
qed

end
