(* ===== verification/SecurityActions.thy ===== *)
theory SecurityActions
  imports TransitionControls
begin

text \<open>
  \<open>services/orchestrator/src/index.mjs\<close>: the security-action state of a subject, the closed set of
  actions on it, the triggers that select actions from a policy decision, a trust transition and
  severe evidence, and the evaluation that decides when recovery may start. The state machine is a
  total step function over untyped inputs; its invariant and the fact that a revoked certificate is
  never reactivated come from the machine interfaces of the prelude.
\<close>

section \<open>States and actions\<close>

datatype access_state = AccessNormal | AccessRestricted | AccessSuspended

datatype renewal_state = RenewalAllowed | RenewalBlocked

datatype certificate_state = CertificateActive | CertificateRevoked

datatype replacement_state = ReplacementNotRequired | ReplacementRequired | ReplacementIssued

record action_state =
  access :: access_state
  renewal :: renewal_state
  target_certificate :: certificate_state
  replacement :: replacement_state

fun access_id :: "access_state \<Rightarrow> string" where
  "access_id AccessNormal = ''normal''"
| "access_id AccessRestricted = ''restricted''"
| "access_id AccessSuspended = ''suspended''"

fun renewal_id :: "renewal_state \<Rightarrow> string" where
  "renewal_id RenewalAllowed = ''allowed''"
| "renewal_id RenewalBlocked = ''blocked''"

fun certificate_id :: "certificate_state \<Rightarrow> string" where
  "certificate_id CertificateActive = ''active''"
| "certificate_id CertificateRevoked = ''revoked''"

fun replacement_id :: "replacement_state \<Rightarrow> string" where
  "replacement_id ReplacementNotRequired = ''not-required''"
| "replacement_id ReplacementRequired = ''required''"
| "replacement_id ReplacementIssued = ''issued''"

text \<open>The member of a closed set of strings that a value is, if any.\<close>

definition member_of :: "('a \<Rightarrow> string) \<Rightarrow> 'a list \<Rightarrow> js \<Rightarrow> 'a option" where
  "member_of f xs v = find (\<lambda>x. v = JStr (f x)) xs"

definition access_of :: "js \<Rightarrow> access_state option" where
  "access_of = member_of access_id [AccessNormal, AccessRestricted, AccessSuspended]"

definition renewal_of :: "js \<Rightarrow> renewal_state option" where
  "renewal_of = member_of renewal_id [RenewalAllowed, RenewalBlocked]"

definition certificate_of :: "js \<Rightarrow> certificate_state option" where
  "certificate_of = member_of certificate_id [CertificateActive, CertificateRevoked]"

definition replacement_of :: "js \<Rightarrow> replacement_state option" where
  "replacement_of = member_of replacement_id [ReplacementNotRequired, ReplacementRequired, ReplacementIssued]"

definition initial_security_action_state :: action_state where
  "initial_security_action_state =
     \<lparr> access = AccessNormal, renewal = RenewalAllowed, target_certificate = CertificateActive,
       replacement = ReplacementNotRequired \<rparr>"

definition action_state_value :: "action_state \<Rightarrow> js" where
  "action_state_value s =
     obj [(''access'', JStr (access_id (access s))), (''renewal'', JStr (renewal_id (renewal s))),
          (''targetCertificate'', JStr (certificate_id (target_certificate s))),
          (''replacement'', JStr (replacement_id (replacement s)))]"

datatype action_type =
    RestrictAccess | SuspendSubject | BlockRenewal | RevokeCertificate | RestoreAccess
  | IssueReplacementCertificate

fun action_id :: "action_type \<Rightarrow> string" where
  "action_id RestrictAccess = ''restrict-access''"
| "action_id SuspendSubject = ''suspend-subject''"
| "action_id BlockRenewal = ''block-renewal''"
| "action_id RevokeCertificate = ''revoke-certificate''"
| "action_id RestoreAccess = ''restore-access''"
| "action_id IssueReplacementCertificate = ''issue-replacement-certificate''"

definition security_action_types :: "action_type list" where
  "security_action_types =
     [RestrictAccess, SuspendSubject, BlockRenewal, RevokeCertificate, RestoreAccess, IssueReplacementCertificate]"

record action_effect =
  effect_access :: string
  effect_renewal :: string
  effect_certificate :: string
  effect_replacement :: string

record action_definition =
  definition_id :: action_type
  authority :: string
  reversible :: bool
  declared_effect :: action_effect

definition make_action :: "action_type \<Rightarrow> string \<Rightarrow> bool \<Rightarrow> string list \<Rightarrow> action_definition" where
  "make_action i a r e =
     \<lparr> definition_id = i, authority = a, reversible = r,
       declared_effect = \<lparr> effect_access = e ! 0, effect_renewal = e ! 1, effect_certificate = e ! 2,
                           effect_replacement = e ! 3 \<rparr> \<rparr>"

definition security_action_definitions :: "action_definition list" where
  "security_action_definitions =
     [make_action RestrictAccess ''policy-quarantine'' True
        [''restricted'', ''unchanged'', ''unchanged'', ''unchanged''],
      make_action SuspendSubject ''policy-quarantine'' True
        [''suspended'', ''blocked'', ''unchanged'', ''unchanged''],
      make_action BlockRenewal ''severity-rule'' True
        [''unchanged'', ''blocked'', ''unchanged'', ''unchanged''],
      make_action RevokeCertificate ''severity-rule'' False
        [''suspended'', ''blocked'', ''revoked'', ''required''],
      make_action RestoreAccess ''recovery-authorization'' True
        [''normal'', ''allowed'', ''unchanged'', ''unchanged''],
      make_action IssueReplacementCertificate ''recovery-authorization'' False
        [''unchanged'', ''unchanged'', ''revoked'', ''issued'']]"

definition action_fail :: "string \<Rightarrow> 'a res" where
  "action_fail r = throw SecurityActionStateMachineError r"

definition define_security_action_state :: "js \<Rightarrow> action_state res" where
  "define_security_action_state v =
     (if v = JUndef then Inr initial_security_action_state
      else if \<not> has_exact_keys v [''access'', ''renewal'', ''targetCertificate'', ''replacement'']
      then action_fail ''SECURITY_ACTION_STATE_INVALID''
      else case (access_of (get v ''access''), renewal_of (get v ''renewal''),
                 certificate_of (get v ''targetCertificate''), replacement_of (get v ''replacement'')) of
        (Some a, Some r, Some c, Some p) \<Rightarrow>
          if a = AccessSuspended \<and> r \<noteq> RenewalBlocked then action_fail ''SUSPENDED_RENEWAL_MUST_BE_BLOCKED''
          else if c = CertificateActive \<and> p \<noteq> ReplacementNotRequired
          then action_fail ''ACTIVE_CERTIFICATE_REPLACEMENT_INVALID''
          else if c = CertificateRevoked \<and> p = ReplacementNotRequired
          then action_fail ''REVOKED_CERTIFICATE_REPLACEMENT_REQUIRED''
          else if c = CertificateRevoked \<and> p = ReplacementRequired \<and> (a \<noteq> AccessSuspended \<or> r \<noteq> RenewalBlocked)
          then action_fail ''REVOKED_CERTIFICATE_RECOVERY_INCOMPLETE''
          else Inr \<lparr> access = a, renewal = r, target_certificate = c, replacement = p \<rparr>
      | _ \<Rightarrow> action_fail ''SECURITY_ACTION_STATE_INVALID'')"

definition get_security_action_definition :: "js \<Rightarrow> action_definition res" where
  "get_security_action_definition v =
     (case find (\<lambda>d. v = JStr (action_id (definition_id d))) security_action_definitions of
        None \<Rightarrow> action_fail ''SECURITY_ACTION_TYPE_UNKNOWN''
      | Some d \<Rightarrow> Inr d)"

section \<open>Transitions\<close>

record transition_result =
  transition_action :: action_type
  transition_authority :: string
  transition_reversible :: bool
  transition_changed :: bool
  target_certificate_reactivated :: bool
  transition_state :: action_state

definition states_equal :: "action_state \<Rightarrow> action_state \<Rightarrow> bool" where
  "states_equal l r \<longleftrightarrow> access l = access r \<and> renewal l = renewal r
     \<and> target_certificate l = target_certificate r \<and> replacement l = replacement r"

fun next_action_state :: "action_type \<Rightarrow> action_state \<Rightarrow> action_state res" where
  "next_action_state RestrictAccess s =
     Inr (s\<lparr> access := (if access s = AccessNormal then AccessRestricted else access s) \<rparr>)"
| "next_action_state SuspendSubject s = Inr (s\<lparr> access := AccessSuspended, renewal := RenewalBlocked \<rparr>)"
| "next_action_state BlockRenewal s = Inr (s\<lparr> renewal := RenewalBlocked \<rparr>)"
| "next_action_state RevokeCertificate s =
     Inr (if target_certificate s = CertificateRevoked then s
          else \<lparr> access = AccessSuspended, renewal = RenewalBlocked,
                 target_certificate = CertificateRevoked, replacement = ReplacementRequired \<rparr>)"
| "next_action_state IssueReplacementCertificate s =
     (if target_certificate s \<noteq> CertificateRevoked then action_fail ''REPLACEMENT_NOT_REQUIRED''
      else Inr (s\<lparr> replacement := ReplacementIssued \<rparr>))"
| "next_action_state RestoreAccess s =
     (if target_certificate s = CertificateRevoked \<and> replacement s \<noteq> ReplacementIssued
      then action_fail ''REPLACEMENT_REQUIRED_BEFORE_RECOVERY''
      else Inr (s\<lparr> access := AccessNormal, renewal := RenewalAllowed \<rparr>))"

definition transition_security_action_state :: "js \<Rightarrow> transition_result res" where
  "transition_security_action_state input =
     (if \<not> has_exact_keys input [''currentState'', ''actionType'']
      then action_fail ''SECURITY_ACTION_TRANSITION_INVALID''
      else and_then (define_security_action_state (get input ''currentState'')) (\<lambda>current.
           and_then (get_security_action_definition (get input ''actionType'')) (\<lambda>d.
           and_then (next_action_state (definition_id d) current) (\<lambda>next.
           and_then (define_security_action_state (action_state_value next)) (\<lambda>s.
             Inr \<lparr> transition_action = definition_id d, transition_authority = authority d,
                   transition_reversible = reversible d, transition_changed = (\<not> states_equal current s),
                   target_certificate_reactivated = False, transition_state = s \<rparr>)))))"

section \<open>Policy outcomes\<close>

record policy_action =
  policy_action_type :: action_type

definition policy_outcomes :: "string list" where
  "policy_outcomes = [''ALLOW'', ''STEP_UP'', ''DENY'', ''QUARANTINE'']"

definition quarantine_actions :: "action_type list" where
  "quarantine_actions = [RestrictAccess, SuspendSubject]"

definition has_only_keys :: "js \<Rightarrow> string list \<Rightarrow> bool" where
  "has_only_keys v ks \<longleftrightarrow> is_plain_object v \<and> list_all (\<lambda>k. k \<in> set ks) (keys v)"

definition map_policy_outcome_to_security_action :: "js \<Rightarrow> policy_action option res" where
  "map_policy_outcome_to_security_action input =
     (if \<not> has_only_keys input [''outcome'', ''quarantineActionType''] \<or> ''outcome'' \<notin> set (keys input)
         \<or> \<not> one_of policy_outcomes (get input ''outcome'')
      then action_fail ''POLICY_OUTCOME_INVALID''
      else if get input ''outcome'' \<noteq> JStr ''QUARANTINE''
      then (if nullish (get input ''quarantineActionType'') then Inr None
            else action_fail ''POLICY_ACTION_NOT_ALLOWED'')
      else case member_of action_id quarantine_actions (get input ''quarantineActionType'') of
             None \<Rightarrow> action_fail ''QUARANTINE_ACTION_INVALID''
           | Some a \<Rightarrow> Inr (Some \<lparr> policy_action_type = a \<rparr>))"

section \<open>Triggers\<close>

record action_target =
  target_tenant :: js
  target_subject :: js

definition normalize_target :: "js \<Rightarrow> action_target res" where
  "normalize_target v =
     (if \<not> has_exact_keys v [''tenantId'', ''subjectId'']
         \<or> \<not> re_test_or_empty (is_id ''tnt'') (get v ''tenantId'')
         \<or> \<not> re_test_or_empty (is_id ''sub'') (get v ''subjectId'')
      then action_fail ''SECURITY_ACTION_TARGET_INVALID''
      else Inr \<lparr> target_tenant = get v ''tenantId'', target_subject = get v ''subjectId'' \<rparr>)"

definition normalize_critical_override :: "js \<Rightarrow> critical_evidence option res" where
  "normalize_critical_override v =
     (if v = JNull then Inr None
      else if \<not> has_exact_keys v [''kind'', ''componentId''] then action_fail ''TRUST_TRANSITION_INVALID''
      else let rule = get critical_evidence_override_rules (to_string (get v ''kind''))
           in if \<not> truthy rule \<or> \<not> strict_eq (get rule ''componentId'') (get v ''componentId'')
              then action_fail ''TRUST_TRANSITION_INVALID''
              else Inr (Some \<lparr> critical_kind = get v ''kind'', critical_component = get v ''componentId'',
                               critical_rule = rule \<rparr>))"

record trust_transition =
  trust_score :: rat
  trust_band :: band
  trust_transition_kind :: string
  trust_override :: "critical_evidence option"

definition trust_transitions :: "string list" where
  "trust_transitions = [''held'', ''deteriorated'', ''recovered'', ''critical-override'']"

definition normalize_trust_transition :: "js \<Rightarrow> trust_transition res" where
  "normalize_trust_transition v =
     (if \<not> has_exact_keys v [''score'', ''band'', ''transition'', ''criticalOverride'']
         \<or> \<not> number_between 0 100 (get v ''score'') \<or> band_of (get v ''band'') = None
         \<or> \<not> one_of trust_transitions (get v ''transition'')
      then action_fail ''TRUST_TRANSITION_INVALID''
      else and_then (normalize_critical_override (get v ''criticalOverride'')) (\<lambda>override.
        let score = num_of (get v ''score''); b = the (band_of (get v ''band''))
        in if (get v ''transition'' = JStr ''critical-override'') \<noteq> (override \<noteq> None)
           then action_fail ''TRUST_TRANSITION_INVALID''
           else if (b = High \<and> score < high_deterioration cfg) \<or> (b = Medium \<and> score < medium_deterioration cfg)
             \<or> (case override of None \<Rightarrow> False
                | Some c \<Rightarrow> \<not> strict_eq (JStr (band_id b)) (get (critical_rule c) ''forcedBand'')
                    \<or> (case get (critical_rule c) ''scoreCeiling'' of
                         JNum (Fin limit) \<Rightarrow> limit < score | _ \<Rightarrow> False))
           then action_fail ''TRUST_TRANSITION_INVALID''
           else Inr \<lparr> trust_score = score, trust_band = b, trust_transition_kind = str_of (get v ''transition''),
                      trust_override = override \<rparr>))"

text \<open>The override rules without the kind that is itself a consequence of revocation.\<close>

definition actionable_severe_evidence :: js where
  "actionable_severe_evidence =
     obj (filter (\<lambda>(k, rule). k \<noteq> ''certificate-revoked'')
       (case critical_evidence_override_rules of JObj _ fs \<Rightarrow> fs | _ \<Rightarrow> []))"

definition maximum_age_seconds :: rat where
  "maximum_age_seconds = 300"

record severe_evidence =
  severe_evidence_id :: js
  severe_source :: js
  severe_kind :: js

definition normalize_severe_entry :: "action_target \<Rightarrow> int \<Rightarrow> js \<Rightarrow> severe_evidence res" where
  "normalize_severe_entry target evaluated entry =
     (if \<not> has_exact_keys entry
            [''evidenceId'', ''sourceId'', ''tenantId'', ''subjectId'', ''kind'', ''componentId'', ''observedAt'']
         \<or> \<not> re_test_or_empty (is_id ''evd'') (get entry ''evidenceId'')
         \<or> \<not> re_test_or_empty is_source_id (get entry ''sourceId'')
         \<or> \<not> strict_eq (get entry ''tenantId'') (target_tenant target)
         \<or> \<not> strict_eq (get entry ''subjectId'') (target_subject target)
         \<or> \<not> canonical_utc (get entry ''observedAt'')
      then action_fail ''SEVERE_EVIDENCE_INVALID''
      else let rule = get actionable_severe_evidence (to_string (get entry ''kind''));
               age = seconds_between evaluated (parse_time (get entry ''observedAt''))
           in if \<not> truthy rule \<or> \<not> strict_eq (get rule ''componentId'') (get entry ''componentId'')
              then action_fail ''SEVERE_EVIDENCE_NOT_ACTIONABLE''
              else if age < 0 \<or> maximum_age_seconds < age then action_fail ''SEVERE_EVIDENCE_STALE''
              else Inr \<lparr> severe_evidence_id = get entry ''evidenceId'', severe_source = get entry ''sourceId'',
                         severe_kind = get entry ''kind'' \<rparr>)"

definition normalize_severe_evidence :: "js \<Rightarrow> action_target \<Rightarrow> int \<Rightarrow> severe_evidence list res" where
  "normalize_severe_evidence v target evaluated =
     (if \<not> is_array v then action_fail ''SEVERE_EVIDENCE_INVALID''
      else and_then (map_res (normalize_severe_entry target evaluated) (elements v)) (\<lambda>es.
        if length (set_of_values (map severe_evidence_id es)) \<noteq> length es
        then action_fail ''SEVERE_EVIDENCE_DUPLICATE'' else Inr es))"

record severe_summary =
  summary_evidence :: "js list"
  summary_sources :: "js list"
  summary_kinds :: "js list"

definition summarize_severe_evidence :: "severe_evidence list \<Rightarrow> severe_summary" where
  "summarize_severe_evidence es =
     \<lparr> summary_evidence = sort_key to_string (map severe_evidence_id es),
       summary_sources = sort_key to_string (set_of_values (map severe_source es)),
       summary_kinds = sort_key to_string (set_of_values (map severe_kind es)) \<rparr>"

definition trust_confirms_severe_evidence :: "trust_transition \<Rightarrow> js list \<Rightarrow> bool" where
  "trust_confirms_severe_evidence t kinds \<longleftrightarrow>
     trust_band t = Low \<and> trust_transition_kind t = ''critical-override''
     \<and> (case trust_override t of None \<Rightarrow> False
        | Some c \<Rightarrow> list_ex (same_value (critical_kind c)) kinds
            \<and> (case get (get actionable_severe_evidence (to_string (critical_kind c))) ''scoreCeiling'' of
                 JNum (Fin limit) \<Rightarrow> trust_score t \<le> limit | _ \<Rightarrow> False))"

record trigger_result =
  trigger_target :: action_target
  trigger_severity :: string
  trigger_actions :: "action_type list"
  trigger_reason :: string
  revocation_authorized :: bool
  trigger_summary :: severe_summary
  enough_sources :: bool
  enough_kinds :: bool
  trust_confirmed :: bool

definition select_trigger ::
  "action_target \<Rightarrow> policy_action option \<Rightarrow> trust_transition \<Rightarrow> severe_evidence list \<Rightarrow> trigger_result" where
  "select_trigger target policy t es =
     (let summary = summarize_severe_evidence es;
          sources = (2 \<le> length (summary_sources summary));
          kinds = (2 \<le> length (summary_kinds summary));
          confirmed = trust_confirms_severe_evidence t (summary_kinds summary);
          authorized = (sources \<and> kinds \<and> confirmed);
          policy_list = (case policy of None \<Rightarrow> [] | Some a \<Rightarrow> [policy_action_type a]);
          selected =
            (if authorized then (''severe-corroborated'', [RevokeCertificate], ''CORROBORATED_SEVERE_EVIDENCE'')
             else if es \<noteq> [] then
               (''severe-pending-corroboration'',
                policy_list @ (if map_option policy_action_type policy \<noteq> Some SuspendSubject then [BlockRenewal] else []),
                ''SEVERE_EVIDENCE_NOT_CORROBORATED'')
             else if policy \<noteq> None then (''low-trust'', policy_list, ''POLICY_QUARANTINE'')
             else (''none'', [], ''NO_DURABLE_ACTION''))
      in \<lparr> trigger_target = target, trigger_severity = fst selected, trigger_actions = fst (snd selected),
           trigger_reason = snd (snd selected), revocation_authorized = authorized, trigger_summary = summary,
           enough_sources = sources, enough_kinds = kinds, trust_confirmed = confirmed \<rparr>)"

definition evaluate_security_action_triggers :: "js \<Rightarrow> trigger_result res" where
  "evaluate_security_action_triggers input =
     (if \<not> has_exact_keys input [''target'', ''policyDecision'', ''trustTransition'', ''severeEvidence'', ''evaluatedAt'']
         \<or> \<not> canonical_utc (get input ''evaluatedAt'')
      then action_fail ''SECURITY_ACTION_TRIGGER_INPUT_INVALID''
      else and_then (normalize_target (get input ''target'')) (\<lambda>target.
           and_then (if \<not> is_plain_object (get input ''policyDecision'') then action_fail ''POLICY_OUTCOME_INVALID''
                     else map_policy_outcome_to_security_action (get input ''policyDecision'')) (\<lambda>policy.
           and_then (normalize_trust_transition (get input ''trustTransition'')) (\<lambda>t.
           and_then (normalize_severe_evidence (get input ''severeEvidence'') target
                       (parse_time (get input ''evaluatedAt''))) (\<lambda>es.
             Inr (select_trigger target policy t es))))))"

section \<open>Recovery\<close>

record recovery_checkpoint =
  checkpoint_score :: rat
  checkpoint_band :: band
  checkpoint_transition :: string
  checkpoint_evaluations :: rat
  checkpoint_sources :: "js list"

definition normalize_recovery_checkpoint :: "js \<Rightarrow> recovery_checkpoint res" where
  "normalize_recovery_checkpoint v =
     (let score = num_of (get v ''score''); sources = elements (get v ''sourceIds'')
      in if \<not> has_exact_keys v [''score'', ''band'', ''transition'', ''consecutiveQualifyingEvaluations'', ''sourceIds'']
            \<or> \<not> number_between 0 100 (get v ''score'') \<or> band_of (get v ''band'') = None
            \<or> \<not> one_of trust_transitions (get v ''transition'')
            \<or> \<not> safe_integer_from 0 (get v ''consecutiveQualifyingEvaluations'')
            \<or> \<not> is_array (get v ''sourceIds'')
            \<or> list_ex (\<lambda>s. \<not> re_test is_source_id s) sources
            \<or> length (set_of_values sources) \<noteq> length sources
         then action_fail ''RECOVERY_CHECKPOINT_INVALID''
         else let b = the (band_of (get v ''band''))
              in if get v ''transition'' = JStr ''recovered''
                    \<and> (b = Low \<or> (b = Medium \<and> score < low_recovery cfg) \<or> (b = High \<and> score < medium_recovery cfg))
                 then action_fail ''RECOVERY_CHECKPOINT_INVALID''
                 else Inr \<lparr> checkpoint_score = score, checkpoint_band = b,
                            checkpoint_transition = str_of (get v ''transition''),
                            checkpoint_evaluations = num_of (get v ''consecutiveQualifyingEvaluations''),
                            checkpoint_sources = sort_key to_string sources \<rparr>)"

record recovery_requirement =
  minimum_band :: band
  minimum_score :: rat

definition restricted_requirement :: recovery_requirement where
  "restricted_requirement = \<lparr> minimum_band = Medium, minimum_score = low_recovery cfg \<rparr>"

definition suspended_requirement :: recovery_requirement where
  "suspended_requirement = \<lparr> minimum_band = High, minimum_score = medium_recovery cfg \<rparr>"

definition revoked_requirement :: recovery_requirement where
  "revoked_requirement = \<lparr> minimum_band = High, minimum_score = medium_recovery cfg \<rparr>"

definition recovery_trust_ready :: "recovery_checkpoint \<Rightarrow> recovery_requirement \<Rightarrow> bool" where
  "recovery_trust_ready c r \<longleftrightarrow>
     checkpoint_transition c = ''recovered''
     \<and> band_index (minimum_band r) \<le> band_index (checkpoint_band c)
     \<and> minimum_score r \<le> checkpoint_score c
     \<and> of_int (consecutive_qualifying_evaluations cfg) \<le> checkpoint_evaluations c
     \<and> required_source_count cfg \<le> length (checkpoint_sources c)"

record recovery_evaluation =
  evaluation_target :: action_target
  evaluation_eligible :: bool
  next_action_type :: "action_type option"
  evaluation_reason :: string
  authorization_required :: string
  evaluation_checkpoint :: recovery_checkpoint

definition recovery_requirement :: "action_state \<Rightarrow> recovery_requirement" where
  "recovery_requirement s =
     (if target_certificate s = CertificateRevoked then revoked_requirement
      else if access s = AccessSuspended \<or> renewal s = RenewalBlocked then suspended_requirement
      else restricted_requirement)"

definition select_recovery ::
  "action_state \<Rightarrow> recovery_checkpoint \<Rightarrow> severe_evidence list \<Rightarrow> bool \<Rightarrow> action_type option \<times> string" where
  "select_recovery s checkpoint active resolved =
     (let revoked = (target_certificate s = CertificateRevoked);
          limited = (access s \<noteq> AccessNormal \<or> renewal s \<noteq> RenewalAllowed)
      in if \<not> (revoked \<or> limited) then (None, ''NO_RECOVERY_NEEDED'')
         else if active \<noteq> [] then (None, ''ACTIVE_SEVERE_EVIDENCE'')
         else if \<not> recovery_trust_ready checkpoint (recovery_requirement s) then (None, ''TRUST_RECOVERY_INCOMPLETE'')
         else if revoked \<and> \<not> resolved then (None, ''SEVERE_CAUSE_UNRESOLVED'')
         else if revoked \<and> replacement s = ReplacementRequired
         then (Some IssueReplacementCertificate, ''REPLACEMENT_ELIGIBLE'')
         else if limited then (Some RestoreAccess, ''ACCESS_RECOVERY_ELIGIBLE'')
         else (None, ''NO_RECOVERY_NEEDED''))"

definition evaluate_security_action_recovery :: "js \<Rightarrow> recovery_evaluation res" where
  "evaluate_security_action_recovery input =
     (if \<not> has_exact_keys input [''target'', ''currentState'', ''checkpoint'', ''activeSevereEvidence'',
            ''evaluatedAt'', ''severeCauseResolved'']
         \<or> \<not> canonical_utc (get input ''evaluatedAt'') \<or> \<not> is_bool (get input ''severeCauseResolved'')
      then action_fail ''SECURITY_ACTION_RECOVERY_INPUT_INVALID''
      else and_then (normalize_target (get input ''target'')) (\<lambda>target.
           and_then (define_security_action_state (get input ''currentState'')) (\<lambda>s.
           and_then (normalize_recovery_checkpoint (get input ''checkpoint'')) (\<lambda>checkpoint.
           and_then (normalize_severe_evidence (get input ''activeSevereEvidence'') target
                       (parse_time (get input ''evaluatedAt''))) (\<lambda>active.
             case select_recovery s checkpoint active (get input ''severeCauseResolved'' = JBool True) of
               (next, reason) \<Rightarrow>
                 Inr \<lparr> evaluation_target = target, evaluation_eligible = (next \<noteq> None), next_action_type = next,
                       evaluation_reason = reason, authorization_required = ''recovery-authorization'',
                       evaluation_checkpoint = checkpoint \<rparr>)))))"

section \<open>The invariant of the state machine\<close>

definition valid_action_state :: "action_state \<Rightarrow> bool" where
  "valid_action_state s \<longleftrightarrow>
     (access s = AccessSuspended \<longrightarrow> renewal s = RenewalBlocked)
     \<and> (target_certificate s = CertificateActive \<longleftrightarrow> replacement s = ReplacementNotRequired)
     \<and> (replacement s = ReplacementRequired \<longrightarrow> access s = AccessSuspended \<and> renewal s = RenewalBlocked)"

lemma member_of_id [simp]:
  "access_of (JStr (access_id a)) = Some a" "renewal_of (JStr (renewal_id r)) = Some r"
  "certificate_of (JStr (certificate_id c)) = Some c" "replacement_of (JStr (replacement_id p)) = Some p"
  by (cases a, simp_all add: access_of_def member_of_def)
    (cases r, simp_all add: renewal_of_def member_of_def,
     cases c, simp_all add: certificate_of_def member_of_def,
     cases p, simp_all add: replacement_of_def member_of_def)

lemma action_value_get [simp]:
  "get (action_state_value s) ''access'' = JStr (access_id (access s))"
  "get (action_state_value s) ''renewal'' = JStr (renewal_id (renewal s))"
  "get (action_state_value s) ''targetCertificate'' = JStr (certificate_id (target_certificate s))"
  "get (action_state_value s) ''replacement'' = JStr (replacement_id (replacement s))"
  by (simp_all add: action_state_value_def)

lemma action_value_keys [simp]:
  "has_exact_keys (action_state_value s) [''access'', ''renewal'', ''targetCertificate'', ''replacement'']"
  "action_state_value s \<noteq> JUndef"
  by (simp_all add: action_state_value_def has_exact_keys_def)

lemma define_state_value:
  "define_security_action_state (action_state_value s) = Inr t \<longleftrightarrow> valid_action_state s \<and> t = s"
  unfolding define_security_action_state_def action_value_get member_of_id option.case prod.case
  by (cases s; cases "access s"; cases "renewal s"; cases "target_certificate s"; cases "replacement s")
     (auto simp: action_fail_def valid_action_state_def)

lemma define_state_valid:
  assumes "define_security_action_state v = Inr s"
  shows "valid_action_state s"
proof (cases "v = JUndef")
  case True
  then have "s = initial_security_action_state" using assms by (simp add: define_security_action_state_def)
  then show ?thesis by (simp add: initial_security_action_state_def valid_action_state_def)
next
  case False
  then show ?thesis using assms
    by (cases "target_certificate s"; cases "replacement s")
       (auto simp: define_security_action_state_def action_fail_def valid_action_state_def simp del: get.simps
          split: if_splits option.splits)
qed

lemma next_state_valid:
  assumes "valid_action_state s" "next_action_state a s = Inr t"
  shows "valid_action_state t"
  using assms
  by (cases a; cases "target_certificate s"; cases "replacement s"; cases "access s")
     (auto simp: valid_action_state_def action_fail_def split: if_splits)

definition action_of :: "js \<Rightarrow> action_type option" where
  "action_of = member_of action_id security_action_types"

lemma definition_lookup:
  "get_security_action_definition v = Inr d \<Longrightarrow> action_of v = Some (definition_id d) \<and> v = JStr (action_id (definition_id d))"
  "get_security_action_definition v = Inl e \<Longrightarrow> action_of v = None"
  by (auto simp: get_security_action_definition_def security_action_definitions_def make_action_def action_fail_def
      action_of_def member_of_def security_action_types_def split: if_splits)

lemma definition_found: "\<exists>d. get_security_action_definition (JStr (action_id a)) = Inr d \<and> definition_id d = a"
  by (cases a) (simp_all add: get_security_action_definition_def security_action_definitions_def make_action_def)

definition action_input :: "action_state \<Rightarrow> js \<Rightarrow> js" where
  "action_input s a = obj [(''currentState'', action_state_value s), (''actionType'', a)]"

lemma transition_valid:
  assumes "valid_action_state s"
  shows "transition_security_action_state (action_input s v) = Inr r \<longleftrightarrow>
    (\<exists>d t. get_security_action_definition v = Inr d \<and> next_action_state (definition_id d) s = Inr t
      \<and> r = \<lparr> transition_action = definition_id d, transition_authority = authority d,
             transition_reversible = reversible d, transition_changed = (\<not> states_equal s t),
             target_certificate_reactivated = False, transition_state = t \<rparr>)"
proof -
  have c: "define_security_action_state (action_state_value s) = Inr s" using assms define_state_value by blast
  have keys: "has_exact_keys (action_input s v) [''currentState'', ''actionType'']"
    and get: "get (action_input s v) ''currentState'' = action_state_value s" "get (action_input s v) ''actionType'' = v"
    by (simp_all add: action_input_def has_exact_keys_def)
  show ?thesis
  proof (cases "get_security_action_definition v")
    case (Inl e)
    then show ?thesis by (simp add: transition_security_action_state_def keys get c)
  next
    case d: (Inr d)
    show ?thesis
    proof (cases "next_action_state (definition_id d) s")
      case (Inl e)
      then show ?thesis by (simp add: transition_security_action_state_def keys get c d)
    next
      case (Inr t)
      then have "define_security_action_state (action_state_value t) = Inr t"
        using next_state_valid[OF assms] define_state_value by blast
      then show ?thesis by (auto simp: transition_security_action_state_def keys get c d Inr)
    qed
  qed
qed

section \<open>Sequences of actions\<close>

definition action_step :: "action_state \<Rightarrow> js \<Rightarrow> action_state \<times> transition_result res" where
  "action_step s v =
     (case transition_security_action_state (action_input s v) of
        Inl e \<Rightarrow> (s, Inl e)
      | Inr r \<Rightarrow> (transition_state r, Inr r))"

lemma action_step_cases:
  assumes "valid_action_state s"
  shows "fst (action_step s v) = s \<or> (\<exists>a. v = JStr (action_id a) \<and> next_action_state a s = Inr (fst (action_step s v)))"
proof (cases "transition_security_action_state (action_input s v)")
  case (Inr r)
  then obtain d t where d: "get_security_action_definition v = Inr d" "next_action_state (definition_id d) s = Inr t"
    "transition_state r = t"
    using transition_valid[OF assms] by auto
  have "fst (action_step s v) = t" using Inr d(3) by (simp add: action_step_def)
  then show ?thesis using definition_lookup(1)[OF d(1)] d(2) by blast
qed (simp add: action_step_def)

text \<open>Revocation and the issue of a replacement are permanent.\<close>

definition certificate_leq :: "action_state \<Rightarrow> action_state \<Rightarrow> bool" where
  "certificate_leq s t \<longleftrightarrow>
     (target_certificate s = CertificateRevoked \<longrightarrow> target_certificate t = CertificateRevoked)
     \<and> (replacement s = ReplacementIssued \<longrightarrow> replacement t = ReplacementIssued)"

lemma next_state_leq:
  "valid_action_state s \<Longrightarrow> next_action_state a s = Inr t \<Longrightarrow> certificate_leq s t"
  by (cases a; cases "target_certificate s") (auto simp: certificate_leq_def valid_action_state_def action_fail_def split: if_splits)

interpretation actions: monotone_machine action_step valid_action_state "\<lambda>_. True" certificate_leq
proof
  fix s :: action_state and v
  assume s: "valid_action_state s"
  show "valid_action_state (fst (action_step s v))"
    using action_step_cases[OF s, of v] next_state_valid[OF s] s by metis
  show "certificate_leq s (fst (action_step s v))"
    using action_step_cases[OF s, of v] next_state_leq[OF s] by (auto simp: certificate_leq_def)
qed (auto simp: certificate_leq_def)

lemma initial_action_state_valid: "valid_action_state initial_security_action_state"
  by (simp add: initial_security_action_state_def valid_action_state_def)

section \<open>Properties\<close>

text \<open>C9: The state invariant is inductive: whatever sequence of action names, unknown or refused ones
  included, is applied to the initial state, the stored state is accepted again; in particular a
  suspended subject never keeps its renewal, and a revoked certificate without a replacement keeps
  the subject suspended.\<close>

theorem security_actions_stay_valid:
  "define_security_action_state (action_state_value (fst (run_machine action_step initial_security_action_state as)))
     = Inr (fst (run_machine action_step initial_security_action_state as))
   \<and> valid_action_state (fst (run_machine action_step initial_security_action_state as))"
proof -
  have "valid_action_state (fst (run_machine action_step initial_security_action_state as))"
    by (rule actions.run_inv[OF initial_action_state_valid]) (simp add: list_all_iff)
  then show ?thesis using define_state_value by blast
qed

text \<open>C10: Revocation is final: once a sequence of actions has revoked the certificate, no continuation
  makes it active again, and no continuation takes an issued replacement back.\<close>

theorem revocation_is_final:
  "certificate_leq (fst (run_machine action_step initial_security_action_state as))
     (fst (run_machine action_step initial_security_action_state (as @ bs)))"
proof -
  have "valid_action_state (fst (run_machine action_step initial_security_action_state as))"
    by (rule actions.run_inv[OF initial_action_state_valid]) (simp add: list_all_iff)
  from actions.run_leq[OF this, of bs] show ?thesis
    by (simp add: run_machine_append_fst list_all_iff)
qed

text \<open>C11: A subject whose certificate was revoked stays suspended, with renewal blocked, through every
  continuation that does not contain the replacement action: access cannot be restored first.\<close>

theorem restore_requires_replacement:
  assumes "valid_action_state s" "replacement s = ReplacementRequired"
    and "JStr (action_id IssueReplacementCertificate) \<notin> set as"
  shows "fst (run_machine action_step s as) = s \<and> access s = AccessSuspended \<and> renewal s = RenewalBlocked"
  using assms
proof (induction as)
  case (Cons v as)
  have "fst (action_step s v) = s"
  proof (rule ccontr)
    assume n: "fst (action_step s v) \<noteq> s"
    then obtain a where a: "v = JStr (action_id a)" "next_action_state a s = Inr (fst (action_step s v))"
      using action_step_cases[OF Cons.prems(1), of v] by blast
    have "a \<noteq> IssueReplacementCertificate" using a(1) Cons.prems(3) by auto
    moreover have "target_certificate s = CertificateRevoked" "access s = AccessSuspended" "renewal s = RenewalBlocked"
      using Cons.prems(1,2) by (cases "target_certificate s"; auto simp: valid_action_state_def)+
    ultimately show False using a(2) n Cons.prems(2) by (cases s; cases a) (auto simp: action_fail_def)
  qed
  then show ?case using Cons by (auto split: prod.splits)
qed (auto simp: valid_action_state_def)

lemma restore_requires_replacement_witness:
  "fst (run_machine action_step
      \<lparr> access = AccessSuspended, renewal = RenewalBlocked, target_certificate = CertificateRevoked,
        replacement = ReplacementRequired \<rparr> [JStr ''restore-access'', JNull, JStr ''block-renewal''])
   = \<lparr> access = AccessSuspended, renewal = RenewalBlocked, target_certificate = CertificateRevoked,
        replacement = ReplacementRequired \<rparr>"
  by (rule restore_requires_replacement[THEN conjunct1]) (simp_all add: valid_action_state_def)

text \<open>Every action is idempotent: repeating an accepted action on its own result is accepted,
  changes nothing and says so.\<close>

theorem action_is_idempotent:
  assumes "valid_action_state s" "transition_security_action_state (action_input s v) = Inr r"
  shows "\<exists>r'. transition_security_action_state (action_input (transition_state r) v) = Inr r'
    \<and> transition_state r' = transition_state r \<and> \<not> transition_changed r'"
proof -
  obtain d t where d: "get_security_action_definition v = Inr d" "next_action_state (definition_id d) s = Inr t"
    and r: "transition_state r = t"
    using transition_valid[OF assms(1)] assms(2) by auto
  have t: "valid_action_state t" by (rule next_state_valid[OF assms(1) d(2)])
  have "next_action_state (definition_id d) t = Inr t"
    using d(2) by (cases "definition_id d") (auto simp: action_fail_def split: if_splits)
  then show ?thesis using transition_valid[OF t, of v] d(1) by (auto simp: r states_equal_def)
qed

lemma example_suspend:
  "transition_security_action_state (action_input initial_security_action_state (JStr ''suspend-subject'')) =
    Inr \<lparr> transition_action = SuspendSubject, transition_authority = ''policy-quarantine'',
          transition_reversible = True, transition_changed = True, target_certificate_reactivated = False,
          transition_state = \<lparr> access = AccessSuspended, renewal = RenewalBlocked,
            target_certificate = CertificateActive, replacement = ReplacementNotRequired \<rparr> \<rparr>"
  by code_simp

lemma action_is_idempotent_witness:
  "\<exists>r. transition_security_action_state (action_input
      \<lparr> access = AccessSuspended, renewal = RenewalBlocked, target_certificate = CertificateActive,
        replacement = ReplacementNotRequired \<rparr> (JStr ''suspend-subject'')) = Inr r \<and> \<not> transition_changed r"
  using action_is_idempotent[OF initial_action_state_valid example_suspend] by auto

section \<open>Triggers\<close>

text \<open>Two pieces of evidence whose values of a field \<open>Set\<close> keeps apart: different values, for strings.\<close>

definition told_apart :: "(severe_evidence \<Rightarrow> js) \<Rightarrow> severe_evidence list \<Rightarrow> bool" where
  "told_apart field es \<longleftrightarrow>
     (\<exists>i j. i < j \<and> j < length es \<and> \<not> same_value (field (es ! j)) (field (es ! i))
        \<and> (is_string (field (es ! i)) \<longrightarrow> field (es ! i) \<noteq> field (es ! j)))"

lemma told_apart_values:
  assumes "2 \<le> length (set_of_values (map field es))"
  shows "told_apart field es"
proof -
  obtain i j where ij: "i < j" "j < length es" "\<not> same_value (field (es ! j)) (field (es ! i))"
    using set_of_values_kept_apart[OF assms] by auto
  then have "is_string (field (es ! i)) \<longrightarrow> field (es ! i) \<noteq> field (es ! j)"
    by (metis is_string.elims(2) same_value_str(2))
  with ij show ?thesis unfolding told_apart_def by blast
qed

lemma trigger_revokes:
  "RevokeCertificate \<in> set (trigger_actions (select_trigger target policy t es)) \<Longrightarrow>
    policy = None \<or> policy_action_type (the policy) \<noteq> RevokeCertificate \<Longrightarrow>
    revocation_authorized (select_trigger target policy t es)"
  by (auto simp: select_trigger_def Let_def split: if_splits option.splits)

lemma quarantine_never_revokes:
  "map_policy_outcome_to_security_action v = Inr (Some p) \<Longrightarrow> policy_action_type p \<in> set quarantine_actions"
  by (auto simp: map_policy_outcome_to_security_action_def action_fail_def member_of_def quarantine_actions_def
      split: if_splits)

text \<open>C12: A score alone never revokes: when evaluation selects the revocation of a certificate, the
  trust transition is a critical override in the low band and among the severe evidence, each piece fresh
  and about this subject, are two whose sources and two whose kinds \<open>Set\<close> keeps apart: for strings, two
  different sources and two different kinds.\<close>

theorem revocation_is_corroborated:
  assumes "evaluate_security_action_triggers input = Inr r" "RevokeCertificate \<in> set (trigger_actions r)"
  shows "\<exists>es t. normalize_severe_evidence (get input ''severeEvidence'') (trigger_target r)
        (parse_time (get input ''evaluatedAt'')) = Inr es
    \<and> normalize_trust_transition (get input ''trustTransition'') = Inr t
    \<and> trust_band t = Low \<and> trust_override t \<noteq> None
    \<and> told_apart severe_source es \<and> told_apart severe_kind es"
proof -
  obtain target policy t es where target: "normalize_target (get input ''target'') = Inr target"
    and policy: "map_policy_outcome_to_security_action (get input ''policyDecision'') = Inr policy"
    and t: "normalize_trust_transition (get input ''trustTransition'') = Inr t"
    and es: "normalize_severe_evidence (get input ''severeEvidence'') target (parse_time (get input ''evaluatedAt'')) = Inr es"
    and r: "r = select_trigger target policy t es"
    using assms(1) by (auto simp: evaluate_security_action_triggers_def action_fail_def split: if_splits)
  have "policy = None \<or> policy_action_type (the policy) \<noteq> RevokeCertificate"
  proof (cases policy)
    case (Some a)
    then have "policy_action_type a \<in> set quarantine_actions" using quarantine_never_revokes policy by simp
    then show ?thesis using Some by (auto simp: quarantine_actions_def)
  qed simp
  then have auth: "revocation_authorized r" using trigger_revokes assms(2) r by blast
  then have two: "2 \<le> length (set_of_values (map severe_source es))" "2 \<le> length (set_of_values (map severe_kind es))"
    and conf: "trust_confirms_severe_evidence t (summary_kinds (summarize_severe_evidence es))"
    by (simp_all add: r select_trigger_def Let_def summarize_severe_evidence_def)
  have "told_apart severe_source es" "told_apart severe_kind es"
    using told_apart_values[OF two(1)] told_apart_values[OF two(2)] by simp_all
  moreover have "trust_band t = Low \<and> trust_override t \<noteq> None"
    using conf by (auto simp: trust_confirms_severe_evidence_def split: option.splits)
  moreover have "trigger_target r = target" by (simp add: r select_trigger_def Let_def)
  ultimately show ?thesis using es t by auto
qed

abbreviation example_tenant :: js where
  "example_tenant \<equiv> JStr ''tnt_00000000-0000-4000-8000-000000000001''"

abbreviation example_subject :: js where
  "example_subject \<equiv> JStr ''sub_00000000-0000-4000-8000-000000000001''"

abbreviation example_severe :: "string \<Rightarrow> string \<Rightarrow> string \<Rightarrow> string \<Rightarrow> js" where
  "example_severe i s k c \<equiv>
     obj [(''evidenceId'', JStr i), (''sourceId'', JStr s), (''tenantId'', example_tenant),
          (''subjectId'', example_subject), (''kind'', JStr k), (''componentId'', JStr c),
          (''observedAt'', JStr (time_to_iso 0))]"

abbreviation example_severe_list :: js where
  "example_severe_list \<equiv> JArr
     [example_severe ''evd_00000000-0000-4000-8000-000000000001'' ''src_00000000-0000-4000-8000-000000000001''
        ''identity-compromised'' ''identity'',
      example_severe ''evd_00000000-0000-4000-8000-000000000002'' ''src_00000000-0000-4000-8000-000000000002''
        ''device-compromised'' ''device'']"

abbreviation example_trigger :: js where
  "example_trigger \<equiv>
     obj [(''target'', obj [(''tenantId'', example_tenant), (''subjectId'', example_subject)]),
          (''policyDecision'', obj [(''outcome'', JStr ''DENY'')]),
          (''trustTransition'', obj [(''score'', num 10), (''band'', JStr ''low''),
             (''transition'', JStr ''critical-override''),
             (''criticalOverride'', obj [(''kind'', JStr ''identity-compromised''), (''componentId'', JStr ''identity'')])]),
          (''severeEvidence'', example_severe_list), (''evaluatedAt'', JStr (time_to_iso 0))]"

lemma example_uuids:
  "is_id ''tnt'' ''tnt_00000000-0000-4000-8000-000000000001''"
  "is_id ''sub'' ''sub_00000000-0000-4000-8000-000000000001''"
  "is_id ''evd'' ''evd_00000000-0000-4000-8000-000000000001''"
  "is_id ''evd'' ''evd_00000000-0000-4000-8000-000000000002''"
  "is_source_id ''src_00000000-0000-4000-8000-000000000001''"
  "is_source_id ''src_00000000-0000-4000-8000-000000000002''"
  by code_simp+

lemma epoch_canonical [simp]: "canonical_utc (JStr (time_to_iso 0))" "parse_time (JStr (time_to_iso 0)) = 0"
  using canonical_utc_iff valid_time_0 by (auto simp: parse_time_def)

lemma actionable_get:
  "get actionable_severe_evidence k = (if k = ''certificate-revoked'' then inherited k
     else get critical_evidence_override_rules k)"
  by (auto simp: actionable_severe_evidence_def critical_evidence_override_rules_def)

lemma example_severe_accepted:
  assumes "is_id ''evd'' i" "is_source_id s"
    and "k = ''identity-compromised'' \<and> c = ''identity'' \<or> k = ''device-compromised'' \<and> c = ''device''"
  shows "normalize_severe_entry \<lparr> target_tenant = example_tenant, target_subject = example_subject \<rparr> 0
      (example_severe i s k c) = Inr \<lparr> severe_evidence_id = JStr i, severe_source = JStr s, severe_kind = JStr k \<rparr>"
proof -
  have r: "get actionable_severe_evidence k = override_rule c 20" using assms(3) by (auto simp: actionable_get rules_get)
  have "seconds_between 0 0 = 0" by (simp add: seconds_between_def)
  then show ?thesis
    using assms(1,2) by (simp add: normalize_severe_entry_def has_exact_keys_def r Let_def maximum_age_seconds_def)
      (simp add: override_rule_def)
qed

lemma example_trigger_result:
  "\<exists>r. evaluate_security_action_triggers example_trigger = Inr r \<and> trigger_actions r = [RevokeCertificate]"
proof -
  let ?t = "\<lparr> target_tenant = example_tenant, target_subject = example_subject \<rparr>"
  let ?e = "\<lambda>i s k. \<lparr> severe_evidence_id = JStr i, severe_source = JStr s, severe_kind = JStr k \<rparr>"
  let ?es = "[?e ''evd_00000000-0000-4000-8000-000000000001'' ''src_00000000-0000-4000-8000-000000000001'' ''identity-compromised'',
       ?e ''evd_00000000-0000-4000-8000-000000000002'' ''src_00000000-0000-4000-8000-000000000002'' ''device-compromised'']"
  let ?tt = "\<lparr> trust_score = 10, trust_band = Low, trust_transition_kind = ''critical-override'',
      trust_override = Some \<lparr> critical_kind = JStr ''identity-compromised'', critical_component = JStr ''identity'',
        critical_rule = override_rule ''identity'' 20 \<rparr> \<rparr>"
  have target: "normalize_target (get example_trigger ''target'') = Inr ?t"
    by (simp add: normalize_target_def has_exact_keys_def example_uuids)
  have policy: "map_policy_outcome_to_security_action (get example_trigger ''policyDecision'') = Inr None"
    by (simp add: map_policy_outcome_to_security_action_def has_only_keys_def one_of_def policy_outcomes_def nullish_def
        inherited_def object_prototype_names_def)
  have tt: "normalize_trust_transition (get example_trigger ''trustTransition'') = Inr ?tt"
    by (simp add: normalize_trust_transition_def normalize_critical_override_def has_exact_keys_def number_between_def
        is_finite_def one_of_def trust_transitions_def rules_get Let_def)
      (simp add: override_rule_def)
  have es: "normalize_severe_evidence (get example_trigger ''severeEvidence'') ?t 0 = Inr ?es"
    by (simp add: normalize_severe_evidence_def example_severe_accepted example_uuids set_of_values_def)
  have keys: "has_exact_keys example_trigger [''target'', ''policyDecision'', ''trustTransition'', ''severeEvidence'', ''evaluatedAt'']"
    by (simp add: has_exact_keys_def)
  have at: "get example_trigger ''evaluatedAt'' = JStr (time_to_iso 0)" by simp
  have plain: "is_plain_object (get example_trigger ''policyDecision'')" by simp
  have "evaluate_security_action_triggers example_trigger = Inr (select_trigger ?t None ?tt ?es)"
    unfolding evaluate_security_action_triggers_def at
    by (simp only: keys epoch_canonical target policy tt es plain and_then_Inr simp_thms if_False)
  moreover have "trigger_actions (select_trigger ?t None ?tt ?es) = [RevokeCertificate]" by code_simp
  ultimately show ?thesis by blast
qed

lemma revocation_is_corroborated_witness:
  "\<exists>r es. evaluate_security_action_triggers example_trigger = Inr r \<and> RevokeCertificate \<in> set (trigger_actions r)
     \<and> normalize_severe_evidence (get example_trigger ''severeEvidence'') (trigger_target r)
         (parse_time (get example_trigger ''evaluatedAt'')) = Inr es \<and> told_apart severe_source es \<and> told_apart severe_kind es"
proof -
  obtain r where r: "evaluate_security_action_triggers example_trigger = Inr r" "RevokeCertificate \<in> set (trigger_actions r)"
    using example_trigger_result by (metis list.set_intros(1))
  from revocation_is_corroborated[OF r] r show ?thesis by blast
qed

text \<open>One kind written once as a string and once as a one-element array counts as two kinds.\<close>

lemma wrapped_kind_counts_twice:
  "length (set_of_values (map severe_kind
     [\<lparr> severe_evidence_id = JNull, severe_source = JNull, severe_kind = JStr ''identity-compromised'' \<rparr>,
      \<lparr> severe_evidence_id = JNull, severe_source = JNull, severe_kind = JArr [JStr ''identity-compromised''] \<rparr>])) = 2
   \<and> get actionable_severe_evidence (to_string (JArr [JStr ''identity-compromised''])) =
       get actionable_severe_evidence ''identity-compromised''"
  by code_simp

section \<open>Recovery\<close>

text \<open>Recovery is only proposed when it can be carried out: an eligible evaluation names an action
  that the state machine accepts in the evaluated state, there is no active severe evidence, the
  checkpoint is a recovery with the required score, streak and two sources, and the cause of a
  revocation is resolved.\<close>

lemma eligible_recovery_executes:
  assumes "evaluate_security_action_recovery input = Inr r" "evaluation_eligible r"
    and "define_security_action_state (get input ''currentState'') = Inr s"
  shows "\<exists>a t. next_action_type r = Some a \<and> a \<in> {RestoreAccess, IssueReplacementCertificate}
    \<and> transition_security_action_state (action_input s (JStr (action_id a))) = Inr t
    \<and> (a = RestoreAccess \<longrightarrow> access (transition_state t) = AccessNormal \<and> renewal (transition_state t) = RenewalAllowed)
    \<and> normalize_severe_evidence (get input ''activeSevereEvidence'') (evaluation_target r)
        (parse_time (get input ''evaluatedAt'')) = Inr []
    \<and> checkpoint_transition (evaluation_checkpoint r) = ''recovered''
    \<and> 2 \<le> checkpoint_evaluations (evaluation_checkpoint r) \<and> 2 \<le> length (checkpoint_sources (evaluation_checkpoint r))
    \<and> (target_certificate s = CertificateRevoked \<longrightarrow> get input ''severeCauseResolved'' = JBool True)"
proof -
  obtain target checkpoint active where
      active: "normalize_severe_evidence (get input ''activeSevereEvidence'') target (parse_time (get input ''evaluatedAt'')) = Inr active"
    and body: "(case select_recovery s checkpoint active (get input ''severeCauseResolved'' = JBool True) of
               (n, reason) \<Rightarrow>
                 Inr \<lparr> evaluation_target = target, evaluation_eligible = (n \<noteq> None), next_action_type = n,
                       evaluation_reason = reason, authorization_required = ''recovery-authorization'',
                       evaluation_checkpoint = checkpoint \<rparr>) = (Inr r :: recovery_evaluation res)"
    using assms(1,3) by (auto simp: evaluate_security_action_recovery_def action_fail_def simp del: not_None_eq split: if_splits)
  obtain nxt reason where sel: "select_recovery s checkpoint active (get input ''severeCauseResolved'' = JBool True) = (nxt, reason)"
    by fastforce
  have r: "evaluation_target r = target" "next_action_type r = nxt" "evaluation_checkpoint r = checkpoint"
      "evaluation_eligible r = (nxt \<noteq> None)"
    using body by (auto simp: sel)
  have v: "valid_action_state s" by (rule define_state_valid[OF assms(3)])
  obtain a where a: "nxt = Some a" using assms(2) r(4) by auto
  have cond: "active = [] \<and> recovery_trust_ready checkpoint (recovery_requirement s)
      \<and> (target_certificate s = CertificateRevoked \<longrightarrow> get input ''severeCauseResolved'' = JBool True)
      \<and> (a = IssueReplacementCertificate \<and> target_certificate s = CertificateRevoked
         \<or> a = RestoreAccess \<and> \<not> (target_certificate s = CertificateRevoked \<and> replacement s = ReplacementRequired))"
    using sel a by (auto simp: select_recovery_def Let_def split: if_splits)
  have "replacement s \<noteq> ReplacementNotRequired" if "target_certificate s = CertificateRevoked"
    using v that by (simp add: valid_action_state_def)
  then have "\<exists>t. next_action_state a s = Inr t
      \<and> (a = RestoreAccess \<longrightarrow> access t = AccessNormal \<and> renewal t = RenewalAllowed)"
    using cond by (cases "replacement s") auto
  then obtain t where t: "next_action_state a s = Inr t"
      "a = RestoreAccess \<longrightarrow> access t = AccessNormal \<and> renewal t = RenewalAllowed" by blast
  obtain d where "get_security_action_definition (JStr (action_id a)) = Inr d" "definition_id d = a"
    using definition_found by blast
  then have "\<exists>x. transition_security_action_state (action_input s (JStr (action_id a))) = Inr x \<and> transition_state x = t"
    using transition_valid[OF v] t(1) by auto
  then show ?thesis using cond t(2) active r a by (auto simp: recovery_trust_ready_def config_simps)
qed

abbreviation example_recovery :: js where
  "example_recovery \<equiv>
     obj [(''target'', obj [(''tenantId'', example_tenant), (''subjectId'', example_subject)]),
          (''currentState'', action_state_value \<lparr> access = AccessSuspended, renewal = RenewalBlocked,
             target_certificate = CertificateRevoked, replacement = ReplacementRequired \<rparr>),
          (''checkpoint'', obj [(''score'', num 80), (''band'', JStr ''high''), (''transition'', JStr ''recovered''),
             (''consecutiveQualifyingEvaluations'', num 2),
             (''sourceIds'', JArr [JStr ''src_00000000-0000-4000-8000-000000000001'',
                                   JStr ''src_00000000-0000-4000-8000-000000000002''])]),
          (''activeSevereEvidence'', JArr []), (''evaluatedAt'', JStr (time_to_iso 0)),
          (''severeCauseResolved'', JBool True)]"

end
