(* ===== verification/TenantContext.thy ===== *)
theory TenantContext
  imports JsValues
begin

text \<open>
  \<open>packages/tenant-context/src/index.mjs\<close> and \<open>redis.mjs\<close>: resolution of a tenant context from an
  authenticated identity and the authoritative state, the check that no request switches tenants,
  and the tenant-scoped Redis keys. The set of resolved contexts is a \<open>WeakSet\<close> of objects; here it
  is a store of contexts and a resolved context is a reference into it, so that a value that was not
  resolved can never pass for one.
\<close>

section \<open>Resolution\<close>

record tenant_context =
  ctx_tenant :: string
  ctx_subject :: string
  ctx_roles :: "string list"
  ctx_source :: string
  ctx_authentication_id :: string
  ctx_tenant_version :: rat
  ctx_subject_version :: rat
  ctx_membership_version :: rat

type_synonym context_store = "tenant_context list"

text \<open>What a caller can pass as a context: a reference to a resolved one, or any other value.\<close>

datatype context_arg = Resolved nat | Raw js

definition authentication_sources :: "string list" where
  "authentication_sources = [''mtls-certificate'', ''trusted-session'']"

definition tenant_roles :: "string list" where
  "tenant_roles = [''tenant-admin'', ''tenant-member'']"

definition claim_sources :: "string list" where
  "claim_sources = [''header'', ''path'', ''query'', ''body'', ''resource'']"

definition deny_context :: "string \<Rightarrow> 'a res" where
  "deny_context r = throw TenantContextError r"

definition is_positive_version :: "js \<Rightarrow> bool" where
  "is_positive_version v \<longleftrightarrow> is_safe_integer v \<and> 0 < num_of v"

definition require_record :: "js \<Rightarrow> string \<Rightarrow> js res" where
  "require_record v r = (if \<not> is_record v then deny_context r else Inr v)"

definition is_tenant_id :: "string \<Rightarrow> bool" where
  "is_tenant_id = is_id ''tnt''"

definition is_subject_id :: "string \<Rightarrow> bool" where
  "is_subject_id = is_id ''sub''"

definition check_authority ::
  "js \<Rightarrow> js \<Rightarrow> js \<Rightarrow> js \<Rightarrow> js \<Rightarrow> tenant_context res" where
  "check_authority auth tenant subject membership roles =
     (if \<not> strict_eq (get tenant ''tenantId'') (get auth ''tenantId'')
         \<or> \<not> strict_eq (get subject ''subjectId'') (get auth ''subjectId'')
         \<or> \<not> strict_eq (get membership ''tenantId'') (get auth ''tenantId'')
         \<or> \<not> strict_eq (get membership ''subjectId'') (get auth ''subjectId'')
      then deny_context ''AUTHORITATIVE_STATE_MISMATCH''
      else if get tenant ''state'' \<noteq> JStr ''active'' then deny_context ''TENANT_INACTIVE''
      else if get subject ''state'' \<noteq> JStr ''active'' then deny_context ''SUBJECT_INACTIVE''
      else if get membership ''state'' \<noteq> JStr ''active'' then deny_context ''MEMBERSHIP_INACTIVE''
      else if \<not> is_positive_version (get tenant ''version'') \<or> \<not> is_positive_version (get subject ''version'')
              \<or> \<not> is_positive_version (get membership ''version'')
      then deny_context ''AUTHORITY_VERSION_INVALID''
      else if \<not> is_array roles \<or> elements roles = [] \<or> list_ex (\<lambda>r. \<not> one_of tenant_roles r) (elements roles)
      then deny_context ''TENANT_ROLE_REQUIRED''
      else Inr \<lparr> ctx_tenant = str_of (get auth ''tenantId''), ctx_subject = str_of (get auth ''subjectId''),
                 ctx_roles = sort (map str_of (set_of_values (elements roles))),
                 ctx_source = str_of (get auth ''source''),
                 ctx_authentication_id = str_of (get auth ''authenticationId''),
                 ctx_tenant_version = num_of (get tenant ''version''),
                 ctx_subject_version = num_of (get subject ''version''),
                 ctx_membership_version = num_of (get membership ''version'') \<rparr>)"

definition build_context :: "js \<Rightarrow> js \<Rightarrow> tenant_context res" where
  "build_context authentication authority_state =
     and_then (require_record authentication ''AUTHENTICATED_IDENTITY_REQUIRED'') (\<lambda>auth.
     and_then (require_record authority_state ''AUTHORITATIVE_STATE_REQUIRED'') (\<lambda>state.
       if \<not> one_of authentication_sources (get auth ''source'') then deny_context ''AUTHENTICATION_SOURCE_UNTRUSTED''
       else if \<not> re_test_or_empty is_tenant_id (get auth ''tenantId'') then deny_context ''AUTHENTICATED_TENANT_REQUIRED''
       else if \<not> re_test_or_empty is_subject_id (get auth ''subjectId'') then deny_context ''AUTHENTICATED_SUBJECT_REQUIRED''
       else if \<not> is_string (get auth ''authenticationId'')
               \<or> length (str_of (get auth ''authenticationId'')) < 1
               \<or> 255 < length (str_of (get auth ''authenticationId''))
       then deny_context ''AUTHENTICATION_ID_REQUIRED''
       else and_then (require_record (get state ''tenant'') ''TENANT_STATE_REQUIRED'') (\<lambda>tenant.
            and_then (require_record (get state ''subject'') ''SUBJECT_STATE_REQUIRED'') (\<lambda>subject.
            and_then (require_record (get state ''membership'') ''MEMBERSHIP_STATE_REQUIRED'') (\<lambda>membership.
              check_authority auth tenant subject membership (get state ''roles''))))))"

definition resolve_tenant_context :: "context_store \<Rightarrow> js \<Rightarrow> js \<Rightarrow> context_store \<times> nat res" where
  "resolve_tenant_context st authentication authority_state =
     (case build_context authentication authority_state of
        Inl e \<Rightarrow> (st, Inl e)
      | Inr c \<Rightarrow> (st @ [c], Inr (length st)))"

section \<open>Use of a context\<close>

definition trusted_context :: "context_store \<Rightarrow> context_arg \<Rightarrow> tenant_context res" where
  "trusted_context st a =
     (case a of
        Raw v \<Rightarrow> if \<not> is_record v then deny_context ''TENANT_CONTEXT_REQUIRED'' else deny_context ''TENANT_CONTEXT_INVALID''
      | Resolved n \<Rightarrow> if n < length st then Inr (st ! n) else deny_context ''TENANT_CONTEXT_INVALID'')"

fun check_claims :: "tenant_context \<Rightarrow> js list \<Rightarrow> unit res" where
  "check_claims c [] = Inr ()"
| "check_claims c (claim # claims) =
     (if \<not> is_record claim \<or> \<not> one_of claim_sources (get claim ''source'')
         \<or> \<not> re_test_or_empty is_tenant_id (get claim ''tenantId'')
      then deny_context ''TENANT_CLAIM_INVALID''
      else if \<not> strict_eq (get claim ''tenantId'') (JStr (ctx_tenant c)) then deny_context ''TENANT_CONTEXT_MISMATCH''
      else check_claims c claims)"

definition assert_no_tenant_switch :: "context_store \<Rightarrow> context_arg \<Rightarrow> js \<Rightarrow> tenant_context res" where
  "assert_no_tenant_switch st a claims =
     and_then (trusted_context st a) (\<lambda>c.
       let given = (if claims = JUndef then JArr [] else claims)
       in if \<not> is_array given then deny_context ''TENANT_CLAIMS_INVALID''
          else and_then (check_claims c (elements given)) (\<lambda>_. Inr c))"

definition revalidate_tenant_context :: "context_store \<Rightarrow> context_arg \<Rightarrow> js \<Rightarrow> context_store \<times> nat res" where
  "revalidate_tenant_context st a authority_state =
     (case trusted_context st a of
        Inl e \<Rightarrow> (st, Inl e)
      | Inr c \<Rightarrow> resolve_tenant_context st
          (obj [(''source'', JStr (ctx_source c)), (''authenticationId'', JStr (ctx_authentication_id c)),
                (''tenantId'', JStr (ctx_tenant c)), (''subjectId'', JStr (ctx_subject c))])
          authority_state)"

definition tenant_safe_denial :: "js_error \<Rightarrow> (nat \<times> string) res" where
  "tenant_safe_denial e = (if error_is TenantContextError e then Inr (403, ''ACCESS_DENIED'') else Inl e)"

section \<open>Redis keys\<close>

definition unreserved :: "char \<Rightarrow> bool" where
  "unreserved c \<longleftrightarrow> upper c \<or> lower c \<or> digit c \<or> c \<in> set ''-_.!~*()'' \<or> c = CHR 39"

definition hex_digit :: "nat \<Rightarrow> char" where
  "hex_digit n = char_of (if n < 10 then 48 + n else 55 + n)"

definition percent_byte :: "nat \<Rightarrow> string" where
  "percent_byte b = [CHR ''%'', hex_digit (b div 16), hex_digit (b mod 16)]"

text \<open>\<open>encodeURIComponent\<close>: unreserved characters stand for themselves, the others are the
  percent-encoded bytes of their UTF-8 form.\<close>

definition encode_char :: "char \<Rightarrow> string" where
  "encode_char c =
     (let n = of_char c
      in if unreserved c then [c] else if n < 128 then percent_byte n
         else percent_byte (192 + n div 64) @ percent_byte (128 + n mod 64))"

definition encode_uri_component :: "string \<Rightarrow> string" where
  "encode_uri_component s = concat (map encode_char s)"

definition encode_key_part :: "js \<Rightarrow> string res" where
  "encode_key_part v =
     (if \<not> is_string v \<or> str_of v = [] \<or> 255 < length (str_of v) then Inl TypeErrorThrown
      else Inr (encode_uri_component (str_of v)))"

definition tenant_redis_key :: "context_store \<Rightarrow> context_arg \<Rightarrow> string \<Rightarrow> js \<Rightarrow> js list \<Rightarrow> string res" where
  "tenant_redis_key st a kind namespace segments =
     and_then (assert_no_tenant_switch st a (JArr [])) (\<lambda>c.
       if \<not> re_test_or_empty is_key_namespace namespace then Inl TypeErrorThrown
       else if segments = [] then Inl TypeErrorThrown
       else and_then (map_res encode_key_part segments) (\<lambda>parts.
         Inr (join '':'' ([''tenant'', ctx_tenant c, kind, to_string namespace] @ parts))))"

definition tenant_cache_key :: "context_store \<Rightarrow> context_arg \<Rightarrow> js \<Rightarrow> js list \<Rightarrow> string res" where
  "tenant_cache_key st a namespace segments = tenant_redis_key st a ''cache'' namespace segments"

definition tenant_lock_key :: "context_store \<Rightarrow> context_arg \<Rightarrow> js \<Rightarrow> js list \<Rightarrow> string res" where
  "tenant_lock_key st a namespace segments = tenant_redis_key st a ''lock'' namespace segments"

section \<open>What a resolved context satisfies\<close>

definition valid_context :: "tenant_context \<Rightarrow> bool" where
  "valid_context c \<longleftrightarrow>
     is_tenant_id (ctx_tenant c) \<and> is_subject_id (ctx_subject c) \<and> ctx_source c \<in> set authentication_sources
     \<and> ctx_roles c \<noteq> [] \<and> set (ctx_roles c) \<subseteq> set tenant_roles \<and> distinct (ctx_roles c) \<and> sorted (ctx_roles c)
     \<and> 1 \<le> length (ctx_authentication_id c) \<and> length (ctx_authentication_id c) \<le> 255
     \<and> 0 < ctx_tenant_version c \<and> 0 < ctx_subject_version c \<and> 0 < ctx_membership_version c"

lemma authority_checked:
  assumes "check_authority a tenant subject membership roles = Inr c"
  shows "strict_eq (get tenant ''tenantId'') (get a ''tenantId'')"
    "strict_eq (get subject ''subjectId'') (get a ''subjectId'')"
    "strict_eq (get membership ''tenantId'') (get a ''tenantId'')"
    "strict_eq (get membership ''subjectId'') (get a ''subjectId'')"
    "get tenant ''state'' = JStr ''active''" "get subject ''state'' = JStr ''active''"
    "get membership ''state'' = JStr ''active''"
    "is_positive_version (get tenant ''version'')" "is_positive_version (get subject ''version'')"
    "is_positive_version (get membership ''version'')"
    "elements roles \<noteq> []" "list_all (one_of tenant_roles) (elements roles)"
    "c = \<lparr> ctx_tenant = str_of (get a ''tenantId''), ctx_subject = str_of (get a ''subjectId''),
                 ctx_roles = sort (map str_of (set_of_values (elements roles))),
                 ctx_source = str_of (get a ''source''),
                 ctx_authentication_id = str_of (get a ''authenticationId''),
                 ctx_tenant_version = num_of (get tenant ''version''),
                 ctx_subject_version = num_of (get subject ''version''),
                 ctx_membership_version = num_of (get membership ''version'') \<rparr>"
proof -
  note checks = assms[unfolded check_authority_def deny_context_def guard_eq_Inr]
  show "strict_eq (get tenant ''tenantId'') (get a ''tenantId'')"
    "strict_eq (get subject ''subjectId'') (get a ''subjectId'')"
    "strict_eq (get membership ''tenantId'') (get a ''tenantId'')"
    "strict_eq (get membership ''subjectId'') (get a ''subjectId'')"
    "get tenant ''state'' = JStr ''active''" "get subject ''state'' = JStr ''active''"
    "get membership ''state'' = JStr ''active''"
    "is_positive_version (get tenant ''version'')" "is_positive_version (get subject ''version'')"
    "is_positive_version (get membership ''version'')"
    "elements roles \<noteq> []"  using checks by blast+
  show "list_all (one_of tenant_roles) (elements roles)" using checks by (simp only: list_ex_iff list_all_iff) blast
  show "c = \<lparr> ctx_tenant = str_of (get a ''tenantId''), ctx_subject = str_of (get a ''subjectId''),
                 ctx_roles = sort (map str_of (set_of_values (elements roles))),
                 ctx_source = str_of (get a ''source''),
                 ctx_authentication_id = str_of (get a ''authenticationId''),
                 ctx_tenant_version = num_of (get tenant ''version''),
                 ctx_subject_version = num_of (get subject ''version''),
                 ctx_membership_version = num_of (get membership ''version'') \<rparr>"
    using checks by (simp only: sum.inject)
qed

lemma context_checked:
  assumes "build_context authentication authority_state = Inr c"
  shows "valid_context c" "get authentication ''tenantId'' = JStr (ctx_tenant c)"
    "get authentication ''subjectId'' = JStr (ctx_subject c)" "get authentication ''source'' = JStr (ctx_source c)"
    "get authentication ''authenticationId'' = JStr (ctx_authentication_id c)"
    "get (get authority_state ''tenant'') ''tenantId'' = JStr (ctx_tenant c)"
    "get (get authority_state ''tenant'') ''state'' = JStr ''active''"
    "get (get authority_state ''subject'') ''state'' = JStr ''active''"
    "get (get authority_state ''membership'') ''state'' = JStr ''active''"
    "get (get authority_state ''membership'') ''tenantId'' = JStr (ctx_tenant c)"
    "get (get authority_state ''membership'') ''subjectId'' = JStr (ctx_subject c)"
    "JStr r \<in> set (elements (get authority_state ''roles'')) \<longleftrightarrow> r \<in> set (ctx_roles c)"
proof -
  define tenant subject membership roles where "tenant = get authority_state ''tenant''"
    and "subject = get authority_state ''subject''" and "membership = get authority_state ''membership''"
    and "roles = get authority_state ''roles''"
  let ?a = authentication
  have src: "one_of authentication_sources (get ?a ''source'')"
    and t: "re_test_or_empty is_tenant_id (get ?a ''tenantId'')"
    and s: "re_test_or_empty is_subject_id (get ?a ''subjectId'')"
    and aid: "is_string (get ?a ''authenticationId'')" "1 \<le> length (str_of (get ?a ''authenticationId''))"
      "length (str_of (get ?a ''authenticationId'')) \<le> 255"
    and c: "check_authority ?a tenant subject membership roles = Inr c"
    using assms
    unfolding build_context_def require_record_def deny_context_def tenant_def subject_def membership_def
      roles_def
    by (simp_all add: not_less Suc_le_eq)
  note k = authority_checked[OF c]
  note eqs = k(1-4) and active = k(5-7) and vers = k(8-10) and roles = k(11,12) and ceq = k(13)
  have tid: "get ?a ''tenantId'' = JStr (ctx_tenant c) \<and> is_tenant_id (ctx_tenant c)"
    using id_string[OF t[unfolded is_tenant_id_def] disjI1[OF eqs(1)]] by (simp add: ceq is_tenant_id_def)
  have sid: "get ?a ''subjectId'' = JStr (ctx_subject c) \<and> is_subject_id (ctx_subject c)"
    using id_string[OF s[unfolded is_subject_id_def] disjI1[OF eqs(2)]] by (simp add: ceq is_subject_id_def)
  have strings: "list_all is_string (elements roles)" using roles(2) by (auto simp: list_all_iff one_of_iff)
  note sv = set_of_values_strings[OF strings]
  have inj: "inj_on str_of (set (set_of_values (elements roles)))"
    using strings unfolding sv(1) by (intro inj_onI) (metis is_string_iff list_all_iff str_of.simps(1))
  have rset: "JStr r \<in> set (elements roles) \<longleftrightarrow> r \<in> set (ctx_roles c)" for r
  proof -
    have "set (ctx_roles c) = str_of ` set (elements roles)" by (simp add: ceq sv(1))
    moreover have "x = JStr (str_of x)" if "x \<in> set (elements roles)" for x
      using that strings by (metis is_string_iff list_all_iff str_of.simps(1))
    ultimately show ?thesis by (metis image_iff str_of.simps(1))
  qed
  have sub: "set (ctx_roles c) \<subseteq> set tenant_roles"
  proof
    fix r
    assume "r \<in> set (ctx_roles c)"
    then have "one_of tenant_roles (JStr r)" using roles(2) rset by (metis list_all_iff)
    then show "r \<in> set tenant_roles" by (simp add: one_of_iff)
  qed
  have ne: "ctx_roles c \<noteq> []"
  proof
    assume e: "ctx_roles c = []"
    have "set (ctx_roles c) = str_of ` set (elements roles)" by (simp add: ceq sv(1))
    with e show False using roles(1) by simp
  qed
  have dist: "distinct (ctx_roles c) \<and> sorted (ctx_roles c)"
    using inj sv(2) by (simp add: ceq distinct_map)
  have src': "get ?a ''source'' = JStr (ctx_source c) \<and> ctx_source c \<in> set authentication_sources"
    using src by (auto simp: one_of_iff ceq)
  have aid': "get ?a ''authenticationId'' = JStr (ctx_authentication_id c)"
    using aid(1) by (cases "get ?a ''authenticationId''") (auto simp: ceq)
  have vers': "0 < ctx_tenant_version c" "0 < ctx_subject_version c" "0 < ctx_membership_version c"
    using vers by (simp_all add: ceq is_positive_version_def)
  have aid_len: "1 \<le> length (ctx_authentication_id c)" "length (ctx_authentication_id c) \<le> 255"
    using aid by (simp_all add: ceq)
  show "valid_context c"
    using tid sid src' ne sub dist aid_len vers' by (simp add: valid_context_def)
  show "get ?a ''tenantId'' = JStr (ctx_tenant c)" "get ?a ''subjectId'' = JStr (ctx_subject c)"
    "get ?a ''source'' = JStr (ctx_source c)" "get ?a ''authenticationId'' = JStr (ctx_authentication_id c)"
    using tid sid src' aid' by blast+
  show "get (get authority_state ''tenant'') ''tenantId'' = JStr (ctx_tenant c)"
    "get (get authority_state ''tenant'') ''state'' = JStr ''active''"
    "get (get authority_state ''subject'') ''state'' = JStr ''active''"
    "get (get authority_state ''membership'') ''state'' = JStr ''active''"
    "get (get authority_state ''membership'') ''tenantId'' = JStr (ctx_tenant c)"
    "get (get authority_state ''membership'') ''subjectId'' = JStr (ctx_subject c)"
    using eqs active tid sid unfolding tenant_def subject_def membership_def by (simp_all only: strict_eq_str simp_thms)
  show "JStr r \<in> set (elements (get authority_state ''roles'')) \<longleftrightarrow> r \<in> set (ctx_roles c)"
    using rset by (simp add: roles_def)
qed

section \<open>The store of resolved contexts\<close>

datatype context_request =
    ResolveRequest js js
  | RevalidateRequest context_arg js

definition context_step :: "context_store \<Rightarrow> context_request \<Rightarrow> context_store \<times> nat res" where
  "context_step st i =
     (case i of ResolveRequest a s \<Rightarrow> resolve_tenant_context st a s
      | RevalidateRequest c s \<Rightarrow> revalidate_tenant_context st c s)"

definition store_extends :: "context_store \<Rightarrow> context_store \<Rightarrow> bool" where
  "store_extends s t \<longleftrightarrow> (\<exists>u. t = s @ u)"

lemma resolve_effect:
  "fst (resolve_tenant_context st a s) = st \<or>
   (\<exists>c. build_context a s = Inr c \<and> fst (resolve_tenant_context st a s) = st @ [c])"
  by (simp add: resolve_tenant_context_def split: sum.split)

lemma context_step_effect:
  "fst (context_step st i) = st \<or> (\<exists>c. valid_context c \<and> fst (context_step st i) = st @ [c])"
  using resolve_effect context_checked(1)
  by (cases i) (auto simp: context_step_def revalidate_tenant_context_def split: sum.split, metis+)

interpretation contexts: monotone_machine context_step "list_all valid_context" "\<lambda>_. True" store_extends
proof
  fix st :: context_store and i
  assume "list_all valid_context st"
  then show "list_all valid_context (fst (context_step st i))"
    using context_step_effect[of st i] by auto
  show "store_extends st (fst (context_step st i))"
    using context_step_effect[of st i] by (auto simp: store_extends_def)
qed (auto simp: store_extends_def)

lemma check_claims_ok: "check_claims c claims = Inr u \<Longrightarrow> claim \<in> set claims \<Longrightarrow> get claim ''tenantId'' = JStr (ctx_tenant c)"
  by (induction c claims rule: check_claims.induct) (auto simp: deny_context_def simp del: get.simps split: if_splits)

section \<open>Properties\<close>

text \<open>C13: A context is only ever one that was resolved: after any sequence of resolutions and
  revalidations, a value that the check lets through is a reference to a stored context with
  well-formed identifiers and known roles, and every tenant claim of the request names its tenant.\<close>

theorem only_resolved_contexts_pass:
  assumes "st = fst (run_machine context_step [] requests)"
    and "assert_no_tenant_switch st a claims = Inr c"
  shows "\<exists>n < length st. a = Resolved n \<and> st ! n = c \<and> valid_context c
    \<and> (\<forall>claim \<in> set (elements claims). get claim ''tenantId'' = JStr (ctx_tenant c))"
proof -
  have v: "list_all valid_context st"
    unfolding assms(1) by (rule contexts.run_inv) (simp_all add: list_all_iff)
  obtain n where n: "a = Resolved n" "n < length st" "st ! n = c"
    using assms(2) by (auto simp: assert_no_tenant_switch_def trusted_context_def deny_context_def Let_def
        split: context_arg.splits if_splits)
  have "get claim ''tenantId'' = JStr (ctx_tenant c)" if "claim \<in> set (elements claims)" for claim
  proof -
    have "claims \<noteq> JUndef" using that by auto
    then show ?thesis using assms(2) n that
      by (auto simp: assert_no_tenant_switch_def trusted_context_def deny_context_def Let_def
          intro: check_claims_ok simp del: get.simps split: if_splits)
  qed
  then show ?thesis using n v by (auto simp: list_all_length)
qed

abbreviation example_authentication :: js where
  "example_authentication \<equiv>
     obj [(''source'', JStr ''mtls-certificate''), (''tenantId'', JStr ''tnt_00000000-0000-4000-8000-000000000001''),
          (''subjectId'', JStr ''sub_00000000-0000-4000-8000-000000000001''), (''authenticationId'', JStr ''cert-1'')]"

abbreviation example_authority :: "string \<Rightarrow> js" where
  "example_authority role \<equiv>
     obj [(''tenant'', obj [(''tenantId'', JStr ''tnt_00000000-0000-4000-8000-000000000001''),
             (''state'', JStr ''active''), (''version'', num 1)]),
          (''subject'', obj [(''subjectId'', JStr ''sub_00000000-0000-4000-8000-000000000001''),
             (''state'', JStr ''active''), (''version'', num 1)]),
          (''membership'', obj [(''tenantId'', JStr ''tnt_00000000-0000-4000-8000-000000000001''),
             (''subjectId'', JStr ''sub_00000000-0000-4000-8000-000000000001''),
             (''state'', JStr ''active''), (''version'', num 1)]),
          (''roles'', JArr [JStr role])]"

abbreviation example_context :: "string \<Rightarrow> tenant_context" where
  "example_context role \<equiv>
     \<lparr> ctx_tenant = ''tnt_00000000-0000-4000-8000-000000000001'',
       ctx_subject = ''sub_00000000-0000-4000-8000-000000000001'', ctx_roles = [role],
       ctx_source = ''mtls-certificate'', ctx_authentication_id = ''cert-1'', ctx_tenant_version = 1,
       ctx_subject_version = 1, ctx_membership_version = 1 \<rparr>"

lemma example_ids:
  "is_tenant_id ''tnt_00000000-0000-4000-8000-000000000001''"
  "is_subject_id ''sub_00000000-0000-4000-8000-000000000001''"
  by code_simp+

lemma example_resolved:
  assumes "role \<in> set tenant_roles"
  shows "resolve_tenant_context st example_authentication (example_authority role) =
    (st @ [example_context role], Inr (length st))"
  using assms
  by (simp add: resolve_tenant_context_def build_context_def require_record_def is_record_def one_of_def
      authentication_sources_def example_ids check_authority_def is_positive_version_def is_safe_integer_def
      is_integer_rat_def max_safe_integer_def set_of_values_def)

lemma example_store:
  "fst (run_machine context_step [] [ResolveRequest example_authentication (example_authority ''tenant-admin'')])
     = [example_context ''tenant-admin'']"
  by (simp add: context_step_def example_resolved tenant_roles_def)

lemma only_resolved_contexts_pass_witness:
  "\<exists>n. Resolved 0 = Resolved n \<and> valid_context (example_context ''tenant-admin'')"
proof -
  have "assert_no_tenant_switch [example_context ''tenant-admin''] (Resolved 0)
      (JArr [obj [(''source'', JStr ''header''), (''tenantId'', JStr ''tnt_00000000-0000-4000-8000-000000000001'')]])
    = Inr (example_context ''tenant-admin'')"
    by (simp add: assert_no_tenant_switch_def trusted_context_def is_record_def one_of_def claim_sources_def example_ids)
  from only_resolved_contexts_pass[OF example_store[symmetric] this] show ?thesis by blast
qed

text \<open>Revalidation cannot change who the context is about: it yields a new context for the same
  tenant, subject and authentication, with the roles and versions the current authority states, and it
  denies when the tenant, the subject or the membership is no longer active.\<close>

theorem revalidation_keeps_identity:
  assumes "revalidate_tenant_context st (Resolved n) authority_state = (st', Inr m)"
  shows "n < length st \<and> m < length st' \<and> ctx_tenant (st' ! m) = ctx_tenant (st ! n)
    \<and> ctx_subject (st' ! m) = ctx_subject (st ! n) \<and> ctx_source (st' ! m) = ctx_source (st ! n)
    \<and> ctx_authentication_id (st' ! m) = ctx_authentication_id (st ! n)
    \<and> (\<forall>r. r \<in> set (ctx_roles (st' ! m)) \<longleftrightarrow> JStr r \<in> set (elements (get authority_state ''roles'')))
    \<and> get (get authority_state ''tenant'') ''state'' = JStr ''active''
    \<and> get (get authority_state ''subject'') ''state'' = JStr ''active''
    \<and> get (get authority_state ''membership'') ''state'' = JStr ''active''"
proof -
  let ?c = "st ! n"
  let ?a = "obj [(''source'', JStr (ctx_source ?c)), (''authenticationId'', JStr (ctx_authentication_id ?c)),
                (''tenantId'', JStr (ctx_tenant ?c)), (''subjectId'', JStr (ctx_subject ?c))]"
  have n: "n < length st" and r: "resolve_tenant_context st ?a authority_state = (st', Inr m)"
    using assms by (auto simp: revalidate_tenant_context_def trusted_context_def deny_context_def split: if_splits)
  obtain c where c: "build_context ?a authority_state = Inr c" "st' = st @ [c]" "m = length st"
    using r by (auto simp: resolve_tenant_context_def split: sum.splits)
  note k = context_checked[OF c(1)]
  show ?thesis using n c(2,3) k(2-5) k(7-9) k(12) by simp
qed

lemma revalidation_keeps_identity_witness:
  "\<exists>st' m. revalidate_tenant_context [example_context ''tenant-admin''] (Resolved 0) (example_authority ''tenant-member'')
     = (st', Inr m) \<and> ctx_tenant (st' ! m) = ''tnt_00000000-0000-4000-8000-000000000001''"
proof -
  have "revalidate_tenant_context [example_context ''tenant-admin''] (Resolved 0) (example_authority ''tenant-member'')
      = ([example_context ''tenant-admin'', example_context ''tenant-member''], Inr 1)"
    by (simp add: revalidate_tenant_context_def trusted_context_def
        resolve_tenant_context_def build_context_def require_record_def is_record_def one_of_def
        authentication_sources_def example_ids check_authority_def is_positive_version_def is_safe_integer_def
        is_integer_rat_def max_safe_integer_def set_of_values_def tenant_roles_def)
  from revalidation_keeps_identity[OF this] this show ?thesis by auto
qed

section \<open>Keys do not collide\<close>

lemma of_char_less: "of_char c < (256::nat)"
  by (rule nat_of_char_less_256)

lemma of_char_hex: "n < 16 \<Longrightarrow> of_char (hex_digit n) = (if n < 10 then 48 + n else 55 + n)"
  by (simp add: hex_digit_def)

lemma hex_digit_inj: "a < 16 \<Longrightarrow> b < 16 \<Longrightarrow> hex_digit a = hex_digit b \<Longrightarrow> a = b"
proof -
  assume a: "a < 16" "b < 16" "hex_digit a = hex_digit b"
  then show "a = b" using of_char_hex[OF a(1)] of_char_hex[OF a(2)] unfolding a(3) by (auto split: if_splits)
qed

lemma percent_byte_inj:
  assumes "a < 256" "b < 256" "percent_byte a @ s = percent_byte b @ t"
  shows "a = b \<and> s = t"
proof -
  have d: "hex_digit (a div 16) = hex_digit (b div 16)" "hex_digit (a mod 16) = hex_digit (b mod 16)" "s = t"
    using assms(3) by (simp_all add: percent_byte_def)
  have "a div 16 < 16" "b div 16 < 16" using assms(1,2) by (simp_all add: less_mult_imp_div_less)
  then have "a div 16 = b div 16" "a mod 16 = b mod 16" using d hex_digit_inj by simp_all
  then show ?thesis using d(3) by (metis div_mult_mod_eq)
qed

lemma percent_not_unreserved: "\<not> unreserved (CHR ''%'')" "\<not> unreserved (CHR '':'')"
  by (simp_all add: unreserved_def upper_def lower_def digit_def)

lemma encode_char_inj:
  assumes "encode_char c @ s = encode_char d @ t"
  shows "c = d \<and> s = t"
proof -
  define m n where "m = (of_char c :: nat)" and "n = (of_char d :: nat)"
  have mn: "m < 256" "n < 256" by (simp_all add: m_def n_def of_char_less)
  have cd: "m = n \<Longrightarrow> c = d" by (simp add: m_def n_def)
  have "m div 64 < 4" "n div 64 < 4" using mn by (simp_all add: less_mult_imp_div_less)
  then have b: "192 + m div 64 < 256" "192 + n div 64 < 256" "128 + m mod 64 < 256" "128 + n mod 64 < 256"
    by auto
  consider "unreserved c" | "\<not> unreserved c" "m < 128" | "\<not> unreserved c" "\<not> m < 128" by blast
  then show ?thesis
  proof cases
    case 1
    then show ?thesis using assms percent_not_unreserved
      by (auto simp: encode_char_def Let_def percent_byte_def split: if_splits)
  next
    case 2
    then have d: "\<not> unreserved d" using assms percent_not_unreserved
      by (auto simp: encode_char_def Let_def percent_byte_def split: if_splits)
    show ?thesis
    proof (cases "n < 128")
      case True
      then show ?thesis using assms 2 d percent_byte_inj[of m n s t] mn cd
        by (simp add: encode_char_def Let_def m_def[symmetric] n_def[symmetric])
    next
      case False
      then have "percent_byte m @ s = percent_byte (192 + n div 64) @ percent_byte (128 + n mod 64) @ t"
        using assms 2 d by (simp add: encode_char_def Let_def m_def[symmetric] n_def[symmetric])
      from percent_byte_inj[OF mn(1) b(2) this] 2 show ?thesis by simp
    qed
  next
    case 3
    then have d: "\<not> unreserved d" using assms percent_not_unreserved
      by (auto simp: encode_char_def Let_def percent_byte_def split: if_splits)
    show ?thesis
    proof (cases "n < 128")
      case True
      then have "percent_byte (192 + m div 64) @ percent_byte (128 + m mod 64) @ s = percent_byte n @ t"
        using assms 3 d by (simp add: encode_char_def Let_def m_def[symmetric] n_def[symmetric])
      from percent_byte_inj[OF b(1) mn(2) this] True show ?thesis by simp
    next
      case False
      then have e: "percent_byte (192 + m div 64) @ percent_byte (128 + m mod 64) @ s
          = percent_byte (192 + n div 64) @ percent_byte (128 + n mod 64) @ t"
        using assms 3 d by (simp add: encode_char_def Let_def m_def[symmetric] n_def[symmetric])
      from percent_byte_inj[OF b(1,2) e] have h: "m div 64 = n div 64"
        "percent_byte (128 + m mod 64) @ s = percent_byte (128 + n mod 64) @ t" by simp_all
      from percent_byte_inj[OF b(3,4) h(2)] have l: "m mod 64 = n mod 64" "s = t" by simp_all
      have "m = n" using h(1) l(1) by (metis div_mult_mod_eq)
      then show ?thesis using cd l(2) by simp
    qed
  qed
qed

lemma encode_char_nonempty [simp]: "encode_char c \<noteq> []"
  by (simp add: encode_char_def Let_def percent_byte_def)

lemma encode_uri_inj: "encode_uri_component s = encode_uri_component t \<Longrightarrow> s = t"
proof (induction s arbitrary: t)
  case Nil
  then show ?case by (cases t) (simp_all add: encode_uri_component_def)
next
  case (Cons c s)
  then obtain d u where t: "t = d # u" by (cases t) (auto simp: encode_uri_component_def)
  have "encode_char c @ encode_uri_component s = encode_char d @ encode_uri_component u"
    using Cons.prems by (simp add: encode_uri_component_def t)
  from encode_char_inj[OF this] show ?case using Cons.IH by (simp add: t)
qed

definition no_colon :: "string \<Rightarrow> bool" where
  "no_colon s \<longleftrightarrow> CHR '':'' \<notin> set s"

lemma hex_no_colon: "n < 16 \<Longrightarrow> hex_digit n \<noteq> CHR '':''"
proof
  assume n: "n < 16" and h: "hex_digit n = CHR '':''"
  show False using of_char_hex[OF n] n unfolding h by (simp split: if_splits)
qed

lemma percent_no_colon: "b < 256 \<Longrightarrow> no_colon (percent_byte b)"
  using hex_no_colon[of "b div 16"] hex_no_colon[of "b mod 16"]
  by (auto simp: no_colon_def percent_byte_def less_mult_imp_div_less)

lemma encode_no_colon: "no_colon (encode_uri_component s)"
proof -
  have "no_colon (encode_char c)" for c
  proof -
    have n: "of_char c < (256::nat)" by (rule of_char_less)
    have "of_char c div 64 < (4::nat)" using n by (simp add: less_mult_imp_div_less)
    then have b: "192 + of_char c div 64 < (256::nat)" "128 + of_char c mod 64 < (256::nat)" by auto
    show ?thesis
    proof (cases "unreserved c")
      case True
      then have "c \<noteq> CHR '':''" using percent_not_unreserved by auto
      then show ?thesis using True by (simp add: encode_char_def no_colon_def)
    next
      case False
      then show ?thesis using percent_no_colon[OF n] percent_no_colon[OF b(1)] percent_no_colon[OF b(2)]
        by (simp add: encode_char_def Let_def no_colon_def)
    qed
  qed
  then show ?thesis by (auto simp: encode_uri_component_def no_colon_def)
qed

lemma colon_split:
  "no_colon u \<Longrightarrow> no_colon v \<Longrightarrow> u @ CHR '':'' # s = v @ CHR '':'' # t \<Longrightarrow> u = v \<and> s = t"
  by (induction u arbitrary: v) (auto simp: no_colon_def Cons_eq_append_conv)

lemma join_Cons: "ws \<noteq> [] \<Longrightarrow> join sep (w # ws) = w @ sep @ join sep ws"
  by (cases ws) auto

lemma join_inj:
  assumes "list_all no_colon xs" "list_all no_colon ys" "xs \<noteq> []" "ys \<noteq> []" "join '':'' xs = join '':'' ys"
  shows "xs = ys"
  using assms
proof (induction xs arbitrary: ys)
  case (Cons x xs)
  obtain y zs where y: "ys = y # zs" using Cons.prems(4) by (cases ys) auto
  have n: "no_colon x" "no_colon y" using Cons.prems(1,2) y by auto
  show ?case
  proof (cases "xs = []"; cases "zs = []")
    assume "xs \<noteq> []" "zs \<noteq> []"
    then have "x @ CHR '':'' # join '':'' xs = y @ CHR '':'' # join '':'' zs"
      using Cons.prems(5) by (simp add: y join_Cons)
    from colon_split[OF n this] Cons.IH[of zs] Cons.prems(1,2) \<open>xs \<noteq> []\<close> \<open>zs \<noteq> []\<close> show ?thesis by (simp add: y)
  qed (use Cons.prems(5) n y in \<open>auto simp: join_Cons no_colon_def\<close>)
qed simp

lemma hex_colon: "\<not> lower_hex (CHR '':'')" "\<not> digit (CHR '':'')" "\<not> lower (CHR '':'')"
  by (simp_all add: lower_hex_def digit_def lower_def)

lemma matches_no_colon:
  "matches ps s \<Longrightarrow> list_all (\<lambda>p. \<not> p (CHR '':'')) ps \<Longrightarrow> no_colon s"
  by (induction ps s rule: matches.induct) (auto simp: no_colon_def)

lemma id_no_colon: "is_id p s \<Longrightarrow> no_colon p \<Longrightarrow> no_colon s"
  unfolding is_id_def
  by (rule matches_no_colon)
    (auto simp: uuid_classes_def lit_def no_colon_def hex_colon list_all_iff)

lemma namespace_no_colon: "is_key_namespace s \<Longrightarrow> no_colon s"
  by (cases s) (auto simp: is_key_namespace_def no_colon_def hex_colon list_all_iff)

text \<open>C14: Redis keys of different tenants never collide: two keys built by the store are equal only
  when tenant, kind, namespace and every segment are equal.\<close>

theorem tenant_keys_do_not_collide:
  assumes "tenant_redis_key st a kind (JStr ns) segments = Inr key"
    and "tenant_redis_key st' a' kind' (JStr ns') segments' = Inr key"
    and "list_all valid_context st" "list_all valid_context st'" "kind \<in> {''cache'', ''lock''}" "kind' \<in> {''cache'', ''lock''}"
  shows "\<exists>c c'. assert_no_tenant_switch st a (JArr []) = Inr c \<and> assert_no_tenant_switch st' a' (JArr []) = Inr c'
    \<and> ctx_tenant c = ctx_tenant c' \<and> kind = kind' \<and> ns = ns' \<and> segments = segments'"
proof -
  have parts: "\<exists>c ps. assert_no_tenant_switch st a (JArr []) = Inr c \<and> is_key_namespace ns
      \<and> map_res encode_key_part segments = Inr ps \<and> key = join '':'' ([''tenant'', ctx_tenant c, kind, ns] @ ps)
      \<and> is_tenant_id (ctx_tenant c)"
    if k: "tenant_redis_key st a kind (JStr ns) segments = Inr key" and v: "list_all valid_context st"
    for st a kind ns segments
  proof -
    obtain c ps where c: "assert_no_tenant_switch st a (JArr []) = Inr c" "is_key_namespace ns"
      "map_res encode_key_part segments = Inr ps" "key = join '':'' ([''tenant'', ctx_tenant c, kind, ns] @ ps)"
      using k by (auto simp: tenant_redis_key_def simp del: join.simps split: if_splits)
    have "valid_context c" using c(1) v
      by (auto simp: assert_no_tenant_switch_def trusted_context_def deny_context_def Let_def list_all_length
          split: context_arg.splits if_splits)
    then show ?thesis using c by (auto simp: valid_context_def)
  qed
  have strings: "\<exists>ws. segments = map JStr ws \<and> ps = map encode_uri_component ws"
    if "map_res encode_key_part segments = Inr ps" for segments ps
    using that
  proof (induction segments arbitrary: ps)
    case (Cons x xs)
    then obtain q qs where q: "encode_key_part x = Inr q" "map_res encode_key_part xs = Inr qs" "ps = q # qs" by auto
    obtain w where "x = JStr w" "q = encode_uri_component w"
      using q(1) by (auto simp: encode_key_part_def is_string_iff split: if_splits)
    then show ?case using Cons.IH[OF q(2)] q(3) by (metis list.simps(9))
  qed simp
  obtain c ps where c: "assert_no_tenant_switch st a (JArr []) = Inr c" "is_key_namespace ns"
    "map_res encode_key_part segments = Inr ps" "key = join '':'' ([''tenant'', ctx_tenant c, kind, ns] @ ps)"
    "is_tenant_id (ctx_tenant c)" using parts[OF assms(1,3)] by blast
  obtain c' ps' where c': "assert_no_tenant_switch st' a' (JArr []) = Inr c'" "is_key_namespace ns'"
    "map_res encode_key_part segments' = Inr ps'" "key = join '':'' ([''tenant'', ctx_tenant c', kind', ns'] @ ps')"
    "is_tenant_id (ctx_tenant c')" using parts[OF assms(2,4)] by blast
  obtain ws where ws: "segments = map JStr ws" "ps = map encode_uri_component ws" using strings[OF c(3)] by blast
  obtain ws' where ws': "segments' = map JStr ws'" "ps' = map encode_uri_component ws'" using strings[OF c'(3)] by blast
  have lits: "no_colon ''tenant''" "no_colon ''tnt''" "no_colon ''cache''" "no_colon ''lock''" by (simp_all add: no_colon_def)
  have "list_all no_colon ([''tenant'', ctx_tenant c, kind, ns] @ ps)"
    using assms(5) c(2,5) lits encode_no_colon id_no_colon namespace_no_colon
    by (auto simp: ws(2) list_all_iff is_tenant_id_def)
  moreover have "list_all no_colon ([''tenant'', ctx_tenant c', kind', ns'] @ ps')"
    using assms(6) c'(2,5) lits encode_no_colon id_no_colon namespace_no_colon
    by (auto simp: ws'(2) list_all_iff is_tenant_id_def)
  ultimately have "[''tenant'', ctx_tenant c, kind, ns] @ ps = [''tenant'', ctx_tenant c', kind', ns'] @ ps'"
    using c(4) c'(4) by (intro join_inj) auto
  then have eqs: "ctx_tenant c = ctx_tenant c'" "kind = kind'" "ns = ns'" "map encode_uri_component ws = map encode_uri_component ws'"
    by (simp_all add: ws(2) ws'(2))
  have "ws = ws'" using eqs(4) encode_uri_inj by (metis inj_onI inj_map_eq_map)
  then show ?thesis using c(1) c'(1) eqs(1-3) ws(1) ws'(1) by blast
qed

lemma tenant_keys_do_not_collide_witness:
  "\<exists>key. tenant_cache_key [example_context ''tenant-admin''] (Resolved 0) (JStr ''session'') [JStr ''a:b''] = Inr key
     \<and> (\<forall>w. tenant_cache_key [example_context ''tenant-admin''] (Resolved 0) (JStr ''session'') [JStr ''a'', JStr w] \<noteq> Inr key)"
proof -
  have v: "list_all valid_context [example_context ''tenant-admin'']"
    by (simp add: valid_context_def example_ids authentication_sources_def tenant_roles_def)
  have ns: "is_key_namespace ''session''" by code_simp
  let ?k = "tenant_redis_key [example_context ''tenant-admin''] (Resolved 0) ''cache'' (JStr ''session'')"
  obtain key where k: "?k [JStr ''a:b''] = Inr key"
    using ns by (simp add: tenant_redis_key_def assert_no_tenant_switch_def trusted_context_def encode_key_part_def del: join.simps)
  have "?k [JStr ''a'', JStr w] \<noteq> Inr key" for w
    using tenant_keys_do_not_collide[OF k _ v v, of "Resolved 0" "''cache''" "''session''" "[JStr ''a'', JStr w]"] by auto
  then show ?thesis using k by (auto simp: tenant_cache_key_def)
qed

end
