(* ===== verification/Authorization.thy ===== *)
theory Authorization
  imports TenantContext
begin

text \<open>
  \<open>packages/authorization/src/index.mjs\<close>: the role-action matrix, the two authorization modes and
  the decision of a mode. The registered modes are the two constants of the module, told apart by
  reference; every other value is a foreign mode.
\<close>

section \<open>The role-action matrix\<close>

definition auth_tenant_roles :: "string list" where
  "auth_tenant_roles = [''tenant-member'', ''tenant-admin'']"

definition baseline_mode_id :: string where
  "baseline_mode_id = ''pki-rbac-baseline-v1''"

definition adaptive_mode_id :: string where
  "adaptive_mode_id = ''adaptive-trust-opa-v1''"

definition actions :: "string list" where
  "actions = [''profile:read'', ''record:read'', ''record:write'', ''record:export'', ''tenant:admin'']"

definition resource_types :: "(string \<times> string) list" where
  "resource_types =
     [(''profile:read'', ''subject-profile''), (''record:read'', ''tenant-record''),
      (''record:write'', ''tenant-record''), (''record:export'', ''tenant-record-export''),
      (''tenant:admin'', ''tenant-administration'')]"

definition resource_sensitivity :: "(string \<times> string) list" where
  "resource_sensitivity =
     [(''profile:read'', ''confidential''), (''record:read'', ''confidential''),
      (''record:write'', ''confidential''), (''record:export'', ''sensitive''),
      (''tenant:admin'', ''critical'')]"

definition common_controls :: "string list" where
  "common_controls = [''authenticated-certificate'', ''active-membership'', ''resource-scope'']"

definition sensitive_controls :: "string list" where
  "sensitive_controls = common_controls @ [''operation-policy'', ''bound-step-up'', ''audit-record'']"

record role_rule =
  rl_role :: string
  rl_action :: string
  rl_resource_type :: "string option"
  rl_sensitivity :: "string option"
  rl_disposition :: string
  rl_scope :: string
  rl_controls :: "string list"
  rl_reason :: string

definition rule_entry :: "string \<Rightarrow> string \<Rightarrow> string \<Rightarrow> string \<Rightarrow> string list \<Rightarrow> string \<Rightarrow> role_rule" where
  "rule_entry role action disposition scope controls reason =
     \<lparr> rl_role = role, rl_action = action, rl_resource_type = map_of resource_types action,
       rl_sensitivity = map_of resource_sensitivity action, rl_disposition = disposition,
       rl_scope = scope, rl_controls = controls, rl_reason = reason \<rparr>"

definition role_action_matrix :: "role_rule list" where
  "role_action_matrix =
     [rule_entry ''tenant-member'' ''profile:read'' ''allow'' ''self'' common_controls ''member-self-profile'',
      rule_entry ''tenant-member'' ''record:read'' ''allow'' ''owner'' common_controls ''member-owned-record'',
      rule_entry ''tenant-member'' ''record:write'' ''allow'' ''owner'' common_controls ''member-owned-record'',
      rule_entry ''tenant-member'' ''record:export'' ''deny'' ''none'' sensitive_controls ''role-not-eligible'',
      rule_entry ''tenant-member'' ''tenant:admin'' ''deny'' ''none'' sensitive_controls ''role-not-eligible'',
      rule_entry ''tenant-admin'' ''profile:read'' ''allow'' ''self'' common_controls ''admin-self-profile'',
      rule_entry ''tenant-admin'' ''record:read'' ''allow'' ''tenant'' common_controls ''admin-tenant-record'',
      rule_entry ''tenant-admin'' ''record:write'' ''allow'' ''tenant'' common_controls ''admin-tenant-record'',
      rule_entry ''tenant-admin'' ''record:export'' ''requires-controls'' ''tenant'' sensitive_controls
        ''sensitive-operation'',
      rule_entry ''tenant-admin'' ''tenant:admin'' ''requires-controls'' ''tenant'' sensitive_controls
        ''critical-operation'']"

definition default_denial :: role_rule where
  "default_denial =
     \<lparr> rl_role = ''none'', rl_action = ''unknown'', rl_resource_type = Some ''unknown'',
       rl_sensitivity = Some ''restricted'', rl_disposition = ''deny'', rl_scope = ''none'',
       rl_controls = [], rl_reason = ''default-deny'' \<rparr>"

definition role_precedence :: "string list" where
  "role_precedence = [''tenant-admin'', ''tenant-member'']"

text \<open>\<open>new Map(entries)\<close> keeps the last value of a key; the key joins role and action with U+0000.\<close>

definition rule_key :: "string \<Rightarrow> string \<Rightarrow> string" where
  "rule_key role action = role @ [CHR 0x00] @ action"

definition rules :: "string \<Rightarrow> role_rule option" where
  "rules = map_of (rev (map (\<lambda>e. (rule_key (rl_role e) (rl_action e), e)) role_action_matrix))"

section \<open>Modes\<close>

record authorization_mode =
  md_id :: string
  md_certificate_policy :: string
  md_role_policy :: string
  md_decision_contract :: "string option"
  md_decision_path :: "string option"
  md_adaptive :: bool

definition pki_rbac_baseline_mode :: authorization_mode where
  "pki_rbac_baseline_mode =
     \<lparr> md_id = baseline_mode_id, md_certificate_policy = ''tenant-scoped-x509'',
       md_role_policy = ''role-action-matrix-v1'', md_decision_contract = None, md_decision_path = None,
       md_adaptive = False \<rparr>"

definition adaptive_trust_opa_mode :: authorization_mode where
  "adaptive_trust_opa_mode =
     \<lparr> md_id = adaptive_mode_id, md_certificate_policy = ''tenant-scoped-x509'',
       md_role_policy = ''role-action-matrix-v1'',
       md_decision_contract = Some ''opa-decision-input-v1/opa-decision-output-v1'',
       md_decision_path = Some ''tenant_trust/authorization/decision'', md_adaptive = True \<rparr>"

datatype mode_arg = BaselineMode | AdaptiveMode | ForeignMode js

definition select_authorization_mode :: "js \<Rightarrow> mode_arg res" where
  "select_authorization_mode mode_id =
     (if strict_eq mode_id (JStr baseline_mode_id) then Inr BaselineMode
      else if strict_eq mode_id (JStr adaptive_mode_id) then Inr AdaptiveMode
      else throw AuthorizationError ''AUTHORIZATION_MODE_UNSUPPORTED'')"

definition assert_authorization_mode :: "mode_arg \<Rightarrow> mode_arg res" where
  "assert_authorization_mode m =
     (case m of ForeignMode v \<Rightarrow> throw AuthorizationError ''AUTHORIZATION_MODE_INVALID'' | _ \<Rightarrow> Inr m)"

section \<open>Decisions\<close>

fun first_held_rule :: "string list \<Rightarrow> tenant_context \<Rightarrow> string \<Rightarrow> role_rule" where
  "first_held_rule [] c action = default_denial"
| "first_held_rule (role # roles) c action =
     (if role \<notin> set (ctx_roles c) then first_held_rule roles c action
      else case rules (rule_key role action) of Some r \<Rightarrow> r | None \<Rightarrow> default_denial)"

definition resolve_role_action :: "context_store \<Rightarrow> context_arg \<Rightarrow> js \<Rightarrow> role_rule res" where
  "resolve_role_action st a action =
     and_then (assert_no_tenant_switch st a (JArr [])) (\<lambda>c.
       if \<not> one_of actions action then Inr default_denial
       else Inr (first_held_rule role_precedence c (str_of action)))"

record mode_decision =
  dc_mode_id :: string
  dc_certificate_policy :: string
  dc_role_policy :: string
  dc_decision_contract :: "string option"
  dc_decision_path :: "string option"
  dc_adaptive :: bool
  dc_outcome :: string
  dc_eligibility :: role_rule

definition evaluate_authorization_mode ::
  "context_store \<Rightarrow> mode_arg \<Rightarrow> context_arg \<Rightarrow> js \<Rightarrow> mode_decision res" where
  "evaluate_authorization_mode st m a action =
     and_then (assert_authorization_mode m) (\<lambda>selected.
     and_then (assert_no_tenant_switch st a (JArr [])) (\<lambda>c.
       if ctx_source c \<noteq> ''mtls-certificate''
       then throw AuthorizationError ''CERTIFICATE_AUTHENTICATION_REQUIRED''
       else and_then (resolve_role_action st a action) (\<lambda>eligibility.
         if selected = AdaptiveMode
         then Inr \<lparr> dc_mode_id = md_id adaptive_trust_opa_mode,
                    dc_certificate_policy = md_certificate_policy adaptive_trust_opa_mode,
                    dc_role_policy = md_role_policy adaptive_trust_opa_mode,
                    dc_decision_contract = md_decision_contract adaptive_trust_opa_mode,
                    dc_decision_path = md_decision_path adaptive_trust_opa_mode, dc_adaptive = True,
                    dc_outcome = (if rl_disposition eligibility = ''deny'' then ''deny'' else ''policy-required''),
                    dc_eligibility = eligibility \<rparr>
         else Inr \<lparr> dc_mode_id = md_id pki_rbac_baseline_mode,
                    dc_certificate_policy = md_certificate_policy pki_rbac_baseline_mode,
                    dc_role_policy = md_role_policy pki_rbac_baseline_mode,
                    dc_decision_contract = None, dc_decision_path = None, dc_adaptive = False,
                    dc_outcome = rl_disposition eligibility, dc_eligibility = eligibility \<rparr>)))"

definition assert_baseline_action_allowed ::
  "context_store \<Rightarrow> mode_arg \<Rightarrow> context_arg \<Rightarrow> js \<Rightarrow> role_rule res" where
  "assert_baseline_action_allowed st m a action =
     and_then (evaluate_authorization_mode st m a action) (\<lambda>decision.
       if dc_outcome decision \<noteq> ''allow''
       then throw AuthorizationError
         (if rl_reason (dc_eligibility decision) = ''default-deny'' then ''DEFAULT_DENY'' else ''ADDITIONAL_CONTROLS_REQUIRED'')
       else Inr (dc_eligibility decision))"

definition authorization_safe_denial :: "js_error \<Rightarrow> (nat \<times> string) res" where
  "authorization_safe_denial e = (if error_is AuthorizationError e then Inr (403, ''ACCESS_DENIED'') else Inl e)"

section \<open>The matrix as a table\<close>

text \<open>What the matrix means: the disposition and the scope of an action for the strongest held role.\<close>

datatype disposition = Allowed string | NeedsControls | Refused

fun granted :: "bool \<Rightarrow> string \<Rightarrow> disposition" where
  "granted admin action =
     (if action = ''profile:read'' then Allowed ''self''
      else if action = ''record:read'' \<or> action = ''record:write'' then Allowed (if admin then ''tenant'' else ''owner'')
      else if admin \<and> (action = ''record:export'' \<or> action = ''tenant:admin'') then NeedsControls
      else Refused)"

definition disposition_of :: "role_rule \<Rightarrow> disposition" where
  "disposition_of r =
     (if rl_disposition r = ''allow'' then Allowed (rl_scope r)
      else if rl_disposition r = ''requires-controls'' then NeedsControls else Refused)"

lemma rule_keys:
  "action \<in> set actions \<Longrightarrow> role \<in> set tenant_roles \<Longrightarrow>
   \<exists>r. rules (rule_key role action) = Some r \<and> rl_role r = role \<and> rl_action r = action
     \<and> disposition_of r = granted (role = ''tenant-admin'') action \<and> rl_disposition r \<in> {''allow'', ''requires-controls'', ''deny''}
     \<and> rl_reason r \<noteq> ''default-deny''
     \<and> (rl_disposition r \<noteq> ''allow'' \<longrightarrow> rl_controls r = sensitive_controls)
     \<and> set common_controls \<subseteq> set (rl_controls r)"
  by (auto simp: actions_def tenant_roles_def rules_def role_action_matrix_def rule_entry_def rule_key_def
      disposition_of_def sensitive_controls_def)

lemma no_switch_claims [simp]: "assert_no_tenant_switch st a (JArr []) = trusted_context st a"
  by (cases "trusted_context st a") (simp_all add: assert_no_tenant_switch_def)

lemma trusted_context_valid:
  "list_all valid_context st \<Longrightarrow> trusted_context st a = Inr c \<Longrightarrow> valid_context c"
  by (auto simp: trusted_context_def deny_context_def list_all_length split: context_arg.splits if_splits)

section \<open>Properties\<close>

lemma first_held_rule_admin:
  "''tenant-admin'' \<in> set (ctx_roles c) \<Longrightarrow>
   first_held_rule role_precedence c action =
     (case rules (rule_key ''tenant-admin'' action) of Some r \<Rightarrow> r | None \<Rightarrow> default_denial)"
  by (simp add: role_precedence_def)

lemma first_held_rule_member:
  "''tenant-admin'' \<notin> set (ctx_roles c) \<Longrightarrow> ''tenant-member'' \<in> set (ctx_roles c) \<Longrightarrow>
   first_held_rule role_precedence c action =
     (case rules (rule_key ''tenant-member'' action) of Some r \<Rightarrow> r | None \<Rightarrow> default_denial)"
  by (simp add: role_precedence_def)

lemma valid_context_role:
  "valid_context c \<Longrightarrow> ''tenant-admin'' \<in> set (ctx_roles c) \<or> ''tenant-member'' \<in> set (ctx_roles c)"
  by (cases "ctx_roles c") (auto simp: valid_context_def tenant_roles_def)

lemma first_held_rule_spec:
  assumes "valid_context c" "action \<in> set actions"
  defines "r \<equiv> first_held_rule role_precedence c action"
  shows "disposition_of r = granted (''tenant-admin'' \<in> set (ctx_roles c)) action" "rl_role r \<in> set (ctx_roles c)"
    "rl_action r = action" "rl_disposition r \<in> {''allow'', ''requires-controls'', ''deny''}"
    "rl_reason r \<noteq> ''default-deny''" "set common_controls \<subseteq> set (rl_controls r)"
    "rl_disposition r \<noteq> ''allow'' \<Longrightarrow> rl_controls r = sensitive_controls"
proof -
  have "\<exists>role. role \<in> set tenant_roles \<and> role \<in> set (ctx_roles c)
      \<and> (role = ''tenant-admin'' \<longleftrightarrow> ''tenant-admin'' \<in> set (ctx_roles c))
      \<and> first_held_rule role_precedence c action =
          (case rules (rule_key role action) of Some r \<Rightarrow> r | None \<Rightarrow> default_denial)"
  proof (cases "''tenant-admin'' \<in> set (ctx_roles c)")
    case True
    then show ?thesis using first_held_rule_admin by (auto simp: tenant_roles_def)
  next
    case False
    then have "''tenant-member'' \<in> set (ctx_roles c)" using valid_context_role[OF assms(1)] by blast
    with False show ?thesis using first_held_rule_member by (auto simp: tenant_roles_def)
  qed
  then obtain role where role: "role \<in> set tenant_roles" "role \<in> set (ctx_roles c)"
    "role = ''tenant-admin'' \<longleftrightarrow> ''tenant-admin'' \<in> set (ctx_roles c)"
    "r = (case rules (rule_key role action) of Some r \<Rightarrow> r | None \<Rightarrow> default_denial)"
    unfolding r_def by blast
  obtain e where e: "rules (rule_key role action) = Some e" "rl_role e = role" "rl_action e = action"
    "disposition_of e = granted (role = ''tenant-admin'') action"
    "rl_disposition e \<in> {''allow'', ''requires-controls'', ''deny''}" "rl_reason e \<noteq> ''default-deny''"
    "rl_disposition e \<noteq> ''allow'' \<longrightarrow> rl_controls e = sensitive_controls" "set common_controls \<subseteq> set (rl_controls e)"
    using rule_keys[OF assms(2) role(1)] by blast
  have r: "r = e" using role(4) e(1) by simp
  show "disposition_of r = granted (''tenant-admin'' \<in> set (ctx_roles c)) action"
    using e(4) role(3) unfolding r by (simp del: granted.simps)
  show "rl_role r \<in> set (ctx_roles c)" "rl_action r = action"
    "rl_disposition r \<in> {''allow'', ''requires-controls'', ''deny''}" "rl_reason r \<noteq> ''default-deny''"
    "set common_controls \<subseteq> set (rl_controls r)"
    unfolding r using e role(2) by simp_all
  show "rl_disposition r \<noteq> ''allow'' \<Longrightarrow> rl_controls r = sensitive_controls" unfolding r using e(7) by blast
qed

lemma granted_unknown: "action \<notin> set actions \<Longrightarrow> granted b action = Refused"
  by (auto simp: actions_def)

lemma default_denial_refused: "disposition_of default_denial = Refused" "rl_disposition default_denial = ''deny''"
  by (simp_all add: disposition_of_def default_denial_def)

text \<open>Role resolution agrees with the grant table of the strongest held role, for every action
  string, known or not; a known action comes with the rule of a role that the subject holds, and
  anything but an outright grant carries the step-up and audit controls.\<close>

theorem role_resolution_follows_table:
  assumes "list_all valid_context st" "trusted_context st a = Inr c"
  shows "\<exists>r. resolve_role_action st a (JStr action) = Inr r
    \<and> disposition_of r = granted (''tenant-admin'' \<in> set (ctx_roles c)) action
    \<and> (if action \<in> set actions
       then rl_role r \<in> set (ctx_roles c) \<and> rl_action r = action
            \<and> (rl_disposition r \<noteq> ''allow'' \<longrightarrow> rl_controls r = sensitive_controls)
       else r = default_denial)"
proof (cases "action \<in> set actions")
  case True
  then show ?thesis
    using first_held_rule_spec[OF trusted_context_valid[OF assms] True] assms(2)
    by (simp add: resolve_role_action_def one_of_iff del: granted.simps)
next
  case False
  then show ?thesis using assms(2) granted_unknown[OF False] default_denial_refused
    by (simp add: resolve_role_action_def one_of_iff del: granted.simps)
qed

text \<open>C15: the baseline admits an action exactly when the baseline mode itself was selected, the
  context was resolved from a client certificate and the grant table allows the action; exporting
  records and administering the tenant are never admitted by it.\<close>

theorem baseline_admits_exactly_granted:
  assumes "list_all valid_context st"
  shows "(\<exists>r. assert_baseline_action_allowed st m a action = Inr r \<and> rl_scope r = scope) \<longleftrightarrow>
    m = BaselineMode \<and> (\<exists>c act. trusted_context st a = Inr c \<and> ctx_source c = ''mtls-certificate''
      \<and> action = JStr act \<and> act \<noteq> ''record:export'' \<and> act \<noteq> ''tenant:admin''
      \<and> granted (''tenant-admin'' \<in> set (ctx_roles c)) act = Allowed scope)"
    (is "?L \<longleftrightarrow> ?R")
proof
  assume ?L
  then obtain r d c where d: "evaluate_authorization_mode st m a action = Inr d" "dc_outcome d = ''allow''"
    "dc_eligibility d = r" "rl_scope r = scope"
    by (auto simp: assert_baseline_action_allowed_def)
  then obtain c where c: "trusted_context st a = Inr c" "ctx_source c = ''mtls-certificate''"
    "resolve_role_action st a action = Inr r" "m = BaselineMode" "rl_disposition r = ''allow''"
    by (auto simp: evaluate_authorization_mode_def assert_authorization_mode_def split: mode_arg.splits if_splits)
  have known: "one_of actions action"
    using c default_denial_refused by (auto simp: resolve_role_action_def split: if_splits)
  then obtain act where act: "action = JStr act" "act \<in> set actions" by (auto simp: one_of_iff)
  have "r = first_held_rule role_precedence c act" using c act by (auto simp: resolve_role_action_def one_of_iff)
  then have "granted (''tenant-admin'' \<in> set (ctx_roles c)) act = Allowed scope"
    using first_held_rule_spec(1)[OF trusted_context_valid[OF assms c(1)] act(2)] c(5) d(4)
    by (simp add: disposition_of_def del: granted.simps)
  then show ?R using c act by (auto split: if_splits)
next
  assume ?R
  then obtain c act where c: "trusted_context st a = Inr c" "ctx_source c = ''mtls-certificate''" "action = JStr act"
    "granted (''tenant-admin'' \<in> set (ctx_roles c)) act = Allowed scope" "m = BaselineMode" by blast
  have known: "act \<in> set actions" using c(4) granted_unknown by fastforce
  let ?r = "first_held_rule role_precedence c act"
  have "disposition_of ?r = Allowed scope"
    using first_held_rule_spec(1)[OF trusted_context_valid[OF assms c(1)] known] c(4) by simp
  then have "rl_disposition ?r = ''allow''" "rl_scope ?r = scope"
    by (simp_all add: disposition_of_def split: if_splits)
  then show ?L using c known
    by (simp add: assert_baseline_action_allowed_def evaluate_authorization_mode_def assert_authorization_mode_def
        resolve_role_action_def one_of_iff)
qed

text \<open>The adaptive mode never admits an action by itself: what the roles refuse stays denied, and
  everything else is left to the policy decision.\<close>

theorem adaptive_mode_defers_to_policy:
  assumes "list_all valid_context st" "evaluate_authorization_mode st AdaptiveMode a (JStr act) = Inr d"
  shows "\<exists>c. trusted_context st a = Inr c \<and> ctx_source c = ''mtls-certificate''
    \<and> dc_outcome d = (if granted (''tenant-admin'' \<in> set (ctx_roles c)) act = Refused then ''deny'' else ''policy-required'')
    \<and> assert_baseline_action_allowed st AdaptiveMode a (JStr act) = throw AuthorizationError
        (if act \<in> set actions then ''ADDITIONAL_CONTROLS_REQUIRED'' else ''DEFAULT_DENY'')"
proof -
  obtain c r where c: "trusted_context st a = Inr c" "ctx_source c = ''mtls-certificate''"
    "resolve_role_action st a (JStr act) = Inr r" "dc_eligibility d = r"
    "dc_outcome d = (if rl_disposition r = ''deny'' then ''deny'' else ''policy-required'')"
    using assms(2) by (auto simp: evaluate_authorization_mode_def assert_authorization_mode_def split: if_splits)
  have e: "assert_baseline_action_allowed st AdaptiveMode a (JStr act) = throw AuthorizationError
        (if rl_reason r = ''default-deny'' then ''DEFAULT_DENY'' else ''ADDITIONAL_CONTROLS_REQUIRED'')"
    using assms(2) c(4,5) by (simp add: assert_baseline_action_allowed_def)
  show ?thesis
  proof (cases "act \<in> set actions")
    case True
    have r: "r = first_held_rule role_precedence c act" using c(1,3) True by (simp add: resolve_role_action_def one_of_iff)
    note k = first_held_rule_spec[OF trusted_context_valid[OF assms(1) c(1)] True, folded r]
    have "rl_disposition r = ''deny'' \<longleftrightarrow> granted (''tenant-admin'' \<in> set (ctx_roles c)) act = Refused"
      using k(4) unfolding k(1)[symmetric] by (auto simp: disposition_of_def)
    then show ?thesis using c e k(5) True by (simp del: granted.simps)
  next
    case False
    then have "r = default_denial" using c(1,3) by (simp add: resolve_role_action_def one_of_iff)
    then show ?thesis using c e False granted_unknown[OF False] by (simp add: default_denial_def del: granted.simps)
  qed
qed

subsection \<open>Witnesses\<close>

abbreviation example_store :: "tenant_context list" where
  "example_store \<equiv> [example_context ''tenant-admin'', example_context ''tenant-member'']"

lemma example_store_valid: "list_all valid_context example_store"
  by (simp add: valid_context_def example_ids authentication_sources_def tenant_roles_def)

lemma example_store_contexts:
  "trusted_context example_store (Resolved 0) = Inr (example_context ''tenant-admin'')"
  "trusted_context example_store (Resolved 1) = Inr (example_context ''tenant-member'')"
  by (simp_all add: trusted_context_def)

lemma role_resolution_follows_table_witness:
  "\<exists>r. resolve_role_action example_store (Resolved 0) (JStr ''record:export'') = Inr r
     \<and> disposition_of r = NeedsControls \<and> rl_controls r = sensitive_controls"
proof -
  have act: "''record:export'' \<in> set actions" by (simp add: actions_def)
  from role_resolution_follows_table[OF example_store_valid example_store_contexts(1), of "''record:export''"] act
  show ?thesis by (auto simp: disposition_of_def split: if_splits)
qed

lemma baseline_admits_exactly_granted_witness:
  "\<exists>r. assert_baseline_action_allowed example_store BaselineMode (Resolved 1) (JStr ''record:read'') = Inr r
     \<and> rl_scope r = ''owner''"
  using example_store_contexts(2) by (simp only: baseline_admits_exactly_granted[OF example_store_valid]) simp

lemma adaptive_mode_defers_to_policy_witness:
  "\<exists>d. evaluate_authorization_mode example_store AdaptiveMode (Resolved 1) (JStr ''record:export'') = Inr d
     \<and> dc_outcome d = ''deny''"
proof -
  obtain r where r: "resolve_role_action example_store (Resolved 1) (JStr ''record:export'') = Inr r"
    using example_store_contexts(2)
    by (cases "one_of actions (JStr ''record:export'')") (auto simp: resolve_role_action_def simp del: One_nat_def)
  obtain d where d: "evaluate_authorization_mode example_store AdaptiveMode (Resolved 1) (JStr ''record:export'') = Inr d"
    using r example_store_contexts(2)
    by (auto simp: evaluate_authorization_mode_def assert_authorization_mode_def simp del: One_nat_def)
  from adaptive_mode_defers_to_policy[OF example_store_valid d] d show ?thesis
    using example_store_contexts(2) by (auto simp del: One_nat_def)
qed

end
