(* ===== verification/JsBytes.thy ===== *)
theory JsBytes
  imports JsValues
begin

text \<open>
  Byte buffers: a \<open>Buffer\<close> is a list of 8-bit characters. UTF-8 of the model's strings, and the
  \<open>base64url\<close> text form. \<open>Buffer.from(s, "base64url")\<close> is lenient: it accepts both alphabets, skips
  characters outside them and ignores a dangling sextet; every use in the code compares the
  re-encoded bytes with the text, which \<open>canonical_base64url\<close> shows to leave only the exact
  encodings.
\<close>

type_synonym bytes = string

section \<open>UTF-8\<close>

definition utf8_char :: "char \<Rightarrow> bytes" where
  "utf8_char c =
     (let n = of_char c :: nat
      in if n < 128 then [c] else [char_of (192 + n div 64), char_of (128 + n mod 64)])"

definition utf8 :: "string \<Rightarrow> bytes" where
  "utf8 s = concat (map utf8_char s)"

text \<open>\<open>buffer.toString("utf8")\<close>, on the encodings of the model's characters; anything else decodes
  to the replacement character, which the model writes as U+00FF.\<close>

fun utf8_decode :: "bytes \<Rightarrow> string" where
  "utf8_decode [] = []"
| "utf8_decode [b] = (if of_char b < (128::nat) then [b] else [CHR 0xFF])"
| "utf8_decode (b # c # bs) =
     (let m = of_char b :: nat; n = of_char c :: nat
      in if m < 128 then b # utf8_decode (c # bs)
         else if 194 \<le> m \<and> m < 196 \<and> 128 \<le> n \<and> n < 192
         then char_of ((m - 192) * 64 + (n - 128)) # utf8_decode bs
         else CHR 0xFF # utf8_decode (c # bs))"

lemma utf8_Nil [simp]: "utf8 [] = []"
  by (simp add: utf8_def)

lemma utf8_Cons: "utf8 (c # s) = utf8_char c @ utf8 s"
  by (simp add: utf8_def)

lemma utf8_decode_ascii: "of_char b < (128::nat) \<Longrightarrow> utf8_decode (b # bs) = b # utf8_decode bs"
  by (cases bs) (simp_all add: Let_def)

theorem utf8_decode_utf8 [simp]: "utf8_decode (utf8 s) = s"
proof (induction s)
  case (Cons c s)
  define n where "n = (of_char c :: nat)"
  have n: "n < 256" unfolding n_def by (rule nat_of_char_less_256)
  show ?case
  proof (cases "n < 128")
    case True
    then show ?thesis using Cons by (simp add: utf8_Cons utf8_char_def n_def utf8_decode_ascii)
  next
    case False
    have q: "2 \<le> n div 64" "n div 64 < 4" using n False by auto
    have "n div 64 * 64 + n mod 64 = n" by simp
    moreover have "(192 + n div 64) mod 256 = 192 + n div 64" "(128 + n mod 64) mod 256 = 128 + n mod 64"
      using q by (simp_all add: trans_less_add1)
    moreover have "char_of n = c" by (simp add: n_def)
    ultimately show ?thesis using Cons False q
      by (simp add: utf8_Cons utf8_char_def n_def[symmetric] Let_def)
  qed
qed simp

lemma utf8_inj: "utf8 s = utf8 t \<Longrightarrow> s = t"
  by (metis utf8_decode_utf8)

section \<open>base64url\<close>

definition b64_alphabet :: string where
  "b64_alphabet = ''ABCDEFGHIJKLMNOPQRSTUVWXYZabcdefghijklmnopqrstuvwxyz0123456789-_''"

definition b64_char :: "nat \<Rightarrow> char" where
  "b64_char n = b64_alphabet ! n"

definition b64_val :: "char \<Rightarrow> nat option" where
  "b64_val c =
     (if upper c then Some (of_char c - 65)
      else if lower c then Some (of_char c - 71)
      else if digit c then Some (of_char c + 4)
      else if c = CHR ''-'' \<or> c = CHR ''+'' then Some 62
      else if c = CHR ''_'' \<or> c = CHR ''/'' then Some 63 else None)"

fun b64_encode :: "bytes \<Rightarrow> string" where
  "b64_encode [] = []"
| "b64_encode [a] =
     (let m = of_char a :: nat in [b64_char (m div 4), b64_char (m mod 4 * 16)])"
| "b64_encode [a, b] =
     (let m = of_char a :: nat; n = of_char b :: nat
      in [b64_char (m div 4), b64_char (m mod 4 * 16 + n div 16), b64_char (n mod 16 * 4)])"
| "b64_encode (a # b # c # bs) =
     (let m = of_char a :: nat; n = of_char b :: nat; k = of_char c :: nat
      in [b64_char (m div 4), b64_char (m mod 4 * 16 + n div 16), b64_char (n mod 16 * 4 + k div 64),
          b64_char (k mod 64)] @ b64_encode bs)"

fun b64_bytes :: "nat list \<Rightarrow> bytes" where
  "b64_bytes [] = []"
| "b64_bytes [x] = []"
| "b64_bytes [x, y] = [char_of (x * 4 + y div 16)]"
| "b64_bytes [x, y, z] = [char_of (x * 4 + y div 16), char_of (y mod 16 * 16 + z div 4)]"
| "b64_bytes (x # y # z # w # r) =
     char_of (x * 4 + y div 16) # char_of (y mod 16 * 16 + z div 4) # char_of (z mod 4 * 64 + w) # b64_bytes r"

definition b64_decode :: "string \<Rightarrow> bytes" where
  "b64_decode s = b64_bytes (List.map_filter b64_val s)"

lemma b64_val_char:
  assumes "n < 64"
  shows "b64_val (b64_char n) = Some n"
proof -
  have "list_all (\<lambda>k. b64_val (b64_char k) = Some k) [0..<64]" by code_simp
  then show ?thesis using assms by (simp add: list_all_iff)
qed

lemma of_char_lt: "of_char c < (256::nat)"
  by (rule nat_of_char_less_256)

lemma div_bounds_256: "m < (256::nat) \<Longrightarrow> m div 4 < 64 \<and> m div 16 < 16 \<and> m div 64 < 4"
  by auto

lemma b64_decode_sextets: "list_all (\<lambda>n. n < 64) ns \<Longrightarrow> List.map_filter b64_val (map b64_char ns @ s) = ns @ List.map_filter b64_val s"
  by (induction ns) (auto simp: map_filter_simps b64_val_char)

theorem b64_decode_encode [simp]: "b64_decode (b64_encode bs) = bs"
proof (induction bs rule: b64_encode.induct)
  case 1
  then show ?case by (simp add: b64_decode_def map_filter_simps)
next
  case (2 a)
  define m where "m = (of_char a :: nat)"
  have m: "m < 256" "char_of m = a" by (simp_all add: m_def of_char_lt)
  have "(m div 4 * 4 + m mod 4 * 16 div 16) = m" by simp
  moreover have "m mod 4 * 16 < 64" by simp
  ultimately show ?case using div_bounds_256[OF m(1)] m(2)
    by (simp add: b64_decode_def Let_def map_filter_simps b64_val_char m_def[symmetric])
next
  case (3 a b)
  define m n where "m = (of_char a :: nat)" and "n = (of_char b :: nat)"
  have m: "m < 256" "char_of m = a" by (simp_all add: m_def of_char_lt)
  have n: "n < 256" "char_of n = b" by (simp_all add: n_def of_char_lt)
  have q: "n div 16 < 16" "m mod 4 < 4" "n mod 16 < 16" using div_bounds_256[OF n(1)] by auto
  have b: "m mod 4 * 16 + n div 16 < 64" "n mod 16 * 4 < 64" using q by linarith+
  have e: "(m mod 4 * 16 + n div 16) div 16 = m mod 4" "(m mod 4 * 16 + n div 16) mod 16 = n div 16"
    using q by simp_all
  have "n div 16 * 16 + n mod 16 * 4 div 4 = n" by simp
  then show ?case using div_bounds_256[OF m(1)] m(2) n(2) b e
    by (simp add: b64_decode_def Let_def map_filter_simps b64_val_char m_def[symmetric] n_def[symmetric])
next
  case (4 a b c bs)
  define m n k where "m = (of_char a :: nat)" and "n = (of_char b :: nat)" and "k = (of_char c :: nat)"
  have m: "m < 256" "char_of m = a" by (simp_all add: m_def of_char_lt)
  have n: "n < 256" "char_of n = b" by (simp_all add: n_def of_char_lt)
  have k: "k < 256" "char_of k = c" by (simp_all add: k_def of_char_lt)
  have q: "n div 16 < 16" "m mod 4 < 4" "n mod 16 < 16" "k div 64 < 4" "k mod 64 < 64"
    using div_bounds_256[OF n(1)] div_bounds_256[OF k(1)] by auto
  have b: "m mod 4 * 16 + n div 16 < 64" "n mod 16 * 4 + k div 64 < 64" using q by linarith+
  have e: "(m mod 4 * 16 + n div 16) div 16 = m mod 4" "(m mod 4 * 16 + n div 16) mod 16 = n div 16"
    "(n mod 16 * 4 + k div 64) div 4 = n mod 16" "(n mod 16 * 4 + k div 64) mod 4 = k div 64"
    using q by simp_all
  show ?case using 4 div_bounds_256[OF m(1)] m(2) n(2) k(2) b e q(5)
    by (simp add: b64_decode_def Let_def map_filter_simps b64_val_char m_def[symmetric] n_def[symmetric] k_def[symmetric])
qed

lemma b64_encode_inj: "b64_encode a = b64_encode b \<Longrightarrow> a = b"
  by (metis b64_decode_encode)

text \<open>\<open>bytes.length === n && bytes.toString("base64url") === value\<close>\<close>

definition base64url_of_length :: "nat \<Rightarrow> string \<Rightarrow> bool" where
  "base64url_of_length n s \<longleftrightarrow> length (b64_decode s) = n \<and> b64_encode (b64_decode s) = s"

lemma canonical_base64url: "base64url_of_length n s \<longleftrightarrow> (\<exists>bs. s = b64_encode bs \<and> length bs = n)"
  by (metis b64_decode_encode base64url_of_length_def)

section \<open>Hexadecimal text\<close>

definition hex_byte :: "char \<Rightarrow> string" where
  "hex_byte c = (let n = of_char c :: nat in [''0123456789abcdef'' ! (n div 16), ''0123456789abcdef'' ! (n mod 16)])"

definition to_hex :: "bytes \<Rightarrow> string" where
  "to_hex bs = concat (map hex_byte bs)"

section \<open>Trimming\<close>

definition white :: "char \<Rightarrow> bool" where
  "white c \<longleftrightarrow> of_char c \<in> {9, 10, 11, 12, 13, 32, 160 :: nat}"

definition trim :: "string \<Rightarrow> string" where
  "trim s = rev (dropWhile white (rev (dropWhile white s)))"

end
