(* ===== verification/CanonicalJson.thy ===== *)
theory CanonicalJson
  imports JsBytes JsDecimal "HOL-Library.AList"
begin

text \<open>
  Canonical JSON, which the services sign and hash: object keys sorted, no white space, numbers and
  strings as \<open>JSON.stringify\<close> writes them. The same function appears in several modules, with
  different errors for a value that JSON cannot express. \<open>parse_json\<close> is \<open>JSON.parse\<close>; parsing a
  canonical text gives the normal form of the value, so the text determines the value.
\<close>

section \<open>Writing\<close>

definition json_escape :: "char \<Rightarrow> string" where
  "json_escape c =
     (if c = CHR 0x22 then [CHR 0x5C, CHR 0x22]
      else if c = CHR 0x5C then [CHR 0x5C, CHR 0x5C]
      else if c = CHR 0x08 then [CHR 0x5C, CHR ''b'']
      else if c = CHR 0x09 then [CHR 0x5C, CHR ''t'']
      else if c = CHR 0x0A then [CHR 0x5C, CHR ''n'']
      else if c = CHR 0x0C then [CHR 0x5C, CHR ''f'']
      else if c = CHR 0x0D then [CHR 0x5C, CHR ''r'']
      else if of_char c < (32::nat) then CHR 0x5C # ''u00'' @ hex_byte c
      else [c])"

definition json_string :: "string \<Rightarrow> string" where
  "json_string s = CHR 0x22 # concat (map json_escape s) @ [CHR 0x22]"

text \<open>The own properties of an object in the order of their sorted keys.\<close>

definition sorted_fields :: "(string \<times> js) list \<Rightarrow> (string \<times> js) list" where
  "sorted_fields fs = map (\<lambda>k. (k, the (own fs k))) (sort (remdups (map fst fs)))"

lemma own_mem: "own fs k = Some x \<Longrightarrow> (k, x) \<in> set fs"
  by (induction fs k rule: own.induct) (auto split: if_splits)

lemma sorted_fields_mem: "(k, x) \<in> set (sorted_fields fs) \<Longrightarrow> (k, x) \<in> set fs"
proof -
  assume "(k, x) \<in> set (sorted_fields fs)"
  then have k: "k \<in> fst ` set fs" "x = the (own fs k)" by (auto simp: sorted_fields_def)
  then obtain y where "own fs k = Some y" using own_eq_None[of fs k] by (cases "own fs k") auto
  then show ?thesis using k(2) own_mem by fastforce
qed

lemma sorted_fields_size: "(k, x) \<in> set (sorted_fields fs) \<Longrightarrow> size x < size (JObj p fs)"
  using size_list_estimation'[of "(k, x)" fs "size x" "size_prod (\<lambda>x. 0) size"] by (auto dest: sorted_fields_mem)

lemma map_res_cong [fundef_cong]:
  "xs = ys \<Longrightarrow> (\<And>x. x \<in> set ys \<Longrightarrow> f x = g x) \<Longrightarrow> map_res f xs = map_res g ys"
proof (induction xs arbitrary: ys)
  case (Cons a xs)
  have "map_res f xs = map_res g xs" using Cons.IH[of xs] Cons.prems by auto
  moreover have "f a = g a" using Cons.prems by auto
  ultimately show ?case unfolding Cons.prems(1)[symmetric] by simp
qed auto

text \<open>\<open>bad\<close> is what the module does with a value outside JSON.\<close>

function canonical_json :: "js_error \<Rightarrow> js \<Rightarrow> string res" where
  "canonical_json bad JNull = Inr ''null''"
| "canonical_json bad (JBool b) = Inr (if b then ''true'' else ''false'')"
| "canonical_json bad (JStr s) = Inr (json_string s)"
| "canonical_json bad (JNum n) = (case n of Fin x \<Rightarrow> Inr (rat_to_string x) | _ \<Rightarrow> Inl bad)"
| "canonical_json bad (JArr vs) =
     and_then (map_res (canonical_json bad) vs) (\<lambda>ts. Inr (''['' @ join '','' ts @ '']''))"
| "canonical_json bad (JObj p fs) =
     and_then (map_res (\<lambda>f. and_then (canonical_json bad (snd f)) (\<lambda>t. Inr (json_string (fst f) @ '':'' @ t)))
                (sorted_fields fs))
       (\<lambda>ts. Inr (''{'' @ join '','' ts @ ''}''))"
| "canonical_json bad (JDate d) = Inr ''{}''"
| "canonical_json bad JUndef = Inl bad"
| "canonical_json bad (JFun f) = Inl bad"
  by pat_completeness auto
termination
proof (relation "measure (\<lambda>(_, v). size v)", goal_cases)
  case (2 bad vs x)
  then show ?case using size_list_estimation'[of x vs "size x" size] by simp
next
  case (3 bad p fs f)
  then show ?case using sorted_fields_size[of "fst f" "snd f" fs p] by simp
qed simp

section \<open>Parsing\<close>

definition json_space :: "char \<Rightarrow> bool" where
  "json_space c \<longleftrightarrow> c \<in> {CHR 0x20, CHR 0x09, CHR 0x0A, CHR 0x0D}"

definition skip_space :: "string \<Rightarrow> string" where
  "skip_space = dropWhile json_space"

fun hex_val :: "char \<Rightarrow> nat option" where
  "hex_val c = (if digit c then Some (of_char c - 48) else if lower_hex c then Some (of_char c - 87)
                else if upper_hex c then Some (of_char c - 55) else None)"

text \<open>A code unit above U+00FF has no character in the model and reads as U+00FF.\<close>

definition unit_of_hex :: "string \<Rightarrow> char option" where
  "unit_of_hex ds =
     (if length ds = 4 \<and> list_all (\<lambda>d. hex_val d \<noteq> None) ds
      then Some (let n = foldl (\<lambda>a d. 16 * a + the (hex_val d)) 0 ds in if n < 256 then char_of n else CHR 0xFF)
      else None)"

definition simple_escape :: "char \<Rightarrow> char option" where
  "simple_escape c =
     (if c \<in> {CHR 0x22, CHR 0x5C, CHR ''/''} then Some c
      else map_of [(CHR ''b'', CHR 0x08), (CHR ''t'', CHR 0x09), (CHR ''n'', CHR 0x0A), (CHR ''f'', CHR 0x0C),
                   (CHR ''r'', CHR 0x0D)] c)"

text \<open>After the opening quote: the characters up to the closing one, and what follows.\<close>

fun parse_string :: "string \<Rightarrow> (string \<times> string) option" where
  "parse_string [] = None"
| "parse_string (c # s) =
     (if c = CHR 0x22 then Some ([], s)
      else if c = CHR 0x5C then
        (case s of
           [] \<Rightarrow> None
         | e # r \<Rightarrow>
             if e = CHR ''u'' then
               (case unit_of_hex (take 4 r) of None \<Rightarrow> None
                | Some x \<Rightarrow> map_option (\<lambda>(t, u). (x # t, u)) (parse_string (drop 4 r)))
             else
               (case simple_escape e of None \<Rightarrow> None
                | Some x \<Rightarrow> map_option (\<lambda>(t, u). (x # t, u)) (parse_string r)))
      else if of_char c < (32::nat) then None
      else map_option (\<lambda>(t, u). (c # t, u)) (parse_string s))"

definition parse_exponent :: "string \<Rightarrow> (int \<times> string) option" where
  "parse_exponent s =
     (case s of
        c # r \<Rightarrow>
          if c = CHR ''e'' \<or> c = CHR ''E'' then
            (let signed = r \<noteq> [] \<and> hd r \<in> {CHR ''+'', CHR ''-''};
                 ds = takeWhile digit (if signed then tl r else r);
                 n = read_pos 0 ds
             in if ds = [] then None
                else Some (if signed \<and> hd r = CHR ''-'' then - n else n, dropWhile digit (if signed then tl r else r)))
          else Some (0, s)
      | [] \<Rightarrow> Some (0, s))"

definition parse_fraction :: "string \<Rightarrow> (string \<times> string) option" where
  "parse_fraction s =
     (case s of
        c # r \<Rightarrow>
          if c = CHR ''.'' then
            if takeWhile digit r = [] then None else Some (takeWhile digit r, dropWhile digit r)
          else Some ([], s)
      | [] \<Rightarrow> Some ([], s))"

definition parse_unsigned :: "string \<Rightarrow> (rat \<times> string) option" where
  "parse_unsigned s =
     (let ds = takeWhile digit s
      in if ds = [] \<or> (hd ds = CHR ''0'' \<and> length ds \<noteq> 1) then None
         else case parse_fraction (dropWhile digit s) of None \<Rightarrow> None
              | Some (fs, r) \<Rightarrow>
                 (case parse_exponent r of None \<Rightarrow> None
                  | Some (e, u) \<Rightarrow> Some (of_int (read_pos 0 (ds @ fs)) * 10 powi (e - int (length fs)), u)))"

definition parse_number :: "string \<Rightarrow> (js \<times> string) option" where
  "parse_number s =
     (if s \<noteq> [] \<and> hd s = CHR ''-''
      then map_option (\<lambda>(x, r). (JNum (to_double (- x)), r)) (parse_unsigned (tl s))
      else map_option (\<lambda>(x, r). (JNum (to_double x), r)) (parse_unsigned s))"

definition strip_word :: "string \<Rightarrow> string \<Rightarrow> string option" where
  "strip_word w s = (if take (length w) s = w then Some (drop (length w) s) else None)"

definition fields_object :: "(string \<times> js) list \<Rightarrow> js" where
  "fields_object kvs = obj (fold (\<lambda>(k, v). AList.update k v) kvs [])"

text \<open>The fuel bounds the number of nested calls; the length of the text is enough.\<close>

fun parse_value :: "nat \<Rightarrow> string \<Rightarrow> (js \<times> string) option"
  and parse_elements :: "nat \<Rightarrow> string \<Rightarrow> (js list \<times> string) option"
  and parse_members :: "nat \<Rightarrow> string \<Rightarrow> ((string \<times> js) list \<times> string) option"
where
  "parse_value 0 s = None"
| "parse_value (Suc n) s =
     (case skip_space s of
        [] \<Rightarrow> None
      | c # r \<Rightarrow>
          if c = CHR 0x22 then map_option (\<lambda>(t, u). (JStr t, u)) (parse_string r)
          else if c = CHR ''['' then
            if skip_space r \<noteq> [] \<and> hd (skip_space r) = CHR '']'' then Some (JArr [], tl (skip_space r))
            else map_option (\<lambda>(vs, u). (JArr vs, u)) (parse_elements n r)
          else if c = CHR ''{'' then
            if skip_space r \<noteq> [] \<and> hd (skip_space r) = CHR ''}'' then Some (obj [], tl (skip_space r))
            else map_option (\<lambda>(kvs, u). (fields_object kvs, u)) (parse_members n r)
          else case strip_word ''null'' (c # r) of Some u \<Rightarrow> Some (JNull, u) | None \<Rightarrow>
               (case strip_word ''true'' (c # r) of Some u \<Rightarrow> Some (JBool True, u) | None \<Rightarrow>
               (case strip_word ''false'' (c # r) of Some u \<Rightarrow> Some (JBool False, u) | None \<Rightarrow>
                  parse_number (c # r))))"
| "parse_elements 0 s = None"
| "parse_elements (Suc n) s =
     (case parse_value n s of
        None \<Rightarrow> None
      | Some (v, r) \<Rightarrow>
          (case skip_space r of
             [] \<Rightarrow> None
           | c # u \<Rightarrow>
               if c = CHR '']'' then Some ([v], u)
               else if c = CHR '','' then map_option (\<lambda>(vs, w). (v # vs, w)) (parse_elements n u)
               else None))"
| "parse_members 0 s = None"
| "parse_members (Suc n) s =
     (case skip_space s of
        [] \<Rightarrow> None
      | q # s' \<Rightarrow>
          if q \<noteq> CHR 0x22 then None
          else case parse_string s' of
            None \<Rightarrow> None
          | Some (k, r) \<Rightarrow>
              (case skip_space r of
                 [] \<Rightarrow> None
               | c # r' \<Rightarrow>
                   if c \<noteq> CHR '':'' then None
                   else case parse_value n r' of
                     None \<Rightarrow> None
                   | Some (v, u) \<Rightarrow>
                       (case skip_space u of
                          [] \<Rightarrow> None
                        | d # w \<Rightarrow>
                            if d = CHR ''}'' then Some ([(k, v)], w)
                            else if d = CHR '','' then map_option (\<lambda>(kvs, x). ((k, v) # kvs, x)) (parse_members n w)
                            else None)))"

definition parse_json :: "string \<Rightarrow> js option" where
  "parse_json s =
     (case parse_value (2 * length s + 2) s of
        Some (v, r) \<Rightarrow> if skip_space r = [] then Some v else None
      | None \<Rightarrow> None)"

text \<open>What a value becomes when it is written and read again.\<close>

function json_normal :: "js \<Rightarrow> js" where
  "json_normal (JArr vs) = JArr (map json_normal vs)"
| "json_normal (JObj p fs) = obj (map (\<lambda>f. (fst f, json_normal (snd f))) (sorted_fields fs))"
| "json_normal (JDate d) = obj []"
| "json_normal JNull = JNull"
| "json_normal JUndef = JUndef"
| "json_normal (JBool b) = JBool b"
| "json_normal (JNum n) = JNum n"
| "json_normal (JStr s) = JStr s"
| "json_normal (JFun f) = JFun f"
  by pat_completeness auto
termination
proof (relation "measure size", goal_cases)
  case (2 vs x)
  then show ?case using size_list_estimation'[of x vs "size x" size] by simp
next
  case (3 p fs f)
  then show ?case using sorted_fields_size[of "fst f" "snd f" fs p] by simp
qed simp

definition double :: "rat \<Rightarrow> bool" where
  "double x \<longleftrightarrow> to_double x = Fin x"

text \<open>Values whose numbers are doubles, as every number of a running program is.\<close>

function json_doubles :: "js \<Rightarrow> bool" where
  "json_doubles (JArr vs) = (\<forall>v \<in> set vs. json_doubles v)"
| "json_doubles (JObj p fs) = (\<forall>f \<in> set (sorted_fields fs). json_doubles (snd f))"
| "json_doubles (JNum n) = (case n of Fin x \<Rightarrow> double x | _ \<Rightarrow> True)"
| "json_doubles (JDate d) = True"
| "json_doubles JNull = True"
| "json_doubles JUndef = True"
| "json_doubles (JBool b) = True"
| "json_doubles (JStr s) = True"
| "json_doubles (JFun f) = True"
  by pat_completeness auto
termination
proof (relation "measure size", goal_cases)
  case (2 vs x)
  then show ?case using size_list_estimation'[of x vs "size x" size] by simp
next
  case (3 p fs f)
  then show ?case using sorted_fields_size[of "fst f" "snd f" fs p] by simp
qed simp

section \<open>Strings are read back\<close>

lemma unit_of_hex_control: "of_char c < (32::nat) \<Longrightarrow> unit_of_hex (''00'' @ hex_byte c) = Some c"
proof -
  assume c: "of_char c < (32::nat)"
  have "list_all (\<lambda>n. unit_of_hex (''00'' @ hex_byte (char_of n)) = Some (char_of n)) [0..<32]"
    by (simp add: upt_rec unit_of_hex_def hex_byte_def lower_hex_def upper_hex_def digit_def)
  then have "\<forall>n \<in> {0..<32::nat}. unit_of_hex (''00'' @ hex_byte (char_of n)) = Some (char_of n)"
    by (simp only: list_all_iff set_upt)
  from bspec[OF this, of "of_char c"] c show ?thesis by simp
qed

lemma hex_byte_length [simp]: "length (hex_byte c) = 2"
  by (simp add: hex_byte_def Let_def)

lemma parse_escape:
  "parse_string (json_escape c @ t) = map_option (\<lambda>(s, u). (c # s, u)) (parse_string t)"
proof (cases "c \<in> {CHR 0x22, CHR 0x5C, CHR 0x08, CHR 0x09, CHR 0x0A, CHR 0x0C, CHR 0x0D}")
  case True
  then show ?thesis by (auto simp: json_escape_def simple_escape_def)
next
  case False
  show ?thesis
  proof (cases "of_char c < (32::nat)")
    case True
    have e: "json_escape c = CHR 0x5C # CHR ''u'' # ''00'' @ hex_byte c"
      using False True by (simp add: json_escape_def)
    have h: "take 4 (''00'' @ hex_byte c @ t) = ''00'' @ hex_byte c" "drop 4 (''00'' @ hex_byte c @ t) = t"
      by simp_all
    show ?thesis unfolding e using unit_of_hex_control[OF True] h by simp
  next
    case False': False
    then show ?thesis using False by (simp add: json_escape_def)
  qed
qed

lemma parse_json_string: "parse_string (concat (map json_escape s) @ CHR 0x22 # r) = Some (s, r)"
  by (induction s) (simp_all add: parse_escape)

section \<open>Numbers are read back\<close>

definition ends_number :: "string \<Rightarrow> bool" where
  "ends_number r \<longleftrightarrow> r = [] \<or> (\<not> digit (hd r) \<and> hd r \<notin> set ''.eE'')"

lemma span_digits:
  assumes "list_all digit ds" "r = [] \<or> \<not> digit (hd r)"
  shows "takeWhile digit (ds @ r) = ds" "dropWhile digit (ds @ r) = r"
  using assms by (induction ds) (auto simp: takeWhile_eq_Nil_iff dropWhile_eq_self_iff)

lemma show_pos_nonempty [simp]: "show_pos n \<noteq> []"
  by (subst show_pos.simps) simp

lemma digit_char_zero: "n < 10 \<Longrightarrow> digit_char n = CHR ''0'' \<longleftrightarrow> n = 0"
  by (auto simp: digit_char_def dest!: less_10_cases)

lemma show_pos_hd: "0 < n \<Longrightarrow> hd (show_pos n) \<noteq> CHR ''0''"
proof (induction n rule: show_pos.induct)
  case (1 n)
  then show ?case
    by (subst show_pos.simps) (auto simp: digit_char_zero pos_imp_zdiv_pos_iff)
qed

lemma no_digit_punctuation: "\<not> digit (CHR ''.'')" "\<not> digit (CHR ''e'')" "\<not> digit (CHR ''+'')" "\<not> digit (CHR ''-'')"
  by (simp_all add: digit_def)

lemma parse_exponent_none: "ends_number r \<Longrightarrow> parse_exponent r = Some (0, r)"
  by (cases r) (auto simp: parse_exponent_def ends_number_def)

lemma parse_fraction_none: "r = [] \<or> hd r \<noteq> CHR ''.'' \<Longrightarrow> parse_fraction r = Some ([], r)"
  by (cases r) (auto simp: parse_fraction_def)

lemma parse_unsigned_parts:
  assumes "list_all digit ds" "ds \<noteq> []" "hd ds \<noteq> CHR ''0'' \<or> length ds = 1"
    and "r = [] \<or> \<not> digit (hd r)" "parse_fraction r = Some (fs, u)" "parse_exponent u = Some (e, w)"
  shows "parse_unsigned (ds @ r) = Some (of_int (read_pos 0 (ds @ fs)) * 10 powi (e - int (length fs)), w)"
  using assms span_digits[OF assms(1,4)] by (auto simp: parse_unsigned_def Let_def)

lemma parse_fraction_digits:
  assumes "list_all digit fs" "fs \<noteq> []" "r = [] \<or> \<not> digit (hd r)"
  shows "parse_fraction (CHR ''.'' # fs @ r) = Some (fs, r)"
  using span_digits[OF assms(1,3)] assms(2) by (simp add: parse_fraction_def)

lemma parse_exponent_signed:
  assumes "r = [] \<or> \<not> digit (hd r)" "0 \<le> n"
  shows "parse_exponent (CHR ''e'' # (if m then CHR ''-'' else CHR ''+'') # show_pos n @ r) = Some (if m then - n else n, r)"
  using span_digits[OF show_pos_all_digits assms(1), of n] assms(2)
  by (cases m) (simp_all add: parse_exponent_def Let_def)

lemma ends_no_digit: "ends_number r \<Longrightarrow> r = [] \<or> \<not> digit (hd r)"
  by (auto simp: ends_number_def)

lemma zeros_digits: "list_all digit (replicate k (CHR ''0''))"
  by (simp add: list_all_iff)

lemma parse_layout:
  assumes "0 < s" "ends_number r"
  shows "parse_unsigned (layout s e @ r) = Some (of_int s * 10 powi e, r)"
proof -
  define ds k n where "ds = show_pos s" and "k = int (length ds)" and "n = e + k"
  have d: "list_all digit ds" "ds \<noteq> []" "hd ds \<noteq> CHR ''0''" "read_pos 0 ds = s"
    using show_pos_hd[OF assms(1)] assms(1) show_pos_all_digits by (simp_all add: ds_def)
  have k: "0 < k" using d(2) by (simp add: k_def)
  note r = ends_no_digit[OF assms(2)]
  have lay: "layout s e =
      (if k \<le> n \<and> n \<le> 21 then ds @ replicate (nat (n - k)) (CHR ''0'')
         else if 0 < n \<and> n \<le> 21 then take (nat n) ds @ ''.'' @ drop (nat n) ds
         else if - 6 < n \<and> n \<le> 0 then ''0.'' @ replicate (nat (- n)) (CHR ''0'') @ ds
         else take 1 ds @ (if k = 1 then [] else ''.'' @ drop 1 ds) @ ''e''
              @ (if n - 1 < 0 then ''-'' else ''+'') @ show_pos \<bar>n - 1\<bar>)"
    by (simp add: layout_def Let_def ds_def k_def n_def)
  have td: "list_all digit (take j ds)" "list_all digit (drop j ds)" for j
    using d(1) by (auto simp: list_all_iff dest: in_set_takeD in_set_dropD)
  consider (whole) "k \<le> n" "n \<le> 21" | (mixed) "\<not> (k \<le> n \<and> n \<le> 21)" "0 < n" "n \<le> 21"
    | (small) "\<not> (k \<le> n \<and> n \<le> 21)" "- 6 < n" "n \<le> 0" | (exponent) "\<not> (k \<le> n \<and> n \<le> 21)" "\<not> (0 < n \<and> n \<le> 21)" "\<not> (- 6 < n \<and> n \<le> 0)"
    by linarith
  then show ?thesis
  proof cases
    case whole
    let ?z = "replicate (nat (n - k)) (CHR ''0'')"
    have "parse_unsigned ((ds @ ?z) @ r) = Some (of_int (read_pos 0 ((ds @ ?z) @ [])) * 10 powi (0 - int (length ([]::string))), r)"
      using d r assms(2) by (intro parse_unsigned_parts[OF _ _ _ _ parse_fraction_none parse_exponent_none])
        (auto simp: ends_number_def zeros_digits)
    moreover have "10 powi e = (10::rat) ^ nat (n - k)" using whole by (simp add: n_def power_int_def)
    ultimately show ?thesis using whole d(4) by (simp add: lay read_pos_append)
  next
    case mixed
    then have m: "0 < nat n" "nat n < length ds" by (auto simp: k_def)
    have ne: "take (nat n) ds \<noteq> []" "drop (nat n) ds \<noteq> []" using m by auto
    have "hd (take (nat n) ds) = hd ds" using m by (simp add: hd_take)
    then have "parse_unsigned (take (nat n) ds @ CHR ''.'' # drop (nat n) ds @ r)
        = Some (of_int (read_pos 0 (take (nat n) ds @ drop (nat n) ds)) * 10 powi (0 - int (length (drop (nat n) ds))), r)"
      using d(3) td r ne assms(2)
      by (intro parse_unsigned_parts[OF _ _ _ _ parse_fraction_digits parse_exponent_none])
        (auto simp: no_digit_punctuation)
    moreover have "0 - int (length (drop (nat n) ds)) = e" using m mixed by (simp add: n_def k_def of_nat_diff)
    moreover have "layout s e = take (nat n) ds @ ''.'' @ drop (nat n) ds" unfolding lay using mixed by simp
    ultimately show ?thesis using d(4) by simp
  next
    case small
    let ?f = "replicate (nat (- n)) (CHR ''0'') @ ds"
    have "parse_unsigned (''0'' @ CHR ''.'' # ?f @ r)
        = Some (of_int (read_pos 0 (''0'' @ ?f)) * 10 powi (0 - int (length ?f)), r)"
      using d r assms(2)
      by (intro parse_unsigned_parts[OF _ _ _ _ parse_fraction_digits parse_exponent_none])
        (auto simp: no_digit_punctuation zeros_digits)
    moreover have "0 - int (length ?f) = e" using small by (simp add: n_def k_def)
    moreover have "read_pos 0 (''0'' @ ?f) = s" using d(4) by (simp add: read_pos_append)
    moreover have "layout s e = ''0.'' @ ?f" unfolding lay using small k by simp
    ultimately show ?thesis by simp
  next
    case exponent
    let ?x = "CHR ''e'' # (if n - 1 < 0 then CHR ''-'' else CHR ''+'') # show_pos \<bar>n - 1\<bar> @ r"
    have l1: "take 1 ds = [hd ds]" "ds = hd ds # drop 1 ds" using d(2) by (cases ds; simp)+
    have x: "parse_exponent ?x = Some (n - 1, r)" using parse_exponent_signed[OF r, of "\<bar>n - 1\<bar>" "n - 1 < 0"] by auto
    have "layout s e = take 1 ds @ (if k = 1 then [] else ''.'' @ drop 1 ds) @ ''e''
        @ (if n - 1 < 0 then ''-'' else ''+'') @ show_pos \<bar>n - 1\<bar>"
      unfolding lay by (simp only: exponent if_False)
    then have lay': "layout s e @ r = take 1 ds @ (if k = 1 then [] else ''.'' @ drop 1 ds) @ ?x"
      by (simp only: append_assoc append_Cons append_Nil if_distrib[of "\<lambda>w. w @ _"]) (simp split: if_split)
    show ?thesis
    proof (cases "k = 1")
      case True
      then have "ds = take 1 ds" by (simp add: k_def)
      then have "parse_unsigned (ds @ ?x) = Some (of_int (read_pos 0 (ds @ [])) * 10 powi (n - 1 - int (length ([]::string))), r)"
        using True d td by (intro parse_unsigned_parts[OF _ _ _ _ parse_fraction_none x])
          (auto simp: no_digit_punctuation k_def)
      then show ?thesis using lay' True d(4) \<open>ds = take 1 ds\<close> by (simp add: n_def)
    next
      case False
      then have "1 < length ds" using k unfolding k_def by linarith
      then have ne: "drop 1 ds \<noteq> []" by simp
      have dh: "digit (hd ds)" using d(1,2) by (cases ds) auto
      have "parse_unsigned (take 1 ds @ CHR ''.'' # drop 1 ds @ ?x)
          = Some (of_int (read_pos 0 (take 1 ds @ drop 1 ds)) * 10 powi (n - 1 - int (length (drop 1 ds))), r)"
        using td ne l1(1) dh
        by (intro parse_unsigned_parts[OF _ _ _ _ parse_fraction_digits x])
          (auto simp: no_digit_punctuation)
      moreover have "n - 1 - int (length (drop 1 ds)) = e" using ne by (simp add: n_def k_def of_nat_diff)
      moreover have "layout s e @ r = take 1 ds @ CHR ''.'' # drop 1 ds @ ?x" using lay' False by simp
      ultimately show ?thesis using d(4) by simp
    qed
  qed
qed


lemma double_rnd: "double x \<Longrightarrow> rnd64 x = x"
  by (auto simp: double_def to_double_def Let_def split: if_splits)

lemma to_double_rounded: "rnd64 y = x \<Longrightarrow> double x \<Longrightarrow> to_double y = Fin x"
  by (auto simp: double_def to_double_def Let_def split: if_splits)

lemma to_double_minus: "to_double (- y) = (case to_double y of Fin x \<Rightarrow> Fin (- x) | PosInf \<Rightarrow> NegInf | NegInf \<Rightarrow> PosInf | NaN \<Rightarrow> NaN)"
proof -
  consider "rnd64 y < 2 ^ 1024 \<and> - (2 ^ 1024) < rnd64 y" | "2 ^ 1024 \<le> rnd64 y" | "rnd64 y \<le> - (2 ^ 1024)" by linarith
  then show ?thesis
    by cases (auto simp: to_double_def Let_def rnd64_minus)
qed

lemma double_minus: "double (- x) \<longleftrightarrow> double x"
  using to_double_minus[of x] to_double_minus[of "- x"] by (auto simp: double_def split: js_num.splits)

lemma digit_hd_layout: "0 < s \<Longrightarrow> layout s e \<noteq> [] \<and> digit (hd (layout s e))"
proof -
  assume s: "0 < s"
  define ds where "ds = show_pos s"
  have d: "ds \<noteq> []" "digit (hd ds)"
    using show_pos_all_digits[of s] show_pos_nonempty[of s] by (cases ds; simp add: ds_def[symmetric])+
  show ?thesis unfolding layout_def Let_def ds_def[symmetric] using d
    by (cases ds) (auto simp: hd_append)
qed

lemma parse_rat:
  assumes "double x" "ends_number r"
  shows "parse_number (rat_to_string x @ r) = Some (num x, r)"
proof -
  have pos: "parse_number (rat_to_string y @ r) = Some (num y, r)"
    and pos': "map_option (\<lambda>(v, r). (JNum (to_double (- v)), r)) (parse_unsigned (rat_to_string y @ r)) = Some (num (- y), r)"
    if y: "0 < y" "double y" for y
  proof -
    obtain s e where se: "digits_of y = (s, e)" by fastforce
    note k = digits_of_sound[OF double_rnd[OF y(2)] y(1) se]
    have t: "rat_to_string y = layout s e" using y(1) se by (simp add: rat_to_string_def)
    have p: "parse_unsigned (layout s e @ r) = Some (of_int s * 10 powi e, r)" using parse_layout[OF k(1) assms(2)] .
    have "hd (layout s e) \<noteq> CHR ''-''" using digit_hd_layout[OF k(1), of e] no_digit_punctuation by metis
    then show "parse_number (rat_to_string y @ r) = Some (num y, r)"
      using p digit_hd_layout[OF k(1), of e] to_double_rounded[OF k(2) y(2)] by (simp add: t parse_number_def hd_append)
    show "map_option (\<lambda>(v, r). (JNum (to_double (- v)), r)) (parse_unsigned (rat_to_string y @ r)) = Some (num (- y), r)"
      using p to_double_rounded[OF k(2) y(2)] by (simp add: t to_double_minus)
  qed
  consider "x = 0" | "0 < x" | "x < 0" by linarith
  then show ?thesis
  proof cases
    case 1
    have z: "read_pos 0 ''0'' = 0" by simp
    have "parse_unsigned (''0'' @ r) = Some (of_int (read_pos 0 (''0'' @ [])) * 10 powi (0 - int (length ([]::string))), r)"
      using ends_no_digit[OF assms(2)] assms(2)
      by (intro parse_unsigned_parts[OF _ _ _ _ parse_fraction_none parse_exponent_none]) (auto simp: ends_number_def)
    then show ?thesis using 1 assms(1) by (simp add: parse_number_def rat_to_string_def double_def)
  next
    case 2
    then show ?thesis using pos assms(1) by blast
  next
    case 3
    then have "rat_to_string x = CHR ''-'' # rat_to_string (- x)" by (simp add: rat_to_string_def)
    then show ?thesis using pos'[of "- x"] 3 assms(1) by (simp add: parse_number_def double_minus)
  qed
qed

lemma rat_to_string_hd: "double x \<Longrightarrow> rat_to_string x \<noteq> [] \<and> (digit (hd (rat_to_string x)) \<or> hd (rat_to_string x) = CHR ''-'')"
proof -
  assume x: "double x"
  have pos: "rat_to_string y \<noteq> [] \<and> digit (hd (rat_to_string y))" if "0 < y" "double y" for y
  proof -
    obtain s e where se: "digits_of y = (s, e)" by fastforce
    show ?thesis using digit_hd_layout[OF digits_of_sound(1)[OF double_rnd[OF that(2)] that(1) se], of e] that(1) se
      by (simp add: rat_to_string_def)
  qed
  show ?thesis using pos[of x] x by (auto simp: rat_to_string_def)
qed


section \<open>Values are read back\<close>

lemma json_doubles_num: "json_doubles (JNum n) \<longleftrightarrow> (case n of Fin x \<Rightarrow> double x | _ \<Rightarrow> True)"
  by simp

definition value_start :: "string \<Rightarrow> bool" where
  "value_start t \<longleftrightarrow> t \<noteq> [] \<and> \<not> json_space (hd t) \<and> hd t \<notin> set '']}''"

lemma digit_not_special: "digit c \<or> c = CHR ''-'' \<Longrightarrow>
   \<not> json_space c \<and> c \<notin> set '']}[{tfn'' \<and> c \<noteq> CHR 0x22"
  by (auto simp: digit_def json_space_def)

lemma canonical_start: "canonical_json bad v = Inr t \<Longrightarrow> json_doubles v \<Longrightarrow> value_start t"
proof (cases v)
  case (JNum n)
  assume t: "canonical_json bad v = Inr t" "json_doubles v"
  then obtain x where x: "n = Fin x" "t = rat_to_string x" "double x"
    using JNum json_doubles_num[of n] by (cases n) auto
  then show ?thesis using rat_to_string_hd[OF x(3)] digit_not_special by (auto simp: value_start_def)
qed (auto simp: value_start_def json_space_def json_string_def split: if_splits)

lemma skip_start: "value_start t \<Longrightarrow> skip_space (t @ r) = t @ r"
  by (cases t) (auto simp: value_start_def skip_space_def)

lemma skip_other: "\<not> json_space c \<Longrightarrow> skip_space (c # r) = c # r"
  by (simp add: skip_space_def)

lemma punctuation_not_space: "\<not> json_space (CHR '','')" "\<not> json_space (CHR '']'')" "\<not> json_space (CHR ''}'')"
  "\<not> json_space (CHR '':'')" "\<not> json_space (CHR 0x22)" "\<not> json_space (CHR ''['')" "\<not> json_space (CHR ''{'')"
  "\<not> json_space (CHR ''n'')" "\<not> json_space (CHR ''t'')" "\<not> json_space (CHR ''f'')"
  by (simp_all add: json_space_def)

lemma ends_number_punctuation: "ends_number (CHR '','' # r)" "ends_number (CHR '']'' # r)" "ends_number (CHR ''}'' # r)"
  by (simp_all add: ends_number_def digit_def)

lemma join_cons2: "join sep (w # x # ws) = w @ sep @ join sep (x # ws)"
  by simp

lemma parse_elements_back:
  assumes "list_all2 (\<lambda>v t. canonical_json bad v = Inr t \<and> json_doubles v \<and>
      (\<forall>n rest. 2 * length t \<le> n \<longrightarrow> ends_number rest \<longrightarrow> parse_value (Suc n) (t @ rest) = Some (json_normal v, rest))) vs ts"
    and "vs \<noteq> []" "2 * length (join '','' ts) + 1 \<le> n"
  shows "parse_elements (Suc n) (join '','' ts @ CHR '']'' # rest) = Some (map json_normal vs, rest)"
  using assms
proof (induction vs ts arbitrary: n rule: list_all2_induct)
  case (Cons v vs t ts)
  obtain m where n: "n = Suc m" using Cons.prems by (cases n) auto
  have val: "2 * length t \<le> m \<Longrightarrow> ends_number u \<Longrightarrow> parse_value n (t @ u) = Some (json_normal v, u)" for u
    using Cons.hyps(1) n by blast
  show ?case
  proof (cases ts)
    case Nil
    then have "vs = []" using Cons.hyps(2) by simp
    then show ?thesis using val[of "CHR '']'' # rest"] Cons.prems(2) n Nil
      by (simp add: ends_number_punctuation skip_other punctuation_not_space)
  next
    case (Cons t' ts')
    then have ne: "vs \<noteq> []" using Cons.hyps(2) by auto
    have j: "join '','' (t # ts) = t @ CHR '','' # join '','' ts" using Cons by simp
    have len: "2 * length t \<le> m" "2 * length (join '','' ts) + 1 \<le> m"
      using Cons.prems(2) n unfolding j by simp_all
    have "parse_elements n (join '','' ts @ CHR '']'' # rest) = Some (map json_normal vs, rest)"
      using Cons.IH[OF ne len(2)] n by simp
    moreover have "parse_value n (t @ CHR '','' # join '','' ts @ CHR '']'' # rest) = Some (json_normal v, CHR '','' # join '','' ts @ CHR '']'' # rest)"
      using val[OF len(1)] ends_number_punctuation by simp
    ultimately show ?thesis unfolding j by (simp add: skip_other punctuation_not_space)
  qed
qed simp

definition member_text :: "string \<Rightarrow> string \<Rightarrow> string" where
  "member_text k t = json_string k @ '':'' @ t"

lemma parse_members_back:
  assumes "list_all2 (\<lambda>f t. canonical_json bad (snd f) = Inr t \<and> json_doubles (snd f) \<and>
      (\<forall>n rest. 2 * length t \<le> n \<longrightarrow> ends_number rest \<longrightarrow> parse_value (Suc n) (t @ rest) = Some (json_normal (snd f), rest))) fs ts"
    and "fs \<noteq> []" "2 * length (join '','' (map2 (\<lambda>f t. member_text (fst f) t) fs ts)) + 1 \<le> n"
  shows "parse_members (Suc n) (join '','' (map2 (\<lambda>f t. member_text (fst f) t) fs ts) @ CHR ''}'' # rest)
    = Some (map (\<lambda>f. (fst f, json_normal (snd f))) fs, rest)"
  using assms
proof (induction fs ts arbitrary: n rule: list_all2_induct)
  case (Cons f fs t ts)
  let ?m = "map2 (\<lambda>f t. member_text (fst f) t)"
  obtain m where n: "n = Suc m" using Cons.prems by (cases n) auto
  have val: "2 * length t \<le> m \<Longrightarrow> ends_number u \<Longrightarrow> parse_value n (t @ u) = Some (json_normal (snd f), u)" for u
    using Cons.hyps(1) n by blast
  have ml: "length (member_text (fst f) t) \<ge> length t + 3" by (simp add: member_text_def json_string_def)
  have head: "parse_members (Suc n) (member_text (fst f) t @ u) =
      (case skip_space u of [] \<Rightarrow> None
       | d # w \<Rightarrow> if d = CHR ''}'' then Some ([(fst f, json_normal (snd f))], w)
                  else if d = CHR '','' then map_option (\<lambda>(kvs, x). ((fst f, json_normal (snd f)) # kvs, x)) (parse_members n w)
                  else None)" if "2 * length t \<le> m" "ends_number u" for u
    using val[OF that] by (simp add: member_text_def json_string_def skip_other punctuation_not_space parse_json_string)
  show ?case
  proof (cases ts)
    case Nil
    then have "fs = []" using Cons.hyps(2) by simp
    moreover have "2 * length t \<le> m" using Cons.prems(2) n ml Nil \<open>fs = []\<close> by simp
    ultimately show ?thesis using head[of "CHR ''}'' # rest"] Nil
      by (simp add: ends_number_punctuation skip_other punctuation_not_space)
  next
    case (Cons t' ts')
    then obtain f' fs' where fs: "fs = f' # fs'" using Cons.hyps(2) by (cases fs) auto
    have j: "join '','' (?m (f # fs) (t # ts)) = member_text (fst f) t @ CHR '','' # join '','' (?m fs ts)"
      using Cons fs by simp
    have len: "2 * length t \<le> m" "2 * length (join '','' (?m fs ts)) + 1 \<le> m"
      using Cons.prems(2) n ml unfolding j by simp_all
    have "parse_members n (join '','' (?m fs ts) @ CHR ''}'' # rest) = Some (map (\<lambda>f. (fst f, json_normal (snd f))) fs, rest)"
      using Cons.IH[OF _ len(2)] n fs by simp
    then show ?thesis unfolding j using head[OF len(1) ends_number_punctuation(1)]
      by (simp add: skip_other punctuation_not_space)
  qed
qed simp


lemma map_res_list_all2: "map_res f xs = Inr ys \<longleftrightarrow> list_all2 (\<lambda>x y. f x = Inr y) xs ys"
proof (induction xs arbitrary: ys)
  case (Cons x xs)
  show ?case
  proof
    assume "map_res f (x # xs) = Inr ys"
    then show "list_all2 (\<lambda>x y. f x = Inr y) (x # xs) ys" using Cons.IH by auto
  next
    assume "list_all2 (\<lambda>x y. f x = Inr y) (x # xs) ys"
    then obtain y zs where "ys = y # zs" "f x = Inr y" "list_all2 (\<lambda>x y. f x = Inr y) xs zs" by (cases ys) auto
    then show "map_res f (x # xs) = Inr ys" using Cons.IH by auto
  qed
qed auto

lemma update_new: "k \<notin> fst ` set acc \<Longrightarrow> AList.update k v acc = acc @ [(k, v)]"
  by (induction acc) auto

lemma fold_update_distinct:
  "distinct (map fst (acc @ kvs)) \<Longrightarrow> fold (\<lambda>(k, v). AList.update k v) kvs acc = acc @ kvs"
proof (induction kvs arbitrary: acc)
  case (Cons kv kvs)
  obtain k v where kv: "kv = (k, v)" by fastforce
  have "AList.update k v acc = acc @ [(k, v)]" using Cons.prems kv by (intro update_new) auto
  then show ?case using Cons.IH[of "acc @ [(k, v)]"] Cons.prems kv by simp
qed simp

lemma fields_object_distinct: "distinct (map fst kvs) \<Longrightarrow> fields_object kvs = obj kvs"
  using fold_update_distinct[of "[]" kvs] by (simp add: fields_object_def)

lemma sorted_fields_fst: "map fst (sorted_fields fs) = sort (remdups (map fst fs))"
  by (simp add: sorted_fields_def comp_def)

lemma sorted_fields_distinct: "distinct (map fst (sorted_fields fs))"
  by (simp add: sorted_fields_fst)

lemma strip_word_self: "strip_word w (w @ r) = Some r"
  by (simp add: strip_word_def)

lemma parse_words:
  "parse_value (Suc n) (''null'' @ r) = Some (JNull, r)"
  "parse_value (Suc n) (''true'' @ r) = Some (JBool True, r)"
  "parse_value (Suc n) (''false'' @ r) = Some (JBool False, r)"
  by (simp_all add: skip_other punctuation_not_space strip_word_def)

lemma parse_value_number:
  assumes "double x" "ends_number r"
  shows "parse_value (Suc n) (rat_to_string x @ r) = Some (num x, r)"
proof -
  obtain c u where c: "rat_to_string x = c # u" "digit c \<or> c = CHR ''-''"
    using rat_to_string_hd[OF assms(1)] by (cases "rat_to_string x") auto
  have p: "parse_number (c # u @ r) = Some (num x, r)" using parse_rat[OF assms] c(1) by simp
  from digit_not_special[OF c(2)] show ?thesis
    by (auto simp: c(1) skip_other strip_word_def p)
qed

lemma list_all2_mem_conj:
  "list_all2 P xs ys \<Longrightarrow> (\<And>x y. x \<in> set xs \<Longrightarrow> y \<in> set ys \<Longrightarrow> P x y \<Longrightarrow> Q x y) \<Longrightarrow> list_all2 (\<lambda>x y. P x y \<and> Q x y) xs ys"
  by (induction xs ys rule: list_all2_induct) auto

lemma parse_canonical:
  "canonical_json bad v = Inr t \<Longrightarrow> json_doubles v \<Longrightarrow> 2 * length t \<le> n \<Longrightarrow> ends_number rest \<Longrightarrow>
   parse_value (Suc n) (t @ rest) = Some (json_normal v, rest)"
proof (induction bad v arbitrary: t n rest rule: canonical_json.induct)
  case (1 bad)
  then show ?case using parse_words(1) by simp
next
  case (2 bad b)
  then show ?case using parse_words(2,3) by (cases b) simp_all
next
  case (3 bad s)
  then have "t = json_string s" by simp
  then show ?case by (simp add: json_string_def skip_other punctuation_not_space parse_json_string)
next
  case (4 bad x)
  then obtain y where "x = Fin y" "t = rat_to_string y" "double y"
    by (cases x) auto
  then show ?case using parse_value_number 4 by (simp del: parse_value.simps)
next
  case (5 bad vs)
  obtain ts where ts: "map_res (canonical_json bad) vs = Inr ts" "t = ''['' @ join '','' ts @ '']''"
    using 5(2) by auto
  have l: "list_all2 (\<lambda>v t. canonical_json bad v = Inr t) vs ts" using ts(1) map_res_list_all2 by blast
  have all: "list_all2 (\<lambda>v t. canonical_json bad v = Inr t \<and> (json_doubles v \<and>
      (\<forall>n rest. 2 * length t \<le> n \<longrightarrow> ends_number rest \<longrightarrow> parse_value (Suc n) (t @ rest) = Some (json_normal v, rest)))) vs ts"
    using 5(1,3) by (intro list_all2_mem_conj[OF l]) auto
  show ?case
  proof (cases "vs = []")
    case True
    then have "ts = []" using l by simp
    then show ?thesis using True ts(2) by (simp add: skip_other punctuation_not_space)
  next
    case False
    obtain m where n: "n = Suc m" "2 * length (join '','' ts) + 1 \<le> m" using 5(4) ts(2) by (cases n) auto
    have e: "parse_elements n (join '','' ts @ CHR '']'' # rest) = Some (map json_normal vs, rest)"
      unfolding n(1) using all False n(2) by (intro parse_elements_back) simp_all
    obtain v vs' t' ts' where c: "vs = v # vs'" "ts = t' # ts'" "canonical_json bad v = Inr t'" "json_doubles v"
      using False all by (cases vs; cases ts) auto
    have st: "value_start (join '','' ts)"
      using canonical_start[OF c(3,4)] c(2) by (cases ts') (auto simp: value_start_def)
    have sk: "skip_space (join '','' ts @ CHR '']'' # rest) = join '','' ts @ CHR '']'' # rest" using skip_start[OF st] .
    have hd: "hd (join '','' ts @ CHR '']'' # rest) \<noteq> CHR '']''" using st by (auto simp: value_start_def)
    show ?thesis unfolding ts(2) using e sk hd by (simp add: skip_other punctuation_not_space)
  qed
next
  case (6 bad p fs)
  let ?fs = "sorted_fields fs"
  obtain us where us: "map_res (\<lambda>f. and_then (canonical_json bad (snd f)) (\<lambda>t. Inr (json_string (fst f) @ '':'' @ t))) ?fs = Inr us"
    "t = ''{'' @ join '','' us @ ''}''" using 6(2) by auto
  define ts where "ts = map (\<lambda>f. case canonical_json bad (snd f) of Inr t \<Rightarrow> t | Inl e \<Rightarrow> []) ?fs"
  have l: "list_all2 (\<lambda>f u. \<exists>t. canonical_json bad (snd f) = Inr t \<and> u = member_text (fst f) t) ?fs us"
    using us(1) unfolding map_res_list_all2 by (rule list_all2_mono) (auto simp: member_text_def)
  have "list_all2 (\<lambda>f t. canonical_json bad (snd f) = Inr t) ?fs ts \<and> us = map2 (\<lambda>f t. member_text (fst f) t) ?fs ts"
    using l unfolding ts_def by (induction rule: list_all2_induct) auto
  then have lt: "list_all2 (\<lambda>f t. canonical_json bad (snd f) = Inr t) ?fs ts"
    and us': "us = map2 (\<lambda>f t. member_text (fst f) t) ?fs ts" by blast+
  have all: "list_all2 (\<lambda>f t. canonical_json bad (snd f) = Inr t \<and> (json_doubles (snd f) \<and>
      (\<forall>n rest. 2 * length t \<le> n \<longrightarrow> ends_number rest \<longrightarrow> parse_value (Suc n) (t @ rest) = Some (json_normal (snd f), rest)))) ?fs ts"
    using 6(1,3) by (intro list_all2_mem_conj[OF lt]) auto
  let ?out = "map (\<lambda>f. (fst f, json_normal (snd f))) ?fs"
  have "map fst ?out = map fst ?fs" by simp
  then have fo: "fields_object ?out = obj ?out" using sorted_fields_distinct[of fs] by (intro fields_object_distinct) metis
  show ?case
  proof (cases "?fs = []")
    case True
    then have "us = []" using l by simp
    then show ?thesis using True us(2) by (simp add: skip_other punctuation_not_space)
  next
    case False
    obtain m where n: "n = Suc m" "2 * length (join '','' us) + 1 \<le> m" using 6(4) us(2) by (cases n) auto
    have e: "parse_members n (join '','' us @ CHR ''}'' # rest) = Some (?out, rest)"
      unfolding n(1) us' using all False n(2) us' by (intro parse_members_back) simp_all
    obtain w where w: "join '','' us = CHR 0x22 # w"
      using False l by (cases ?fs; cases us rule: list.exhaust; simp; cases "tl us") (auto simp: member_text_def json_string_def)
    show ?thesis unfolding us(2) using e fo by (simp add: w skip_other punctuation_not_space)
  qed
next
  case (7 bad d)
  then show ?case by (auto simp: skip_other punctuation_not_space)
qed auto

theorem parse_canonical_json:
  assumes "canonical_json bad v = Inr t" "json_doubles v"
  shows "parse_json t = Some (json_normal v)"
  using parse_canonical[OF assms, of "2 * length t + 1" "[]"]
  by (simp add: parse_json_def ends_number_def skip_space_def del: parse_value.simps)

lemma canonical_json_determines:
  assumes "canonical_json bad v = Inr t" "canonical_json bad' w = Inr t" "json_doubles v" "json_doubles w"
  shows "json_normal v = json_normal w"
  using parse_canonical_json[OF assms(1,3)] parse_canonical_json[OF assms(2,4)] by simp

end
