(* ===== verification/EvidenceProtection.thy ===== *)
theory EvidenceProtection
  imports CanonicalJson
begin

text \<open>
  \<open>services/evidence/src/index.mjs\<close>, first part: the policies, canonical evidence JSON, the storage
  envelope of protected evidence and the protector that seals and opens it. The primitives of
  \<open>node:crypto\<close> are a parameter; what the code relies on is \<open>gcm_correct\<close>.
\<close>

section \<open>Identifiers and policies\<close>

definition ev_tenant_id :: "string \<Rightarrow> bool" where
  "ev_tenant_id = is_id ''tnt''"

definition ev_subject_id :: "string \<Rightarrow> bool" where
  "ev_subject_id = is_id ''sub''"

definition ev_source_id :: "string \<Rightarrow> bool" where
  "ev_source_id = is_id ''src''"

definition ev_key_id :: "string \<Rightarrow> bool" where
  "ev_key_id = is_id ''key''"

definition ev_event_id :: "string \<Rightarrow> bool" where
  "ev_event_id = is_id ''evt''"

definition url_char :: "char \<Rightarrow> bool" where
  "url_char c \<longleftrightarrow> upper c \<or> lower c \<or> digit c \<or> c \<in> set ''_-''"

definition ev_nonce :: "string \<Rightarrow> bool" where
  "ev_nonce s \<longleftrightarrow> 22 \<le> length s \<and> length s \<le> 64 \<and> list_all url_char s"

definition ev_public_key :: "string \<Rightarrow> bool" where
  "ev_public_key s \<longleftrightarrow> length s = 43 \<and> list_all url_char s"

definition ev_sha256 :: "string \<Rightarrow> bool" where
  "ev_sha256 = is_sha256"

definition encryption_key_id :: "string \<Rightarrow> bool" where
  "encryption_key_id = head_tail (\<lambda>c. lower c \<or> digit c) (\<lambda>c. lower c \<or> digit c \<or> c \<in> set ''._-'') 2 63"

definition evidence_types :: "string list" where
  "evidence_types = [''identity'', ''device'', ''behaviour'', ''certificate'', ''compliance'']"

definition replay_guard_denial_reasons :: "string list" where
  "replay_guard_denial_reasons =
     [''VERIFICATION_CONTEXT_NOT_FOUND'', ''EVIDENCE_TIME_WINDOW_INVALID'', ''EVIDENCE_OBSERVED_IN_FUTURE'',
      ''EVIDENCE_STALE'', ''EVIDENCE_EXPIRED'', ''EVIDENCE_TTL_EXCEEDED'', ''EVIDENCE_EVENT_REPLAYED'',
      ''EVIDENCE_NONCE_REPLAYED'', ''EVIDENCE_SEQUENCE_REPLAYED'', ''EVIDENCE_SEQUENCE_REORDERED'',
      ''EVIDENCE_OBSERVATION_REORDERED'', ''EVIDENCE_RATE_LIMITED'']"

record storage_policy =
  sp_format_version :: rat
  sp_cipher :: string
  sp_key_derivation :: string
  sp_iv_bytes :: nat
  sp_tag_bytes :: nat
  sp_retention_days :: int
  sp_max_canonical_bytes :: nat
  sp_access_rule :: string
  sp_deletion_rule :: string

definition evidence_storage_policy :: storage_policy where
  "evidence_storage_policy =
     \<lparr> sp_format_version = 1, sp_cipher = ''AES-256-GCM'', sp_key_derivation = ''HKDF-SHA-256'', sp_iv_bytes = 12,
       sp_tag_bytes = 16, sp_retention_days = 30, sp_max_canonical_bytes = 65536,
       sp_access_rule = ''subject-owner-or-tenant-admin'', sp_deletion_rule = ''tenant-admin'' \<rparr>"

record ingestion_policy =
  ip_schema_version :: string
  ip_endpoint :: string
  ip_max_envelope_bytes :: rat
  ip_max_payload_bytes :: nat
  ip_signature_algorithm :: string
  ip_canonicalization :: string
  ip_source_state :: string
  ip_key_state :: string
  ip_max_skew_seconds :: int
  ip_replay_scope :: string
  ip_rejection_identifiers :: string
  ip_persistence :: string

definition evidence_ingestion_policy :: ingestion_policy where
  "evidence_ingestion_policy =
     \<lparr> ip_schema_version = ''1.0.0'', ip_endpoint = ''/v1/evidence'', ip_max_envelope_bytes = 65536,
       ip_max_payload_bytes = 32768, ip_signature_algorithm = ''Ed25519'',
       ip_canonicalization = ''tenant-trust-evidence-json-v1'', ip_source_state = ''active'',
       ip_key_state = ''active'', ip_max_skew_seconds = 30, ip_replay_scope = ''tenant-source-key-epoch'',
       ip_rejection_identifiers = ''sha256'', ip_persistence = ''application-encrypted-off-chain'' \<rparr>"

definition ev_reject :: "string \<Rightarrow> 'a res" where
  "ev_reject r = throw EvidenceRejectedError r"

definition ev_unavailable :: js_error where
  "ev_unavailable = Thrown EvidenceIngestionUnavailableError ''''"

section \<open>Canonical evidence\<close>

definition canonicalize_evidence :: "js \<Rightarrow> string res" where
  "canonicalize_evidence = canonical_json (Thrown EvidenceRejectedError ''EVIDENCE_SCHEMA_INVALID'')"

definition canonical_byte_length :: "js \<Rightarrow> nat res" where
  "canonical_byte_length v = and_then (canonicalize_evidence v) (\<lambda>t. Inr (length (utf8 t)))"

text \<open>\<open>const { signature, ...unsigned } = envelope\<close>: the rest pattern copies the own properties.\<close>

fun without_field :: "string \<Rightarrow> js \<Rightarrow> js" where
  "without_field k (JObj p fs) = obj (filter (\<lambda>f. fst f \<noteq> k) fs)"
| "without_field k v = obj []"

definition unsigned_evidence_envelope :: "js \<Rightarrow> js res" where
  "unsigned_evidence_envelope e =
     (if \<not> is_record e then ev_reject ''EVIDENCE_SCHEMA_INVALID''
      else if \<not> truthy (get e ''signature'') then ev_reject ''EVIDENCE_SCHEMA_INVALID''
      else Inr (without_field ''signature'' e))"

section \<open>Cryptographic primitives\<close>

record crypto =
  cr_sha256 :: "bytes \<Rightarrow> string"                                 \<comment> \<open>hexadecimal digest\<close>
  cr_hkdf :: "bytes \<Rightarrow> bytes \<Rightarrow> bytes \<Rightarrow> nat \<Rightarrow> bytes"              \<comment> \<open>key, salt, info, length\<close>
  cr_seal :: "bytes \<Rightarrow> bytes \<Rightarrow> bytes \<Rightarrow> bytes \<Rightarrow> bytes \<times> bytes"      \<comment> \<open>AES-256-GCM: key, IV, AAD, text\<close>
  cr_open :: "bytes \<Rightarrow> bytes \<Rightarrow> bytes \<Rightarrow> bytes \<Rightarrow> bytes \<Rightarrow> bytes option"
  cr_verify :: "string \<Rightarrow> bytes \<Rightarrow> bytes \<Rightarrow> bool"                 \<comment> \<open>Ed25519: public key, text, signature\<close>

text \<open>What AES-GCM and SHA-256 promise: opening with the same key, IV and additional data gives the
  text back, the cipher keeps the length, the tag has 16 bytes, a digest is 64 hexadecimal digits.\<close>

definition gcm_correct :: "crypto \<Rightarrow> bool" where
  "gcm_correct cr \<longleftrightarrow>
     (\<forall>k iv aad t. (case cr_seal cr k iv aad t of (c, tag) \<Rightarrow>
        cr_open cr k iv aad c tag = Some t \<and> length c = length t \<and> length tag = 16))
     \<and> (\<forall>t. ev_sha256 (cr_sha256 cr t))"

section \<open>The protected record\<close>

definition require_canonical_base64url :: "js \<Rightarrow> nat \<Rightarrow> bytes res" where
  "require_canonical_base64url v n =
     (if \<not> is_string v then Inl TypeErrorThrown
      else if \<not> base64url_of_length n (str_of v) then Inl TypeErrorThrown
      else Inr (b64_decode (str_of v)))"

definition storage_aad :: "js \<Rightarrow> bytes res" where
  "storage_aad m =
     and_then (canonicalize_evidence (obj
       [(''cipher'', JStr (sp_cipher evidence_storage_policy)),
        (''contentHashSha256'', get m ''contentHashSha256''), (''encryptionKeyId'', get m ''encryptionKeyId''),
        (''eventId'', get m ''eventId''), (''formatVersion'', num (sp_format_version evidence_storage_policy)),
        (''sourceId'', get m ''sourceId''), (''subjectId'', get m ''subjectId''), (''tenantId'', get m ''tenantId'')]))
       (\<lambda>t. Inr (utf8 t))"

definition require_storage_binding :: "js \<Rightarrow> unit res" where
  "require_storage_binding m =
     (if \<not> truthy m
         \<or> \<not> re_test_or_empty ev_tenant_id (get m ''tenantId'')
         \<or> \<not> re_test_or_empty ev_subject_id (get m ''subjectId'')
         \<or> \<not> re_test_or_empty ev_source_id (get m ''sourceId'')
         \<or> \<not> re_test_or_empty ev_event_id (get m ''eventId'')
         \<or> \<not> re_test_or_empty ev_sha256 (get m ''contentHashSha256'')
         \<or> \<not> re_test_or_empty encryption_key_id (get m ''encryptionKeyId'')
      then Inl ev_unavailable else Inr ())"

record decoded_evidence =
  de_iv :: bytes
  de_tag :: bytes
  de_ciphertext :: bytes

definition require_protected_evidence :: "js \<Rightarrow> decoded_evidence res" where
  "require_protected_evidence r =
     and_then (require_storage_binding r) (\<lambda>_.
       if \<not> strict_eq (get r ''formatVersion'') (num (sp_format_version evidence_storage_policy))
          \<or> \<not> strict_eq (get r ''cipher'') (JStr (sp_cipher evidence_storage_policy))
          \<or> \<not> re_test_or_empty ev_sha256 (get r ''canonicalSha256'')
          \<or> \<not> is_safe_integer (get r ''canonicalByteLength'')
          \<or> num_of (get r ''canonicalByteLength'') < 1
          \<or> of_nat (sp_max_canonical_bytes evidence_storage_policy) < num_of (get r ''canonicalByteLength'')
       then Inl ev_unavailable
       else and_then (require_canonical_base64url (get r ''ivBase64Url'') (sp_iv_bytes evidence_storage_policy)) (\<lambda>iv.
            and_then (require_canonical_base64url (get r ''authenticationTagBase64Url'')
                        (sp_tag_bytes evidence_storage_policy)) (\<lambda>tag.
              if \<not> is_string (get r ''ciphertextBase64Url'') then Inl ev_unavailable
              else let text = str_of (get r ''ciphertextBase64Url''); c = b64_decode text
                   in if of_nat (length c) \<noteq> num_of (get r ''canonicalByteLength'') \<or> b64_encode c \<noteq> text
                      then Inl ev_unavailable
                      else Inr \<lparr> de_iv = iv, de_tag = tag, de_ciphertext = c \<rparr>)))"

section \<open>The protector\<close>

record protector =
  pr_master :: bytes
  pr_key_id :: js

text \<open>\<open>generateIv\<close> defaults to the random generator; each call of \<open>protect\<close> receives its bytes.\<close>

definition create_evidence_protector :: "js \<Rightarrow> js \<Rightarrow> js \<Rightarrow> protector res" where
  "create_evidence_protector master key_id generate_iv =
     and_then (require_canonical_base64url master 32) (\<lambda>m.
       let k = (if key_id = JUndef then JStr ''local-evidence-v1'' else key_id)
       in if \<not> re_test encryption_key_id k then Inl TypeErrorThrown
          else if generate_iv \<noteq> JUndef \<and> \<not> is_function generate_iv then Inl TypeErrorThrown
          else Inr \<lparr> pr_master = m, pr_key_id = k \<rparr>)"

text \<open>\<open>Buffer.from(value, "utf8")\<close> of a value that passed the identifier test: a string, or an array
  that prints as one, whose single element is not a number and becomes a zero byte.\<close>

fun buffer_of_id :: "js \<Rightarrow> bytes" where
  "buffer_of_id (JStr s) = utf8 s"
| "buffer_of_id (JArr vs) = map (\<lambda>_. CHR 0x00) vs"
| "buffer_of_id _ = []"

definition tenant_key :: "crypto \<Rightarrow> protector \<Rightarrow> js \<Rightarrow> bytes" where
  "tenant_key cr p tenant =
     cr_hkdf cr (pr_master p) (utf8 ''tenant-trust-evidence-storage-v1'') (buffer_of_id tenant) 32"

definition protect :: "crypto \<Rightarrow> protector \<Rightarrow> bytes \<Rightarrow> js \<Rightarrow> js \<Rightarrow> js res" where
  "protect cr p iv envelope content_hash =
     and_then (canonicalize_evidence envelope) (\<lambda>text.
       let bytes = utf8 text;
           metadata = [(''tenantId'', get envelope ''tenantId''), (''subjectId'', get envelope ''subjectId''),
                       (''sourceId'', get envelope ''sourceId''), (''eventId'', get envelope ''eventId''),
                       (''contentHashSha256'', content_hash), (''encryptionKeyId'', pr_key_id p)]
       in and_then (require_storage_binding (obj metadata)) (\<lambda>_.
          if length bytes < 1 \<or> sp_max_canonical_bytes evidence_storage_policy < length bytes then Inl ev_unavailable
          else if length iv \<noteq> sp_iv_bytes evidence_storage_policy then Inl ev_unavailable
          else and_then (storage_aad (obj metadata)) (\<lambda>aad.
            case cr_seal cr (tenant_key cr p (get envelope ''tenantId'')) iv aad bytes of (c, tag) \<Rightarrow>
            Inr (obj (metadata @
              [(''formatVersion'', num (sp_format_version evidence_storage_policy)),
               (''cipher'', JStr (sp_cipher evidence_storage_policy)),
               (''ivBase64Url'', JStr (b64_encode iv)), (''authenticationTagBase64Url'', JStr (b64_encode tag)),
               (''ciphertextBase64Url'', JStr (b64_encode c)), (''canonicalSha256'', JStr (cr_sha256 cr bytes)),
               (''canonicalByteLength'', num (of_nat (length bytes)))])))))"

text \<open>\<open>timingSafeEqual\<close> throws on buffers of different lengths, which only an array can cause here.\<close>

definition safe_digest_equal :: "string \<Rightarrow> js \<Rightarrow> bool res" where
  "safe_digest_equal left right =
     (if \<not> ev_sha256 left \<or> \<not> re_test_or_empty ev_sha256 right then Inr False
      else if \<not> is_string right then Inl RangeErrorThrown else Inr (JStr left = right))"

definition open_record :: "crypto \<Rightarrow> protector \<Rightarrow> js \<Rightarrow> bytes res" where
  "open_record cr p r =
     and_then (require_protected_evidence r) (\<lambda>d.
       if \<not> strict_eq (get r ''encryptionKeyId'') (pr_key_id p) then Inl ev_unavailable
       else and_then (storage_aad r) (\<lambda>aad.
         case cr_open cr (tenant_key cr p (get r ''tenantId'')) (de_iv d) aad (de_ciphertext d) (de_tag d) of
           None \<Rightarrow> Inl (ForeignError None)
         | Some bytes \<Rightarrow>
             and_then (safe_digest_equal (cr_sha256 cr bytes) (get r ''canonicalSha256'')) (\<lambda>same.
               if of_nat (length bytes) \<noteq> num_of (get r ''canonicalByteLength'') \<or> \<not> same then Inl ev_unavailable
               else Inr bytes)))"

definition unprotect :: "crypto \<Rightarrow> protector \<Rightarrow> js \<Rightarrow> bytes res" where
  "unprotect cr p r =
     catch (open_record cr p r) (\<lambda>e. if error_is EvidenceIngestionUnavailableError e then Inl e else Inl ev_unavailable)"

section \<open>What a protected record satisfies\<close>

lemma require_protected_evidence_ok:
  assumes "require_protected_evidence r = Inr d"
  shows "get r ''ivBase64Url'' = JStr (b64_encode (de_iv d))" "length (de_iv d) = 12"
    "get r ''authenticationTagBase64Url'' = JStr (b64_encode (de_tag d))" "length (de_tag d) = 16"
    "get r ''ciphertextBase64Url'' = JStr (b64_encode (de_ciphertext d))"
    "num_of (get r ''canonicalByteLength'') = of_nat (length (de_ciphertext d))"
    "1 \<le> length (de_ciphertext d)" "length (de_ciphertext d) \<le> 65536"
proof -
  have b: "get r k = JStr (b64_encode bs) \<and> length bs = n"
    if "require_canonical_base64url (get r k) n = Inr bs" for k n bs
    using that unfolding require_canonical_base64url_def canonical_base64url
    by (auto simp: is_string_iff)
  note checks = assms[unfolded require_protected_evidence_def Let_def evidence_storage_policy_def
      storage_policy.simps and_then_eq_Inr guard_eq_Inr]
  then obtain iv tag where k: "require_canonical_base64url (get r ''ivBase64Url'') 12 = Inr iv"
    "require_canonical_base64url (get r ''authenticationTagBase64Url'') 16 = Inr tag"
    "is_string (get r ''ciphertextBase64Url'')"
    "of_nat (length (b64_decode (str_of (get r ''ciphertextBase64Url'')))) = num_of (get r ''canonicalByteLength'')"
    "b64_encode (b64_decode (str_of (get r ''ciphertextBase64Url''))) = str_of (get r ''ciphertextBase64Url'')"
    "d = \<lparr> de_iv = iv, de_tag = tag, de_ciphertext = b64_decode (str_of (get r ''ciphertextBase64Url'')) \<rparr>"
    "1 \<le> num_of (get r ''canonicalByteLength'')" "num_of (get r ''canonicalByteLength'') \<le> 65536"
    by (auto simp: not_less)
  show "get r ''ivBase64Url'' = JStr (b64_encode (de_iv d))" "length (de_iv d) = 12"
    "get r ''authenticationTagBase64Url'' = JStr (b64_encode (de_tag d))" "length (de_tag d) = 16"
    using b[OF k(1)] b[OF k(2)] k(6) by simp_all
  show "get r ''ciphertextBase64Url'' = JStr (b64_encode (de_ciphertext d))" using k(3,5,6) by (auto simp: is_string_iff)
  show n: "num_of (get r ''canonicalByteLength'') = of_nat (length (de_ciphertext d))" using k(4,6) by simp
  show "1 \<le> length (de_ciphertext d)" "length (de_ciphertext d) \<le> 65536"
    using k(7,8) unfolding n by simp_all
qed

lemma digest_equal_self: "ev_sha256 s \<Longrightarrow> safe_digest_equal s (JStr s) = Inr True"
  by (simp add: safe_digest_equal_def)

lemma safe_digest_equal_True: "safe_digest_equal s v = Inr True \<longleftrightarrow> ev_sha256 s \<and> v = JStr s"
  by (auto simp: safe_digest_equal_def is_string_iff)

section \<open>Opening a sealed record\<close>

text \<open>The metadata of a protected record and the fields the protector adds.\<close>

lemma protect_ok:
  assumes "protect cr p iv e h = Inr r"
  obtains body aad c tag where "canonicalize_evidence e = Inr body" "1 \<le> length (utf8 body)" "length (utf8 body) \<le> 65536"
    "length iv = 12" "storage_aad r = Inr aad" "require_storage_binding r = Inr ()"
    "cr_seal cr (tenant_key cr p (get r ''tenantId'')) iv aad (utf8 body) = (c, tag)"
    "get r ''tenantId'' = get e ''tenantId''" "get r ''encryptionKeyId'' = pr_key_id p"
    "get r ''contentHashSha256'' = h" "get r ''subjectId'' = get e ''subjectId''"
    "get r ''sourceId'' = get e ''sourceId''" "get r ''eventId'' = get e ''eventId''"
    "get r ''formatVersion'' = num 1" "get r ''cipher'' = JStr ''AES-256-GCM''"
    "get r ''ivBase64Url'' = JStr (b64_encode iv)" "get r ''authenticationTagBase64Url'' = JStr (b64_encode tag)"
    "get r ''ciphertextBase64Url'' = JStr (b64_encode c)" "get r ''canonicalSha256'' = JStr (cr_sha256 cr (utf8 body))"
    "get r ''canonicalByteLength'' = num (of_nat (length (utf8 body)))"
proof -
  define m where "m = [(''tenantId'', get e ''tenantId''), (''subjectId'', get e ''subjectId''),
                       (''sourceId'', get e ''sourceId''), (''eventId'', get e ''eventId''),
                       (''contentHashSha256'', h), (''encryptionKeyId'', pr_key_id p)]"
  obtain body aad where k: "canonicalize_evidence e = Inr body" "require_storage_binding (obj m) = Inr ()"
    "1 \<le> length (utf8 body)" "length (utf8 body) \<le> 65536" "length iv = 12" "storage_aad (obj m) = Inr aad"
    "(case cr_seal cr (tenant_key cr p (get e ''tenantId'')) iv aad (utf8 body) of (c, tag) \<Rightarrow>
            Inr (obj (m @
              [(''formatVersion'', num 1),
               (''cipher'', JStr ''AES-256-GCM''),
               (''ivBase64Url'', JStr (b64_encode iv)), (''authenticationTagBase64Url'', JStr (b64_encode tag)),
               (''ciphertextBase64Url'', JStr (b64_encode c)), (''canonicalSha256'', JStr (cr_sha256 cr (utf8 body))),
               (''canonicalByteLength'', num (of_nat (length (utf8 body))))]))) = (Inr r :: js res)"
    using assms unfolding protect_def Let_def m_def[symmetric] and_then_eq_Inr guard_eq_Inr evidence_storage_policy_def
    by (auto simp: not_less Suc_le_eq)
  obtain c tag where ct: "cr_seal cr (tenant_key cr p (get e ''tenantId'')) iv aad (utf8 body) = (c, tag)" by fastforce
  have r: "r = obj (m @ [(''formatVersion'', num 1), (''cipher'', JStr ''AES-256-GCM''),
               (''ivBase64Url'', JStr (b64_encode iv)), (''authenticationTagBase64Url'', JStr (b64_encode tag)),
               (''ciphertextBase64Url'', JStr (b64_encode c)), (''canonicalSha256'', JStr (cr_sha256 cr (utf8 body))),
               (''canonicalByteLength'', num (of_nat (length (utf8 body))))])"
    using k(7) ct by simp
  have g: "get r ''tenantId'' = get e ''tenantId''" "get r ''subjectId'' = get e ''subjectId''"
    "get r ''sourceId'' = get e ''sourceId''" "get r ''eventId'' = get e ''eventId''" "get r ''contentHashSha256'' = h"
    "get r ''encryptionKeyId'' = pr_key_id p" by (simp_all add: r m_def)
  have gm: "get (obj m) ''tenantId'' = get e ''tenantId''" "get (obj m) ''subjectId'' = get e ''subjectId''"
    "get (obj m) ''sourceId'' = get e ''sourceId''" "get (obj m) ''eventId'' = get e ''eventId''"
    "get (obj m) ''contentHashSha256'' = h" "get (obj m) ''encryptionKeyId'' = pr_key_id p" by (simp_all add: m_def)
  have aad: "storage_aad r = Inr aad" using k(6) unfolding storage_aad_def g gm .
  have b: "require_storage_binding r = Inr ()"
    using k(2) unfolding require_storage_binding_def g gm by (simp add: r m_def)
  show thesis
    by (rule that[OF k(1,3,4,5) aad b _ g(1,6,5,2,3,4)]) (use ct g in \<open>simp_all add: r m_def\<close>)
qed

lemma small_nat_safe: "n \<le> 65536 \<Longrightarrow> is_safe_integer (num (of_nat n))"
proof -
  assume "n \<le> 65536"
  then have "(of_nat n :: rat) \<le> 65536" by (metis of_nat_le_iff of_nat_numeral)
  then show ?thesis by (simp add: is_safe_integer_def is_integer_rat_def max_safe_integer_def)
qed

text \<open>A protected envelope opens again, under the same protector, to exactly the canonical bytes that
  were sealed, and parsing them gives the envelope back up to the order of its keys.\<close>

lemma protected_evidence_opens:
  assumes "gcm_correct cr" "is_string (pr_key_id p)" "protect cr p iv e h = Inr r"
  shows "\<exists>body. canonicalize_evidence e = Inr body \<and> unprotect cr p r = Inr (utf8 body)
    \<and> (json_doubles e \<longrightarrow> parse_json (utf8_decode (utf8 body)) = Some (json_normal e))"
proof -
  obtain body aad c tag where k: "canonicalize_evidence e = Inr body" "1 \<le> length (utf8 body)"
    "length (utf8 body) \<le> 65536" "length iv = 12" "storage_aad r = Inr aad" "require_storage_binding r = Inr ()"
    "cr_seal cr (tenant_key cr p (get r ''tenantId'')) iv aad (utf8 body) = (c, tag)"
    "get r ''encryptionKeyId'' = pr_key_id p" "get r ''formatVersion'' = num 1" "get r ''cipher'' = JStr ''AES-256-GCM''"
    "get r ''ivBase64Url'' = JStr (b64_encode iv)" "get r ''authenticationTagBase64Url'' = JStr (b64_encode tag)"
    "get r ''ciphertextBase64Url'' = JStr (b64_encode c)" "get r ''canonicalSha256'' = JStr (cr_sha256 cr (utf8 body))"
    "get r ''canonicalByteLength'' = num (of_nat (length (utf8 body)))"
    using protect_ok[OF assms(3)] by metis
  have g: "cr_open cr (tenant_key cr p (get r ''tenantId'')) iv aad c tag = Some (utf8 body)" "length c = length (utf8 body)"
    "length tag = 16"
    using assms(1) k(7) unfolding gcm_correct_def by (auto split: prod.splits)
  have sha: "ev_sha256 (cr_sha256 cr t)" for t using assms(1) by (simp add: gcm_correct_def)
  have len: "(1::rat) \<le> of_nat (length (utf8 body))" "(of_nat (length (utf8 body)) :: rat) \<le> 65536"
    using k(2,3) by (metis of_nat_1 of_nat_le_iff, metis of_nat_le_iff of_nat_numeral)
  have b: "require_canonical_base64url (JStr (b64_encode bs)) (length bs) = Inr bs" for bs
    by (simp add: require_canonical_base64url_def base64url_of_length_def)
  have "utf8 body \<noteq> []" using k(2) by auto
  then have "require_protected_evidence r = Inr \<lparr> de_iv = iv, de_tag = tag, de_ciphertext = c \<rparr>"
    using b[of iv] b[of tag] len small_nat_safe[OF k(3)] sha k(4) g(2,3)
    unfolding require_protected_evidence_def k evidence_storage_policy_def
    by (simp add: not_less)
  moreover have "strict_eq (pr_key_id p) (pr_key_id p)" using assms(2) by (auto simp: is_string_iff)
  ultimately have "open_record cr p r = Inr (utf8 body)"
    using g(1) k(5) digest_equal_self[OF sha] by (simp add: open_record_def k)
  then have "unprotect cr p r = Inr (utf8 body)" by (simp add: unprotect_def)
  moreover have "parse_json (utf8_decode (utf8 body)) = Some (json_normal e)" if "json_doubles e"
    using parse_canonical_json[OF k(1)[unfolded canonicalize_evidence_def] that] by simp
  ultimately show ?thesis using k(1) by blast
qed


section \<open>Concrete primitives\<close>

text \<open>Functions with the promised behaviour, for evaluation on concrete inputs.\<close>

definition toy_crypto :: crypto where
  "toy_crypto =
     \<lparr> cr_sha256 = (\<lambda>t. replicate 64 (if t = [] then CHR ''0'' else CHR ''1'')), cr_hkdf = (\<lambda>k s i n. take n (k @ s @ i)),
       cr_seal = (\<lambda>k iv aad t. (rev t, replicate 16 (CHR 0x00))),
       cr_open = (\<lambda>k iv aad c tag. if tag = replicate 16 (CHR 0x00) then Some (rev c) else None),
       cr_verify = (\<lambda>k t s. True) \<rparr>"

lemma toy_crypto_correct: "gcm_correct toy_crypto"
  by (simp add: gcm_correct_def toy_crypto_def ev_sha256_def is_sha256_def lower_hex_def list_all_iff)

abbreviation ev_example_protector :: protector where
  "ev_example_protector \<equiv> \<lparr> pr_master = replicate 32 (CHR 0x07), pr_key_id = JStr ''local-evidence-v1'' \<rparr>"

lemma json_string_length: "length (json_string s) \<le> 6 * length s + 2"
proof -
  have "length (json_escape c) \<le> 6" for c by (simp add: json_escape_def hex_byte_def Let_def)
  then have "length (concat (map json_escape s)) \<le> 6 * length s"
    by (induction s) (auto intro: add_mono)
  then show ?thesis by (simp add: json_string_def)
qed

lemma utf8_length: "length (utf8 s) \<le> 2 * length s" "length s \<le> length (utf8 s)"
  by (induction s) (auto simp: utf8_Cons utf8_char_def Let_def)

lemma ev_example_ids:
  "ev_tenant_id ''tnt_00000000-0000-4000-8000-000000000001''" "ev_subject_id ''sub_00000000-0000-4000-8000-000000000001''"
  "ev_source_id ''src_00000000-0000-4000-8000-000000000001''" "ev_event_id ''evt_00000000-0000-4000-8000-000000000001''"
  "encryption_key_id ''local-evidence-v1''" "ev_sha256 (replicate 64 (CHR ''a''))"
  by (code_simp, code_simp, code_simp, code_simp, code_simp, simp add: ev_sha256_def is_sha256_def lower_hex_def list_all_iff)

lemma ev_example_sorted:
  "sort [''cipher'', ''contentHashSha256'', ''encryptionKeyId'', ''eventId'', ''formatVersion'', ''sourceId'', ''subjectId'',
     ''tenantId''] = [''cipher'', ''contentHashSha256'', ''encryptionKeyId'', ''eventId'', ''formatVersion'', ''sourceId'',
     ''subjectId'', ''tenantId'']"
  by code_simp

end
