(* ===== verification/EvidenceReplayGuard.thy ===== *)
theory EvidenceReplayGuard
  imports EvidenceProtection
begin

text \<open>
  \<open>services/evidence/src/index.mjs\<close>, second part: the in-memory replay guard with its per-source rate
  limits, suspension, rejection audit and evidence storage. The maps and sets of the closure are the
  fields of a state record that every operation takes and returns. The clock's value and the parsing
  of date strings (\<open>new Date(value)\<close>, which falls back on the engine's own formats) are arguments.
\<close>

section \<open>Configuration\<close>

record safeguards =
  sg_window :: int
  sg_max_events :: int
  sg_threshold :: int
  sg_influence :: js_num
  sg_tenant_influence :: js_num

text \<open>\<open>x < q\<close>, \<open>x > q\<close> and \<open>Math.min\<close>; every comparison with \<open>NaN\<close> is false.\<close>

fun num_less :: "js_num \<Rightarrow> rat \<Rightarrow> bool" where
  "num_less (Fin x) q = (x < q)"
| "num_less NegInf q = True"
| "num_less _ q = False"

fun num_greater :: "js_num \<Rightarrow> rat \<Rightarrow> bool" where
  "num_greater (Fin x) q = (q < x)"
| "num_greater PosInf q = True"
| "num_greater _ q = False"

fun num_min :: "js_num \<Rightarrow> js_num \<Rightarrow> js_num" where
  "num_min NaN y = NaN"
| "num_min x NaN = NaN"
| "num_min NegInf y = NegInf"
| "num_min x NegInf = NegInf"
| "num_min PosInf y = y"
| "num_min x PosInf = x"
| "num_min (Fin x) (Fin y) = Fin (min x y)"

fun number_value :: "js \<Rightarrow> js_num option" where
  "number_value (JNum n) = Some n"
| "number_value _ = None"

definition influence_ok :: "js \<Rightarrow> bool" where
  "influence_ok v = (case number_value v of None \<Rightarrow> False | Some n \<Rightarrow> \<not> num_less n (rnd64 (1 / 10000)) \<and> \<not> num_greater n 1)"

definition count_ok :: "rat \<Rightarrow> js \<Rightarrow> bool" where
  "count_ok hi v \<longleftrightarrow> is_safe_integer v \<and> 1 \<le> num_of v \<and> num_of v \<le> hi"

definition default_safeguards :: safeguards where
  "default_safeguards =
     \<lparr> sg_window = 60, sg_max_events = 120, sg_threshold = 10, sg_influence = Fin (1 / 4),
       sg_tenant_influence = Fin (1 / 4) \<rparr>"

definition create_replay_guard :: "js \<Rightarrow> js \<Rightarrow> safeguards res" where
  "create_replay_guard clock sg =
     (if clock \<noteq> JUndef \<and> \<not> is_function clock then Inl TypeErrorThrown
      else if sg = JUndef then Inr default_safeguards
      else if \<not> truthy sg
        \<or> \<not> count_ok 3600 (get sg ''rateLimitWindowSeconds'')
        \<or> \<not> count_ok 100000 (get sg ''rateLimitMaxEvents'')
        \<or> \<not> count_ok 1000 (get sg ''rateLimitSuspensionThreshold'')
        \<or> \<not> influence_ok (get sg ''maximumInfluence'')
        \<or> \<not> influence_ok (get sg ''tenantMaximumSourceInfluence'')
      then Inl TypeErrorThrown
      else Inr \<lparr> sg_window = \<lfloor>num_of (get sg ''rateLimitWindowSeconds'')\<rfloor>,
                 sg_max_events = \<lfloor>num_of (get sg ''rateLimitMaxEvents'')\<rfloor>,
                 sg_threshold = \<lfloor>num_of (get sg ''rateLimitSuspensionThreshold'')\<rfloor>,
                 sg_influence = the (number_value (get sg ''maximumInfluence'')),
                 sg_tenant_influence = the (number_value (get sg ''tenantMaximumSourceInfluence'')) \<rparr>)"

section \<open>State\<close>

record rate_state =
  rt_started :: int
  rt_accepted :: int
  rt_limited :: int

record epoch_state =
  ep_highest :: rat
  ep_latest :: int
  ep_nonces :: "string set"

record rejection =
  rj_tenant :: js
  rj_source :: js
  rj_key :: js
  rj_reason :: string
  rj_event_sha256 :: string
  rj_nonce_sha256 :: string
  rj_content_hash :: js
  rj_sequence :: js
  rj_rejected_at :: string

text \<open>A stored record: \<open>se_protected\<close> is the protected evidence itself, absent after deletion.\<close>

record stored_evidence =
  se_tenant :: js
  se_subject :: js
  se_source :: js
  se_event :: js
  se_content_hash :: js
  se_canonical_sha256 :: js
  se_canonical_length :: js
  se_protected :: "js option"
  se_state :: string
  se_retained_until :: string
  se_deleted_at :: "string option"
  se_deletion_reason :: "string option"

record guard_state =
  gs_events :: "string set"
  gs_epochs :: "string \<Rightarrow> epoch_state option"
  gs_rates :: "(string \<times> rate_state) list"
  gs_suspended :: "string set"
  gs_rejections :: "rejection list"
  gs_stored :: "(string \<times> stored_evidence) list"

definition initial_guard :: guard_state where
  "initial_guard =
     \<lparr> gs_events = {}, gs_epochs = (\<lambda>_. None), gs_rates = [], gs_suspended = {}, gs_rejections = [], gs_stored = [] \<rparr>"

record replay_decision =
  rd_accepted :: bool
  rd_reason :: "string option"
  rd_accepted_at :: "string option"
  rd_highest :: "rat option"

section \<open>Candidates\<close>

definition replay_candidate_dates :: "(js \<Rightarrow> int option) \<Rightarrow> js \<Rightarrow> (int \<times> int) res" where
  "replay_candidate_dates pd c =
     (case (pd (get c ''observedAt''), pd (get c ''expiresAt'')) of
        (Some a, Some b) \<Rightarrow> Inr (a, b)
      | _ \<Rightarrow> Inl ev_unavailable)"

definition require_replay_candidate :: "(js \<Rightarrow> int option) \<Rightarrow> js \<Rightarrow> (int \<times> int) res" where
  "require_replay_candidate pd c =
     (if \<not> truthy c
         \<or> \<not> re_test_or_empty ev_tenant_id (get c ''tenantId'')
         \<or> \<not> re_test_or_empty ev_subject_id (get c ''subjectId'')
         \<or> \<not> re_test_or_empty ev_source_id (get c ''sourceId'')
         \<or> \<not> re_test_or_empty ev_key_id (get c ''keyId'')
         \<or> \<not> re_test_or_empty ev_event_id (get c ''eventId'')
         \<or> \<not> one_of evidence_types (get c ''evidenceType'')
         \<or> \<not> is_safe_integer (get c ''sourceSequence'') \<or> num_of (get c ''sourceSequence'') < 0
         \<or> \<not> re_test_or_empty ev_nonce (get c ''nonce'')
         \<or> \<not> re_test_or_empty ev_sha256 (get c ''contentHashSha256'')
         \<or> \<not> is_bool (get c ''synthetic'')
         \<or> \<not> is_safe_integer (get c ''maximumAgeSeconds'')
         \<or> num_of (get c ''maximumAgeSeconds'') < 1 \<or> 86400 < num_of (get c ''maximumAgeSeconds'')
      then Inl ev_unavailable
      else replay_candidate_dates pd c)"

text \<open>\<open>createHash(...).update(value, "utf8")\<close> throws on anything but a string here.\<close>

definition hash_identifier :: "crypto \<Rightarrow> js \<Rightarrow> string res" where
  "hash_identifier cr v = (if is_string v then Inr (cr_sha256 cr (utf8 (str_of v))) else Inl TypeErrorThrown)"

definition epoch_id :: "js \<Rightarrow> string" where
  "epoch_id c = to_string (get c ''tenantId'') @ '':'' @ to_string (get c ''sourceId'') @ '':'' @ to_string (get c ''keyId'')"

definition source_scope :: "js \<Rightarrow> string" where
  "source_scope c = to_string (get c ''tenantId'') @ '':'' @ to_string (get c ''sourceId'')"

definition event_key :: "js \<Rightarrow> string" where
  "event_key c = to_string (get c ''tenantId'') @ '':'' @ to_string (get c ''eventId'')"

definition candidate_sequence :: "js \<Rightarrow> rat" where
  "candidate_sequence c = num_of (get c ''sourceSequence'')"

definition maximum_age_ms :: "js \<Rightarrow> int" where
  "maximum_age_ms c = \<lfloor>num_of (get c ''maximumAgeSeconds'')\<rfloor> * 1000"

section \<open>Applying the guard\<close>

definition current_rate :: "safeguards \<Rightarrow> int \<Rightarrow> rate_state option \<Rightarrow> rate_state" where
  "current_rate sg now r =
     (case r of
        Some q \<Rightarrow> if rt_started q + sg_window sg * 1000 \<le> now
                  then \<lparr> rt_started = now, rt_accepted = 0, rt_limited = 0 \<rparr> else q
      | None \<Rightarrow> \<lparr> rt_started = now, rt_accepted = 0, rt_limited = 0 \<rparr>)"

definition record_rejection ::
  "crypto \<Rightarrow> js \<Rightarrow> string \<Rightarrow> int \<Rightarrow> rat option \<Rightarrow> guard_state \<Rightarrow> guard_state \<times> replay_decision res" where
  "record_rejection cr c reason now highest st =
     (case and_then (hash_identifier cr (get c ''eventId'')) (\<lambda>e.
            and_then (hash_identifier cr (get c ''nonce'')) (\<lambda>n. Inr (e, n))) of
        Inl x \<Rightarrow> (st, Inl x)
      | Inr (e, n) \<Rightarrow>
          (st \<lparr> gs_rejections := gs_rejections st @
             [\<lparr> rj_tenant = get c ''tenantId'', rj_source = get c ''sourceId'', rj_key = get c ''keyId'',
                rj_reason = reason, rj_event_sha256 = e, rj_nonce_sha256 = n,
                rj_content_hash = get c ''contentHashSha256'', rj_sequence = get c ''sourceSequence'',
                rj_rejected_at = time_to_iso now \<rparr>] \<rparr>,
           Inr \<lparr> rd_accepted = False, rd_reason = Some reason, rd_accepted_at = None, rd_highest = highest \<rparr>))"

definition replay_reason ::
  "crypto \<Rightarrow> js \<Rightarrow> int \<Rightarrow> int \<Rightarrow> int \<Rightarrow> guard_state \<Rightarrow> string option res" where
  "replay_reason cr c now observed expires st =
     (let age = maximum_age_ms c; seq = candidate_sequence c in
      if expires \<le> observed then Inr (Some ''EVIDENCE_TIME_WINDOW_INVALID'')
      else if now + ip_max_skew_seconds evidence_ingestion_policy * 1000 < observed
      then Inr (Some ''EVIDENCE_OBSERVED_IN_FUTURE'')
      else if observed < now - age then Inr (Some ''EVIDENCE_STALE'')
      else if expires \<le> now then Inr (Some ''EVIDENCE_EXPIRED'')
      else if observed + age < expires then Inr (Some ''EVIDENCE_TTL_EXCEEDED'')
      else if event_key c \<in> gs_events st then Inr (Some ''EVIDENCE_EVENT_REPLAYED'')
      else case gs_epochs st (epoch_id c) of
        None \<Rightarrow> Inr None
      | Some e \<Rightarrow>
          and_then (hash_identifier cr (get c ''nonce'')) (\<lambda>n.
            if n \<in> ep_nonces e then Inr (Some ''EVIDENCE_NONCE_REPLAYED'')
            else if seq = ep_highest e then Inr (Some ''EVIDENCE_SEQUENCE_REPLAYED'')
            else if seq < ep_highest e then Inr (Some ''EVIDENCE_SEQUENCE_REORDERED'')
            else if observed < ep_latest e then Inr (Some ''EVIDENCE_OBSERVATION_REORDERED'')
            else Inr None))"

definition binds_candidate :: "js \<Rightarrow> js \<Rightarrow> bool" where
  "binds_candidate pe c \<longleftrightarrow>
     strict_eq (get pe ''tenantId'') (get c ''tenantId'') \<and> strict_eq (get pe ''subjectId'') (get c ''subjectId'')
     \<and> strict_eq (get pe ''sourceId'') (get c ''sourceId'') \<and> strict_eq (get pe ''eventId'') (get c ''eventId'')
     \<and> strict_eq (get pe ''contentHashSha256'') (get c ''contentHashSha256'')"

definition store_protected :: "js \<Rightarrow> int \<Rightarrow> guard_state \<Rightarrow> guard_state \<times> unit res" where
  "store_protected c now st =
     (let pe = get c ''protectedEvidence''; until = now + sp_retention_days evidence_storage_policy * 86400000 in
      if \<not> truthy pe then (st, Inr ())
      else case require_protected_evidence pe of
        Inl e \<Rightarrow> (st, Inl e)
      | Inr _ \<Rightarrow>
          if \<not> binds_candidate pe c then (st, Inl ev_unavailable)
          else if \<not> valid_time until then (st, Inl RangeErrorThrown)
          else (st \<lparr> gs_stored := AList.update (event_key c)
                  \<lparr> se_tenant = get pe ''tenantId'', se_subject = get pe ''subjectId'',
                    se_source = get pe ''sourceId'', se_event = get pe ''eventId'',
                    se_content_hash = get pe ''contentHashSha256'', se_canonical_sha256 = get pe ''canonicalSha256'',
                    se_canonical_length = get pe ''canonicalByteLength'', se_protected = Some pe,
                    se_state = ''active'', se_retained_until = time_to_iso until, se_deleted_at = None,
                    se_deletion_reason = None \<rparr> (gs_stored st) \<rparr>, Inr ()))"

definition accept_candidate ::
  "crypto \<Rightarrow> js \<Rightarrow> int \<Rightarrow> int \<Rightarrow> rate_state \<Rightarrow> guard_state \<Rightarrow> guard_state \<times> replay_decision res" where
  "accept_candidate cr c now observed rate st =
     (case store_protected c now st of
        (st1, Inl e) \<Rightarrow> (st1, Inl e)
      | (st1, Inr _) \<Rightarrow>
          (case hash_identifier cr (get c ''nonce'') of
             Inl e \<Rightarrow> (st1, Inl e)
           | Inr n \<Rightarrow>
               (st1 \<lparr> gs_events := insert (event_key c) (gs_events st1),
                      gs_epochs := (gs_epochs st1) (epoch_id c \<mapsto>
                        \<lparr> ep_highest = candidate_sequence c, ep_latest = observed,
                          ep_nonces = insert n (case gs_epochs st1 (epoch_id c) of None \<Rightarrow> {} | Some e \<Rightarrow> ep_nonces e) \<rparr>),
                      gs_rates := AList.update (source_scope c) (rate \<lparr> rt_accepted := rt_accepted rate + 1 \<rparr>) (gs_rates st1) \<rparr>,
                Inr \<lparr> rd_accepted = True, rd_reason = None, rd_accepted_at = Some (time_to_iso now),
                      rd_highest = Some (candidate_sequence c) \<rparr>)))"

definition decide_candidate ::
  "crypto \<Rightarrow> safeguards \<Rightarrow> js \<Rightarrow> int \<Rightarrow> int \<Rightarrow> int \<Rightarrow> rate_state \<Rightarrow> guard_state \<Rightarrow> guard_state \<times> replay_decision res" where
  "decide_candidate cr sg c now observed expires rate st =
     (let scope = source_scope c; highest = map_option ep_highest (gs_epochs st (epoch_id c)) in
      if scope \<in> gs_suspended st then record_rejection cr c ''VERIFICATION_CONTEXT_NOT_FOUND'' now highest st
      else if sg_max_events sg \<le> rt_accepted rate
      then let limited = rt_limited rate + 1
           in record_rejection cr c ''EVIDENCE_RATE_LIMITED'' now highest
                (st \<lparr> gs_rates := AList.update scope (rate \<lparr> rt_limited := limited \<rparr>) (gs_rates st),
                      gs_suspended := (if sg_threshold sg \<le> limited then insert scope (gs_suspended st)
                                       else gs_suspended st) \<rparr>)
      else case replay_reason cr c now observed expires st of
             Inl e \<Rightarrow> (st, Inl e)
           | Inr why \<Rightarrow>
               (case why of
                  Some reason \<Rightarrow> record_rejection cr c reason now highest st
                | None \<Rightarrow> accept_candidate cr c now observed rate st))"

definition apply_replay_guard ::
  "crypto \<Rightarrow> (js \<Rightarrow> int option) \<Rightarrow> safeguards \<Rightarrow> bool \<Rightarrow> js \<Rightarrow> js \<Rightarrow> guard_state \<Rightarrow> guard_state \<times> replay_decision res" where
  "apply_replay_guard cr pd sg aborted clock c st =
     (if aborted then (st, Inl ev_unavailable)
      else case require_replay_candidate pd c of
        Inl e \<Rightarrow> (st, Inl e)
      | Inr (observed, expires) \<Rightarrow>
          (case clock of
             JDate (Some now) \<Rightarrow>
               (let scope = source_scope c; rate = current_rate sg now (map_of (gs_rates st) scope)
                in decide_candidate cr sg c now observed expires rate
                     (st \<lparr> gs_rates := AList.update scope rate (gs_rates st) \<rparr>))
           | _ \<Rightarrow> (st, Inl ev_unavailable)))"

section \<open>Audit snapshot\<close>

definition count_reason :: "rejection \<Rightarrow> (string \<times> nat) list \<Rightarrow> (string \<times> nat) list" where
  "count_reason r counts =
     AList.update (rj_reason r) ((case map_of counts (rj_reason r) of None \<Rightarrow> 0 | Some n \<Rightarrow> n) + 1) counts"

record source_control =
  sc_scope :: string
  sc_started :: string
  sc_accepted :: int
  sc_limited :: int
  sc_suspended :: bool
  sc_maximum_influence :: js_num

record guard_snapshot =
  sn_total :: nat
  sn_by_reason :: "(string \<times> nat) list"
  sn_records :: "rejection list"
  sn_controls :: "source_control list"

definition guard_snapshot_of :: "safeguards \<Rightarrow> guard_state \<Rightarrow> guard_snapshot" where
  "guard_snapshot_of sg st =
     \<lparr> sn_total = length (gs_rejections st), sn_by_reason = fold count_reason (gs_rejections st) [],
       sn_records = gs_rejections st,
       sn_controls = map (\<lambda>(scope, r). \<lparr> sc_scope = scope, sc_started = time_to_iso (rt_started r),
           sc_accepted = rt_accepted r, sc_limited = rt_limited r, sc_suspended = (scope \<in> gs_suspended st),
           sc_maximum_influence = num_min (sg_influence sg) (sg_tenant_influence sg) \<rparr>) (gs_rates st) \<rparr>"

section \<open>Storage\<close>

definition stored_key :: "js \<Rightarrow> js \<Rightarrow> string" where
  "stored_key tenant event = to_string tenant @ '':'' @ to_string event"

text \<open>A comparison with an invalid clock is false, so it does not hide a record.\<close>

definition retrieve_evidence :: "js \<Rightarrow> js \<Rightarrow> js \<Rightarrow> js \<Rightarrow> js \<Rightarrow> guard_state \<Rightarrow> stored_evidence option res" where
  "retrieve_evidence clock tenant actor event admin st =
     (case clock of
        JDate now \<Rightarrow> Inr (case map_of (gs_stored st) (stored_key tenant event) of
          None \<Rightarrow> None
        | Some r \<Rightarrow>
            if se_state r \<noteq> ''active'' \<or> (case now of Some t \<Rightarrow> ms_of (se_retained_until r) \<le> t | None \<Rightarrow> False)
               \<or> (\<not> strict_eq (se_subject r) actor \<and> \<not> truthy admin)
            then None else Some r)
      | _ \<Rightarrow> (case map_of (gs_stored st) (stored_key tenant event) of
          None \<Rightarrow> Inr None
        | Some r \<Rightarrow> if se_state r \<noteq> ''active'' then Inr None else Inl TypeErrorThrown))"

definition erase :: "string \<Rightarrow> string \<Rightarrow> stored_evidence \<Rightarrow> stored_evidence" where
  "erase stamp reason r =
     r \<lparr> se_protected := None, se_state := ''deleted'', se_deleted_at := Some stamp, se_deletion_reason := Some reason \<rparr>"

definition clock_iso :: "js \<Rightarrow> string res" where
  "clock_iso clock =
     (case clock of JDate (Some t) \<Rightarrow> Inr (time_to_iso t) | JDate None \<Rightarrow> Inl RangeErrorThrown | _ \<Rightarrow> Inl TypeErrorThrown)"

definition delete_evidence :: "js \<Rightarrow> js \<Rightarrow> js \<Rightarrow> js \<Rightarrow> js \<Rightarrow> guard_state \<Rightarrow> guard_state \<times> bool res" where
  "delete_evidence clock tenant event admin reason st =
     (if \<not> truthy admin \<or> \<not> is_string reason \<or> trim (str_of reason) = [] then (st, Inr False)
      else let key = stored_key tenant event in
        case map_of (gs_stored st) key of
          None \<Rightarrow> (st, Inr False)
        | Some r \<Rightarrow>
            if se_state r \<noteq> ''active'' then (st, Inr False)
            else case clock_iso clock of
              Inl e \<Rightarrow> (st, Inl e)
            | Inr stamp \<Rightarrow>
                (st \<lparr> gs_stored := AList.update key (erase stamp (trim (str_of reason)) r) (gs_stored st) \<rparr>, Inr True))"

definition expired_record :: "js \<Rightarrow> int \<Rightarrow> stored_evidence \<Rightarrow> bool" where
  "expired_record tenant now r \<longleftrightarrow>
     strict_eq (se_tenant r) tenant \<and> se_state r = ''active'' \<and> ms_of (se_retained_until r) \<le> now"

text \<open>The loop over the map replaces values of existing keys only, so it visits each entry once.\<close>

definition purge_expired :: "js \<Rightarrow> js \<Rightarrow> js \<Rightarrow> guard_state \<Rightarrow> guard_state \<times> nat res" where
  "purge_expired clock tenant admin st =
     (if \<not> truthy admin then (st, Inr 0)
      else case clock of
        JDate (Some now) \<Rightarrow>
          (st \<lparr> gs_stored := map (\<lambda>(k, r). (k, if expired_record tenant now r
                  then erase (time_to_iso now) ''RETENTION_EXPIRED'' r else r)) (gs_stored st) \<rparr>,
           Inr (length (filter (\<lambda>(k, r). expired_record tenant now r) (gs_stored st))))
      | JDate None \<Rightarrow> (st, Inr 0)
      | _ \<Rightarrow> (st, if \<exists>(k, r) \<in> set (gs_stored st). strict_eq (se_tenant r) tenant \<and> se_state r = ''active''
                  then Inl TypeErrorThrown else Inr 0))"

section \<open>The guard as a machine\<close>

datatype guard_op =
    SubmitEvidence bool js js       \<comment> \<open>aborted, clock, candidate\<close>
  | DeleteEvidence js js js js js   \<comment> \<open>clock, tenant, event, administrator, reason\<close>
  | PurgeExpired js js js           \<comment> \<open>clock, tenant, administrator\<close>

datatype guard_out = Decision "replay_decision res" | Deletion "bool res" | Purge "nat res"

definition guard_step ::
  "crypto \<Rightarrow> (js \<Rightarrow> int option) \<Rightarrow> safeguards \<Rightarrow> guard_state \<Rightarrow> guard_op \<Rightarrow> guard_state \<times> guard_out" where
  "guard_step cr pd sg st i =
     (case i of
        SubmitEvidence aborted clock c \<Rightarrow> apsnd Decision (apply_replay_guard cr pd sg aborted clock c st)
      | DeleteEvidence clock tenant event admin reason \<Rightarrow> apsnd Deletion (delete_evidence clock tenant event admin reason st)
      | PurgeExpired clock tenant admin \<Rightarrow> apsnd Purge (purge_expired clock tenant admin st))"

fun accepted :: "replay_decision res \<Rightarrow> bool" where
  "accepted (Inr d) = rd_accepted d"
| "accepted (Inl e) = False"

text \<open>What the guard remembers about a candidate: never less than before.\<close>

definition remembers :: "guard_state \<Rightarrow> guard_state \<Rightarrow> bool" where
  "remembers s t \<longleftrightarrow>
     gs_events s \<subseteq> gs_events t \<and> gs_suspended s \<subseteq> gs_suspended t
     \<and> (\<forall>k e. gs_epochs s k = Some e \<longrightarrow>
          (\<exists>f. gs_epochs t k = Some f \<and> ep_highest e \<le> ep_highest f \<and> ep_latest e \<le> ep_latest f \<and> ep_nonces e \<subseteq> ep_nonces f))"

lemma record_rejection_effect:
  assumes "record_rejection cr c reason now h st = (st', out)"
  shows "gs_events st' = gs_events st" "gs_epochs st' = gs_epochs st" "gs_suspended st' = gs_suspended st"
    "gs_rates st' = gs_rates st" "gs_stored st' = gs_stored st" "\<not> accepted out"
  using assms by (auto simp: record_rejection_def split: sum.splits prod.splits)

lemma store_protected_effect:
  assumes "store_protected c now st = (st', out)"
  shows "gs_events st' = gs_events st" "gs_epochs st' = gs_epochs st" "gs_suspended st' = gs_suspended st"
    "gs_rates st' = gs_rates st" "\<And>k. k \<noteq> event_key c \<Longrightarrow> map_of (gs_stored st') k = map_of (gs_stored st) k"
  using assms by (auto simp: store_protected_def Let_def update_conv' split: sum.splits if_splits)

lemma decide_accepted:
  assumes "decide_candidate cr sg c now observed expires rate st = (st', out)" "accepted out"
  shows "source_scope c \<notin> gs_suspended st" "rt_accepted rate < sg_max_events sg"
    "replay_reason cr c now observed expires st = Inr None" "accept_candidate cr c now observed rate st = (st', out)"
  using assms record_rejection_effect(6)
  unfolding decide_candidate_def Let_def
  by (auto split: if_splits sum.splits option.splits)

lemma decide_shape:
  obtains t where "gs_events t = gs_events st" "gs_epochs t = gs_epochs st" "gs_suspended st \<subseteq> gs_suspended t"
    "(\<exists>e. decide_candidate cr sg c now observed expires rate st = (t, Inl e))
     \<or> (\<exists>reason u h. decide_candidate cr sg c now observed expires rate st = record_rejection cr c reason u h t)
     \<or> decide_candidate cr sg c now observed expires rate st = accept_candidate cr c now observed rate t"
proof -
  define h where "h = map_option ep_highest (gs_epochs st (epoch_id c))"
  define st2 where "st2 = st \<lparr> gs_rates := AList.update (source_scope c) (rate \<lparr> rt_limited := rt_limited rate + 1 \<rparr>) (gs_rates st),
       gs_suspended := (if sg_threshold sg \<le> rt_limited rate + 1 then insert (source_scope c) (gs_suspended st) else gs_suspended st) \<rparr>"
  have f: "gs_events st2 = gs_events st" "gs_epochs st2 = gs_epochs st" "gs_suspended st \<subseteq> gs_suspended st2"
    by (auto simp: st2_def)
  note d = decide_candidate_def[of cr sg c now observed expires rate st, unfolded Let_def, folded h_def st2_def]
  consider "source_scope c \<in> gs_suspended st" | "source_scope c \<notin> gs_suspended st" "sg_max_events sg \<le> rt_accepted rate"
    | "source_scope c \<notin> gs_suspended st" "\<not> sg_max_events sg \<le> rt_accepted rate" by blast
  then show thesis
  proof cases
    case 1
    then show ?thesis using d by (intro that[of st]) auto
  next
    case 2
    then show ?thesis using d f by (intro that[of st2]) auto
  next
    case 3
    then have "decide_candidate cr sg c now observed expires rate st =
      (case replay_reason cr c now observed expires st of Inl e \<Rightarrow> (st, Inl e)
       | Inr why \<Rightarrow> (case why of Some reason \<Rightarrow> record_rejection cr c reason now h st
                    | None \<Rightarrow> accept_candidate cr c now observed rate st))"
      using d by simp
    then show ?thesis by (intro that[of st]) (auto split: sum.split option.split)
  qed
qed

lemma replay_apply_cases:
  assumes "apply_replay_guard cr pd sg ab clock c st = (st', out)"
  obtains (failed) e where "st' = st" "out = Inl e"
  | (decided) observed expires now rate where "require_replay_candidate pd c = Inr (observed, expires)"
      "clock = JDate (Some now)" "rate = current_rate sg now (map_of (gs_rates st) (source_scope c))"
      "decide_candidate cr sg c now observed expires rate
         (st \<lparr> gs_rates := AList.update (source_scope c) rate (gs_rates st) \<rparr>) = (st', out)"
proof (cases "\<not> ab \<and> \<not> isl (require_replay_candidate pd c) \<and> (\<exists>now. clock = JDate (Some now))")
  case False
  then have "\<exists>e. apply_replay_guard cr pd sg ab clock c st = (st, Inl e)"
    by (auto simp: apply_replay_guard_def isl_def split: js.splits option.splits sum.splits)
  then show ?thesis using failed assms by auto
next
  case True
  then obtain observed expires now where ab: "\<not> ab" "require_replay_candidate pd c = Inr (observed, expires)"
    "clock = JDate (Some now)" by (cases "require_replay_candidate pd c") auto
  then show ?thesis using decided[OF ab(2,3) refl] assms by (simp add: apply_replay_guard_def Let_def)
qed

lemma replay_reason_rates [simp]:
  "replay_reason cr c now observed expires (st \<lparr> gs_rates := r \<rparr>) = replay_reason cr c now observed expires st"
  by (simp add: replay_reason_def Let_def cong: if_cong option.case_cong)

lemma apply_accepted:
  assumes "apply_replay_guard cr pd sg ab clock c st = (st', out)" "accepted out"
  obtains observed expires now rate n st1 where
    "require_replay_candidate pd c = Inr (observed, expires)" "clock = JDate (Some now)"
    "rate = current_rate sg now (map_of (gs_rates st) (source_scope c))"
    "source_scope c \<notin> gs_suspended st" "rt_accepted rate < sg_max_events sg"
    "replay_reason cr c now observed expires st = Inr None" "hash_identifier cr (get c ''nonce'') = Inr n"
    "store_protected c now (st \<lparr> gs_rates := AList.update (source_scope c) rate (gs_rates st) \<rparr>) = (st1, Inr ())"
    "gs_events st' = insert (event_key c) (gs_events st)"
    "gs_epochs st' = (gs_epochs st) (epoch_id c \<mapsto> \<lparr> ep_highest = candidate_sequence c, ep_latest = observed,
       ep_nonces = insert n (case gs_epochs st (epoch_id c) of None \<Rightarrow> {} | Some e \<Rightarrow> ep_nonces e) \<rparr>)"
    "gs_suspended st' = gs_suspended st" "gs_stored st' = gs_stored st1"
    "gs_rates st' = AList.update (source_scope c) (rate \<lparr> rt_accepted := rt_accepted rate + 1 \<rparr>)
       (AList.update (source_scope c) rate (gs_rates st))"
    "out = Inr \<lparr> rd_accepted = True, rd_reason = None, rd_accepted_at = Some (time_to_iso now),
                 rd_highest = Some (candidate_sequence c) \<rparr>"
  using assms(1)
proof (cases rule: replay_apply_cases)
  case (failed e)
  then show ?thesis using assms(2) by simp
next
  case (decided observed expires now rate)
  let ?st = "st \<lparr> gs_rates := AList.update (source_scope c) rate (gs_rates st) \<rparr>"
  note a = decide_accepted[OF decided(4) assms(2)]
  obtain st1 n where s1: "store_protected c now ?st = (st1, Inr ())" "hash_identifier cr (get c ''nonce'') = Inr n"
    "(st1 \<lparr> gs_events := insert (event_key c) (gs_events st1),
                      gs_epochs := (gs_epochs st1) (epoch_id c \<mapsto>
                        \<lparr> ep_highest = candidate_sequence c, ep_latest = observed,
                          ep_nonces = insert n (case gs_epochs st1 (epoch_id c) of None \<Rightarrow> {} | Some e \<Rightarrow> ep_nonces e) \<rparr>),
                      gs_rates := AList.update (source_scope c) (rate \<lparr> rt_accepted := rt_accepted rate + 1 \<rparr>) (gs_rates st1) \<rparr>,
                Inr \<lparr> rd_accepted = True, rd_reason = None, rd_accepted_at = Some (time_to_iso now),
                      rd_highest = Some (candidate_sequence c) \<rparr>) = (st', out)"
    using a(4) assms(2) by (auto simp: accept_candidate_def split: prod.splits sum.splits)
  note e = store_protected_effect[OF s1(1), simplified]
  note st' = s1(3)[symmetric, unfolded prod.inject]
  show ?thesis
  proof (rule that[OF decided(1-3) _ a(2) _ s1(2,1)])
    show "source_scope c \<notin> gs_suspended st" "replay_reason cr c now observed expires st = Inr None" using a(1,3) by simp_all
  qed (use st' e in simp_all)
qed

lemma apply_shape:
  assumes "apply_replay_guard cr pd sg ab clock c st = (st', out)"
  obtains t where "gs_events t = gs_events st" "gs_epochs t = gs_epochs st" "gs_suspended st \<subseteq> gs_suspended t"
    "(\<exists>e. (st', out) = (t, Inl e)) \<or> (\<exists>reason now h. (st', out) = record_rejection cr c reason now h t)
     \<or> (\<exists>now observed rate. (st', out) = accept_candidate cr c now observed rate t)"
  using assms
proof (cases rule: replay_apply_cases)
  case (failed e)
  then show ?thesis by (intro that[of st]) auto
next
  case (decided observed expires now rate)
  let ?st = "st \<lparr> gs_rates := AList.update (source_scope c) rate (gs_rates st) \<rparr>"
  show ?thesis
  proof (rule decide_shape[of ?st cr sg c now observed expires rate])
    fix t :: guard_state
    assume t: "gs_events t = gs_events ?st" "gs_epochs t = gs_epochs ?st" "gs_suspended ?st \<subseteq> gs_suspended t"
    assume "(\<exists>e. decide_candidate cr sg c now observed expires rate ?st = (t, Inl e))
       \<or> (\<exists>reason u h. decide_candidate cr sg c now observed expires rate ?st = record_rejection cr c reason u h t)
       \<or> decide_candidate cr sg c now observed expires rate ?st = accept_candidate cr c now observed rate t"
    then have "(\<exists>e. (st', out) = (t, Inl e)) \<or> (\<exists>reason now h. (st', out) = record_rejection cr c reason now h t)
       \<or> (\<exists>now observed rate. (st', out) = accept_candidate cr c now observed rate t)"
      unfolding decided(4) by blast
    from that[OF _ _ _ this] t show ?thesis by simp
  qed
qed

lemma accept_failed:
  assumes "accept_candidate cr c now observed rate t = (s, r)" "\<not> accepted r"
  shows "gs_events s = gs_events t" "gs_epochs s = gs_epochs t" "gs_suspended s = gs_suspended t"
proof -
  obtain t1 u where u: "store_protected c now t = (t1, u)" by fastforce
  note e = store_protected_effect[OF u]
  have "s = t1"
    using assms u by (auto simp: accept_candidate_def split: sum.splits)
  then show "gs_events s = gs_events t" "gs_epochs s = gs_epochs t" "gs_suspended s = gs_suspended t" using e by simp_all
qed

lemma apply_not_accepted:
  assumes "apply_replay_guard cr pd sg ab clock c st = (st', out)" "\<not> accepted out"
  shows "gs_events st' = gs_events st \<and> gs_epochs st' = gs_epochs st \<and> gs_suspended st \<subseteq> gs_suspended st'"
proof (rule apply_shape[OF assms(1)])
  fix t
  assume t: "gs_events t = gs_events st" "gs_epochs t = gs_epochs st" "gs_suspended st \<subseteq> gs_suspended t"
    "(\<exists>e. (st', out) = (t, Inl e)) \<or> (\<exists>reason now h. (st', out) = record_rejection cr c reason now h t)
     \<or> (\<exists>now observed rate. (st', out) = accept_candidate cr c now observed rate t)"
  from t(4) show ?thesis
  proof (elim disjE exE)
    fix e
    assume "(st', out) = (t, Inl e)"
    then show ?thesis using t by simp
  next
    fix reason now h
    assume "(st', out) = record_rejection cr c reason now h t"
    from record_rejection_effect[OF this[symmetric]] show ?thesis using t by simp
  next
    fix now observed rate
    assume "(st', out) = accept_candidate cr c now observed rate t"
    from accept_failed[OF this[symmetric] assms(2)] show ?thesis using t by simp
  qed
qed

lemma accepted_reason:
  assumes "replay_reason cr c now observed expires st = Inr None"
  shows "observed < expires" "observed \<le> now + 30000" "now - maximum_age_ms c \<le> observed" "now < expires"
    "expires \<le> observed + maximum_age_ms c" "event_key c \<notin> gs_events st"
    "\<And>e. gs_epochs st (epoch_id c) = Some e \<Longrightarrow> ep_highest e < candidate_sequence c \<and> ep_latest e \<le> observed
      \<and> (\<forall>n. hash_identifier cr (get c ''nonce'') = Inr n \<longrightarrow> n \<notin> ep_nonces e)"
proof -
  note r = assms[unfolded replay_reason_def Let_def evidence_ingestion_policy_def ingestion_policy.simps]
  show a: "observed < expires" "observed \<le> now + 30000" "now - maximum_age_ms c \<le> observed" "now < expires"
    "expires \<le> observed + maximum_age_ms c" "event_key c \<notin> gs_events st"
    using r by (simp_all split: if_splits)
  fix e
  assume e: "gs_epochs st (epoch_id c) = Some e"
  show "ep_highest e < candidate_sequence c \<and> ep_latest e \<le> observed
      \<and> (\<forall>n. hash_identifier cr (get c ''nonce'') = Inr n \<longrightarrow> n \<notin> ep_nonces e)"
    using r a e by (auto split: if_splits)
qed

lemma apply_remembers:
  assumes "apply_replay_guard cr pd sg ab clock c st = (st', out)"
  shows "remembers st st'"
proof (cases "accepted out")
  case False
  then show ?thesis using apply_not_accepted[OF assms] by (auto simp: remembers_def)
next
  case True
  from apply_accepted[OF assms this] obtain observed expires now n where k:
    "replay_reason cr c now observed expires st = Inr None"
    "gs_events st' = insert (event_key c) (gs_events st)" "gs_suspended st' = gs_suspended st"
    "gs_epochs st' = (gs_epochs st) (epoch_id c \<mapsto> \<lparr> ep_highest = candidate_sequence c, ep_latest = observed,
       ep_nonces = insert n (case gs_epochs st (epoch_id c) of None \<Rightarrow> {} | Some e \<Rightarrow> ep_nonces e) \<rparr>)"
    by metis
  show ?thesis unfolding remembers_def
  proof (intro conjI allI impI)
    show "gs_events st \<subseteq> gs_events st'" "gs_suspended st \<subseteq> gs_suspended st'" using k by auto
    fix q e
    assume e: "gs_epochs st q = Some e"
    show "\<exists>f. gs_epochs st' q = Some f \<and> ep_highest e \<le> ep_highest f \<and> ep_latest e \<le> ep_latest f \<and> ep_nonces e \<subseteq> ep_nonces f"
      using accepted_reason(7)[OF k(1)] e by (cases "q = epoch_id c") (auto simp: k(4))
  qed
qed

lemma remembers_refl: "remembers s s"
  by (auto simp: remembers_def)

lemma remembers_trans: "remembers s t \<Longrightarrow> remembers t u \<Longrightarrow> remembers s u"
  unfolding remembers_def by (meson order_trans)

interpretation guard: monotone_machine "guard_step cr pd sg" "\<lambda>_. True" "\<lambda>_. True" remembers for cr pd sg
proof
  fix s :: guard_state and i
  show "remembers s (fst (guard_step cr pd sg s i))"
  proof (cases i)
    case (SubmitEvidence ab clock c)
    obtain t r where "apply_replay_guard cr pd sg ab clock c s = (t, r)" by fastforce
    then show ?thesis using apply_remembers SubmitEvidence by (simp add: guard_step_def)
  qed (auto simp: guard_step_def delete_evidence_def purge_expired_def remembers_def Let_def
      split: option.splits sum.splits js.splits)
next
  fix s t u
  assume "remembers s t" "remembers t u"
  then show "remembers s u" by (rule remembers_trans)
qed (auto simp: remembers_refl)


section \<open>Properties\<close>

text \<open>C17: Once a candidate is accepted, no later accepted candidate repeats its event, and within the
  same tenant, source and key the sequence number strictly increases, the observation time does not
  go back and the nonce is new, whatever happens in between.\<close>

theorem accepted_evidence_never_replays:
  assumes "apply_replay_guard cr pd sg ab clock c st = (st1, out)" "accepted out"
    and "run_machine (guard_step cr pd sg) st1 ops = (st2, outs)"
    and "apply_replay_guard cr pd sg ab' clock' c' st2 = (st3, out')" "accepted out'"
  shows "event_key c' \<noteq> event_key c \<and>
    (epoch_id c' = epoch_id c \<longrightarrow>
       candidate_sequence c < candidate_sequence c'
       \<and> the (pd (get c ''observedAt'')) \<le> the (pd (get c' ''observedAt''))
       \<and> hash_identifier cr (get c' ''nonce'') \<noteq> hash_identifier cr (get c ''nonce''))"
proof -
  obtain observed expires n where a: "require_replay_candidate pd c = Inr (observed, expires)"
    "gs_events st1 = insert (event_key c) (gs_events st)" "hash_identifier cr (get c ''nonce'') = Inr n"
    "gs_epochs st1 = (gs_epochs st) (epoch_id c \<mapsto> \<lparr> ep_highest = candidate_sequence c, ep_latest = observed,
       ep_nonces = insert n (case gs_epochs st (epoch_id c) of None \<Rightarrow> {} | Some e \<Rightarrow> ep_nonces e) \<rparr>)"
    using apply_accepted[OF assms(1,2)] by metis
  have rem: "remembers st1 st2" using guard.run_leq[of ops st1 cr pd sg] assms(3) by (simp add: list_all_iff)
  obtain observed' expires' now' n' where b: "require_replay_candidate pd c' = Inr (observed', expires')"
    "replay_reason cr c' now' observed' expires' st2 = Inr None" "hash_identifier cr (get c' ''nonce'') = Inr n'"
    using apply_accepted[OF assms(4,5)] by metis
  note r = accepted_reason[OF b(2)]
  have "event_key c \<in> gs_events st2" using a(2) rem by (auto simp: remembers_def)
  then have ev: "event_key c' \<noteq> event_key c" using r(6) by metis
  have dates: "require_replay_candidate pd d = Inr (x, y) \<Longrightarrow> the (pd (get d ''observedAt'')) = x" for d x y
    unfolding require_replay_candidate_def replay_candidate_dates_def guard_eq_Inr by (auto split: option.splits)
  have "candidate_sequence c < candidate_sequence c' \<and> observed \<le> observed' \<and> n' \<noteq> n" if "epoch_id c' = epoch_id c"
  proof -
    obtain e where e: "gs_epochs st1 (epoch_id c) = Some e" "ep_highest e = candidate_sequence c" "ep_latest e = observed"
      "n \<in> ep_nonces e" using a(4) by simp
    then obtain f where f: "gs_epochs st2 (epoch_id c) = Some f" "ep_highest e \<le> ep_highest f" "ep_latest e \<le> ep_latest f"
      "ep_nonces e \<subseteq> ep_nonces f" using rem unfolding remembers_def by blast
    have "ep_highest f < candidate_sequence c' \<and> ep_latest f \<le> observed' \<and> n' \<notin> ep_nonces f"
      using r(7)[of f] f(1) b(3) that by auto
    then show ?thesis using e f by auto
  qed
  then show ?thesis using ev dates[OF a(1)] dates[OF b(1)] a(3) b(3) by auto
qed

lemma map_of_update: "map_of (AList.update k v xs) = (map_of xs)(k \<mapsto> v)"
  by (rule update_conv')

text \<open>C18: Accepted evidence is fresh and bounded: observed at most 30 seconds ahead of the clock and no
  older than its maximum age, not expired, living no longer than that age; and its source is not
  suspended and within its quota after the acceptance.\<close>

theorem accepted_evidence_is_fresh:
  assumes "apply_replay_guard cr pd sg ab clock c st = (st', out)" "accepted out"
  shows "\<exists>observed expires now rate.
    pd (get c ''observedAt'') = Some observed \<and> pd (get c ''expiresAt'') = Some expires \<and> clock = JDate (Some now)
    \<and> now - maximum_age_ms c \<le> observed \<and> observed \<le> now + 30000 \<and> now < expires
    \<and> expires \<le> observed + maximum_age_ms c \<and> expires - now \<le> 86430000
    \<and> out = Inr \<lparr> rd_accepted = True, rd_reason = None, rd_accepted_at = Some (time_to_iso now),
                  rd_highest = Some (candidate_sequence c) \<rparr>
    \<and> source_scope c \<notin> gs_suspended st'
    \<and> map_of (gs_rates st') (source_scope c) = Some rate \<and> rt_accepted rate \<le> sg_max_events sg"
proof -
  obtain observed expires now rate where a: "require_replay_candidate pd c = Inr (observed, expires)" "clock = JDate (Some now)"
    "source_scope c \<notin> gs_suspended st" "rt_accepted rate < sg_max_events sg"
    "replay_reason cr c now observed expires st = Inr None" "gs_suspended st' = gs_suspended st"
    "gs_rates st' = AList.update (source_scope c) (rate \<lparr> rt_accepted := rt_accepted rate + 1 \<rparr>)
       (AList.update (source_scope c) rate (gs_rates st))"
    "out = Inr \<lparr> rd_accepted = True, rd_reason = None, rd_accepted_at = Some (time_to_iso now),
                 rd_highest = Some (candidate_sequence c) \<rparr>"
    using apply_accepted[OF assms] by metis
  have d: "pd (get c ''observedAt'') = Some observed" "pd (get c ''expiresAt'') = Some expires"
    and age: "num_of (get c ''maximumAgeSeconds'') \<le> 86400"
    using a(1) unfolding require_replay_candidate_def replay_candidate_dates_def guard_eq_Inr
    by (auto split: option.splits simp: not_less)
  have "\<lfloor>num_of (get c ''maximumAgeSeconds'')\<rfloor> \<le> 86400" using age by (simp add: floor_le_iff)
  then have "maximum_age_ms c \<le> 86400000" by (simp add: maximum_age_ms_def)
  then show ?thesis using a d accepted_reason(1-5)[OF a(5)]
    by (intro exI[of _ observed] exI[of _ expires] exI[of _ now] exI[of _ "rate \<lparr> rt_accepted := rt_accepted rate + 1 \<rparr>"])
      (simp add: map_of_update)
qed

subsection \<open>Source limits\<close>

definition within_quota :: "safeguards \<Rightarrow> guard_state \<Rightarrow> bool" where
  "within_quota sg st \<longleftrightarrow> (\<forall>q r. map_of (gs_rates st) q = Some r \<longrightarrow> rt_accepted r \<le> sg_max_events sg)"

lemma quota_update:
  assumes "within_quota sg st" "rt_accepted r \<le> sg_max_events sg" "gs_rates t = AList.update k r (gs_rates st)"
  shows "within_quota sg t"
  using assms by (auto simp: within_quota_def map_of_update split: if_splits)

lemma current_rate_quota:
  assumes "within_quota sg st" "0 \<le> sg_max_events sg"
  shows "rt_accepted (current_rate sg now (map_of (gs_rates st) k)) \<le> sg_max_events sg"
  using assms by (cases "map_of (gs_rates st) k") (auto simp: current_rate_def within_quota_def)

lemma decide_quota:
  assumes "within_quota sg st" "rt_accepted rate \<le> sg_max_events sg"
    and "decide_candidate cr sg c now observed expires rate st = (st', out)"
  shows "within_quota sg st'"
proof -
  have rej: "within_quota sg s" if "record_rejection cr c reason u h t = (s, r)" "within_quota sg t" for s reason u h t r
    using that(2) record_rejection_effect(4)[OF that(1)] by (simp add: within_quota_def)
  have acc: "within_quota sg s"
    if ac: "accept_candidate cr c now observed rate st = (s, r)" and lim: "rt_accepted rate < sg_max_events sg" for s r
  proof -
    obtain t u where u: "store_protected c now st = (t, u)" by fastforce
    have t: "within_quota sg t" using store_protected_effect(4)[OF u] assms(1) by (simp add: within_quota_def)
    have "s = t \<or> gs_rates s = AList.update (source_scope c) (rate \<lparr> rt_accepted := rt_accepted rate + 1 \<rparr>) (gs_rates t)"
      using ac u by (auto simp: accept_candidate_def split: sum.splits)
    then show ?thesis using t quota_update[OF t, of "rate \<lparr> rt_accepted := rt_accepted rate + 1 \<rparr>"] lim by auto
  qed
  define st2 where "st2 = st \<lparr> gs_rates := AList.update (source_scope c) (rate \<lparr> rt_limited := rt_limited rate + 1 \<rparr>) (gs_rates st),
       gs_suspended := (if sg_threshold sg \<le> rt_limited rate + 1 then insert (source_scope c) (gs_suspended st) else gs_suspended st) \<rparr>"
  have "within_quota sg st2"
    by (rule quota_update[OF assms(1)]) (use assms(2) in \<open>auto simp: st2_def\<close>)
  then show ?thesis
    using assms(1,3) rej acc unfolding decide_candidate_def Let_def st2_def[symmetric]
    by (auto split: if_splits sum.splits option.splits)
qed

interpretation quota: invariant_machine "guard_step cr pd sg" "\<lambda>st. within_quota sg st \<and> 0 \<le> sg_max_events sg" "\<lambda>_. True"
  for cr pd sg
proof
  fix s :: guard_state and i
  assume s: "within_quota sg s \<and> 0 \<le> sg_max_events sg"
  show "within_quota sg (fst (guard_step cr pd sg s i)) \<and> 0 \<le> sg_max_events sg"
  proof (cases i)
    case (SubmitEvidence ab clock c)
    obtain t r where ap: "apply_replay_guard cr pd sg ab clock c s = (t, r)" by fastforce
    then have "within_quota sg t"
    proof (cases rule: replay_apply_cases)
      case (decided observed expires now rate)
      have "rt_accepted rate \<le> sg_max_events sg" unfolding decided(3) using current_rate_quota s by blast
      then show ?thesis using decide_quota[OF quota_update _ decided(4), of s rate] s by auto
    qed (use s in simp)
    then show ?thesis using SubmitEvidence s ap by (simp add: guard_step_def)
  qed (use s in \<open>auto simp: guard_step_def delete_evidence_def purge_expired_def within_quota_def Let_def
      split: option.splits sum.splits js.splits\<close>)
qed

text \<open>C19: In every state the guard can reach, each source's window holds at most the configured number
  of accepted events, and evidence of a suspended source is never accepted again.\<close>

theorem source_limits_hold:
  assumes "0 \<le> sg_max_events sg" "st = fst (run_machine (guard_step cr pd sg) initial_guard ops)"
  shows "(\<forall>q r. map_of (gs_rates st) q = Some r \<longrightarrow> rt_accepted r \<le> sg_max_events sg)
    \<and> (source_scope c \<in> gs_suspended st \<longrightarrow>
        \<not> accepted (snd (apply_replay_guard cr pd sg ab clock c (fst (run_machine (guard_step cr pd sg) st later)))))"
proof
  have "within_quota sg initial_guard" by (simp add: within_quota_def initial_guard_def)
  then show "\<forall>q r. map_of (gs_rates st) q = Some r \<longrightarrow> rt_accepted r \<le> sg_max_events sg"
    using quota.run_inv[of sg initial_guard ops cr pd] assms by (simp add: within_quota_def list_all_iff)
  show "source_scope c \<in> gs_suspended st \<longrightarrow>
        \<not> accepted (snd (apply_replay_guard cr pd sg ab clock c (fst (run_machine (guard_step cr pd sg) st later))))"
  proof (intro impI notI)
    let ?t = "fst (run_machine (guard_step cr pd sg) st later)"
    assume s: "source_scope c \<in> gs_suspended st" and a: "accepted (snd (apply_replay_guard cr pd sg ab clock c ?t))"
    have "source_scope c \<in> gs_suspended ?t" using guard.run_leq[of later st cr pd sg] s by (auto simp: remembers_def list_all_iff)
    moreover obtain t' r where "apply_replay_guard cr pd sg ab clock c ?t = (t', r)" by fastforce
    ultimately show False using a apply_accepted[of cr pd sg ab clock c ?t t' r] by auto
  qed
qed


subsection \<open>Storage\<close>

definition erased :: "string \<Rightarrow> guard_state \<Rightarrow> bool" where
  "erased k st \<longleftrightarrow> k \<in> gs_events st \<and>
     (\<exists>r. map_of (gs_stored st) k = Some r \<and> se_protected r = None \<and> se_state r = ''deleted'')"

lemma decide_keeps_stored:
  assumes "decide_candidate cr sg c now observed expires rate st = (st', out)" "k \<in> gs_events st"
  shows "map_of (gs_stored st') k = map_of (gs_stored st) k"
proof -
  have acc: "map_of (gs_stored s) k = map_of (gs_stored st) k"
    if ac: "accept_candidate cr c now observed rate st = (s, r)" and new: "event_key c \<notin> gs_events st" for s r
  proof -
    obtain t u where u: "store_protected c now st = (t, u)" by fastforce
    have "gs_stored s = gs_stored t" using ac u by (auto simp: accept_candidate_def split: sum.splits)
    moreover have "k \<noteq> event_key c" using new assms(2) by blast
    ultimately show ?thesis using store_protected_effect(5)[OF u] by simp
  qed
  have "\<lbrakk>replay_reason cr c now observed expires st = Inr None\<rbrakk> \<Longrightarrow> event_key c \<notin> gs_events st"
    by (rule accepted_reason(6))
  then show ?thesis
    using assms(1) acc unfolding decide_candidate_def Let_def
    by (auto split: if_splits sum.splits option.splits dest: record_rejection_effect(5))
qed

lemma map_of_map_value: "map_of (map (\<lambda>(k, r). (k, f r)) xs) k = map_option f (map_of xs k)"
  by (induction xs) auto

lemma map_of_purged:
  "map_of (map (\<lambda>(k, r). (k, if P r then erase u why r else r)) xs) k
     = map_option (\<lambda>r. if P r then erase u why r else r) (map_of xs k)"
  by (rule map_of_map_value)

interpretation erasure: invariant_machine "guard_step cr pd sg" "erased k" "\<lambda>_. True" for cr pd sg k
proof
  fix s :: guard_state and i
  assume s: "erased k s"
  then obtain r where r: "k \<in> gs_events s" "map_of (gs_stored s) k = Some r" "se_protected r = None" "se_state r = ''deleted''"
    by (auto simp: erased_def)
  show "erased k (fst (guard_step cr pd sg s i))"
  proof (cases i)
    case (SubmitEvidence ab clock c)
    obtain t u where ap: "apply_replay_guard cr pd sg ab clock c s = (t, u)" by fastforce
    have "k \<in> gs_events t" using apply_remembers[OF ap] r(1) by (auto simp: remembers_def)
    moreover have "map_of (gs_stored t) k = map_of (gs_stored s) k"
      using ap
    proof (cases rule: replay_apply_cases)
      case (decided observed expires now rate)
      then show ?thesis using decide_keeps_stored[OF decided(4), of k] r(1) by simp
    qed simp
    ultimately show ?thesis using SubmitEvidence ap r by (simp add: guard_step_def erased_def)
  next
    case (DeleteEvidence clock tenant event admin reason)
    then show ?thesis using r
      by (auto simp: guard_step_def delete_evidence_def erased_def Let_def map_of_update split: option.splits sum.splits)
  next
    case (PurgeExpired clock tenant admin)
    then show ?thesis using r
      by (auto simp: guard_step_def purge_expired_def erased_def map_of_purged expired_record_def split: js.splits option.splits)
  qed
qed

text \<open>Deleting accepted evidence is the act of an administrator and is final: the protected payload is
  gone, no later submission, deletion or purge brings it back, and nobody can retrieve it.\<close>

theorem deletion_is_final:
  assumes "delete_evidence clock tenant event admin reason st = (st1, Inr True)" "stored_key tenant event \<in> gs_events st"
    and "run_machine (guard_step cr pd sg) st1 ops = (st2, outs)"
  shows "truthy admin \<and> (\<exists>r. map_of (gs_stored st2) (stored_key tenant event) = Some r \<and> se_protected r = None)
    \<and> retrieve_evidence clock' tenant actor event admin' st2 = Inr None"
proof -
  have "truthy admin" "erased (stored_key tenant event) st1"
    using assms(1,2) by (auto simp: delete_evidence_def Let_def erased_def erase_def map_of_update
        split: if_splits option.splits sum.splits)
  moreover from this(2) have "erased (stored_key tenant event) st2"
    using erasure.run_inv[of "stored_key tenant event" st1 ops cr pd sg] assms(3) by (simp add: list_all_iff)
  then obtain r where "map_of (gs_stored st2) (stored_key tenant event) = Some r" "se_protected r = None" "se_state r = ''deleted''"
    by (auto simp: erased_def)
  ultimately show ?thesis by (auto simp: retrieve_evidence_def split: js.splits)
qed

text \<open>Evidence stored with an acceptance can be retrieved for exactly thirty days, by the subject it
  is about or an administrator and by nobody else, and what is retrieved is the protected payload.\<close>

theorem stored_evidence_retrieval:
  assumes "apply_replay_guard cr pd sg ab (JDate (Some now)) c st = (st', out)" "accepted out"
    and "truthy (get c ''protectedEvidence'')"
  shows "\<exists>r. se_protected r = Some (get c ''protectedEvidence'') \<and> strict_eq (se_subject r) (get c ''subjectId'')
    \<and> strict_eq (get (get c ''protectedEvidence'') ''contentHashSha256'') (get c ''contentHashSha256'')
    \<and> retrieve_evidence (JDate (Some t)) (get c ''tenantId'') actor (get c ''eventId'') admin st'
      = Inr (if t < now + 30 * 86400000 \<and> (strict_eq (se_subject r) actor \<or> truthy admin) then Some r else None)"
proof -
  let ?pe = "get c ''protectedEvidence''"
  obtain now' rate st1 where n: "JDate (Some now) = JDate (Some now')"
    "store_protected c now' (st \<lparr> gs_rates := AList.update (source_scope c) rate (gs_rates st) \<rparr>) = (st1, Inr ())"
    "gs_stored st' = gs_stored st1"
    using apply_accepted[OF assms(1,2)] by metis
  then have s: "store_protected c now (st \<lparr> gs_rates := AList.update (source_scope c) rate (gs_rates st) \<rparr>) = (st1, Inr ())"
    "gs_stored st' = gs_stored st1" by simp_all
  define stop where "stop = now + 30 * 86400000"
  define r where "r = \<lparr> se_tenant = get ?pe ''tenantId'', se_subject = get ?pe ''subjectId'',
                    se_source = get ?pe ''sourceId'', se_event = get ?pe ''eventId'',
                    se_content_hash = get ?pe ''contentHashSha256'', se_canonical_sha256 = get ?pe ''canonicalSha256'',
                    se_canonical_length = get ?pe ''canonicalByteLength'', se_protected = Some ?pe,
                    se_state = ''active'', se_retained_until = time_to_iso stop, se_deleted_at = None,
                    se_deletion_reason = None \<rparr>"
  note sp = s(1)[unfolded store_protected_def Let_def evidence_storage_policy_def storage_policy.simps,
      folded stop_def, folded r_def]
  obtain d where d: "require_protected_evidence ?pe = Inr d"
    using sp assms(3) by (cases "require_protected_evidence ?pe") auto
  have b: "binds_candidate ?pe c" "valid_time stop" and st: "gs_stored st1 = AList.update (event_key c) r (gs_stored st)"
    using sp assms(3) unfolding d by (auto split: if_splits)
  have r: "se_protected r = Some ?pe" "se_subject r = get ?pe ''subjectId''" "se_state r = ''active''"
    "ms_of (se_retained_until r) = stop"
    using b(2) by (simp_all add: r_def ms_of_def parse_time_def)
  have key: "stored_key (get c ''tenantId'') (get c ''eventId'') = event_key c" by (simp add: stored_key_def event_key_def)
  have "map_of (gs_stored st') (event_key c) = Some r" by (simp add: s(2) st map_of_update)
  then have "retrieve_evidence (JDate (Some t)) (get c ''tenantId'') actor (get c ''eventId'') admin st'
      = Inr (if t < stop \<and> (strict_eq (se_subject r) actor \<or> truthy admin) then Some r else None)"
    by (simp add: retrieve_evidence_def key r(3,4))
  then show ?thesis using b(1) r(1,2) unfolding stop_def by (auto simp: binds_candidate_def intro!: exI[of _ r])
qed


subsection \<open>Witnesses\<close>

text \<open>Two submissions of one source, the second with the next sequence number, an hour into the epoch.\<close>

abbreviation rg_candidate :: "string \<Rightarrow> string \<Rightarrow> rat \<Rightarrow> js \<Rightarrow> js" where
  "rg_candidate event nonce seq pe \<equiv>
     obj [(''tenantId'', JStr ''tnt_00000000-0000-4000-8000-000000000001''),
          (''subjectId'', JStr ''sub_00000000-0000-4000-8000-000000000001''),
          (''sourceId'', JStr ''src_00000000-0000-4000-8000-000000000001''),
          (''keyId'', JStr ''key_00000000-0000-4000-8000-000000000001''),
          (''eventId'', JStr event), (''evidenceType'', JStr ''device''), (''sourceSequence'', num seq),
          (''nonce'', JStr nonce), (''contentHashSha256'', JStr (replicate 64 (CHR ''a''))), (''synthetic'', JBool True),
          (''maximumAgeSeconds'', num 600), (''observedAt'', JDate (Some 3600000)), (''expiresAt'', JDate (Some 3700000)),
          (''protectedEvidence'', pe)]"

abbreviation rg_first :: "js \<Rightarrow> js" where
  "rg_first pe \<equiv> rg_candidate ''evt_00000000-0000-4000-8000-000000000001'' ''AAAAAAAAAAAAAAAAAAAAAA'' 1 pe"

abbreviation rg_second :: js where
  "rg_second \<equiv> rg_candidate ''evt_00000000-0000-4000-8000-000000000002'' ''BBBBBBBBBBBBBBBBBBBBBB'' 2 JUndef"

definition toy_date :: "js \<Rightarrow> int option" where
  "toy_date v = (case v of JDate d \<Rightarrow> d | _ \<Rightarrow> None)"

text \<open>A digest that tells the two nonces apart.\<close>

definition toy_hash :: crypto where
  "toy_hash = toy_crypto \<lparr> cr_sha256 := (\<lambda>t. replicate 64 (if t \<noteq> [] \<and> hd t = CHR ''A'' then CHR ''0'' else CHR ''1'')) \<rparr>"

lemma rg_required:
  assumes "c = rg_first pe \<or> c = rg_second"
  shows "require_replay_candidate toy_date c = Inr (3600000, 3700000)"
proof -
  have ids: "ev_tenant_id ''tnt_00000000-0000-4000-8000-000000000001''" "ev_subject_id ''sub_00000000-0000-4000-8000-000000000001''"
    "ev_source_id ''src_00000000-0000-4000-8000-000000000001''" "ev_key_id ''key_00000000-0000-4000-8000-000000000001''"
    "ev_event_id ''evt_00000000-0000-4000-8000-000000000001''" "ev_event_id ''evt_00000000-0000-4000-8000-000000000002''"
    "ev_nonce ''AAAAAAAAAAAAAAAAAAAAAA''" "ev_nonce ''BBBBBBBBBBBBBBBBBBBBBB''"
    by code_simp+
  have h: "ev_sha256 (replicate 64 (CHR ''a''))" by (simp add: ev_sha256_def is_sha256_def lower_hex_def list_all_iff)
  show ?thesis using assms
    by (elim disjE) (simp_all add: require_replay_candidate_def replay_candidate_dates_def toy_date_def ids h one_of_def
        evidence_types_def is_safe_integer_def is_integer_rat_def max_safe_integer_def)
qed

lemma rg_hash: "hash_identifier toy_hash (JStr s) = Inr (cr_sha256 toy_hash (utf8 s))"
  by (simp add: hash_identifier_def)

abbreviation rg_scope :: string where
  "rg_scope \<equiv> ''tnt_00000000-0000-4000-8000-000000000001:src_00000000-0000-4000-8000-000000000001''"

abbreviation rg_rate :: "int \<Rightarrow> rate_state" where
  "rg_rate n \<equiv> \<lparr> rt_started = 3600000, rt_accepted = n, rt_limited = 0 \<rparr>"

lemma rg_scope: "source_scope (rg_first pe) = rg_scope" "source_scope rg_second = rg_scope"
  by (simp_all add: source_scope_def)

text \<open>The state after the first submission, whatever was stored with it.\<close>

definition rg_after :: "(string \<times> stored_evidence) list \<Rightarrow> guard_state" where
  "rg_after stored =
     \<lparr> gs_events = {event_key (rg_first JUndef)},
       gs_epochs = [epoch_id (rg_first JUndef) \<mapsto> \<lparr> ep_highest = 1, ep_latest = 3600000,
          ep_nonces = {cr_sha256 toy_hash (utf8 ''AAAAAAAAAAAAAAAAAAAAAA'')} \<rparr>],
       gs_rates = [(rg_scope, rg_rate 1)], gs_suspended = {}, gs_rejections = [], gs_stored = stored \<rparr>"

lemma rg_accept_first:
  assumes "store_protected (rg_first pe) 3600000 (initial_guard \<lparr> gs_rates := [(rg_scope, rg_rate 0)] \<rparr>)
    = (initial_guard \<lparr> gs_rates := [(rg_scope, rg_rate 0)], gs_stored := stored \<rparr>, Inr ())"
  shows "\<exists>out. apply_replay_guard toy_hash toy_date default_safeguards False (JDate (Some 3600000)) (rg_first pe) initial_guard
    = (rg_after stored, out) \<and> accepted out"
proof -
  have "replay_reason toy_hash (rg_first pe) 3600000 3600000 3700000
      \<lparr> gs_events = {}, gs_epochs = (\<lambda>_. None), gs_rates = r, gs_suspended = {}, gs_rejections = [], gs_stored = [] \<rparr> = Inr None" for r
    by (simp add: replay_reason_def Let_def evidence_ingestion_policy_def maximum_age_ms_def)
  then show ?thesis using assms rg_required[of "rg_first pe" pe]
    by (simp add: apply_replay_guard_def rg_scope current_rate_def initial_guard_def decide_candidate_def
        default_safeguards_def accept_candidate_def rg_hash rg_after_def epoch_id_def event_key_def candidate_sequence_def
        Let_def)
qed

lemma rg_store_nothing:
  "store_protected (rg_first JUndef) now st = (st, Inr ())" "store_protected rg_second now st = (st, Inr ())"
  by (simp_all add: store_protected_def Let_def)

lemma rg_first_plain:
  "\<exists>out. apply_replay_guard toy_hash toy_date default_safeguards False (JDate (Some 3600000)) (rg_first JUndef) initial_guard
    = (rg_after [], out) \<and> accepted out"
  by (rule rg_accept_first) (simp add: rg_store_nothing initial_guard_def)

lemma rg_second_accepted:
  "\<exists>st out. apply_replay_guard toy_hash toy_date default_safeguards False (JDate (Some 3600000)) rg_second (rg_after [])
    = (st, out) \<and> accepted out"
proof -
  have "cr_sha256 toy_hash (utf8 ''BBBBBBBBBBBBBBBBBBBBBB'') \<noteq> cr_sha256 toy_hash (utf8 ''AAAAAAAAAAAAAAAAAAAAAA'')"
    by (simp add: toy_hash_def utf8_def utf8_char_def)
  then have "replay_reason toy_hash rg_second 3600000 3600000 3700000 (rg_after [] \<lparr> gs_rates := r \<rparr>) = Inr None" for r
    by (simp add: replay_reason_def Let_def evidence_ingestion_policy_def maximum_age_ms_def rg_after_def
        event_key_def epoch_id_def candidate_sequence_def rg_hash cong: if_cong)
  then show ?thesis using rg_required[of rg_second JUndef]
    by (simp add: apply_replay_guard_def rg_scope current_rate_def decide_candidate_def default_safeguards_def
        accept_candidate_def rg_hash rg_store_nothing Let_def rg_after_def)
qed

lemma accepted_evidence_never_replays_witness:
  "\<exists>st1 out. apply_replay_guard toy_hash toy_date default_safeguards False (JDate (Some 3600000)) (rg_first JUndef) initial_guard
     = (st1, out) \<and> accepted out \<and> candidate_sequence (rg_first JUndef) < candidate_sequence rg_second"
proof -
  obtain out where a: "apply_replay_guard toy_hash toy_date default_safeguards False (JDate (Some 3600000)) (rg_first JUndef) initial_guard
    = (rg_after [], out)" "accepted out" using rg_first_plain by blast
  obtain st out' where b: "apply_replay_guard toy_hash toy_date default_safeguards False (JDate (Some 3600000)) rg_second (rg_after [])
    = (st, out')" "accepted out'" using rg_second_accepted by blast
  have "run_machine (guard_step toy_hash toy_date default_safeguards) (rg_after []) [] = (rg_after [], [])" by simp
  from accepted_evidence_never_replays[OF a this b] have "candidate_sequence (rg_first JUndef) < candidate_sequence rg_second"
    by (simp add: epoch_id_def)
  then show ?thesis using a by blast
qed

lemma accepted_evidence_is_fresh_witness:
  "\<exists>out observed expires. apply_replay_guard toy_hash toy_date default_safeguards False (JDate (Some 3600000)) (rg_first JUndef) initial_guard
       = (rg_after [], out) \<and> accepted out
     \<and> toy_date (get (rg_first JUndef) ''observedAt'') = Some observed \<and> toy_date (get (rg_first JUndef) ''expiresAt'') = Some expires
     \<and> 3600000 - maximum_age_ms (rg_first JUndef) \<le> observed \<and> observed \<le> 3630000 \<and> 3600000 < expires
     \<and> expires \<le> observed + maximum_age_ms (rg_first JUndef)
     \<and> source_scope (rg_first JUndef) \<notin> gs_suspended (rg_after [])"
proof -
  obtain out where a: "apply_replay_guard toy_hash toy_date default_safeguards False (JDate (Some 3600000)) (rg_first JUndef) initial_guard
    = (rg_after [], out)" "accepted out" using rg_first_plain by blast
  from accepted_evidence_is_fresh[OF a] a show ?thesis by auto
qed

lemma source_limits_hold_witness:
  "map_of (gs_rates (rg_after [])) rg_scope = Some (rg_rate 1) \<and> rt_accepted (rg_rate 1) \<le> sg_max_events default_safeguards"
proof -
  obtain out where a: "apply_replay_guard toy_hash toy_date default_safeguards False (JDate (Some 3600000)) (rg_first JUndef) initial_guard
    = (rg_after [], out)" using rg_first_plain by blast
  have max: "0 \<le> sg_max_events default_safeguards" by (simp add: default_safeguards_def)
  have "rg_after [] = fst (run_machine (guard_step toy_hash toy_date default_safeguards) initial_guard
      [SubmitEvidence False (JDate (Some 3600000)) (rg_first JUndef)])"
    using a by (simp add: guard_step_def)
  from source_limits_hold[OF max this, of "rg_first JUndef"] have "\<forall>q r. map_of (gs_rates (rg_after [])) q = Some r
     \<longrightarrow> rt_accepted r \<le> sg_max_events default_safeguards" by blast
  moreover have "map_of (gs_rates (rg_after [])) rg_scope = Some (rg_rate 1)" by (simp add: rg_after_def)
  ultimately show ?thesis by blast
qed

abbreviation rg_stored :: stored_evidence where
  "rg_stored \<equiv>
     \<lparr> se_tenant = JStr ''t'', se_subject = JStr ''s'', se_source = JStr ''src'', se_event = JStr ''e'',
       se_content_hash = JStr ''h'', se_canonical_sha256 = JStr ''c'', se_canonical_length = num 1,
       se_protected = Some (obj []), se_state = ''active'', se_retained_until = time_to_iso 0, se_deleted_at = None,
       se_deletion_reason = None \<rparr>"

lemma deletion_is_final_witness:
  "\<exists>st1. retrieve_evidence (JDate (Some 0)) (JStr ''t'') (JStr ''s'') (JStr ''e'') (JBool True) st1 = Inr None"
proof -
  let ?st = "initial_guard \<lparr> gs_events := {''t:e''}, gs_stored := [(''t:e'', rg_stored)] \<rparr>"
  have t: "trim ''gdpr'' = ''gdpr''" by (simp add: trim_def white_def)
  have d: "delete_evidence (JDate (Some 0)) (JStr ''t'') (JStr ''e'') (JBool True) (JStr ''gdpr'') ?st
      = (?st \<lparr> gs_stored := [(''t:e'', erase (time_to_iso 0) ''gdpr'' rg_stored)] \<rparr>, Inr True)"
    by (simp add: delete_evidence_def stored_key_def t clock_iso_def Let_def)
  have k: "stored_key (JStr ''t'') (JStr ''e'') \<in> gs_events ?st" by (simp add: stored_key_def)
  have "run_machine (guard_step toy_hash toy_date default_safeguards) s [] = (s, [])" for s by simp
  from deletion_is_final[OF d k this, of "JDate (Some 0)" "JStr ''s''" "JBool True"] show ?thesis by blast
qed


text \<open>A protected record of one byte for the first candidate.\<close>

abbreviation rg_protected :: js where
  "rg_protected \<equiv>
     obj [(''tenantId'', JStr ''tnt_00000000-0000-4000-8000-000000000001''),
          (''subjectId'', JStr ''sub_00000000-0000-4000-8000-000000000001''),
          (''sourceId'', JStr ''src_00000000-0000-4000-8000-000000000001''),
          (''eventId'', JStr ''evt_00000000-0000-4000-8000-000000000001''),
          (''contentHashSha256'', JStr (replicate 64 (CHR ''a''))), (''encryptionKeyId'', JStr ''local-evidence-v1''),
          (''formatVersion'', num 1), (''cipher'', JStr ''AES-256-GCM''),
          (''ivBase64Url'', JStr (b64_encode (replicate 12 (CHR 0x05)))),
          (''authenticationTagBase64Url'', JStr (b64_encode (replicate 16 (CHR 0x06)))),
          (''ciphertextBase64Url'', JStr (b64_encode [CHR 0x07])), (''canonicalSha256'', JStr (replicate 64 (CHR ''b''))),
          (''canonicalByteLength'', num 1)]"

lemma rg_protected_ok: "\<exists>d. require_protected_evidence rg_protected = Inr d"
proof -
  have h: "ev_sha256 (replicate 64 (CHR ''b''))" by (simp add: ev_sha256_def is_sha256_def lower_hex_def list_all_iff)
  have b: "require_canonical_base64url (JStr (b64_encode (replicate 12 (CHR 0x05)))) 12 = Inr (replicate 12 (CHR 0x05))"
    "require_canonical_base64url (JStr (b64_encode (replicate 16 (CHR 0x06)))) 16 = Inr (replicate 16 (CHR 0x06))"
    by (simp_all only: require_canonical_base64url_def base64url_of_length_def is_string.simps str_of.simps
        b64_decode_encode length_replicate simp_thms if_True if_False)
  have "b64_decode (b64_encode [CHR 0x07]) = [CHR 0x07]" by (rule b64_decode_encode)
  then show ?thesis using b h ev_example_ids
    by (simp add: require_protected_evidence_def require_storage_binding_def evidence_storage_policy_def
        is_safe_integer_def is_integer_rat_def max_safe_integer_def Let_def del: b64_encode.simps replicate.simps)
qed

lemma stored_evidence_retrieval_witness:
  "\<exists>st r. retrieve_evidence (JDate (Some 3600001)) (JStr ''tnt_00000000-0000-4000-8000-000000000001'')
      (JStr ''sub_00000000-0000-4000-8000-000000000001'') (JStr ''evt_00000000-0000-4000-8000-000000000001'') JUndef st
    = Inr (Some r) \<and> se_protected r = Some rg_protected"
proof -
  obtain d where d: "require_protected_evidence rg_protected = Inr d" using rg_protected_ok by blast
  have "\<exists>stored. store_protected (rg_first rg_protected) 3600000 (initial_guard \<lparr> gs_rates := [(rg_scope, rg_rate 0)] \<rparr>)
    = (initial_guard \<lparr> gs_rates := [(rg_scope, rg_rate 0)], gs_stored := stored \<rparr>, Inr ())"
    using d by (simp add: store_protected_def Let_def binds_candidate_def valid_time_def max_time_def
        evidence_storage_policy_def initial_guard_def)
  then obtain stored where "store_protected (rg_first rg_protected) 3600000 (initial_guard \<lparr> gs_rates := [(rg_scope, rg_rate 0)] \<rparr>)
    = (initial_guard \<lparr> gs_rates := [(rg_scope, rg_rate 0)], gs_stored := stored \<rparr>, Inr ())" by blast
  from rg_accept_first[OF this] obtain out where a:
    "apply_replay_guard toy_hash toy_date default_safeguards False (JDate (Some 3600000)) (rg_first rg_protected) initial_guard
     = (rg_after stored, out)" "accepted out" by blast
  from stored_evidence_retrieval[OF a, of 3600001 "JStr ''sub_00000000-0000-4000-8000-000000000001''" JUndef]
  obtain r where r: "se_protected r = Some rg_protected" "strict_eq (se_subject r) (JStr ''sub_00000000-0000-4000-8000-000000000001'')"
    "retrieve_evidence (JDate (Some 3600001)) (JStr ''tnt_00000000-0000-4000-8000-000000000001'')
      (JStr ''sub_00000000-0000-4000-8000-000000000001'') (JStr ''evt_00000000-0000-4000-8000-000000000001'') JUndef (rg_after stored)
     = Inr (Some r)" by auto
  then show ?thesis by blast
qed

end
