(* ===== verification/EvidenceIngestion.thy ===== *)
theory EvidenceIngestion
  imports EvidenceReplayGuard
begin

text \<open>
  \<open>services/evidence/src/index.mjs\<close>, third part: the checks of a verification context, the signature of
  an envelope, the ingestion service and the storage service. The JSON-schema validator, the context
  resolver, the protector and the replay guard are the functions the service is created with; the
  guard threads its own state.
\<close>

section \<open>Verification context\<close>

definition assert_verification_context :: "js \<Rightarrow> js \<Rightarrow> unit res" where
  "assert_verification_context context envelope =
     (if \<not> truthy context
         \<or> \<not> re_test_or_empty ev_tenant_id (get context ''tenantId'')
         \<or> \<not> re_test_or_empty ev_subject_id (get context ''subjectId'')
         \<or> \<not> re_test_or_empty ev_source_id (get context ''sourceId'')
         \<or> \<not> re_test_or_empty ev_key_id (get context ''keyId'')
         \<or> \<not> one_of evidence_types (get context ''evidenceType'')
         \<or> \<not> is_bool (get context ''sourceSynthetic'')
         \<or> \<not> strict_eq (get context ''sourceState'') (JStr (ip_source_state evidence_ingestion_policy))
         \<or> \<not> strict_eq (get context ''keyState'') (JStr (ip_key_state evidence_ingestion_policy))
         \<or> \<not> strict_eq (get context ''verificationAlgorithm'') (JStr ''Ed25519'')
         \<or> \<not> is_safe_integer (get context ''keyVersion'') \<or> num_of (get context ''keyVersion'') < 1
         \<or> \<not> is_safe_integer (get context ''maximumAgeSeconds'') \<or> num_of (get context ''maximumAgeSeconds'') < 1
         \<or> 86400 < num_of (get context ''maximumAgeSeconds'')
         \<or> \<not> re_test_or_empty ev_public_key (get context ''publicKeyBase64Url'')
         \<or> \<not> re_test_or_empty ev_sha256 (get context ''publicKeySha256'')
      then ev_reject ''VERIFICATION_CONTEXT_INVALID''
      else if \<not> strict_eq (get context ''tenantId'') (get envelope ''tenantId'')
         \<or> \<not> strict_eq (get context ''subjectId'') (get envelope ''subjectId'')
         \<or> \<not> strict_eq (get context ''sourceId'') (get envelope ''sourceId'')
         \<or> \<not> strict_eq (get context ''keyId'') (get (get envelope ''signature'') ''keyId'')
         \<or> \<not> strict_eq (get context ''evidenceType'') (get envelope ''evidenceType'')
         \<or> \<not> strict_eq (get context ''sourceSynthetic'') (get envelope ''synthetic'')
      then ev_reject ''EVIDENCE_BINDING_INVALID''
      else Inr ())"

text \<open>\<open>Buffer.from\<close> of an array makes bytes of its elements; their text is never the array itself.\<close>

definition decode_canonical_base64url :: "js \<Rightarrow> nat \<Rightarrow> string \<Rightarrow> bytes res" where
  "decode_canonical_base64url v n reason =
     (case v of
        JStr s \<Rightarrow> if base64url_of_length n s then Inr (b64_decode s) else ev_reject reason
      | JArr vs \<Rightarrow> ev_reject reason
      | _ \<Rightarrow> Inl TypeErrorThrown)"

definition verify_signed_content :: "crypto \<Rightarrow> js \<Rightarrow> string \<Rightarrow> string res" where
  "verify_signed_content cr envelope public_key =
     and_then (unsigned_evidence_envelope envelope) (\<lambda>unsigned.
     and_then (canonicalize_evidence unsigned) (\<lambda>canonical.
     and_then (safe_digest_equal (cr_sha256 cr (utf8 canonical))
                 (get (get envelope ''signature'') ''signedContentSha256'')) (\<lambda>same.
       if \<not> same then ev_reject ''SIGNED_CONTENT_DIGEST_INVALID''
       else and_then (decode_canonical_base64url (get (get envelope ''signature'') ''signatureBase64Url'') 64
                        ''EVIDENCE_SIGNATURE_INVALID'') (\<lambda>signature.
         if \<not> cr_verify cr public_key (utf8 canonical) signature
         then ev_reject ''EVIDENCE_SIGNATURE_INVALID'' else Inr (cr_sha256 cr (utf8 canonical))))))"

definition verify_envelope_signature :: "crypto \<Rightarrow> js \<Rightarrow> js \<Rightarrow> string res" where
  "verify_envelope_signature cr envelope context =
     and_then (decode_canonical_base64url (get context ''publicKeyBase64Url'') 32 ''VERIFICATION_KEY_INVALID'') (\<lambda>key.
     and_then (safe_digest_equal (cr_sha256 cr key) (get context ''publicKeySha256'')) (\<lambda>key_ok.
       if \<not> key_ok then ev_reject ''VERIFICATION_KEY_INVALID''
       else verify_signed_content cr envelope (str_of (get context ''publicKeyBase64Url''))))"

section \<open>Ingestion\<close>

record 'g ingestion_deps =
  id_validate :: "js \<Rightarrow> bool"
  id_resolve :: "js \<Rightarrow> js res"
  id_guard :: "js \<Rightarrow> 'g \<Rightarrow> 'g \<times> js res"
  id_protect :: "js \<Rightarrow> js \<Rightarrow> js res"

record accepted_evidence =
  ae_event :: js
  ae_tenant :: js
  ae_subject :: js
  ae_source :: js
  ae_type :: js
  ae_sequence :: js
  ae_synthetic :: js
  ae_content_hash :: string

definition create_evidence_ingestion_service :: "js \<Rightarrow> js \<Rightarrow> js \<Rightarrow> unit res" where
  "create_evidence_ingestion_service resolver guard protector_fn =
     (if \<not> is_function resolver then Inl TypeErrorThrown
      else if \<not> is_function guard then Inl TypeErrorThrown
      else if \<not> is_function protector_fn then Inl TypeErrorThrown else Inr ())"

text \<open>The size checks. \<open>encodedByteLength\<close> defaults to the canonical size of the envelope.\<close>

definition check_sizes :: "js \<Rightarrow> js \<Rightarrow> unit res" where
  "check_sizes envelope encoded =
     and_then (if nullish encoded
               then and_then (canonical_byte_length envelope) (\<lambda>n. Inr (num (of_nat n))) else Inr encoded) (\<lambda>measured.
       if \<not> is_safe_integer measured \<or> num_of measured < 1 then ev_reject ''EVIDENCE_SIZE_INVALID''
       else if ip_max_envelope_bytes evidence_ingestion_policy < num_of measured then ev_reject ''EVIDENCE_TOO_LARGE''
       else and_then (canonical_byte_length (get envelope ''payload'')) (\<lambda>n.
         if ip_max_payload_bytes evidence_ingestion_policy < n then ev_reject ''EVIDENCE_TOO_LARGE'' else Inr ()))"

definition guard_candidate :: "js \<Rightarrow> js \<Rightarrow> string \<Rightarrow> js \<Rightarrow> js" where
  "guard_candidate envelope context content_hash pe =
     obj [(''tenantId'', get envelope ''tenantId''), (''subjectId'', get envelope ''subjectId''),
          (''sourceId'', get envelope ''sourceId''), (''keyId'', get (get envelope ''signature'') ''keyId''),
          (''evidenceType'', get envelope ''evidenceType''), (''eventId'', get envelope ''eventId''),
          (''sourceSequence'', get envelope ''sourceSequence''), (''nonce'', get envelope ''nonce''),
          (''observedAt'', get envelope ''observedAt''), (''expiresAt'', get envelope ''expiresAt''),
          (''contentHashSha256'', JStr content_hash), (''synthetic'', get envelope ''synthetic''),
          (''maximumAgeSeconds'', get context ''maximumAgeSeconds''), (''protectedEvidence'', pe)]"

text \<open>Every error of the protector or the guard that is not one of the service's own becomes unavailability.\<close>

definition own_error :: "js_error \<Rightarrow> js_error" where
  "own_error e =
     (if error_is EvidenceRejectedError e \<or> error_is EvidenceIngestionUnavailableError e then e else ev_unavailable)"

definition guarded_decision ::
  "'g ingestion_deps \<Rightarrow> js \<Rightarrow> js \<Rightarrow> string \<Rightarrow> 'g \<Rightarrow> 'g \<times> js res" where
  "guarded_decision deps envelope context content_hash g =
     (case and_then (id_protect deps envelope (JStr content_hash)) (\<lambda>pe.
             and_then (require_protected_evidence pe) (\<lambda>_. Inr pe)) of
        Inl e \<Rightarrow> (g, Inl (own_error e))
      | Inr pe \<Rightarrow>
          (case id_guard deps (guard_candidate envelope context content_hash pe) g of
             (g', Inl e) \<Rightarrow> (g', Inl (own_error e))
           | (g', Inr d) \<Rightarrow> (g', Inr d)))"

definition check_decision :: "js \<Rightarrow> unit res" where
  "check_decision d =
     (if \<not> truthy d \<or> \<not> is_bool (get d ''accepted'') then Inl ev_unavailable
      else if get d ''accepted'' = JBool False
      then if \<not> one_of replay_guard_denial_reasons (get d ''reasonCode'') then Inl ev_unavailable
           else ev_reject (str_of (get d ''reasonCode''))
      else Inr ())"

definition ingest_evidence ::
  "crypto \<Rightarrow> 'g ingestion_deps \<Rightarrow> js \<Rightarrow> js \<Rightarrow> 'g \<Rightarrow> 'g \<times> accepted_evidence res" where
  "ingest_evidence cr deps envelope encoded g =
     (if \<not> id_validate deps envelope then (g, ev_reject ''EVIDENCE_SCHEMA_INVALID'')
      else case and_then (check_sizes envelope encoded) (\<lambda>_.
             and_then (id_resolve deps (obj [(''tenantId'', get envelope ''tenantId''),
                 (''subjectId'', get envelope ''subjectId''), (''sourceId'', get envelope ''sourceId''),
                 (''keyId'', get (get envelope ''signature'') ''keyId'')])) (\<lambda>context.
             if context = JNull then ev_reject ''VERIFICATION_CONTEXT_NOT_FOUND''
             else and_then (assert_verification_context context envelope) (\<lambda>_.
                  and_then (verify_envelope_signature cr envelope context) (\<lambda>h. Inr (context, h))))) of
        Inl e \<Rightarrow> (g, Inl e)
      | Inr (context, content_hash) \<Rightarrow>
          (case guarded_decision deps envelope context content_hash g of
             (g', Inl e) \<Rightarrow> (g', Inl e)
           | (g', Inr d) \<Rightarrow>
               (g', and_then (check_decision d) (\<lambda>_. Inr
                  \<lparr> ae_event = get envelope ''eventId'', ae_tenant = get envelope ''tenantId'',
                    ae_subject = get envelope ''subjectId'', ae_source = get envelope ''sourceId'',
                    ae_type = get envelope ''evidenceType'', ae_sequence = get envelope ''sourceSequence'',
                    ae_synthetic = get envelope ''synthetic'', ae_content_hash = content_hash \<rparr>))))"

text \<open>The service over the in-memory guard: the guard's decision as the object it returns.\<close>

definition decision_value :: "replay_decision \<Rightarrow> js" where
  "decision_value d =
     obj [(''accepted'', JBool (rd_accepted d)),
          (''reasonCode'', case rd_reason d of None \<Rightarrow> JNull | Some r \<Rightarrow> JStr r),
          (''acceptedAt'', case rd_accepted_at d of None \<Rightarrow> JNull | Some t \<Rightarrow> JStr t),
          (''highestSourceSequence'', case rd_highest d of None \<Rightarrow> JNull | Some n \<Rightarrow> num n)]"

definition memory_guard ::
  "crypto \<Rightarrow> (js \<Rightarrow> int option) \<Rightarrow> safeguards \<Rightarrow> bool \<Rightarrow> js \<Rightarrow> js \<Rightarrow> guard_state \<Rightarrow> guard_state \<times> js res" where
  "memory_guard cr pd sg aborted clock c g =
     (case apply_replay_guard cr pd sg aborted clock c g of
        (g', Inl e) \<Rightarrow> (g', Inl e)
      | (g', Inr d) \<Rightarrow> (g', Inr (decision_value d)))"

section \<open>Storage service\<close>

record retrieved_evidence =
  re_bytes :: bytes
  re_envelope :: js
  re_content_hash :: js
  re_canonical_sha256 :: js
  re_retained_until :: js

text \<open>\<open>record\<close> is what the repository returned; \<open>null\<close> means there is nothing to show.\<close>

definition open_stored_evidence :: "crypto \<Rightarrow> protector \<Rightarrow> js \<Rightarrow> retrieved_evidence option res" where
  "open_stored_evidence cr p r =
     (if r = JNull then Inr None
      else and_then (unprotect cr p r) (\<lambda>bytes.
        case parse_json (utf8_decode bytes) of
          None \<Rightarrow> Inl ev_unavailable
        | Some envelope \<Rightarrow>
            and_then (canonicalize_evidence envelope) (\<lambda>again.
            and_then (unsigned_evidence_envelope envelope) (\<lambda>unsigned.
            and_then (canonicalize_evidence unsigned) (\<lambda>canonical.
              if length bytes \<noteq> length (utf8 again) \<or> bytes \<noteq> utf8 again
                 \<or> \<not> strict_eq (get envelope ''tenantId'') (get r ''tenantId'')
                 \<or> \<not> strict_eq (get envelope ''subjectId'') (get r ''subjectId'')
                 \<or> \<not> strict_eq (get envelope ''sourceId'') (get r ''sourceId'')
                 \<or> \<not> strict_eq (get envelope ''eventId'') (get r ''eventId'')
              then Inl ev_unavailable
              else and_then (safe_digest_equal (cr_sha256 cr (utf8 canonical)) (get r ''contentHashSha256'')) (\<lambda>same.
                if \<not> same then Inl ev_unavailable
                else Inr (Some \<lparr> re_bytes = bytes, re_envelope = envelope,
                                 re_content_hash = get r ''contentHashSha256'',
                                 re_canonical_sha256 = get r ''canonicalSha256'',
                                 re_retained_until = get r ''retainedUntil'' \<rparr>)))))))"

section \<open>Facts about canonical evidence\<close>

lemma sorted_distinct_unique:
  fixes xs ys :: "string list"
  assumes "sorted xs" "distinct xs" "sorted ys" "distinct ys" "set xs = set ys"
  shows "xs = ys"
  using assms by (rule sorted_distinct_set_unique)

lemma own_map_snd: "own (map (\<lambda>f. (fst f, g (snd f))) fs) k = map_option g (own fs k)"
  by (induction fs k rule: own.induct) auto

lemma own_filter: "own (filter (\<lambda>f. fst f \<noteq> j) fs) k = (if k = j then None else own fs k)"
  by (induction fs) auto

lemma own_sorted_fields: "own (sorted_fields fs) k = own fs k"
proof -
  have "own (map (\<lambda>k. (k, g k)) ks) k = (if k \<in> set ks then Some (g k) else None)" for g :: "string \<Rightarrow> js" and ks
    by (induction ks) auto
  then show ?thesis using own_eq_None[of fs k] by (auto simp: sorted_fields_def)
qed

lemma sorted_fields_cong:
  assumes "\<And>k. own fs k = own gs k"
  shows "sorted_fields fs = sorted_fields gs"
proof -
  have "fst ` set fs = fst ` set gs"
    using assms own_eq_None by (metis (full_types) subsetI subset_antisym)
  then have "sort (remdups (map fst fs)) = sort (remdups (map fst gs))"
    by (intro sorted_distinct_unique) auto
  then show ?thesis by (simp add: sorted_fields_def assms)
qed

lemma sorted_fields_map:
  "sorted_fields (map (\<lambda>f. (fst f, g (snd f))) fs) = map (\<lambda>f. (fst f, g (snd f))) (sorted_fields fs)"
proof -
  have "map fst (map (\<lambda>f. (fst f, g (snd f))) fs) = map fst fs" by simp
  moreover have "the (map_option g (own fs k)) = g (the (own fs k))" if "k \<in> set (map fst fs)" for k
    using that own_eq_None[of fs k] by (cases "own fs k") auto
  ultimately show ?thesis unfolding sorted_fields_def by (simp add: own_map_snd comp_def)
qed

lemma sorted_fields_idem: "sorted_fields (sorted_fields fs) = sorted_fields fs"
  by (rule sorted_fields_cong) (rule own_sorted_fields)

text \<open>Writing the normal form gives the same text.\<close>

lemma canonical_normal: "canonical_json bad (json_normal v) = canonical_json bad v"
proof (induction bad v rule: canonical_json.induct)
  case (5 bad vs)
  have "map_res (canonical_json bad) (map json_normal vs) = map_res (canonical_json bad) vs"
    using 5 by (induction vs) auto
  then show ?case by simp
next
  case (6 bad p fs)
  let ?t = "\<lambda>f. and_then (canonical_json bad (snd f)) (\<lambda>t. Inr (json_string (fst f) @ '':'' @ t))"
  have s: "sorted_fields (map (\<lambda>f. (fst f, json_normal (snd f))) (sorted_fields fs))
      = map (\<lambda>f. (fst f, json_normal (snd f))) (sorted_fields fs)"
    by (simp add: sorted_fields_map sorted_fields_idem)
  have "map_res ?t (map (\<lambda>f. (fst f, json_normal (snd f))) fs') = map_res ?t fs'" if "set fs' \<subseteq> set (sorted_fields fs)" for fs'
    using that 6 by (induction fs') auto
  then show ?case by (simp add: s)
next
  case (7 bad d)
  then show ?case by (simp add: sorted_fields_def)
qed auto

lemma without_field_normal:
  "canonical_json bad (without_field k (json_normal (JObj p fs))) = canonical_json bad (without_field k (JObj p fs))"
proof -
  have n: "without_field k (json_normal (JObj p fs)) = obj (map (\<lambda>f. (fst f, json_normal (snd f))) (filter (\<lambda>f. fst f \<noteq> k) (sorted_fields fs)))"
    by (simp add: filter_map comp_def)
  have "sorted_fields (filter (\<lambda>f. fst f \<noteq> k) (sorted_fields fs)) = sorted_fields (filter (\<lambda>f. fst f \<noteq> k) fs)"
    by (rule sorted_fields_cong) (simp add: own_filter own_sorted_fields)
  then have "canonical_json bad (obj (map (\<lambda>f. (fst f, json_normal (snd f))) (filter (\<lambda>f. fst f \<noteq> k) (sorted_fields fs))))
      = canonical_json bad (json_normal (obj (filter (\<lambda>f. fst f \<noteq> k) fs)))"
    by (simp add: sorted_fields_map sorted_fields_idem)
  then show ?thesis by (simp only: n canonical_normal without_field.simps)
qed

lemma get_normal_own: "own fs k = Some v \<Longrightarrow> get (json_normal (JObj p fs)) k = json_normal v"
proof -
  assume "own fs k = Some v"
  then have "own (map (\<lambda>f. (fst f, json_normal (snd f))) (sorted_fields fs)) k = Some (json_normal v)"
    by (simp add: own_map_snd own_sorted_fields)
  then show ?thesis by simp
qed

section \<open>Storage round trip\<close>

lemma truthy_normal: "truthy v \<Longrightarrow> truthy (json_normal v)"
  by (cases v) auto

definition owns :: "js \<Rightarrow> string \<Rightarrow> bool" where
  "owns v k \<longleftrightarrow> (case v of JObj p fs \<Rightarrow> own fs k \<noteq> None | _ \<Rightarrow> False)"

lemma owns_normal:
  assumes "owns e k" "get e k = x"
  shows "get (json_normal e) k = json_normal x"
  using assms by (cases e) (auto simp: owns_def get_normal_own simp del: json_normal.simps)

text \<open>C16: Evidence that the protector sealed with the digest of its unsigned content comes back from the
  storage service as the same envelope, up to the order of its keys.\<close>

theorem protected_evidence_comes_back:
  assumes "gcm_correct cr" "is_string (pr_key_id p)"
    and "unsigned_evidence_envelope e = Inr unsigned" "canonicalize_evidence unsigned = Inr canonical"
    and "protect cr p iv e (JStr (cr_sha256 cr (utf8 canonical))) = Inr r"
    and "json_doubles e" "list_all (\<lambda>k. is_string (get e k)) [''tenantId'', ''subjectId'', ''sourceId'', ''eventId'']"
    and "list_all (owns e) [''tenantId'', ''subjectId'', ''sourceId'', ''eventId'', ''signature'']"
  shows "\<exists>v. open_stored_evidence cr p r = Inr (Some v) \<and> re_envelope v = json_normal e
    \<and> canonicalize_evidence (re_envelope v) = canonicalize_evidence e
    \<and> re_content_hash v = JStr (cr_sha256 cr (utf8 canonical))"
proof -
  obtain body where b: "canonicalize_evidence e = Inr body" "unprotect cr p r = Inr (utf8 body)"
    "parse_json (utf8_decode (utf8 body)) = Some (json_normal e)"
    using protected_evidence_opens[OF assms(1,2,5)] assms(6) by blast
  obtain q fs where e: "e = JObj q fs" using assms(8) by (cases e) (auto simp: owns_def)
  have norm: "canonicalize_evidence (json_normal e) = Inr body" using b(1) by (simp add: canonicalize_evidence_def canonical_normal)
  have sig: "truthy (get e ''signature'')" and un: "unsigned = without_field ''signature'' e"
    using assms(3) unfolding unsigned_evidence_envelope_def ev_reject_def by simp_all
  have "get (json_normal e) ''signature'' = json_normal (get e ''signature'')" using assms(8) by (intro owns_normal) simp_all
  then have "unsigned_evidence_envelope (json_normal e) = Inr (without_field ''signature'' (json_normal e))"
    using truthy_normal[OF sig] by (simp add: unsigned_evidence_envelope_def e is_record_def)
  moreover have "canonicalize_evidence (without_field ''signature'' (json_normal e)) = Inr canonical"
    using assms(4) un without_field_normal by (simp add: canonicalize_evidence_def e del: json_normal.simps without_field.simps)
  moreover have ids: "get (json_normal e) k = get e k \<and> strict_eq (get e k) (get e k)"
    if "k \<in> set [''tenantId'', ''subjectId'', ''sourceId'', ''eventId'']" for k
    using that assms(7,8) owns_normal[OF _ refl, of e k] by (auto simp: list_all_iff is_string_iff)
  moreover have r: "get r ''tenantId'' = get e ''tenantId''" "get r ''subjectId'' = get e ''subjectId''"
    "get r ''sourceId'' = get e ''sourceId''" "get r ''eventId'' = get e ''eventId''"
    "get r ''contentHashSha256'' = JStr (cr_sha256 cr (utf8 canonical))" "get r ''formatVersion'' = num 1"
    using protect_ok[OF assms(5)] by metis+
  moreover have "ev_sha256 (cr_sha256 cr (utf8 canonical))" using assms(1) by (simp add: gcm_correct_def)
  moreover have "r \<noteq> JNull" using r(6) by auto
  ultimately show ?thesis using b norm
    by (simp add: open_stored_evidence_def digest_equal_self del: json_normal.simps)
qed


section \<open>Only authentic evidence reaches the guard\<close>

definition authentic :: "crypto \<Rightarrow> js \<Rightarrow> js \<Rightarrow> string \<Rightarrow> bool" where
  "authentic cr envelope context content_hash \<longleftrightarrow>
     (\<exists>unsigned canonical key signature.
        unsigned_evidence_envelope envelope = Inr unsigned \<and> canonicalize_evidence unsigned = Inr canonical
        \<and> content_hash = cr_sha256 cr (utf8 canonical)
        \<and> get (get envelope ''signature'') ''signedContentSha256'' = JStr content_hash
        \<and> get context ''publicKeyBase64Url'' = JStr (b64_encode key) \<and> length key = 32
        \<and> get context ''publicKeySha256'' = JStr (cr_sha256 cr key)
        \<and> get (get envelope ''signature'') ''signatureBase64Url'' = JStr (b64_encode signature) \<and> length signature = 64
        \<and> cr_verify cr (b64_encode key) (utf8 canonical) signature)"

lemma decode_canonical_ok:
  "decode_canonical_base64url v n r = Inr bs \<longleftrightarrow> v = JStr (b64_encode bs) \<and> length bs = n"
proof (cases v)
  case (JStr s)
  have "base64url_of_length n s \<and> b64_decode s = bs \<longleftrightarrow> s = b64_encode bs \<and> length bs = n"
    by (metis b64_decode_encode base64url_of_length_def)
  then show ?thesis by (cases "base64url_of_length n s") (simp_all add: JStr decode_canonical_base64url_def ev_reject_def)
qed (simp_all add: decode_canonical_base64url_def ev_reject_def)

lemma signed_content:
  assumes "verify_signed_content cr envelope k = Inr h"
  obtains unsigned canonical signature where "unsigned_evidence_envelope envelope = Inr unsigned"
    "canonicalize_evidence unsigned = Inr canonical" "h = cr_sha256 cr (utf8 canonical)"
    "get (get envelope ''signature'') ''signedContentSha256'' = JStr (cr_sha256 cr (utf8 canonical))"
    "get (get envelope ''signature'') ''signatureBase64Url'' = JStr (b64_encode signature)" "length signature = 64"
    "cr_verify cr k (utf8 canonical) signature"
proof -
  obtain unsigned canonical same where u: "unsigned_evidence_envelope envelope = Inr unsigned"
    "canonicalize_evidence unsigned = Inr canonical"
    "safe_digest_equal (cr_sha256 cr (utf8 canonical)) (get (get envelope ''signature'') ''signedContentSha256'') = Inr same"
    "(if \<not> same then ev_reject ''SIGNED_CONTENT_DIGEST_INVALID''
      else and_then (decode_canonical_base64url (get (get envelope ''signature'') ''signatureBase64Url'') 64
                        ''EVIDENCE_SIGNATURE_INVALID'') (\<lambda>signature.
         if \<not> cr_verify cr k (utf8 canonical) signature
         then ev_reject ''EVIDENCE_SIGNATURE_INVALID'' else Inr (cr_sha256 cr (utf8 canonical)))) = Inr h"
    using assms unfolding verify_signed_content_def and_then_eq_Inr by blast
  have t: "same" using u(4) by (cases same) (simp_all add: ev_reject_def)
  obtain sg where sg: "decode_canonical_base64url (get (get envelope ''signature'') ''signatureBase64Url'') 64 ''EVIDENCE_SIGNATURE_INVALID'' = Inr sg"
    "cr_verify cr k (utf8 canonical) sg" "h = cr_sha256 cr (utf8 canonical)"
    using u(4) t unfolding ev_reject_def not_True_eq_False if_False and_then_eq_Inr guard_eq_Inr by (simp add: ev_reject_def) blast
  show thesis
    using u(3) t sg decode_canonical_ok by (intro that[OF u(1,2)]) (simp_all add: safe_digest_equal_True)
qed

lemma signature_authentic:
  assumes "verify_envelope_signature cr envelope ctx = Inr h"
  shows "authentic cr envelope ctx h"
proof -
  obtain key ok where k: "decode_canonical_base64url (get ctx ''publicKeyBase64Url'') 32 ''VERIFICATION_KEY_INVALID'' = Inr key"
    "safe_digest_equal (cr_sha256 cr key) (get ctx ''publicKeySha256'') = Inr ok"
    "(if \<not> ok then ev_reject ''VERIFICATION_KEY_INVALID''
      else verify_signed_content cr envelope (str_of (get ctx ''publicKeyBase64Url''))) = Inr h"
    using assms unfolding verify_envelope_signature_def and_then_eq_Inr by blast
  have ok: "ok" using k(3) by (cases ok) (simp_all add: ev_reject_def)
  then have c: "verify_signed_content cr envelope (str_of (get ctx ''publicKeyBase64Url'')) = Inr h" using k(3) by simp
  have key: "get ctx ''publicKeyBase64Url'' = JStr (b64_encode key)" "length key = 32" using k(1) decode_canonical_ok by auto
  have d: "get ctx ''publicKeySha256'' = JStr (cr_sha256 cr key)" using k(2) ok by (simp add: safe_digest_equal_True)
  from signed_content[OF c[unfolded key(1) str_of.simps]] show ?thesis
    using key d unfolding authentic_def by metis
qed

lemma context_bound:
  assumes "assert_verification_context context envelope = Inr u"
  shows "strict_eq (get context ''tenantId'') (get envelope ''tenantId'')"
    "strict_eq (get context ''subjectId'') (get envelope ''subjectId'')"
    "strict_eq (get context ''sourceId'') (get envelope ''sourceId'')"
    "strict_eq (get context ''keyId'') (get (get envelope ''signature'') ''keyId'')"
    "strict_eq (get context ''evidenceType'') (get envelope ''evidenceType'')"
    "get context ''sourceState'' = JStr ''active''" "get context ''keyState'' = JStr ''active''"
  using assms[unfolded assert_verification_context_def ev_reject_def guard_eq_Inr evidence_ingestion_policy_def
      ingestion_policy.simps strict_eq_str] by blast+

text \<open>C20: The replay guard, and with it the stored state, only ever sees evidence that is authentic: the
  envelope is valid, the resolved context is active and bound to its tenant, subject, source and key,
  the content digest is the signed one and the signature verifies under the context's key. In
  particular every accepted submission is authentic, with that digest.\<close>

theorem only_authentic_evidence_reaches_the_guard:
  assumes "ingest_evidence cr deps envelope encoded g = (g', r)" "g' \<noteq> g \<or> r = Inr a"
  shows "id_validate deps envelope \<and> (\<exists>context h.
      authentic cr envelope context h
      \<and> get context ''sourceState'' = JStr ''active'' \<and> get context ''keyState'' = JStr ''active''
      \<and> strict_eq (get context ''tenantId'') (get envelope ''tenantId'')
      \<and> strict_eq (get context ''subjectId'') (get envelope ''subjectId'')
      \<and> strict_eq (get context ''sourceId'') (get envelope ''sourceId'')
      \<and> strict_eq (get context ''keyId'') (get (get envelope ''signature'') ''keyId'')
      \<and> (r = Inr a \<longrightarrow> ae_content_hash a = h \<and> ae_event a = get envelope ''eventId''
           \<and> (\<exists>pe d. id_protect deps envelope (JStr h) = Inr pe
                \<and> id_guard deps (guard_candidate envelope context h pe) g = (g', Inr d)
                \<and> get d ''accepted'' = JBool True)))"
proof -
  define pre where "pre = and_then (check_sizes envelope encoded) (\<lambda>_.
             and_then (id_resolve deps (obj [(''tenantId'', get envelope ''tenantId''),
                 (''subjectId'', get envelope ''subjectId''), (''sourceId'', get envelope ''sourceId''),
                 (''keyId'', get (get envelope ''signature'') ''keyId'')])) (\<lambda>context.
             if context = JNull then ev_reject ''VERIFICATION_CONTEXT_NOT_FOUND''
             else and_then (assert_verification_context context envelope) (\<lambda>_.
                  and_then (verify_envelope_signature cr envelope context) (\<lambda>h. Inr (context, h)))))"
  note ing = assms(1)[unfolded ingest_evidence_def, folded pre_def]
  have val: "id_validate deps envelope" using ing assms(2) by (auto simp: ev_reject_def split: if_splits)
  obtain ctx h where p: "pre = Inr (ctx, h)"
    using ing assms(2) val by (cases pre) auto
  have ok: "\<exists>u. assert_verification_context ctx envelope = Inr u" "verify_envelope_signature cr envelope ctx = Inr h"
    using p unfolding pre_def ev_reject_def and_then_eq_Inr guard_eq_Inr by auto
  obtain u where u: "assert_verification_context ctx envelope = Inr u" using ok(1) by blast
  have acc: "ae_content_hash a = h \<and> ae_event a = get envelope ''eventId''
           \<and> (\<exists>pe d. id_protect deps envelope (JStr h) = Inr pe
                \<and> id_guard deps (guard_candidate envelope ctx h pe) g = (g', Inr d)
                \<and> get d ''accepted'' = JBool True)" if r: "r = Inr a"
  proof -
    obtain d where d: "guarded_decision deps envelope ctx h g = (g', Inr d)" "check_decision d = Inr ()"
      "ae_content_hash a = h" "ae_event a = get envelope ''eventId''"
      using ing val p r by (auto split: prod.splits sum.splits)
    have t: "get d ''accepted'' = JBool True"
      using d(2) unfolding check_decision_def ev_reject_def guard_eq_Inr
      by (cases "get d ''accepted''") (auto split: if_splits)
    have "\<exists>pe. id_protect deps envelope (JStr h) = Inr pe \<and> id_guard deps (guard_candidate envelope ctx h pe) g = (g', Inr d)"
      using d(1) unfolding guarded_decision_def by (auto split: sum.splits prod.splits)
    then show ?thesis using d t by blast
  qed
  show ?thesis using val signature_authentic[OF ok(2)] context_bound[OF u] acc by blast
qed


subsection \<open>Witnesses\<close>

lemma b64_encode_length: "length (b64_encode bs) \<le> 4 * length bs"
proof (induction bs rule: b64_encode.induct)
  case (4 a b c bs)
  from "4.IH"[OF refl refl refl] show ?case by (simp add: Let_def)
qed (simp_all add: Let_def)

abbreviation in_signature :: js where
  "in_signature \<equiv>
     obj [(''keyId'', JStr ''key_00000000-0000-4000-8000-000000000001''),
          (''signedContentSha256'', JStr (replicate 64 (CHR ''1''))),
          (''signatureBase64Url'', JStr (b64_encode (replicate 64 (CHR 0x09))))]"

abbreviation in_fields :: "(string \<times> js) list" where
  "in_fields \<equiv>
     [(''tenantId'', JStr ''tnt_00000000-0000-4000-8000-000000000001''),
      (''subjectId'', JStr ''sub_00000000-0000-4000-8000-000000000001''),
      (''sourceId'', JStr ''src_00000000-0000-4000-8000-000000000001''),
      (''eventId'', JStr ''evt_00000000-0000-4000-8000-000000000001''),
      (''evidenceType'', JStr ''device''), (''synthetic'', JBool True), (''payload'', obj [(''score'', num (1/2))])]"

abbreviation in_envelope :: js where
  "in_envelope \<equiv> obj (in_fields @ [(''signature'', in_signature)])"

abbreviation in_context :: js where
  "in_context \<equiv>
     obj [(''tenantId'', JStr ''tnt_00000000-0000-4000-8000-000000000001''),
          (''subjectId'', JStr ''sub_00000000-0000-4000-8000-000000000001''),
          (''sourceId'', JStr ''src_00000000-0000-4000-8000-000000000001''),
          (''keyId'', JStr ''key_00000000-0000-4000-8000-000000000001''), (''evidenceType'', JStr ''device''),
          (''sourceSynthetic'', JBool True), (''sourceState'', JStr ''active''), (''keyState'', JStr ''active''),
          (''verificationAlgorithm'', JStr ''Ed25519''), (''keyVersion'', num 1), (''maximumAgeSeconds'', num 600),
          (''publicKeyBase64Url'', JStr (b64_encode (replicate 32 (CHR 0x09)))),
          (''publicKeySha256'', JStr (replicate 64 (CHR ''1'')))]"

lemma in_sorted:
  "sort [''tenantId'', ''subjectId'', ''sourceId'', ''eventId'', ''evidenceType'', ''synthetic'', ''payload'', ''signature''] =
     [''eventId'', ''evidenceType'', ''payload'', ''signature'', ''sourceId'', ''subjectId'', ''synthetic'', ''tenantId'']"
  "sort [''tenantId'', ''subjectId'', ''sourceId'', ''eventId'', ''evidenceType'', ''synthetic'', ''payload''] =
     [''eventId'', ''evidenceType'', ''payload'', ''sourceId'', ''subjectId'', ''synthetic'', ''tenantId'']"
  "sort [''keyId'', ''signedContentSha256'', ''signatureBase64Url''] = [''keyId'', ''signatureBase64Url'', ''signedContentSha256'']"
  by code_simp+

lemma in_canonical:
  "\<exists>t. canonicalize_evidence in_envelope = Inr t \<and> 1 \<le> length (utf8 t) \<and> length (utf8 t) \<le> 65536"
  "\<exists>t. canonicalize_evidence (obj in_fields) = Inr t \<and> utf8 t \<noteq> []"
  "\<exists>t. canonicalize_evidence (get in_envelope ''payload'') = Inr t \<and> length (utf8 t) \<le> 32768"
proof -
  have half: "length (rat_to_string (1 / 2)) \<le> 100" by code_simp
  have sig: "length (b64_encode (replicate 64 (CHR 0x09))) \<le> 256" using b64_encode_length[of "replicate 64 (CHR 0x09)"] by simp
  have lens: "length (json_string w) \<le> 6 * length w + 2" for w by (rule json_string_length)
  define t where "t = projr (canonicalize_evidence in_envelope)"
  have t: "canonicalize_evidence in_envelope = Inr t" "1 \<le> length t" "length t \<le> 10000"
    using half sig lens[of "b64_encode (replicate 64 (CHR 0x09))"] lens[of "replicate 64 (CHR ''1'')"]
      lens[of "''tnt_00000000-0000-4000-8000-000000000001''"] lens[of "''sub_00000000-0000-4000-8000-000000000001''"]
      lens[of "''src_00000000-0000-4000-8000-000000000001''"] lens[of "''evt_00000000-0000-4000-8000-000000000001''"]
      lens[of "''key_00000000-0000-4000-8000-000000000001''"] lens[of "''device''"]
      lens[of "''tenantId''"] lens[of "''subjectId''"] lens[of "''sourceId''"] lens[of "''eventId''"] lens[of "''payload''"]
      lens[of "''score''"] lens[of "''evidenceType''"] lens[of "''synthetic''"] lens[of "''signature''"] lens[of "''keyId''"]
      lens[of "''signedContentSha256''"] lens[of "''signatureBase64Url''"]
    unfolding t_def
    by (simp_all add: canonicalize_evidence_def sorted_fields_def in_sorted del: b64_encode.simps replicate.simps)
  then show "\<exists>t. canonicalize_evidence in_envelope = Inr t \<and> 1 \<le> length (utf8 t) \<and> length (utf8 t) \<le> 65536"
    using utf8_length[of t] by (intro exI[of _ t]) linarith
  show "\<exists>t. canonicalize_evidence (get in_envelope ''payload'') = Inr t \<and> length (utf8 t) \<le> 32768"
  proof -
    define p where "p = projr (canonicalize_evidence (get in_envelope ''payload''))"
    have p: "canonicalize_evidence (get in_envelope ''payload'') = Inr p" "length p \<le> 1000"
      using half lens[of "''score''"] unfolding p_def
      by (simp_all add: canonicalize_evidence_def sorted_fields_def)
    then show ?thesis using utf8_length[of p] by (intro exI[of _ p]) linarith
  qed
  show "\<exists>t. canonicalize_evidence (obj in_fields) = Inr t \<and> utf8 t \<noteq> []"
    by (simp add: canonicalize_evidence_def sorted_fields_def in_sorted utf8_Cons utf8_char_def)
qed

lemma in_unsigned: "unsigned_evidence_envelope in_envelope = Inr (obj in_fields)"
  by (simp add: unsigned_evidence_envelope_def is_record_def del: b64_encode.simps replicate.simps)

lemma in_protects:
  "\<exists>r. protect toy_crypto ev_example_protector (replicate 12 (CHR 0x05)) in_envelope (JStr (replicate 64 (CHR ''1''))) = Inr r"
proof -
  obtain t where t: "canonicalize_evidence in_envelope = Inr t" "1 \<le> length (utf8 t)" "length (utf8 t) \<le> 65536"
    using in_canonical(1) by blast
  let ?m = "obj [(''tenantId'', JStr ''tnt_00000000-0000-4000-8000-000000000001''),
          (''subjectId'', JStr ''sub_00000000-0000-4000-8000-000000000001''),
          (''sourceId'', JStr ''src_00000000-0000-4000-8000-000000000001''),
          (''eventId'', JStr ''evt_00000000-0000-4000-8000-000000000001''),
          (''contentHashSha256'', JStr (replicate 64 (CHR ''1''))), (''encryptionKeyId'', JStr ''local-evidence-v1'')]"
  have "ev_sha256 (replicate 64 (CHR ''1''))" by (simp add: ev_sha256_def is_sha256_def lower_hex_def list_all_iff)
  then have "require_storage_binding ?m = Inr ()" by (simp add: require_storage_binding_def ev_example_ids)
  moreover have "\<exists>aad. storage_aad ?m = Inr aad"
    by (simp add: storage_aad_def canonicalize_evidence_def sorted_fields_def ev_example_sorted evidence_storage_policy_def)
  then obtain aad where "storage_aad ?m = Inr aad" by blast
  moreover have "utf8 t \<noteq> []" using t(2) by auto
  ultimately show ?thesis using t
    by (simp add: protect_def Let_def evidence_storage_policy_def toy_crypto_def del: b64_encode.simps)
qed

lemma toy_sha: "t \<noteq> [] \<Longrightarrow> cr_sha256 toy_crypto t = replicate 64 (CHR ''1'')"
  by (simp add: toy_crypto_def)

lemma protected_evidence_comes_back_witness:
  "\<exists>r v. protect toy_crypto ev_example_protector (replicate 12 (CHR 0x05)) in_envelope (JStr (replicate 64 (CHR ''1''))) = Inr r
     \<and> open_stored_evidence toy_crypto ev_example_protector r = Inr (Some v) \<and> re_envelope v = json_normal in_envelope"
proof -
  obtain t where t: "canonicalize_evidence (obj in_fields) = Inr t" "utf8 t \<noteq> []" using in_canonical(2) by blast
  obtain r where r: "protect toy_crypto ev_example_protector (replicate 12 (CHR 0x05)) in_envelope (JStr (replicate 64 (CHR ''1''))) = Inr r"
    using in_protects by blast
  have "to_double (1/2) = Fin (1/2)" by code_simp
  then have d: "json_doubles in_envelope"
    by (simp add: sorted_fields_def double_def in_sorted del: b64_encode.simps replicate.simps)
  have k: "is_string (pr_key_id ev_example_protector)" by simp
  have s: "list_all (\<lambda>k. is_string (get in_envelope k)) [''tenantId'', ''subjectId'', ''sourceId'', ''eventId'']"
    "list_all (owns in_envelope) [''tenantId'', ''subjectId'', ''sourceId'', ''eventId'', ''signature'']"
    by (simp_all add: owns_def del: b64_encode.simps replicate.simps)
  from protected_evidence_comes_back[OF toy_crypto_correct k in_unsigned t(1) _ d s, of "replicate 12 (CHR 0x05)" r]
  show ?thesis using r toy_sha[OF t(2)] by (simp del: json_normal.simps b64_encode.simps replicate.simps) blast
qed

definition in_deps :: "nat ingestion_deps" where
  "in_deps =
     \<lparr> id_validate = (\<lambda>_. True), id_resolve = (\<lambda>_. Inr in_context),
       id_guard = (\<lambda>c g. (Suc g, Inr (obj [(''accepted'', JBool True)]))),
       id_protect = (\<lambda>e h. Inr rg_protected) \<rparr>"

lemma in_verified: "verify_envelope_signature toy_crypto in_envelope in_context = Inr (replicate 64 (CHR ''1''))"
proof -
  obtain t where t: "canonicalize_evidence (obj in_fields) = Inr t" "utf8 t \<noteq> []" using in_canonical(2) by blast
  have h: "ev_sha256 (replicate 64 (CHR ''1''))" by (simp add: ev_sha256_def is_sha256_def lower_hex_def list_all_iff)
  have key: "decode_canonical_base64url (get in_context ''publicKeyBase64Url'') 32 ''VERIFICATION_KEY_INVALID'' = Inr (replicate 32 (CHR 0x09))"
    "decode_canonical_base64url (get in_signature ''signatureBase64Url'') 64 ''EVIDENCE_SIGNATURE_INVALID'' = Inr (replicate 64 (CHR 0x09))"
    unfolding decode_canonical_ok by (simp_all del: b64_encode.simps replicate.simps)
  have sig: "get in_envelope ''signature'' = in_signature" "get in_signature ''signedContentSha256'' = JStr (replicate 64 (CHR ''1''))"
    "get in_context ''publicKeySha256'' = JStr (replicate 64 (CHR ''1''))"
    by (simp_all del: b64_encode.simps replicate.simps)
  have ne: "replicate 32 (CHR 0x09) \<noteq> []" by simp
  have "verify_signed_content toy_crypto in_envelope k = Inr (replicate 64 (CHR ''1''))" for k
    unfolding verify_signed_content_def in_unsigned and_then_Inr t(1) toy_sha[OF t(2)] sig digest_equal_self[OF h] key
    by (simp add: toy_crypto_def)
  then show ?thesis
    unfolding verify_envelope_signature_def key and_then_Inr toy_sha[OF ne] sig digest_equal_self[OF h] by simp
qed


lemma in_sizes: "check_sizes in_envelope JUndef = Inr ()"
proof -
  obtain t p where t: "canonicalize_evidence in_envelope = Inr t" "1 \<le> length (utf8 t)" "length (utf8 t) \<le> 65536"
    "canonicalize_evidence (get in_envelope ''payload'') = Inr p" "length (utf8 p) \<le> 32768"
    using in_canonical(1,3) by blast
  have n: "(1::rat) \<le> of_nat (length (utf8 t))" "(of_nat (length (utf8 t)) :: rat) \<le> 65536"
    using t(2,3) by (metis of_nat_1 of_nat_le_iff, metis of_nat_le_iff of_nat_numeral)
  have "utf8 t \<noteq> []" using t(2) by auto
  then show ?thesis
    unfolding check_sizes_def canonical_byte_length_def t(1,4) and_then_Inr
    using n t(5) small_nat_safe[OF t(3)] by (simp add: nullish_def evidence_ingestion_policy_def not_less)
qed

lemma in_context_ok: "assert_verification_context in_context in_envelope = Inr ()"
proof -
  have key: "ev_key_id ''key_00000000-0000-4000-8000-000000000001''" by code_simp
  have h: "ev_sha256 (replicate 64 (CHR ''1''))" by (simp add: ev_sha256_def is_sha256_def lower_hex_def list_all_iff)
  have pk: "ev_public_key (b64_encode (replicate 32 (CHR 0x09)))" by code_simp
  have g: "get in_envelope ''signature'' = in_signature" by (simp del: b64_encode.simps replicate.simps)
  show ?thesis
    unfolding assert_verification_context_def g
    using key h pk ev_example_ids
    by (simp add: one_of_def evidence_types_def is_safe_integer_def is_integer_rat_def max_safe_integer_def
        evidence_ingestion_policy_def del: b64_encode.simps replicate.simps)
qed

lemma only_authentic_evidence_reaches_the_guard_witness:
  "\<exists>a. ingest_evidence toy_crypto in_deps in_envelope JUndef 0 = (1, Inr a) \<and> ae_content_hash a = replicate 64 (CHR ''1'')"
proof -
  obtain d where d: "require_protected_evidence rg_protected = Inr d" using rg_protected_ok by blast
  have dec: "guarded_decision in_deps in_envelope in_context h 0 = (1, Inr (obj [(''accepted'', JBool True)]))" for h
    unfolding guarded_decision_def in_deps_def ingestion_deps.simps and_then_Inr d by simp
  have ok: "check_decision (obj [(''accepted'', JBool True)]) = Inr ()" by (simp add: check_decision_def)
  have deps: "id_validate in_deps e" "id_resolve in_deps b = Inr in_context" "in_context \<noteq> JNull" for e b
    by (simp_all add: in_deps_def)
  obtain a where a: "ingest_evidence toy_crypto in_deps in_envelope JUndef 0 = (1, Inr a)"
    unfolding ingest_evidence_def in_sizes and_then_Inr deps(2) in_context_ok in_verified
    using deps(1,3) dec ok by simp
  have "ae_content_hash a = replicate 64 (CHR ''1'')"
  proof -
    obtain ctx h where "authentic toy_crypto in_envelope ctx h" "ae_content_hash a = h"
      using only_authentic_evidence_reaches_the_guard[OF a, of a] by blast
    then obtain canonical where c: "canonicalize_evidence (obj in_fields) = Inr canonical" "h = cr_sha256 toy_crypto (utf8 canonical)"
      unfolding authentic_def in_unsigned by blast
    obtain t where "canonicalize_evidence (obj in_fields) = Inr t" "utf8 t \<noteq> []" using in_canonical(2) by blast
    then show ?thesis using c \<open>ae_content_hash a = h\<close> toy_sha by auto
  qed
  then show ?thesis using a by blast
qed

end
