(* ===== verification/JsNumbers.thy ===== *)
theory JsNumbers
  imports CanonicalJson
begin

text \<open>
  \<open>Number(value)\<close>, which the repositories apply to the text of PostgreSQL's wide integers, and the
  byte buffers that travel as query parameters and results.
\<close>

definition digits_value :: "nat \<Rightarrow> string \<Rightarrow> int" where
  "digits_value base ds = foldl (\<lambda>a d. int base * a + int (the (hex_val d))) 0 ds"

definition radix_literal :: "nat \<Rightarrow> string \<Rightarrow> js_num" where
  "radix_literal base ds =
     (if ds \<noteq> [] \<and> list_all (\<lambda>d. case hex_val d of None \<Rightarrow> False | Some n \<Rightarrow> n < base) ds
      then to_double (of_int (digits_value base ds)) else NaN)"

definition decimal_literal :: "string \<Rightarrow> rat option" where
  "decimal_literal s =
     (let ds = takeWhile digit s; r = dropWhile digit s;
          point = r \<noteq> [] \<and> hd r = CHR ''.'';
          fs = (if point then takeWhile digit (tl r) else []);
          u = (if point then dropWhile digit (tl r) else r)
      in if ds = [] \<and> fs = [] then None
         else case parse_exponent u of
                Some (e, []) \<Rightarrow> Some (of_int (read_pos 0 (ds @ fs)) * 10 powi (e - int (length fs)))
              | _ \<Rightarrow> None)"

definition string_to_number :: "string \<Rightarrow> js_num" where
  "string_to_number s =
     (let t = trim s; neg = t \<noteq> [] \<and> hd t = CHR ''-''; signed = t \<noteq> [] \<and> hd t \<in> {CHR ''-'', CHR ''+''};
          u = (if signed then tl t else t)
      in if t = [] then Fin 0
         else if take 2 t \<in> {''0x'', ''0X''} then radix_literal 16 (drop 2 t)
         else if take 2 t \<in> {''0o'', ''0O''} then radix_literal 8 (drop 2 t)
         else if take 2 t \<in> {''0b'', ''0B''} then radix_literal 2 (drop 2 t)
         else if u = ''Infinity'' then (if neg then NegInf else PosInf)
         else case decimal_literal u of
                None \<Rightarrow> NaN
              | Some x \<Rightarrow> to_double (if neg then - x else x))"

fun to_number :: "js \<Rightarrow> js_num" where
  "to_number (JNum n) = n"
| "to_number (JBool b) = Fin (if b then 1 else 0)"
| "to_number JNull = Fin 0"
| "to_number JUndef = NaN"
| "to_number (JStr s) = string_to_number s"
| "to_number (JDate d) = (case d of None \<Rightarrow> NaN | Some t \<Rightarrow> Fin (of_int t))"
| "to_number (JArr vs) = string_to_number (to_string (JArr vs))"
| "to_number (JObj p fs) = NaN"
| "to_number (JFun f) = NaN"

text \<open>\<open>v > q\<close> for a number; \<open>undefined\<close> and \<open>null\<close> compare as \<open>NaN\<close> and 0.\<close>

definition js_greater :: "js \<Rightarrow> rat \<Rightarrow> bool" where
  "js_greater v q = (case to_number v of Fin x \<Rightarrow> q < x | PosInf \<Rightarrow> True | _ \<Rightarrow> False)"

section \<open>Buffers as values\<close>

definition buffer_value :: "bytes \<Rightarrow> js" where
  "buffer_value bs = JArr (map (\<lambda>b. num (of_nat (of_char b))) bs)"

text \<open>\<open>Buffer.from(value)\<close> for a buffer or a string.\<close>

fun buffer_from :: "js \<Rightarrow> bytes res" where
  "buffer_from (JStr s) = Inr (utf8 s)"
| "buffer_from (JArr vs) = Inr (map (\<lambda>v. char_of (nat (\<lfloor>num_of v\<rfloor> mod 256))) vs)"
| "buffer_from _ = Inl TypeErrorThrown"

lemma buffer_round_trip [simp]: "buffer_from (buffer_value bs) = Inr bs"
proof -
  have "char_of (nat (int (of_char b) mod 256)) = b" for b
  proof -
    have "(of_char b :: nat) < 256" by (rule nat_of_char_less_256)
    then have "int (of_char b) mod 256 = int (of_char b)" by simp
    then show ?thesis by simp
  qed
  then show ?thesis by (simp add: buffer_value_def comp_def map_idI)
qed

end
