(* ===== verification/Transactions.thy ===== *)
theory Transactions
  imports JsValues
begin

text \<open>
  Effects. An asynchronous function of the code is a function of the state of the world, which the
  collaborators (the database, other services) own: it returns the world after the call with the
  result. A use of a database connection is a program of statements, \<open>Ask\<close> with the continuation on the
  result or \<open>Done\<close>; the repositories run such programs inside the transaction bracket
  \<open>connect; BEGIN; ...; COMMIT | ROLLBACK; release\<close>, written out once here.
\<close>

section \<open>Actions\<close>

type_synonym ('w, 'a) act = "'w \<Rightarrow> 'w \<times> 'a res"

definition act_ret :: "'a \<Rightarrow> ('w, 'a) act" where
  "act_ret x w = (w, Inr x)"

definition act_fail :: "js_error \<Rightarrow> ('w, 'a) act" where
  "act_fail e w = (w, Inl e)"

definition act_res :: "'a res \<Rightarrow> ('w, 'a) act" where
  "act_res r w = (w, r)"

definition act_bind :: "('w, 'a) act \<Rightarrow> ('a \<Rightarrow> ('w, 'b) act) \<Rightarrow> ('w, 'b) act" where
  "act_bind m f w = (case m w of (w', Inl e) \<Rightarrow> (w', Inl e) | (w', Inr x) \<Rightarrow> f x w')"

definition act_catch :: "('w, 'a) act \<Rightarrow> (js_error \<Rightarrow> ('w, 'a) act) \<Rightarrow> ('w, 'a) act" where
  "act_catch m h w = (case m w of (w', Inl e) \<Rightarrow> h e w' | (w', Inr x) \<Rightarrow> (w', Inr x))"

lemma act_simps [simp, res_simps]:
  "act_ret x w = (w, Inr x)" "act_fail e w = (w, Inl e)" "act_res r w = (w, r)"
  by (simp_all add: act_ret_def act_fail_def act_res_def)

lemma act_bind_Inr [res_simps]:
  "act_bind m f w = (w', Inr y) \<longleftrightarrow> (\<exists>v x. m w = (v, Inr x) \<and> f x v = (w', Inr y))"
  by (auto simp: act_bind_def split: prod.splits sum.splits)

lemma act_bind_step [simp]: "m w = (v, Inr x) \<Longrightarrow> act_bind m f w = f x v"
  "m w = (v, Inl e) \<Longrightarrow> act_bind m f w = (v, Inl e)"
  by (simp_all add: act_bind_def)

lemma act_bindE:
  assumes "act_bind m f w = (w', Inr y)"
  obtains v x where "m w = (v, Inr x)" "f x v = (w', Inr y)"
  using assms act_bind_Inr[of m f w w' y] by blast

section \<open>Statements\<close>

text \<open>A program over one connection.\<close>

datatype 'a statements = Done "'a res" | Ask string "js list" "js \<Rightarrow> 'a statements"

text \<open>The pool and its client, as the code uses them; \<open>db_aborted\<close> is \<open>signal?.aborted\<close>.\<close>

record 'w db =
  db_connect :: "('w, unit) act"
  db_query :: "string \<Rightarrow> js list \<Rightarrow> ('w, js) act"
  db_release :: "'w \<Rightarrow> 'w"
  db_aborted :: "'w \<Rightarrow> bool"

text \<open>\<open>const query = (text, values) => ...\<close>: an aborted signal stops the program before the next
  statement, with the module's error.\<close>

primrec run_statements :: "'w db \<Rightarrow> js_error \<Rightarrow> 'a statements \<Rightarrow> ('w, 'a) act" where
  "run_statements db stop (Done r) = act_res r"
| "run_statements db stop (Ask sql values k) =
     (\<lambda>w. if db_aborted db w then (w, Inl stop)
          else case db_query db sql values w of
                 (w', Inl e) \<Rightarrow> (w', Inl e)
               | (w', Inr v) \<Rightarrow> run_statements db stop (k v) w')"

text \<open>
  The bracket. \<open>own e\<close> says that an error is the module's own and passes unchanged, any other becomes
  \<open>stop\<close>. A connection that cannot be made is outside the \<open>try\<close>. The rollback is sent straight to the
  client and its failure is ignored.
\<close>

definition in_transaction ::
  "'w db \<Rightarrow> js_error \<Rightarrow> (js_error \<Rightarrow> bool) \<Rightarrow> 'a statements \<Rightarrow> ('w, 'a) act" where
  "in_transaction db stop own_err body w =
     (let convert = (\<lambda>e. if own_err e then e else stop) in
      case db_connect db w of
        (w1, Inl e) \<Rightarrow> (w1, Inl e)
      | (w1, Inr _) \<Rightarrow>
          (case run_statements db stop (Ask ''BEGIN'' [] (\<lambda>_. Done (Inr ()))) w1 of
             (w2, Inl e) \<Rightarrow> (db_release db w2, Inl (convert e))
           | (w2, Inr _) \<Rightarrow>
               (case run_statements db stop body w2 of
                  (w3, Inr v) \<Rightarrow> (db_release db w3, Inr v)
                | (w3, Inl e) \<Rightarrow> (db_release db (fst (db_query db ''ROLLBACK'' [] w3)), Inl (convert e)))))"

definition session_limits_sql :: string where
  "session_limits_sql =
     ''SELECT set_config('statement_timeout', $1, true), set_config('lock_timeout', $2, true), set_config('idle_in_transaction_session_timeout', $3, true)''"

section \<open>Discipline of the bracket\<close>

datatype db_event = Connected | Stmt string | Released

text \<open>The same database, recording what it is asked.\<close>

definition traced :: "'w db \<Rightarrow> ('w \<times> db_event list) db" where
  "traced db =
     \<lparr> db_connect = (\<lambda>(w, l). case db_connect db w of (w', r) \<Rightarrow>
         ((w', if isl r then l else l @ [Connected]), r)),
       db_query = (\<lambda>sql values (w, l). case db_query db sql values w of (w', r) \<Rightarrow> ((w', l @ [Stmt sql]), r)),
       db_release = (\<lambda>(w, l). (db_release db w, l @ [Released])),
       db_aborted = (\<lambda>(w, l). db_aborted db w) \<rparr>"

text \<open>Every path that ends in success sends \<open>COMMIT\<close> as its last statement, and none sends a statement
  of the bracket before.\<close>

primrec commits :: "'a statements \<Rightarrow> bool" where
  "commits (Done r) \<longleftrightarrow> isl r"
| "commits (Ask sql values k) \<longleftrightarrow>
     (if sql = ''COMMIT'' then \<forall>v. \<exists>r. k v = Done r
      else sql \<noteq> ''BEGIN'' \<and> sql \<noteq> ''ROLLBACK'' \<and> (\<forall>v. commits (k v)))"

definition bracket_free :: "db_event list \<Rightarrow> bool" where
  "bracket_free es \<longleftrightarrow> list_all (\<lambda>e. case e of Stmt s \<Rightarrow> s \<notin> {''BEGIN'', ''COMMIT'', ''ROLLBACK''} | _ \<Rightarrow> False) es"

lemma bracket_free_simps [simp]:
  "bracket_free []" "bracket_free (Stmt s # es) \<longleftrightarrow> s \<notin> {''BEGIN'', ''COMMIT'', ''ROLLBACK''} \<and> bracket_free es"
  by (simp_all add: bracket_free_def)

lemma traced_query: "db_query (traced db) sql vs (w, l) = ((fst (db_query db sql vs w), l @ [Stmt sql]), snd (db_query db sql vs w))"
  by (simp add: traced_def split: prod.splits)

lemma traced_aborted [simp]: "db_aborted (traced db) (w, l) = db_aborted db w"
  by (simp add: traced_def)

lemma traced_release [simp]: "db_release (traced db) (w, l) = (db_release db w, l @ [Released])"
  by (simp add: traced_def)

lemma run_statements_trace:
  assumes "run_statements (traced db) stop p (w, l) = ((w', l'), r)" "commits p"
  shows "\<exists>es. bracket_free es \<and>
    (l' = l @ es @ [Stmt ''COMMIT''] \<or> (l' = l @ es \<and> isl r))"
  using assms
proof (induction p arbitrary: w l)
  case (Done x)
  then show ?case by (auto intro: exI[of _ "[]"])
next
  case (Ask sql vs k)
  show ?case
  proof (cases "db_aborted db w")
    case True
    then show ?thesis using Ask.prems(1) by (intro exI[of _ "[]"]) auto
  next
    case False
    obtain u q where q: "db_query db sql vs w = (u, q)" by fastforce
    show ?thesis
    proof (cases q)
      case (Inl e)
      then have l': "l' = l @ [Stmt sql]" "isl r" using Ask.prems(1) False q by (auto simp: traced_query)
      show ?thesis
      proof (cases "sql = ''COMMIT''")
        case True
        then show ?thesis using l' by (intro exI[of _ "[]"]) simp
      next
        case False
        then show ?thesis using l' Ask.prems(2) by (intro exI[of _ "[Stmt sql]"]) simp
      qed
    next
      case (Inr v)
      then have run: "run_statements (traced db) stop (k v) (u, l @ [Stmt sql]) = ((w', l'), r)"
        using Ask.prems(1) False q by (simp add: traced_query)
      show ?thesis
      proof (cases "sql = ''COMMIT''")
        case True
        then obtain d where "k v = Done d" using Ask.prems(2) by fastforce
        then have "l' = l @ [Stmt ''COMMIT'']" using run True by simp
        then show ?thesis by (intro exI[of _ "[]"]) simp
      next
        case False
        then have c: "commits (k v)" "sql \<noteq> ''BEGIN''" "sql \<noteq> ''ROLLBACK''" using Ask.prems(2) by simp_all
        obtain es where es: "bracket_free es" "l' = (l @ [Stmt sql]) @ es @ [Stmt ''COMMIT''] \<or> (l' = (l @ [Stmt sql]) @ es \<and> isl r)"
          using Ask.IH[OF _ run c(1)] by auto
        then show ?thesis using c False by (intro exI[of _ "Stmt sql # es"]) auto
      qed
    qed
  qed
qed

text \<open>What a transaction leaves in the log.\<close>

definition transaction_log :: "db_event list \<Rightarrow> bool \<Rightarrow> bool" where
  "transaction_log es failed \<longleftrightarrow>
     (failed \<and> es = []) \<or> (failed \<and> es = [Connected, Released]) \<or>
     (\<exists>body. bracket_free body \<and>
        ((\<not> failed \<and> es = [Connected, Stmt ''BEGIN''] @ body @ [Stmt ''COMMIT'', Released])
         \<or> (failed \<and> es = [Connected, Stmt ''BEGIN'', Released])
         \<or> (failed \<and> es = [Connected, Stmt ''BEGIN''] @ body @ [Stmt ''ROLLBACK'', Released])
         \<or> (failed \<and> es = [Connected, Stmt ''BEGIN''] @ body @ [Stmt ''COMMIT'', Stmt ''ROLLBACK'', Released])))"

theorem in_transaction_log:
  assumes "in_transaction (traced db) stop own_err body (w, []) = ((w', l), r)" "commits body"
  shows "transaction_log l (isl r)"
proof -
  obtain w1 c where c: "db_connect db w = (w1, c)" by fastforce
  show ?thesis
  proof (cases c)
    case (Inl e)
    then show ?thesis using assms(1) c by (auto simp: in_transaction_def traced_def transaction_log_def Let_def)
  next
    case (Inr u)
    have con: "db_connect (traced db) (w, []) = ((w1, [Connected]), Inr u)" using c Inr by (simp add: traced_def)
    show ?thesis
    proof (cases "db_aborted db w1")
      case True
      then show ?thesis using assms(1) con by (auto simp: in_transaction_def transaction_log_def Let_def)
    next
      case False
      obtain w2 b where b: "db_query db ''BEGIN'' [] w1 = (w2, b)" by fastforce
      show ?thesis
      proof (cases b)
        case (Inl e)
        then show ?thesis using assms(1) con False b
          by (auto simp: in_transaction_def transaction_log_def Let_def traced_query intro: exI[of _ "[]"])
      next
        case (Inr v)
        obtain w3 l3 s where run: "run_statements (traced db) stop body (w2, [Connected, Stmt ''BEGIN'']) = ((w3, l3), s)"
          by (metis surj_pair)
        obtain es where es: "bracket_free es"
          "l3 = [Connected, Stmt ''BEGIN''] @ es @ [Stmt ''COMMIT''] \<or> (l3 = [Connected, Stmt ''BEGIN''] @ es \<and> isl s)"
          using run_statements_trace[OF run assms(2)] by blast
        have eqn: "((w', l), r) = (case s of
            Inr x \<Rightarrow> ((db_release db w3, l3 @ [Released]), Inr x)
          | Inl e \<Rightarrow> ((db_release db (fst (db_query db ''ROLLBACK'' [] w3)), l3 @ [Stmt ''ROLLBACK'', Released]),
                      Inl (if own_err e then e else stop)))"
          using assms(1) con False b Inr run
          by (simp add: in_transaction_def Let_def traced_query split: sum.splits)
        show ?thesis
          using eqn es by (cases s) (auto simp: transaction_log_def)
      qed
    qed
  qed
qed

lemma traced_commits:
  assumes "commits p"
  shows "case in_transaction (traced db) stop own_err p (w, []) of ((w', l), r) \<Rightarrow> transaction_log l (isl r)"
proof -
  obtain w' l r where e: "in_transaction (traced db) stop own_err p (w, []) = ((w', l), r)" by (metis surj_pair)
  show ?thesis using in_transaction_log[OF e assms] e by simp
qed

lemma transaction_log_empty [simp]: "transaction_log [] True"
  by (simp add: transaction_log_def)

lemma run_Ask_Inr:
  "run_statements (traced db) stop (Ask sql vs k) (w, l) = (s, Inr x) \<longleftrightarrow>
     (\<exists>u v. \<not> db_aborted db w \<and> db_query db sql vs w = (u, Inr v) \<and> run_statements (traced db) stop (k v) (u, l @ [Stmt sql]) = (s, Inr x))"
  by (cases "db_query db sql vs w") (auto simp: traced_query split: sum.splits)

lemma run_Done_Inr: "run_statements db stop (Done r) s = (s', Inr x) \<longleftrightarrow> s' = s \<and> r = Inr x"
  by auto

lemma in_transaction_Inr:
  assumes "in_transaction (traced db) stop own_err p (w, []) = ((w', l), Inr x)"
  shows "\<exists>w1 w2 k. run_statements (traced db) stop p (w1, [Connected, Stmt ''BEGIN'']) = ((w2, k), Inr x) \<and> l = k @ [Released]"
proof -
  obtain w1 where c: "db_connect db w = (w1, Inr ())"
    using assms by (auto simp: in_transaction_def traced_def Let_def split: prod.splits sum.splits)
  then have con: "db_connect (traced db) (w, []) = ((w1, [Connected]), Inr ())" by (simp add: traced_def)
  obtain s where s: "run_statements (traced db) stop (Ask ''BEGIN'' [] (\<lambda>_. Done (Inr ()))) (w1, [Connected]) = (s, Inr ())"
     "(case run_statements (traced db) stop p s of (s', Inr v) \<Rightarrow> (db_release (traced db) s', Inr v)
        | (s', Inl e) \<Rightarrow> (db_release (traced db) (fst (db_query (traced db) ''ROLLBACK'' [] s')), Inl (if own_err e then e else stop)))
      = ((w', l), Inr x)"
    using assms con by (auto simp: in_transaction_def Let_def simp del: run_statements.simps split: prod.splits sum.splits)
  from s(1) obtain u where u: "s = (u, [Connected, Stmt ''BEGIN''])" by (auto simp: run_Ask_Inr run_Done_Inr simp del: run_statements.simps)
  from s(2) u obtain w2 k where "run_statements (traced db) stop p (u, [Connected, Stmt ''BEGIN'']) = ((w2, k), Inr x)"
    "l = k @ [Released]"
    by (auto split: prod.splits sum.splits)
  then show ?thesis by blast
qed

end
