(* ===== verification/EvidencePersistence.thy ===== *)
theory EvidencePersistence
  imports EvidenceIngestion JsNumbers Transactions
begin

text \<open>
  \<open>services/evidence/src/index.mjs\<close>, fourth part: the PostgreSQL resolver, replay guard and evidence
  repository. Each call is a program of statements inside the transaction bracket; the stored
  procedures they call are outside the code and answer through the database parameter.
\<close>

section \<open>Helpers\<close>

definition ev_own :: "js_error \<Rightarrow> bool" where
  "ev_own = error_is EvidenceIngestionUnavailableError"

definition require_binding :: "js \<Rightarrow> unit res" where
  "require_binding b =
     (if \<not> truthy b
         \<or> \<not> re_test_or_empty ev_tenant_id (get b ''tenantId'')
         \<or> \<not> re_test_or_empty ev_subject_id (get b ''subjectId'')
         \<or> \<not> re_test_or_empty ev_source_id (get b ''sourceId'')
         \<or> \<not> re_test_or_empty ev_key_id (get b ''keyId'')
      then Inl ev_unavailable else Inr ())"

text \<open>\<open>pd v\<close> is \<open>new Date(v).getTime()\<close>.\<close>

definition as_iso_timestamp :: "(js \<Rightarrow> int option) \<Rightarrow> js \<Rightarrow> string res" where
  "as_iso_timestamp pd v =
     (case (case v of JDate d \<Rightarrow> d | _ \<Rightarrow> pd v) of None \<Rightarrow> Inl ev_unavailable | Some t \<Rightarrow> Inr (time_to_iso t))"

text \<open>\<open>result.rows[0]\<close>, whose properties the code reads at once.\<close>

definition first_row :: "js \<Rightarrow> js res" where
  "first_row result = (case elements (get result ''rows'') of [] \<Rightarrow> Inl TypeErrorThrown | r # _ \<Rightarrow> Inr r)"

abbreviation row_count :: "js \<Rightarrow> js" where
  "row_count result \<equiv> get result ''rowCount''"

definition app_session :: "'a statements \<Rightarrow> 'a statements" where
  "app_session k =
     Ask ''SET LOCAL ROLE tenant_trust_app'' [] (\<lambda>_.
     Ask session_limits_sql [JStr ''4000ms'', JStr ''1000ms'', JStr ''5000ms''] (\<lambda>_. k))"

definition commit_with :: "'a res \<Rightarrow> 'a statements" where
  "commit_with r = (case r of Inl e \<Rightarrow> Done (Inl e) | Inr x \<Rightarrow> Ask ''COMMIT'' [] (\<lambda>_. Done (Inr x)))"

section \<open>Verification context\<close>

definition resolution_sql :: string where
  "resolution_sql =
     ''SELECT tenant_id, subject_id, source_id, evidence_type, source_synthetic, maximum_age_seconds, source_state, verification_algorithm, key_id, key_state, key_version, public_key_base64url, public_key_sha256, key_enrolled_at FROM trust.resolve_evidence_verification_context($1, $2, $3, $4)''"

definition context_from_row :: "(js \<Rightarrow> int option) \<Rightarrow> js \<Rightarrow> js res" where
  "context_from_row pd row =
     and_then (as_iso_timestamp pd (get row ''key_enrolled_at'')) (\<lambda>enrolled. Inr (obj
       [(''tenantId'', get row ''tenant_id''), (''subjectId'', get row ''subject_id''),
        (''sourceId'', get row ''source_id''), (''evidenceType'', get row ''evidence_type''),
        (''sourceSynthetic'', get row ''source_synthetic''),
        (''maximumAgeSeconds'', JNum (to_number (get row ''maximum_age_seconds''))),
        (''sourceState'', get row ''source_state''), (''verificationAlgorithm'', get row ''verification_algorithm''),
        (''keyId'', get row ''key_id''), (''keyState'', get row ''key_state''),
        (''keyVersion'', JNum (to_number (get row ''key_version''))),
        (''publicKeyBase64Url'', get row ''public_key_base64url''), (''publicKeySha256'', get row ''public_key_sha256''),
        (''keyEnrolledAt'', JStr enrolled)]))"

definition resolution_statements :: "(js \<Rightarrow> int option) \<Rightarrow> js \<Rightarrow> js statements" where
  "resolution_statements pd b =
     app_session (Ask resolution_sql [get b ''tenantId'', get b ''subjectId'', get b ''sourceId'', get b ''keyId''] (\<lambda>result.
       if js_greater (row_count result) 1 then Done (Inl ev_unavailable)
       else commit_with (if strict_eq (row_count result) (num 0) then Inr JNull
                         else and_then (first_row result) (context_from_row pd))))"

definition resolve_verification_context :: "'w db \<Rightarrow> (js \<Rightarrow> int option) \<Rightarrow> js \<Rightarrow> ('w, js) act" where
  "resolve_verification_context db pd b w =
     (case require_binding b of
        Inl e \<Rightarrow> (w, Inl e)
      | Inr _ \<Rightarrow> if db_aborted db w then (w, Inl ev_unavailable)
                else in_transaction db ev_unavailable ev_own (resolution_statements pd b) w)"

section \<open>Replay guard\<close>

definition replay_guard_sql :: string where
  "replay_guard_sql =
     ''SELECT accepted, reason_code, accepted_at, highest_source_sequence FROM trust.apply_evidence_replay_guard($1, $2, $3, $4, $5, $6, $7, $8, $9, $10, $11, $12)''"

definition store_evidence_sql :: string where
  "store_evidence_sql =
     ''SELECT retained_until FROM trust.store_encrypted_evidence($1, $2, $3, $4, $5, $6, $7, $8, $9)''"

definition highest_sequence :: "js \<Rightarrow> rat option res" where
  "highest_sequence v =
     (if v = JNull then Inr None
      else if is_safe_integer (JNum (to_number v)) then Inr (Some (num_of (JNum (to_number v)))) else Inl ev_unavailable)"

definition store_statements :: "(js \<Rightarrow> int option) \<Rightarrow> js \<Rightarrow> js \<Rightarrow> rat option \<Rightarrow> replay_decision statements" where
  "store_statements pd c row highest =
     (let pe = get c ''protectedEvidence'' in
      case require_protected_evidence pe of
        Inl e \<Rightarrow> Done (Inl e)
      | Inr d \<Rightarrow>
          if \<not> binds_candidate pe c then Done (Inl ev_unavailable)
          else Ask store_evidence_sql
            [get c ''tenantId'', get c ''eventId'', get pe ''formatVersion'', get pe ''encryptionKeyId'',
             buffer_value (de_iv d), buffer_value (de_tag d), buffer_value (de_ciphertext d),
             get pe ''canonicalSha256'', get pe ''canonicalByteLength''] (\<lambda>stored.
            if \<not> strict_eq (row_count stored) (num 1) then Done (Inl ev_unavailable)
            else commit_with (and_then (as_iso_timestamp pd (get row ''accepted_at'')) (\<lambda>t. Inr
              \<lparr> rd_accepted = True, rd_reason = None, rd_accepted_at = Some t, rd_highest = highest \<rparr>))))"

definition guard_decision_statements :: "(js \<Rightarrow> int option) \<Rightarrow> js \<Rightarrow> js \<Rightarrow> replay_decision statements" where
  "guard_decision_statements pd c result =
     (if \<not> strict_eq (row_count result) (num 1) then Done (Inl ev_unavailable)
      else case first_row result of
        Inl e \<Rightarrow> Done (Inl e)
      | Inr row \<Rightarrow>
          if \<not> is_bool (get row ''accepted'') then Done (Inl ev_unavailable)
          else case highest_sequence (get row ''highest_source_sequence'') of
            Inl e \<Rightarrow> Done (Inl e)
          | Inr highest \<Rightarrow>
              if truthy (get row ''accepted'') then store_statements pd c row highest
              else if \<not> one_of replay_guard_denial_reasons (get row ''reason_code'') then Done (Inl ev_unavailable)
              else commit_with (Inr \<lparr> rd_accepted = False, rd_reason = Some (str_of (get row ''reason_code'')),
                                      rd_accepted_at = None, rd_highest = highest \<rparr>))"

definition replay_guard_statements :: "(js \<Rightarrow> int option) \<Rightarrow> js \<Rightarrow> replay_decision statements" where
  "replay_guard_statements pd c =
     app_session (Ask replay_guard_sql
       [get c ''tenantId'', get c ''subjectId'', get c ''sourceId'', get c ''keyId'', get c ''evidenceType'',
        get c ''eventId'', get c ''sourceSequence'', get c ''nonce'', get c ''observedAt'', get c ''expiresAt'',
        get c ''contentHashSha256'', get c ''synthetic''] (guard_decision_statements pd c))"

definition apply_postgres_guard :: "'w db \<Rightarrow> (js \<Rightarrow> int option) \<Rightarrow> js \<Rightarrow> ('w, replay_decision) act" where
  "apply_postgres_guard db pd c w =
     (case require_replay_candidate pd c of
        Inl e \<Rightarrow> (w, Inl e)
      | Inr _ \<Rightarrow> if db_aborted db w then (w, Inl ev_unavailable)
                else in_transaction db ev_unavailable ev_own (replay_guard_statements pd c) w)"

section \<open>Evidence repository\<close>

definition require_actor_context :: "js \<Rightarrow> unit res" where
  "require_actor_context r =
     (if \<not> truthy r \<or> \<not> re_test_or_empty ev_tenant_id (get r ''tenantId'')
         \<or> \<not> re_test_or_empty ev_subject_id (get r ''actorSubjectId'')
      then Inl ev_unavailable else Inr ())"

definition require_actor_evidence_request :: "js \<Rightarrow> unit res" where
  "require_actor_evidence_request r =
     and_then (require_actor_context r) (\<lambda>_.
       if re_test_or_empty ev_event_id (get r ''eventId'') then Inr () else Inl ev_unavailable)"

definition actor_transaction :: "'w db \<Rightarrow> js \<Rightarrow> 'a statements \<Rightarrow> ('w, 'a) act" where
  "actor_transaction db r operation w =
     (case require_actor_context r of
        Inl e \<Rightarrow> (w, Inl e)
      | Inr _ \<Rightarrow> if db_aborted db w then (w, Inl ev_unavailable)
                else in_transaction db ev_unavailable ev_own
                  (app_session (Ask ''SELECT identity.set_tenant_actor_context($1, $2)''
                     [get r ''tenantId'', get r ''actorSubjectId''] (\<lambda>_. operation))) w)"

definition protected_from_row :: "(js \<Rightarrow> int option) \<Rightarrow> js \<Rightarrow> js res" where
  "protected_from_row pd row =
     (if \<not> truthy row then Inr JNull
      else and_then (buffer_from (get row ''iv'')) (\<lambda>iv.
           and_then (buffer_from (get row ''authentication_tag'')) (\<lambda>tag.
           and_then (buffer_from (get row ''ciphertext'')) (\<lambda>ciphertext.
           and_then (as_iso_timestamp pd (get row ''retained_until'')) (\<lambda>retained.
             let record = obj
               [(''tenantId'', get row ''tenant_id''), (''subjectId'', get row ''subject_id''),
                (''sourceId'', get row ''source_id''), (''eventId'', get row ''event_id''),
                (''contentHashSha256'', get row ''content_hash_sha256''),
                (''formatVersion'', JNum (to_number (get row ''format_version''))), (''cipher'', get row ''cipher''),
                (''encryptionKeyId'', get row ''encryption_key_id''), (''ivBase64Url'', JStr (b64_encode iv)),
                (''authenticationTagBase64Url'', JStr (b64_encode tag)),
                (''ciphertextBase64Url'', JStr (b64_encode ciphertext)),
                (''canonicalSha256'', get row ''canonical_sha256''),
                (''canonicalByteLength'', JNum (to_number (get row ''canonical_byte_length''))),
                (''retainedUntil'', JStr retained)]
             in and_then (require_protected_evidence record) (\<lambda>_. Inr record))))))"

definition retrieve_statements :: "(js \<Rightarrow> int option) \<Rightarrow> js \<Rightarrow> js statements" where
  "retrieve_statements pd r =
     Ask ''SELECT * FROM trust.retrieve_encrypted_evidence($1)'' [get r ''eventId''] (\<lambda>result.
       if js_greater (row_count result) 1 then Done (Inl ev_unavailable)
       else commit_with (if strict_eq (row_count result) (num 0) then Inr JNull
                         else case elements (get result ''rows'') of [] \<Rightarrow> Inr JNull
                              | row # _ \<Rightarrow> protected_from_row pd row))"

definition retrieve_encrypted :: "'w db \<Rightarrow> (js \<Rightarrow> int option) \<Rightarrow> js \<Rightarrow> ('w, js) act" where
  "retrieve_encrypted db pd r w =
     (case require_actor_evidence_request r of
        Inl e \<Rightarrow> (w, Inl e)
      | Inr _ \<Rightarrow> actor_transaction db r (retrieve_statements pd r) w)"

definition delete_statements :: "js \<Rightarrow> bool statements" where
  "delete_statements r =
     Ask ''SELECT trust.delete_encrypted_evidence($1, $2) AS deleted'' [get r ''eventId'', JStr (trim (str_of (get r ''reason'')))]
       (\<lambda>result. commit_with (
          if \<not> strict_eq (row_count result) (num 1) then Inl ev_unavailable
          else and_then (first_row result) (\<lambda>row.
            if is_bool (get row ''deleted'') then Inr (truthy (get row ''deleted'')) else Inl ev_unavailable)))"

definition delete_encrypted :: "'w db \<Rightarrow> js \<Rightarrow> ('w, bool) act" where
  "delete_encrypted db r w =
     (case require_actor_evidence_request r of
        Inl e \<Rightarrow> (w, Inl e)
      | Inr _ \<Rightarrow> if \<not> is_string (get r ''reason'') \<or> trim (str_of (get r ''reason'')) = [] then (w, Inl ev_unavailable)
                else actor_transaction db r (delete_statements r) w)"

definition purge_statements :: "rat statements" where
  "purge_statements =
     Ask ''SELECT trust.purge_expired_evidence() AS purged'' [] (\<lambda>result.
       let purged = JNum (to_number (case elements (get result ''rows'') of [] \<Rightarrow> JUndef | row # _ \<Rightarrow> get row ''purged''))
       in commit_with (if \<not> strict_eq (row_count result) (num 1) \<or> \<not> is_safe_integer purged \<or> num_of purged < 0
                       then Inl ev_unavailable else Inr (num_of purged)))"

definition purge_encrypted :: "'w db \<Rightarrow> js \<Rightarrow> ('w, rat) act" where
  "purge_encrypted db r = actor_transaction db r purge_statements"

section \<open>Properties\<close>

lemma commits_commit_with [simp]: "commits (commit_with r)"
  by (cases r) (simp_all add: commit_with_def)

lemma commits_app_session [simp]: "commits (app_session k) \<longleftrightarrow> commits k"
  by (simp add: app_session_def session_limits_sql_def)

lemma evidence_programs_commit:
  "commits (resolution_statements pd b)" "commits (replay_guard_statements pd c)" "commits (retrieve_statements pd r)"
  "commits (delete_statements r)" "commits purge_statements"
  by (simp_all add: resolution_statements_def resolution_sql_def replay_guard_statements_def replay_guard_sql_def
      guard_decision_statements_def store_statements_def store_evidence_sql_def retrieve_statements_def
      delete_statements_def purge_statements_def Let_def split: sum.split)

lemma traced_actor:
  assumes "commits p"
  shows "case actor_transaction (traced db) r p (w, []) of ((w', l), x) \<Rightarrow> transaction_log l (isl x)"
proof (cases "(\<exists>e. require_actor_context r = Inl e) \<or> db_aborted db w")
  case True
  then show ?thesis by (auto simp: actor_transaction_def split: sum.split)
next
  case False
  then have eqn: "actor_transaction (traced db) r p (w, [])
    = in_transaction (traced db) ev_unavailable ev_own (app_session (Ask ''SELECT identity.set_tenant_actor_context($1, $2)''
                     [get r ''tenantId'', get r ''actorSubjectId''] (\<lambda>_. p))) (w, [])"
    by (auto simp: actor_transaction_def split: sum.split)
  show ?thesis unfolding eqn by (rule traced_commits) (simp add: assms)
qed

text \<open>Every PostgreSQL use of the evidence service is one disciplined transaction: over any database, context resolution, the replay guard, retrieval, deletion and purge either do nothing, or connect, send \<open>BEGIN\<close>, their statements and then exactly one \<open>COMMIT\<close> when they succeed, a \<open>ROLLBACK\<close> when they fail, and always release the connection.\<close>

theorem evidence_transactions_disciplined:
  "(case resolve_verification_context (traced db) pd b (w, []) of ((w', l), r) \<Rightarrow> transaction_log l (isl r))
   \<and> (case apply_postgres_guard (traced db) pd b (w, []) of ((w', l), r) \<Rightarrow> transaction_log l (isl r))
   \<and> (case retrieve_encrypted (traced db) pd b (w, []) of ((w', l), r) \<Rightarrow> transaction_log l (isl r))
   \<and> (case delete_encrypted (traced db) b (w, []) of ((w', l), r) \<Rightarrow> transaction_log l (isl r))
   \<and> (case purge_encrypted (traced db) b (w, []) of ((w', l), r) \<Rightarrow> transaction_log l (isl r))"
  using traced_commits[of "resolution_statements pd b" db ev_unavailable ev_own w]
    traced_commits[of "replay_guard_statements pd b" db ev_unavailable ev_own w]
    traced_actor[of "retrieve_statements pd b" db b w] traced_actor[of "delete_statements b" db b w]
    traced_actor[of purge_statements db b w]
  by (simp add: evidence_programs_commit resolve_verification_context_def apply_postgres_guard_def retrieve_encrypted_def
      delete_encrypted_def purge_encrypted_def split: sum.split)

lemma guard_decision_cases:
  obtains (store) row h where "guard_decision_statements pd c v = store_statements pd c row h"
  | (denied) x where "guard_decision_statements pd c v = commit_with (Inr x)" "\<not> rd_accepted x"
  | (failed) e where "guard_decision_statements pd c v = Done (Inl e)"
proof (cases "first_row v")
  case (Inl e)
  then show ?thesis by (cases "strict_eq (row_count v) (num 1)") (auto intro: failed simp: guard_decision_statements_def)
next
  case (Inr row)
  show ?thesis
  proof (cases "highest_sequence (get row ''highest_source_sequence'')")
    case (Inl e)
    then show ?thesis using Inr by (cases "strict_eq (row_count v) (num 1) \<and> is_bool (get row ''accepted'')")
        (auto intro: failed simp: guard_decision_statements_def)
  next
    case (Inr h)
    note d = guard_decision_statements_def[of pd c v, unfolded \<open>first_row v = Inr row\<close> Inr sum.case]
    show ?thesis using d by (auto split: if_splits intro: failed denied store)
  qed
qed

text \<open>C21: an accepted answer of the PostgreSQL guard is durable: it is given only after the replay statement and the statement that stores the encrypted evidence have both run, in this order, under the application role and the session limits, and their transaction has been committed.\<close>

theorem postgres_acceptance_is_durable:
  assumes "apply_postgres_guard (traced db) pd c (w, []) = ((w', l), Inr d)" "rd_accepted d"
  shows "l = [Connected, Stmt ''BEGIN'', Stmt ''SET LOCAL ROLE tenant_trust_app'', Stmt session_limits_sql,
    Stmt replay_guard_sql, Stmt store_evidence_sql, Stmt ''COMMIT'', Released]"
proof -
  have "in_transaction (traced db) ev_unavailable ev_own (replay_guard_statements pd c) (w, []) = ((w', l), Inr d)"
    using assms(1) by (auto simp: apply_postgres_guard_def split: sum.splits if_splits)
  from in_transaction_Inr[OF this] obtain w1 w2 k where
    r: "run_statements (traced db) ev_unavailable (replay_guard_statements pd c) (w1, [Connected, Stmt ''BEGIN'']) = ((w2, k), Inr d)"
    and l: "l = k @ [Released]" by blast
  from r obtain w3 v where g: "run_statements (traced db) ev_unavailable (guard_decision_statements pd c v)
      (w3, [Connected, Stmt ''BEGIN'', Stmt ''SET LOCAL ROLE tenant_trust_app'', Stmt session_limits_sql, Stmt replay_guard_sql]) = ((w2, k), Inr d)"
    by (auto simp: replay_guard_statements_def app_session_def run_Ask_Inr simp del: run_statements.simps)
  consider (store) row h where "guard_decision_statements pd c v = store_statements pd c row h"
    | (denied) x where "guard_decision_statements pd c v = commit_with (Inr x)" "\<not> rd_accepted x"
    | (failed) e where "guard_decision_statements pd c v = Done (Inl e)"
    by (rule guard_decision_cases)
  then show ?thesis
  proof cases
    case store
    show ?thesis using g[unfolded store] assms(2) l
      by (auto simp: store_statements_def Let_def commit_with_def run_Ask_Inr run_Done_Inr simp del: run_statements.simps split: sum.splits if_splits)
  next
    case denied
    then show ?thesis using g assms(2) by (auto simp: commit_with_def run_Ask_Inr run_Done_Inr simp del: run_statements.simps)
  next
    case failed
    then show ?thesis using g by (simp add: run_Done_Inr)
  qed
qed

text \<open>A database that accepts the first candidate, to every statement with the same row.\<close>

definition accepting_db :: "unit db" where
  "accepting_db =
     \<lparr> db_connect = act_ret (),
       db_query = (\<lambda>sql values. act_ret (obj [(''rowCount'', num 1), (''rows'', JArr [obj
         [(''accepted'', JBool True), (''highest_source_sequence'', JNull), (''accepted_at'', JDate (Some 3600000))]])])),
       db_release = (\<lambda>w. w), db_aborted = (\<lambda>_. False) \<rparr>"

lemma postgres_acceptance_is_durable_witness:
  "\<exists>d. apply_postgres_guard (traced accepting_db) toy_date (rg_first rg_protected) ((), [])
     = (((), [Connected, Stmt ''BEGIN'', Stmt ''SET LOCAL ROLE tenant_trust_app'', Stmt session_limits_sql,
              Stmt replay_guard_sql, Stmt store_evidence_sql, Stmt ''COMMIT'', Released]), Inr d) \<and> rd_accepted d"
proof -
  let ?c = "rg_first rg_protected"
  obtain e where e: "require_protected_evidence rg_protected = Inr e" using rg_protected_ok by blast
  have b: "binds_candidate rg_protected ?c" by (simp add: binds_candidate_def)
  have "\<exists>l d. apply_postgres_guard (traced accepting_db) toy_date ?c ((), []) = (((), l), Inr d) \<and> rd_accepted d"
    using e b rg_required[of ?c rg_protected]
    by (simp add: apply_postgres_guard_def in_transaction_def replay_guard_statements_def app_session_def
        guard_decision_statements_def store_statements_def first_row_def highest_sequence_def commit_with_def
        as_iso_timestamp_def toy_date_def Let_def traced_def accepting_db_def)
  then obtain l d where "apply_postgres_guard (traced accepting_db) toy_date ?c ((), []) = (((), l), Inr d)" "rd_accepted d" by blast
  with postgres_acceptance_is_durable[OF this] show ?thesis by blast
qed
end
