(* ===== verification/JsEffects.thy ===== *)
theory JsEffects
  imports Transactions JsNumbers "HOL-Library.AList"
begin

text \<open>
  What the repositories and workers share: reading a property of a value that may be absent, object
  spread, \<open>JSON.stringify\<close> in insertion order, and the environment of a repository: its query function,
  ID factory and clock, all parameters, with the results it takes from a query.
\<close>

section \<open>Objects\<close>

text \<open>\<open>v.k\<close> where \<open>v\<close> may be \<open>null\<close> or \<open>undefined\<close>.\<close>

definition read :: "js \<Rightarrow> string \<Rightarrow> js res" where
  "read v k = (if nullish v then Inl TypeErrorThrown else Inr (get v k))"

lemma nullish_simps [simp]:
  "\<not> nullish (JObj p fs)" "\<not> nullish (JArr vs)" "\<not> nullish (JStr s)" "nullish JNull" "nullish JUndef"
  by (simp_all add: nullish_def)

lemma read_object [simp]: "read (JObj p fs) k = Inr (get (JObj p fs) k)"
  by (simp add: read_def)

lemma read_eq_Inr [simp, res_simps]: "read v k = Inr x \<longleftrightarrow> \<not> nullish v \<and> x = get v k"
  by (auto simp: read_def)

text \<open>The own enumerable properties, as \<open>{...v}\<close> copies them.\<close>

fun own_fields :: "js \<Rightarrow> (string \<times> js) list" where
  "own_fields (JObj p fs) = map (\<lambda>k. (k, the (own fs k))) (remdups (map fst fs))"
| "own_fields (JArr vs) = map (\<lambda>(i, v). (show_nat i, v)) (enumerate 0 vs)"
| "own_fields (JStr s) = map (\<lambda>(i, c). (show_nat i, JStr [c])) (enumerate 0 s)"
| "own_fields _ = []"

text \<open>\<open>{...v, k1: x1, ...}\<close>\<close>

definition spread :: "js \<Rightarrow> (string \<times> js) list \<Rightarrow> js" where
  "spread v fs = obj (fold (\<lambda>(k, x). AList.update k x) fs (own_fields v))"

lemma own_map_of: "own fs k = map_of fs k"
  by (induction fs k rule: own.induct) auto

lemma own_own_fields: "own (own_fields (JObj p fs)) k = own fs k"
proof -
  have m: "map_of (map (\<lambda>k. (k, f k)) ks) k = (if k \<in> set ks then Some (f k) else None)" for f :: "string \<Rightarrow> js" and ks
    by (induction ks) auto
  have n: "map_of fs k = None" if "k \<notin> fst ` set fs" using that by (simp add: map_of_eq_None_iff)
  have s: "\<exists>x. map_of fs k = Some x" if "k \<in> fst ` set fs" using that by (metis not_None_eq map_of_eq_None_iff)
  show ?thesis using n s by (auto simp: own_map_of m)
qed

lemma own_fold_update:
  "own (fold (\<lambda>(k, x). AList.update k x) kvs fs) k = (case map_of (rev kvs) k of Some x \<Rightarrow> Some x | None \<Rightarrow> own fs k)"
proof (induction kvs arbitrary: fs)
  case (Cons kv kvs)
  obtain j x where kv: "kv = (j, x)" by fastforce
  show ?case unfolding kv using Cons[of "AList.update j x fs"]
    by (auto simp: own_map_of update_conv' map_add_def split: option.split)
qed simp

lemma get_spread:
  "get (spread (JObj ObjectProto fs) kvs) k =
     (case map_of (rev kvs) k of Some x \<Rightarrow> x | None \<Rightarrow> get (JObj ObjectProto fs) k)"
  using own_fold_update[of kvs "own_fields (JObj ObjectProto fs)" k]
  by (simp add: spread_def own_own_fields del: own_fields.simps split: option.split)

lemma spread_object [simp]: "truthy (spread v fs)" "nullish (spread v fs) \<longleftrightarrow> False"
  by (simp_all add: spread_def nullish_def)

text \<open>\<open>JSON.stringify(v)\<close>; \<open>None\<close> is \<open>undefined\<close>.\<close>

function json_stringify :: "js \<Rightarrow> string option" where
  "json_stringify JUndef = None"
| "json_stringify (JFun f) = None"
| "json_stringify JNull = Some ''null''"
| "json_stringify (JBool b) = Some (if b then ''true'' else ''false'')"
| "json_stringify (JNum n) = Some (case n of Fin x \<Rightarrow> rat_to_string x | _ \<Rightarrow> ''null'')"
| "json_stringify (JStr s) = Some (json_string s)"
| "json_stringify (JDate d) = Some (case d of None \<Rightarrow> ''null'' | Some t \<Rightarrow> json_string (time_to_iso t))"
| "json_stringify (JArr vs) =
     Some (''['' @ join '','' (map (\<lambda>v. case json_stringify v of None \<Rightarrow> ''null'' | Some t \<Rightarrow> t) vs) @ '']'')"
| "json_stringify (JObj p fs) =
     Some (''{'' @ join '','' (concat (map (\<lambda>(k, v). case json_stringify v of None \<Rightarrow> [] | Some t \<Rightarrow> [json_string k @ '':'' @ t]) fs)) @ ''}'')"
  by pat_completeness auto
termination
  by (relation "measure size") (auto simp: less_Suc_eq_le size_list_estimation' intro!: le_SucI)

section \<open>Repositories\<close>

record 'w env =
  env_query :: "string \<Rightarrow> js list \<Rightarrow> ('w, js) act"
  env_id :: "('w, js) act"
  env_clock :: "('w, js) act"
  env_date :: "js \<Rightarrow> int option"   \<comment> \<open>\<open>new Date(v).getTime()\<close>\<close>

text \<open>\<open>iso(value, reasonCode)\<close>, the same in every service; \<open>e\<close> is the error it throws.\<close>

definition iso :: "(js \<Rightarrow> int option) \<Rightarrow> js_error \<Rightarrow> js \<Rightarrow> string res" where
  "iso pd e v = (case (case v of JDate d \<Rightarrow> d | _ \<Rightarrow> pd v) of None \<Rightarrow> Inl e | Some t \<Rightarrow> Inr (time_to_iso t))"

definition env_now :: "'w env \<Rightarrow> js_error \<Rightarrow> ('w, string) act" where
  "env_now E e = act_bind (env_clock E) (\<lambda>v. act_res (iso (env_date E) e v))"

text \<open>\<open>one\<close> and \<open>maybeOne\<close>\<close>

definition one_row :: "js_error \<Rightarrow> js \<Rightarrow> js res" where
  "one_row e result =
     (if \<not> truthy result \<or> \<not> is_array (get result ''rows'') then Inl e
      else case elements (get result ''rows'') of [r] \<Rightarrow> Inr r | _ \<Rightarrow> Inl e)"

definition maybe_one_row :: "js_error \<Rightarrow> js \<Rightarrow> js res" where
  "maybe_one_row e result =
     (if \<not> truthy result \<or> \<not> is_array (get result ''rows'') then Inl e
      else case elements (get result ''rows'') of [] \<Rightarrow> Inr JNull | [r] \<Rightarrow> Inr (coalesce r JNull) | _ \<Rightarrow> Inl e)"

text \<open>\<open>v ? iso(v) : null\<close>\<close>

definition iso_or_null :: "(js \<Rightarrow> int option) \<Rightarrow> js_error \<Rightarrow> js \<Rightarrow> js res" where
  "iso_or_null pd e v = (if truthy v then and_then (iso pd e v) (\<lambda>t. Inr (JStr t)) else Inr JNull)"

definition js_number :: "js \<Rightarrow> js" where
  "js_number v = JNum (to_number v)"

text \<open>\<open>error.reasonCode\<close>\<close>

fun reason_of :: "js_error \<Rightarrow> string option" where
  "reason_of (Thrown c r) = Some r"
| "reason_of (ForeignError r) = r"
| "reason_of _ = None"

definition reason_or :: "string \<Rightarrow> js_error \<Rightarrow> string" where
  "reason_or d e = (case reason_of e of Some r \<Rightarrow> if is_reason_code r then r else d | None \<Rightarrow> d)"

text \<open>The exponential back-off of the workers.\<close>

definition back_off :: "rat \<Rightarrow> rat \<Rightarrow> js_error \<Rightarrow> js \<Rightarrow> rat res" where
  "back_off first limit e n =
     (if \<not> safe_integer_from 1 n then Inl e
      else Inr (min limit (first * 2 ^ nat (min (\<lfloor>num_of n\<rfloor> - 1) 30))))"

lemma back_off_bounds:
  assumes "back_off first limit e n = Inr d" "0 < first" "first \<le> limit"
  shows "first \<le> d \<and> d \<le> limit"
proof -
  have "first * 1 \<le> first * 2 ^ k" for k :: nat using assms(2) by (intro mult_left_mono) auto
  then show ?thesis using assms by (auto simp: back_off_def split: if_splits)
qed

lemma back_off_mono:
  assumes "back_off first limit e m = Inr c" "back_off first limit e n = Inr d" "num_of m \<le> num_of n" "0 < first"
  shows "c \<le> d"
proof -
  have "nat (min (\<lfloor>num_of m\<rfloor> - 1) 30) \<le> nat (min (\<lfloor>num_of n\<rfloor> - 1) 30)"
    using assms(3) floor_mono[OF assms(3)] by (intro nat_mono) linarith
  then have "first * (2::rat) ^ nat (min (\<lfloor>num_of m\<rfloor> - 1) 30) \<le> first * 2 ^ nat (min (\<lfloor>num_of n\<rfloor> - 1) 30)"
    using assms(4) by (intro mult_left_mono power_increasing) auto
  then show ?thesis using assms(1,2) by (auto simp: back_off_def split: if_splits intro: min.mono)
qed

end
