(* ===== verification/ActionOrchestration.thy ===== *)
theory ActionOrchestration
  imports JsEffects SecurityActions
begin

text \<open>
  \<open>services/orchestrator/src/action-orchestration.mjs\<close>: the repository of queued security actions, the
  executor that carries an action out and the worker that claims one action, executes it and records
  success or failure. The query function, the clock, the ID factory and the certificate authority's two
  operations are parameters.
\<close>

section \<open>Policy and helpers\<close>

definition act_fault :: "string \<Rightarrow> js_error" where
  "act_fault r = Thrown SecurityActionOrchestrationError r"

abbreviation bad_source :: js_error where
  "bad_source \<equiv> act_fault ''SECURITY_ACTION_SOURCE_INVALID''"

definition orchestrated_types :: "string list" where
  "orchestrated_types =
     [''restrict-access'', ''suspend-subject'', ''block-renewal'', ''revoke-certificate'', ''restore-access'',
      ''issue-replacement-certificate'']"

definition severity_action_types :: "string list" where
  "severity_action_types = [''block-renewal'', ''revoke-certificate'']"

definition execution_statuses :: "string list" where
  "execution_statuses = [''pending'', ''executing'', ''succeeded'', ''failed'']"

definition authority_classes :: "string list" where
  "authority_classes = [''policy-quarantine'', ''severity-rule'', ''recovery-authorization'']"

definition enqueue_severity_sql :: string where
  "enqueue_severity_sql = ''SELECT * FROM orchestration.enqueue_severity_security_action($1,$2,$3,$4,$5,$6,$7,$8,$9)''"

definition claim_next_sql :: string where
  "claim_next_sql = ''SELECT * FROM orchestration.claim_security_action($1,$2,$3)''"

definition mark_succeeded_sql :: string where
  "mark_succeeded_sql = ''SELECT * FROM orchestration.mark_security_action_succeeded($1,$2,$3,$4::jsonb,$5,$6)''"

definition mark_failed_sql :: string where
  "mark_failed_sql = ''SELECT * FROM orchestration.mark_security_action_failed($1,$2,$3,$4,$5,$6)''"

definition get_status_sql :: string where
  "get_status_sql = ''SELECT * FROM orchestration.get_security_action_status($1,$2)''"

record orchestration_policy =
  claim_lease_seconds :: rat
  initial_retry_seconds :: rat
  maximum_retry_seconds :: rat

definition action_orchestration_policy :: orchestration_policy where
  "action_orchestration_policy =
     \<lparr> claim_lease_seconds = 300, initial_retry_seconds = 5, maximum_retry_seconds = 600 \<rparr>"

definition action_retry_delay :: "js \<Rightarrow> rat res" where
  "action_retry_delay n =
     back_off (initial_retry_seconds action_orchestration_policy) (maximum_retry_seconds action_orchestration_policy) bad_source n"

definition action_failure_code :: "js_error \<Rightarrow> string" where
  "action_failure_code e = reason_or ''ACTION_EXECUTION_FAILED'' e"

definition claim_token :: "'w env \<Rightarrow> ('w, js) act" where
  "claim_token E =
     act_bind (env_id E) (\<lambda>v. let token = ''clm_'' @ to_string v
       in act_res (if is_id ''clm'' token then Inr (JStr token) else Inl (act_fault ''SECURITY_ACTION_CLAIM_INVALID'')))"

definition action_now :: "'w env \<Rightarrow> ('w, string) act" where
  "action_now E = env_now E (act_fault ''SECURITY_ACTION_TIME_INVALID'')"

text \<open>\<open>value.tenantId\<close> on an absent value throws.\<close>

definition validate_action_identity :: "js \<Rightarrow> bool \<Rightarrow> unit res" where
  "validate_action_identity v require_claim =
     (if nullish v then Inl TypeErrorThrown
      else if \<not> re_test_or_empty (is_id ''tnt'') (get v ''tenantId'')
         \<or> \<not> re_test_or_empty (is_id ''act'') (get v ''actionId'')
         \<or> (require_claim \<and> \<not> re_test_or_empty (is_id ''clm'') (get v ''claimToken''))
      then Inl bad_source else Inr ())"

section \<open>Rows\<close>

definition map_state :: "js \<Rightarrow> js" where
  "map_state row =
     obj [(''access'', get row ''access_state''), (''renewal'', get row ''renewal_state''),
          (''targetCertificate'', get row ''target_certificate_state''), (''replacement'', get row ''replacement_state'')]"

definition claim_value :: "(js \<Rightarrow> int option) \<Rightarrow> js \<Rightarrow> js res" where
  "claim_value pd row =
     and_then (iso_or_null pd bad_source (get row ''recovery_authorized_until'')) (\<lambda>authorized_until. Inr (obj
       [(''tenantId'', get row ''tenant_id''), (''actionId'', get row ''action_id''),
        (''decisionId'', get row ''decision_id''), (''correlationId'', get row ''correlation_id''),
        (''targetSubjectId'', get row ''target_subject_id''), (''targetCertificateId'', get row ''target_certificate_id''),
        (''actionType'', get row ''action_type''), (''authorityClass'', get row ''authority_class''),
        (''reasonCode'', get row ''reason_code''), (''triggerContextHashSha256'', get row ''trigger_context_hash_sha256''),
        (''claimToken'', get row ''claim_token''), (''attemptCount'', js_number (get row ''attempt_count'')),
        (''expectedStateVersion'', js_number (get row ''expected_state_version'')), (''currentState'', map_state row),
        (''recoveryAuthorizationId'', coalesce (get row ''recovery_authorization_id'') JNull),
        (''recoveryAuthorizedBySubjectId'', coalesce (get row ''recovery_authorized_by_subject_id'') JNull),
        (''recoveryAuthorizedUntil'', authorized_until),
        (''causeResolutionReference'', coalesce (get row ''cause_resolution_reference'') JNull)]))"

text \<open>A recovery action carries its authorization in full, any other action none of it.\<close>

definition recovery_fields_ok :: "js \<Rightarrow> bool" where
  "recovery_fields_ok c \<longleftrightarrow>
     (if get c ''authorityClass'' = JStr ''recovery-authorization''
      then re_test_or_empty (is_id ''rca'') (get c ''recoveryAuthorizationId'')
        \<and> re_test_or_empty (is_id ''sub'') (get c ''recoveryAuthorizedBySubjectId'')
        \<and> get c ''recoveryAuthorizedUntil'' \<noteq> JNull
        \<and> (get c ''actionType'' = JStr ''issue-replacement-certificate''
           \<longrightarrow> re_test_or_empty is_external_reference (get c ''causeResolutionReference''))
      else get c ''recoveryAuthorizationId'' = JNull \<and> get c ''recoveryAuthorizedBySubjectId'' = JNull
        \<and> get c ''recoveryAuthorizedUntil'' = JNull \<and> get c ''causeResolutionReference'' = JNull)"

definition map_claim :: "(js \<Rightarrow> int option) \<Rightarrow> js \<Rightarrow> js res" where
  "map_claim pd row =
     (if \<not> truthy row then Inr JNull
      else and_then (claim_value pd row) (\<lambda>c.
           and_then (validate_action_identity c True) (\<lambda>_.
           if \<not> re_test_or_empty (is_id ''dec'') (get c ''decisionId'')
              \<or> \<not> re_test_or_empty (is_id ''cor'') (get c ''correlationId'')
              \<or> \<not> re_test_or_empty (is_id ''sub'') (get c ''targetSubjectId'')
              \<or> \<not> re_test_or_empty (is_id ''crt'') (get c ''targetCertificateId'')
              \<or> \<not> one_of orchestrated_types (get c ''actionType'')
              \<or> \<not> one_of authority_classes (get c ''authorityClass'')
              \<or> \<not> re_test_or_empty is_reason_code (get c ''reasonCode'')
              \<or> \<not> re_test_or_empty is_sha256 (get c ''triggerContextHashSha256'')
              \<or> \<not> safe_integer_from 1 (get c ''attemptCount'')
              \<or> \<not> safe_integer_from 1 (get c ''expectedStateVersion'')
              \<or> \<not> recovery_fields_ok c
           then Inl bad_source else Inr c)))"

definition map_status :: "(js \<Rightarrow> int option) \<Rightarrow> js \<Rightarrow> js res" where
  "map_status pd row =
     (if \<not> truthy row then Inr JNull
      else and_then (iso_or_null pd bad_source (get row ''next_attempt_at'')) (\<lambda>next_attempt.
           and_then (iso_or_null pd bad_source (get row ''succeeded_at'')) (\<lambda>succeeded.
           let s = obj
             [(''tenantId'', get row ''tenant_id''), (''actionId'', get row ''action_id''), (''status'', get row ''status''),
              (''attemptCount'', js_number (get row ''attempt_count'')), (''lastFailureCode'', get row ''last_failure_code''),
              (''nextAttemptAt'', next_attempt), (''succeededAt'', succeeded)]
           in and_then (validate_action_identity s False) (\<lambda>_.
              if \<not> one_of execution_statuses (get s ''status'') \<or> \<not> safe_integer_from 0 (get s ''attemptCount'')
                 \<or> (get s ''lastFailureCode'' \<noteq> JNull \<and> \<not> re_test_or_empty is_reason_code (get s ''lastFailureCode''))
              then Inl (act_fault ''SECURITY_ACTION_STATUS_INVALID'') else Inr s))))"

section \<open>Repository\<close>

text \<open>\<open>const status = mapStatus(row); if (status.status ...) fail(...)\<close>\<close>

definition status_among :: "(js \<Rightarrow> int option) \<Rightarrow> string \<Rightarrow> string list \<Rightarrow> js \<Rightarrow> js res" where
  "status_among pd reason allowed result =
     and_then (one_row (act_fault reason) result) (\<lambda>row.
     and_then (map_status pd row) (\<lambda>s.
     and_then (read s ''status'') (\<lambda>st. if one_of allowed st then Inr s else Inl (act_fault reason))))"

definition enqueue_severity_action :: "'w env \<Rightarrow> js \<Rightarrow> ('w, js) act" where
  "enqueue_severity_action E v =
     (if \<not> re_test_or_empty (is_id ''tnt'') (get v ''tenantId'') \<or> \<not> re_test_or_empty (is_id ''act'') (get v ''actionId'')
         \<or> \<not> re_test_or_empty (is_id ''dec'') (get v ''decisionId'')
         \<or> \<not> re_test_or_empty (is_id ''sub'') (get v ''targetSubjectId'')
         \<or> \<not> re_test_or_empty (is_id ''crt'') (get v ''targetCertificateId'')
         \<or> \<not> one_of severity_action_types (get v ''actionType'')
         \<or> \<not> re_test_or_empty is_reason_code (get v ''reasonCode'')
         \<or> \<not> re_test_or_empty is_sha256 (get v ''triggerContextHashSha256'')
      then act_fail (act_fault ''SECURITY_ACTION_REQUEST_INVALID'')
      else act_bind (action_now E) (\<lambda>t.
           act_bind (env_query E enqueue_severity_sql
             [get v ''tenantId'', get v ''actionId'', get v ''decisionId'', get v ''targetSubjectId'',
              get v ''targetCertificateId'', get v ''actionType'', get v ''reasonCode'',
              get v ''triggerContextHashSha256'', JStr t]) (\<lambda>result.
           act_res (status_among (env_date E) ''SECURITY_ACTION_REQUEST_INVALID'' [''pending'', ''failed''] result))))"

definition claim_next_action :: "'w env \<Rightarrow> js \<Rightarrow> ('w, js) act" where
  "claim_next_action E request =
     act_bind (act_res (read request ''workerId'')) (\<lambda>worker.
       if \<not> re_test_or_empty is_worker_id worker then act_fail (act_fault ''SECURITY_ACTION_CLAIM_INVALID'')
       else act_bind (claim_token E) (\<lambda>token.
            act_bind (action_now E) (\<lambda>t.
            act_bind (env_query E claim_next_sql [worker, token, JStr t]) (\<lambda>result.
            act_res (and_then (maybe_one_row bad_source result) (map_claim (env_date E)))))))"

definition check_success :: "js \<Rightarrow> unit res" where
  "check_success v =
     and_then (validate_action_identity v True) (\<lambda>_.
       if \<not> safe_integer_from 1 (get v ''expectedStateVersion'')
          \<or> (get v ''externalReference'' \<noteq> JNull \<and> \<not> re_test_or_empty is_external_reference (get v ''externalReference''))
       then Inl (act_fault ''SECURITY_ACTION_SUCCESS_INVALID'') else Inr ())"

definition mark_succeeded :: "'w env \<Rightarrow> js \<Rightarrow> ('w, js) act" where
  "mark_succeeded E v =
     act_bind (act_res (check_success v)) (\<lambda>_.
     act_bind (action_now E) (\<lambda>t.
     act_bind (env_query E mark_succeeded_sql
       [get v ''tenantId'', get v ''actionId'', get v ''claimToken'',
        (case json_stringify (get v ''resultState'') of None \<Rightarrow> JUndef | Some s \<Rightarrow> JStr s),
        get v ''externalReference'', JStr t]) (\<lambda>result.
     act_res (status_among (env_date E) ''SECURITY_ACTION_SUCCESS_INVALID'' [''succeeded''] result))))"

definition check_failure :: "js \<Rightarrow> unit res" where
  "check_failure v =
     and_then (validate_action_identity v True) (\<lambda>_.
       if \<not> re_test_or_empty is_reason_code (get v ''failureCode'')
          \<or> \<not> safe_integer_from 1 (get v ''retryDelaySeconds'')
          \<or> maximum_retry_seconds action_orchestration_policy < num_of (get v ''retryDelaySeconds'')
       then Inl (act_fault ''SECURITY_ACTION_FAILURE_INVALID'') else Inr ())"

definition send_failure :: "'w env \<Rightarrow> js \<Rightarrow> ('w, js) act" where
  "send_failure E v =
     act_bind (action_now E) (\<lambda>t.
     act_bind (env_query E mark_failed_sql
       [get v ''tenantId'', get v ''actionId'', get v ''claimToken'', get v ''failureCode'', JStr t,
        get v ''retryDelaySeconds'']) (\<lambda>result.
     act_res (status_among (env_date E) ''SECURITY_ACTION_FAILURE_INVALID'' [''failed''] result)))"

definition mark_failed :: "'w env \<Rightarrow> js \<Rightarrow> ('w, js) act" where
  "mark_failed E v = act_bind (act_res (check_failure v)) (\<lambda>_. send_failure E v)"

definition get_action_status :: "'w env \<Rightarrow> js \<Rightarrow> ('w, js) act" where
  "get_action_status E request =
     act_bind (act_res (read request ''tenantId'')) (\<lambda>tenant.
       if \<not> re_test_or_empty (is_id ''tnt'') tenant \<or> \<not> re_test_or_empty (is_id ''act'') (get request ''actionId'')
       then act_fail (act_fault ''SECURITY_ACTION_STATUS_INVALID'')
       else act_bind (env_query E get_status_sql [tenant, get request ''actionId'']) (\<lambda>result.
            act_res (and_then (maybe_one_row (act_fault ''SECURITY_ACTION_STATUS_INVALID'') result) (map_status (env_date E)))))"

section \<open>Executor\<close>

record 'w executor =
  ex_revoke :: "(js \<Rightarrow> ('w, js) act) option"
  ex_replace :: "(js \<Rightarrow> ('w, js) act) option"
  ex_clock :: "('w, js) act"
  ex_date :: "js \<Rightarrow> int option"

definition confirmation :: "js \<Rightarrow> js \<Rightarrow> js" where
  "confirmation action ref =
     obj [(''actionId'', get action ''actionId''), (''status'', JStr ''succeeded''), (''externalReference'', ref)]"

text \<open>The clock is read only when the checks before it have passed.\<close>

definition check_recovery_authorization :: "'w executor \<Rightarrow> js \<Rightarrow> ('w, unit) act" where
  "check_recovery_authorization X action =
     (if get action ''authorityClass'' \<noteq> JStr ''recovery-authorization''
         \<or> \<not> re_test_or_empty (is_id ''rca'') (get action ''recoveryAuthorizationId'')
         \<or> \<not> re_test_or_empty (is_id ''sub'') (get action ''recoveryAuthorizedBySubjectId'')
      then act_fail (act_fault ''RECOVERY_AUTHORIZATION_INVALID'')
      else act_bind (ex_clock X) (\<lambda>now. act_res (
        case (ex_date X (get action ''recoveryAuthorizedUntil''), ex_date X now) of
          (Some u, Some n) \<Rightarrow> if u < n then Inl (act_fault ''RECOVERY_AUTHORIZATION_INVALID'') else Inr ()
        | _ \<Rightarrow> Inr ())))"

definition revoke_confirmed :: "js \<Rightarrow> js \<Rightarrow> bool" where
  "revoke_confirmed action r \<longleftrightarrow>
     truthy r \<and> strict_eq (get r ''certificateId'') (get action ''targetCertificateId'')
     \<and> get r ''state'' = JStr ''revoked'' \<and> re_test_or_empty is_external_reference (get r ''eventId'')"

definition replacement_confirmed :: "js \<Rightarrow> js \<Rightarrow> bool" where
  "replacement_confirmed action r \<longleftrightarrow>
     truthy r \<and> strict_eq (get r ''targetCertificateId'') (get action ''targetCertificateId'')
     \<and> re_test_or_empty (is_id ''crt'') (get r ''replacementCertificateId'')
     \<and> \<not> strict_eq (get r ''replacementCertificateId'') (get action ''targetCertificateId'')
     \<and> get r ''state'' = JStr ''active''"

definition execute_action :: "'w executor \<Rightarrow> js \<Rightarrow> ('w, js) act" where
  "execute_action X action =
     (if \<not> truthy action \<or> \<not> one_of orchestrated_types (get action ''actionType'')
         \<or> \<not> re_test_or_empty (is_id ''act'') (get action ''actionId'')
      then act_fail (act_fault ''SECURITY_ACTION_EXECUTION_INVALID'')
      else if one_of [''restrict-access'', ''suspend-subject'', ''block-renewal''] (get action ''actionType'')
      then act_ret (confirmation action JNull)
      else if get action ''actionType'' = JStr ''revoke-certificate''
      then (case ex_revoke X of
              None \<Rightarrow> act_fail (act_fault ''REVOCATION_EXECUTOR_UNAVAILABLE'')
            | Some revoke \<Rightarrow> act_bind (revoke action) (\<lambda>r.
                if \<not> revoke_confirmed action r then act_fail (act_fault ''REVOCATION_EXECUTION_UNCONFIRMED'')
                else act_ret (confirmation action (get r ''eventId''))))
      else act_bind (check_recovery_authorization X action) (\<lambda>_.
        if get action ''actionType'' = JStr ''restore-access'' then act_ret (confirmation action JNull)
        else case ex_replace X of
               None \<Rightarrow> act_fail (act_fault ''REPLACEMENT_EXECUTOR_UNAVAILABLE'')
             | Some replace \<Rightarrow> act_bind (replace action) (\<lambda>r.
                 if \<not> replacement_confirmed action r then act_fail (act_fault ''REPLACEMENT_ISSUANCE_UNCONFIRMED'')
                 else act_ret (confirmation action (get r ''replacementCertificateId'')))))"

section \<open>Worker\<close>

record 'w action_worker =
  wk_id :: js
  wk_claim :: "js \<Rightarrow> ('w, js) act"
  wk_succeed :: "js \<Rightarrow> ('w, js) act"
  wk_fail :: "js \<Rightarrow> ('w, js) act"
  wk_execute :: "js \<Rightarrow> ('w, js) act"
  wk_transition :: "js \<Rightarrow> js res"

definition execution_confirmed :: "js \<Rightarrow> js \<Rightarrow> bool" where
  "execution_confirmed claim conf \<longleftrightarrow>
     truthy conf \<and> strict_eq (get conf ''actionId'') (get claim ''actionId'')
     \<and> get conf ''status'' = JStr ''succeeded''
     \<and> (get conf ''externalReference'' = JNull \<or> re_test_or_empty is_external_reference (get conf ''externalReference''))"

definition attempt_action :: "'w action_worker \<Rightarrow> js \<Rightarrow> ('w, js) act" where
  "attempt_action W claim =
     act_bind (act_res (wk_transition W (obj [(''currentState'', get claim ''currentState''), (''actionType'', get claim ''actionType'')]))) (\<lambda>tr.
     act_bind (act_res (read tr ''state'')) (\<lambda>next_state.
     act_bind (wk_execute W (spread claim [(''nextState'', next_state), (''changed'', get tr ''changed'')])) (\<lambda>conf.
       if \<not> execution_confirmed claim conf then act_fail (act_fault ''SECURITY_ACTION_EXECUTION_UNCONFIRMED'')
       else act_bind (wk_succeed W (spread claim [(''resultState'', next_state), (''externalReference'', get conf ''externalReference'')])) (\<lambda>stored.
            act_bind (act_res (read stored ''status'')) (\<lambda>status. act_ret (obj
              [(''status'', status), (''tenantId'', get claim ''tenantId''), (''actionId'', get claim ''actionId''),
               (''actionType'', get claim ''actionType''), (''attemptCount'', get claim ''attemptCount''),
               (''changed'', get tr ''changed''), (''state'', next_state),
               (''externalReference'', get conf ''externalReference'')]))))))"

definition failure_request :: "js \<Rightarrow> js_error \<Rightarrow> rat \<Rightarrow> js" where
  "failure_request claim e delay =
     spread claim [(''failureCode'', JStr (action_failure_code e)), (''retryDelaySeconds'', num delay)]"

definition failure_report :: "js \<Rightarrow> js_error \<Rightarrow> js \<Rightarrow> js res" where
  "failure_report claim e stored =
     and_then (read stored ''status'') (\<lambda>status. Inr (obj
       [(''status'', status), (''tenantId'', get claim ''tenantId''), (''actionId'', get claim ''actionId''),
        (''actionType'', get claim ''actionType''), (''attemptCount'', get claim ''attemptCount''),
        (''failureCode'', JStr (action_failure_code e)), (''nextAttemptAt'', get stored ''nextAttemptAt'')]))"

definition record_failure :: "'w action_worker \<Rightarrow> js \<Rightarrow> js_error \<Rightarrow> ('w, js) act" where
  "record_failure W claim e =
     act_bind (act_res (action_retry_delay (get claim ''attemptCount''))) (\<lambda>delay.
     act_bind (wk_fail W (failure_request claim e delay)) (\<lambda>stored. act_res (failure_report claim e stored)))"

definition run_action_once :: "'w action_worker \<Rightarrow> ('w, js) act" where
  "run_action_once W =
     act_bind (wk_claim W (obj [(''workerId'', wk_id W)])) (\<lambda>claim.
       if \<not> truthy claim then act_ret (obj [(''status'', JStr ''idle'')])
       else act_catch (attempt_action W claim) (record_failure W claim))"

text \<open>The worker as the service wires it: repository, executor and state machine of this repository.\<close>

definition transition_value :: "transition_result \<Rightarrow> js" where
  "transition_value t =
     obj [(''actionType'', JStr (action_id (transition_action t))), (''authority'', JStr (transition_authority t)),
          (''reversible'', JBool (transition_reversible t)), (''changed'', JBool (transition_changed t)),
          (''targetCertificateReactivated'', JBool (target_certificate_reactivated t)),
          (''state'', action_state_value (transition_state t))]"

definition security_action_worker :: "'w env \<Rightarrow> 'w executor \<Rightarrow> js \<Rightarrow> 'w action_worker" where
  "security_action_worker E X worker =
     \<lparr> wk_id = worker, wk_claim = claim_next_action E, wk_succeed = mark_succeeded E, wk_fail = mark_failed E,
       wk_execute = execute_action X,
       wk_transition = (\<lambda>v. and_then (transition_security_action_state v) (\<lambda>t. Inr (transition_value t))) \<rparr>"


definition has_functions :: "js \<Rightarrow> string list \<Rightarrow> bool" where
  "has_functions v ks \<longleftrightarrow> truthy v \<and> list_all (\<lambda>k. is_function (get v k)) ks"

definition create_security_action_worker :: "js \<Rightarrow> js \<Rightarrow> js \<Rightarrow> js \<Rightarrow> unit res" where
  "create_security_action_worker worker repository executor transition =
     (if \<not> re_test_or_empty is_worker_id worker \<or> \<not> has_functions repository [''claimNext'', ''markSucceeded'', ''markFailed'']
         \<or> \<not> has_functions executor [''execute''] \<or> \<not> is_function transition
      then Inl TypeErrorThrown else Inr ())"

section \<open>Properties\<close>

lemma map_status_status:
  assumes "status_among pd reason allowed result = Inr s"
  shows "one_of allowed (get s ''status'')"
  using assms by (auto simp: status_among_def split: if_splits)

lemma mark_failed_status:
  assumes "mark_failed E v w = (w', Inr s)"
  shows "get s ''status'' = JStr ''failed''"
  using assms by (auto simp: mark_failed_def send_failure_def act_bind_Inr one_of_iff dest!: map_status_status)

text \<open>What a confirmed execution rests on.\<close>

lemma execute_action_confirmed:
  assumes "execute_action X a w = (w', Inr c)"
  shows "c = confirmation a (get c ''externalReference'')"
    "get a ''actionType'' = JStr ''revoke-certificate'' \<Longrightarrow>
       \<exists>revoke r. ex_revoke X = Some revoke \<and> revoke a w = (w', Inr r) \<and> revoke_confirmed a r
         \<and> get c ''externalReference'' = get r ''eventId''"
    "get a ''actionType'' \<in> {JStr ''restore-access'', JStr ''issue-replacement-certificate''} \<Longrightarrow>
       \<exists>u. check_recovery_authorization X a w = (u, Inr ())"
    "get a ''actionType'' = JStr ''issue-replacement-certificate'' \<Longrightarrow>
       \<exists>replace r u. ex_replace X = Some replace \<and> replace a u = (w', Inr r) \<and> replacement_confirmed a r
         \<and> get c ''externalReference'' = get r ''replacementCertificateId''"
proof -
  note d = assms[unfolded execute_action_def]
  show "c = confirmation a (get c ''externalReference'')" using d
    by (auto simp: act_bind_Inr confirmation_def split: if_splits option.splits)
  show "\<exists>revoke r. ex_revoke X = Some revoke \<and> revoke a w = (w', Inr r) \<and> revoke_confirmed a r
         \<and> get c ''externalReference'' = get r ''eventId''" if "get a ''actionType'' = JStr ''revoke-certificate''"
    using d that by (auto simp: act_bind_Inr one_of_def confirmation_def split: if_splits option.splits)
  show "\<exists>u. check_recovery_authorization X a w = (u, Inr ())"
    if "get a ''actionType'' \<in> {JStr ''restore-access'', JStr ''issue-replacement-certificate''}"
    using d that by (auto simp: act_bind_Inr one_of_def split: if_splits)
  show "\<exists>replace r u. ex_replace X = Some replace \<and> replace a u = (w', Inr r) \<and> replacement_confirmed a r
         \<and> get c ''externalReference'' = get r ''replacementCertificateId''"
    if "get a ''actionType'' = JStr ''issue-replacement-certificate''"
    using d that by (auto simp: act_bind_Inr one_of_def confirmation_def split: if_splits option.splits) 
qed


lemma map_claim_valid:
  assumes "map_claim pd row = Inr c" "truthy c"
  obtains fs where "c = obj fs" "validate_action_identity c True = Inr ()" "safe_integer_from 1 (get c ''attemptCount'')"
    "safe_integer_from 1 (get c ''expectedStateVersion'')" "one_of orchestrated_types (get c ''actionType'')"
    "recovery_fields_ok c"
proof -
  have "truthy row" using assms by (auto simp: map_claim_def split: if_splits)
  then have m: "and_then (claim_value pd row) (\<lambda>c.
           and_then (validate_action_identity c True) (\<lambda>_.
           if \<not> re_test_or_empty (is_id ''dec'') (get c ''decisionId'')
              \<or> \<not> re_test_or_empty (is_id ''cor'') (get c ''correlationId'')
              \<or> \<not> re_test_or_empty (is_id ''sub'') (get c ''targetSubjectId'')
              \<or> \<not> re_test_or_empty (is_id ''crt'') (get c ''targetCertificateId'')
              \<or> \<not> one_of orchestrated_types (get c ''actionType'')
              \<or> \<not> one_of authority_classes (get c ''authorityClass'')
              \<or> \<not> re_test_or_empty is_reason_code (get c ''reasonCode'')
              \<or> \<not> re_test_or_empty is_sha256 (get c ''triggerContextHashSha256'')
              \<or> \<not> safe_integer_from 1 (get c ''attemptCount'')
              \<or> \<not> safe_integer_from 1 (get c ''expectedStateVersion'')
              \<or> \<not> recovery_fields_ok c
           then Inl bad_source else Inr c)) = Inr c"
    using assms(1) by (simp add: map_claim_def)
  then obtain d where d: "claim_value pd row = Inr d" by auto
  from m d have "d = c" by simp
  with d have "\<exists>fs. c = obj fs" by (auto simp: claim_value_def)
  then show thesis using that m d \<open>d = c\<close> by auto
qed

lemma failure_code_valid: "is_reason_code (action_failure_code e)"
proof -
  have "is_reason_code ''ACTION_EXECUTION_FAILED''" by code_simp
  then show ?thesis by (simp add: action_failure_code_def reason_or_def split: option.split)
qed

lemma failure_request_accepted:
  assumes "c = obj fs" "validate_action_identity c True = Inr ()" "action_retry_delay (get c ''attemptCount'') = Inr d"
  shows "check_failure (failure_request c e d) = Inr ()"
proof -
  have n: "5 \<le> d \<and> d \<le> 600"
    using back_off_bounds[OF assms(3)[unfolded action_retry_delay_def]] by (simp add: action_orchestration_policy_def)
  have i: "is_safe_integer (num d)"
  proof -
    obtain k :: nat where "d = min 600 (5 * 2 ^ k)"
      using assms(3) by (auto simp: action_retry_delay_def back_off_def action_orchestration_policy_def split: if_splits)
    then have "d = of_int 600 \<or> d = of_int (5 * 2 ^ k)" by (simp add: min_def)
    then obtain z where "d = of_int z" by blast
    then show ?thesis using n by (auto simp: is_safe_integer_def is_integer_rat_def max_safe_integer_def abs_le_iff)
  qed
  show ?thesis using assms(1,2) n i failure_code_valid[of e]
    by (simp add: check_failure_def failure_request_def validate_action_identity_def get_spread safe_integer_from_def
        action_orchestration_policy_def split: if_splits)
qed

text \<open>C23: an attempt that fails after a claim is recorded exactly once under the claim, with the failure code of
  the error (or the fallback) and a retry delay between 5 and 600 seconds; the worker's report is what
  that record answers.\<close>

theorem failed_actions_are_recorded:
  assumes "claim_next_action E (obj [(''workerId'', worker)]) w = (w1, Inr claim)" "truthy claim"
    "attempt_action (security_action_worker E X worker) claim w1 = (w2, Inl e)"
  shows "\<exists>delay. action_retry_delay (get claim ''attemptCount'') = Inr delay \<and> 5 \<le> delay \<and> delay \<le> 600
    \<and> is_reason_code (action_failure_code e)
    \<and> run_action_once (security_action_worker E X worker) w
       = act_bind (send_failure E (failure_request claim e delay)) (\<lambda>stored. act_res (failure_report claim e stored)) w2"
proof -
  obtain row where "map_claim (env_date E) row = Inr claim"
    using assms(1) by (auto simp: claim_next_action_def act_bind_Inr split: if_splits)
  then obtain fs where c: "claim = obj fs" "validate_action_identity claim True = Inr ()"
    "safe_integer_from 1 (get claim ''attemptCount'')"
    using assms(2) by (rule map_claim_valid)
  obtain d where d: "action_retry_delay (get claim ''attemptCount'') = Inr d"
    using c(3) by (auto simp: action_retry_delay_def back_off_def)
  have "5 \<le> d \<and> d \<le> 600"
    using back_off_bounds[OF d[unfolded action_retry_delay_def]] by (simp add: action_orchestration_policy_def)
  moreover have "mark_failed E (failure_request claim e d) = send_failure E (failure_request claim e d)"
    using failure_request_accepted[OF c(1,2) d] by (auto simp: mark_failed_def act_bind_def fun_eq_iff)
  ultimately show ?thesis using assms d failure_code_valid[of e]
    by (intro exI[of _ d]) (simp add: run_action_once_def act_bind_def act_catch_def record_failure_def security_action_worker_def
        split: prod.split sum.split)
qed

text \<open>C22: the worker reports success only for an action that was claimed, whose state transition was accepted
  and that was recorded as succeeded in the database with the resulting state: a revocation only with the
  executor's confirmation of exactly this certificate as revoked, a recovery only under a recovery
  authorization that was checked before.\<close>

theorem completed_actions_are_confirmed:
  assumes "run_action_once (security_action_worker E X worker) w = (w', Inr out)" "get out ''status'' = JStr ''succeeded''"
  shows "\<exists>row claim t action u v.
    map_claim (env_date E) row = Inr claim
    \<and> get out ''actionId'' = get claim ''actionId''
    \<and> transition_security_action_state (obj [(''currentState'', get claim ''currentState''), (''actionType'', get claim ''actionType'')]) = Inr t
    \<and> get out ''state'' = action_state_value (transition_state t)
    \<and> action = spread claim [(''nextState'', get out ''state''), (''changed'', get out ''changed'')]
    \<and> (get claim ''actionType'' = JStr ''revoke-certificate'' \<longrightarrow>
        (\<exists>revoke r. ex_revoke X = Some revoke \<and> revoke action u = (v, Inr r)
          \<and> strict_eq (get r ''certificateId'') (get claim ''targetCertificateId'') \<and> get r ''state'' = JStr ''revoked''
          \<and> get out ''externalReference'' = get r ''eventId''))
    \<and> (get claim ''actionType'' \<in> {JStr ''restore-access'', JStr ''issue-replacement-certificate''} \<longrightarrow>
        (\<exists>u'. check_recovery_authorization X action u = (u', Inr ())))
    \<and> (\<exists>time u v result. env_query E mark_succeeded_sql
         [get claim ''tenantId'', get claim ''actionId'', get claim ''claimToken'',
          JStr (the (json_stringify (get out ''state''))), get out ''externalReference'', JStr time] u = (v, Inr result))"
proof -
  let ?W = "security_action_worker E X worker"
  obtain w1 claim where cl: "claim_next_action E (obj [(''workerId'', worker)]) w = (w1, Inr claim)" "truthy claim"
    and run: "act_catch (attempt_action ?W claim) (record_failure ?W claim) w1 = (w', Inr out)"
    using assms by (auto simp: run_action_once_def act_bind_Inr security_action_worker_def split: if_splits)
  obtain row where m: "map_claim (env_date E) row = Inr claim"
    using cl(1) by (auto simp: claim_next_action_def act_bind_Inr split: if_splits)
  then obtain fs where c: "claim = obj fs" using cl(2) by (rule map_claim_valid)
  have "attempt_action ?W claim w1 = (w', Inr out)"
  proof (cases "snd (attempt_action ?W claim w1)")
    case (Inr o')
    then show ?thesis using run by (auto simp: act_catch_def split: prod.splits)
  next
    case (Inl e)
    then have "get out ''status'' = JStr ''failed''"
      using run by (auto simp: act_catch_def record_failure_def act_bind_Inr failure_report_def security_action_worker_def
          dest!: mark_failed_status split: prod.splits)
    then show ?thesis using assms(2) by simp
  qed
  then obtain tr conf stored u v v2 where t: "wk_transition ?W (obj [(''currentState'', get claim ''currentState''), (''actionType'', get claim ''actionType'')]) = Inr tr"
    and ex: "execute_action X (spread claim [(''nextState'', get tr ''state''), (''changed'', get tr ''changed'')]) u = (v, Inr conf)"
    and ms: "mark_succeeded E (spread claim [(''resultState'', get tr ''state''), (''externalReference'', get conf ''externalReference'')]) v = (v2, Inr stored)"
    and out: "out = obj [(''status'', get stored ''status''), (''tenantId'', get claim ''tenantId''), (''actionId'', get claim ''actionId''),
               (''actionType'', get claim ''actionType''), (''attemptCount'', get claim ''attemptCount''),
               (''changed'', get tr ''changed''), (''state'', get tr ''state''),
               (''externalReference'', get conf ''externalReference'')]"
    by (auto simp: attempt_action_def act_bind_Inr security_action_worker_def split: if_splits)
  obtain s where s: "transition_security_action_state (obj [(''currentState'', get claim ''currentState''), (''actionType'', get claim ''actionType'')]) = Inr s"
    "tr = transition_value s"
    using t by (auto simp: security_action_worker_def)
  have st: "get out ''state'' = action_state_value (transition_state s)" using out s(2) by (simp add: transition_value_def)
  let ?a = "spread claim [(''nextState'', get out ''state''), (''changed'', get out ''changed'')]"
  have a: "execute_action X ?a u = (v, Inr conf)" using ex out by simp
  note e = execute_action_confirmed[OF a]
  have g: "get ?a ''actionType'' = get claim ''actionType''" "get ?a ''targetCertificateId'' = get claim ''targetCertificateId''"
    by (simp_all add: c get_spread)
  have ref: "get out ''externalReference'' = get conf ''externalReference''" "get out ''actionId'' = get claim ''actionId''"
    using out by simp_all
  have revoke: "get claim ''actionType'' = JStr ''revoke-certificate'' \<longrightarrow>
        (\<exists>revoke r. ex_revoke X = Some revoke \<and> revoke ?a u = (v, Inr r)
          \<and> strict_eq (get r ''certificateId'') (get claim ''targetCertificateId'') \<and> get r ''state'' = JStr ''revoked''
          \<and> get out ''externalReference'' = get r ''eventId'')"
    using e(2) unfolding g ref(1) revoke_confirmed_def by blast
  have recovery: "get claim ''actionType'' \<in> {JStr ''restore-access'', JStr ''issue-replacement-certificate''} \<longrightarrow>
        (\<exists>u'. check_recovery_authorization X ?a u = (u', Inr ()))"
    using e(3) unfolding g by blast
  have sg: "get (spread claim [(''resultState'', x), (''externalReference'', y)]) k
      = (if k = ''externalReference'' then y else if k = ''resultState'' then x else get claim k)" for x y k
    by (simp add: c get_spread)
  have "\<exists>time u v result. env_query E mark_succeeded_sql
         [get claim ''tenantId'', get claim ''actionId'', get claim ''claimToken'',
          (case json_stringify (get tr ''state'') of None \<Rightarrow> JUndef | Some s \<Rightarrow> JStr s), get conf ''externalReference'', JStr time] u = (v, Inr result)"
    using ms by (auto simp: mark_succeeded_def act_bind_Inr sg)
  moreover obtain jt where "json_stringify (get tr ''state'') = Some jt"
  proof -
    obtain gs where "get tr ''state'' = obj gs" using s(2) by (simp add: transition_value_def action_state_value_def)
    then show thesis using that by simp
  qed
  moreover have "get out ''state'' = get tr ''state''" using out by simp
  ultimately have stored: "\<exists>time u v result. env_query E mark_succeeded_sql
         [get claim ''tenantId'', get claim ''actionId'', get claim ''claimToken'',
          JStr (the (json_stringify (get out ''state''))), get out ''externalReference'', JStr time] u = (v, Inr result)"
    using ref by (simp del: json_stringify.simps)
  show ?thesis using m ref(2) s(1) st revoke recovery stored
    by (intro exI[of _ row] exI[of _ claim] exI[of _ s] exI[of _ ?a] exI[of _ u] exI[of _ v] conjI) (assumption | rule refl)+
qed


subsection \<open>Witnesses\<close>

text \<open>A queued revocation, a certificate authority that confirms it and a database that stores the outcome.\<close>

abbreviation ao_row :: js where
  "ao_row \<equiv> obj
     [(''tenant_id'', JStr ''tnt_00000000-0000-4000-8000-000000000001''), (''action_id'', JStr ''act_00000000-0000-4000-8000-000000000001''),
      (''decision_id'', JStr ''dec_00000000-0000-4000-8000-000000000001''), (''correlation_id'', JStr ''cor_00000000-0000-4000-8000-000000000001''),
      (''target_subject_id'', JStr ''sub_00000000-0000-4000-8000-000000000001''), (''target_certificate_id'', JStr ''crt_00000000-0000-4000-8000-000000000001''),
      (''action_type'', JStr ''revoke-certificate''), (''authority_class'', JStr ''severity-rule''),
      (''reason_code'', JStr ''SEVERE''), (''trigger_context_hash_sha256'', JStr (replicate 64 (CHR ''a''))),
      (''claim_token'', JStr ''clm_00000000-0000-4000-8000-000000000001''), (''attempt_count'', num 1), (''expected_state_version'', num 1),
      (''access_state'', JStr ''normal''), (''renewal_state'', JStr ''allowed''), (''target_certificate_state'', JStr ''active''),
      (''replacement_state'', JStr ''not-required''), (''status'', JStr ''succeeded''), (''last_failure_code'', JNull),
      (''recovery_authorization_id'', JNull), (''recovery_authorized_by_subject_id'', JNull), (''recovery_authorized_until'', JNull),
      (''cause_resolution_reference'', JNull), (''next_attempt_at'', JNull), (''succeeded_at'', JNull)]"

definition ao_env :: "unit env" where
  "ao_env = \<lparr> env_query = (\<lambda>sql values. act_ret (obj [(''rows'', JArr [ao_row])])),
     env_id = act_ret (JStr ''00000000-0000-4000-8000-000000000001''), env_clock = act_ret (JDate (Some 0)),
     env_date = (\<lambda>v. None) \<rparr>"

definition ao_revoke :: "js \<Rightarrow> (unit, js) act" where
  "ao_revoke action = act_ret (obj [(''certificateId'', get action ''targetCertificateId''), (''state'', JStr ''revoked''),
     (''eventId'', JStr ''evt-1'')])"

definition ao_executor :: "(js \<Rightarrow> (unit, js) act) option \<Rightarrow> unit executor" where
  "ao_executor revoke = \<lparr> ex_revoke = revoke, ex_replace = None, ex_clock = act_ret (JDate (Some 0)), ex_date = (\<lambda>v. None) \<rparr>"

lemma ao_ids:
  "is_id ''tnt'' ''tnt_00000000-0000-4000-8000-000000000001''" "is_id ''act'' ''act_00000000-0000-4000-8000-000000000001''"
  "is_id ''dec'' ''dec_00000000-0000-4000-8000-000000000001''" "is_id ''cor'' ''cor_00000000-0000-4000-8000-000000000001''"
  "is_id ''sub'' ''sub_00000000-0000-4000-8000-000000000001''" "is_id ''crt'' ''crt_00000000-0000-4000-8000-000000000001''"
  "is_id ''clm'' ''clm_00000000-0000-4000-8000-000000000001''" "is_reason_code ''SEVERE''" "is_worker_id ''worker-1''"
  "is_external_reference ''evt-1''"
  by code_simp+

lemma ao_hash: "is_sha256 (replicate 64 (CHR ''a''))"
  by (simp add: is_sha256_def lower_hex_def list_all_iff)

definition ao_claim :: js where
  "ao_claim = obj
     [(''tenantId'', JStr ''tnt_00000000-0000-4000-8000-000000000001''),
      (''actionId'', JStr ''act_00000000-0000-4000-8000-000000000001''),
      (''decisionId'', JStr ''dec_00000000-0000-4000-8000-000000000001''),
      (''correlationId'', JStr ''cor_00000000-0000-4000-8000-000000000001''),
      (''targetSubjectId'', JStr ''sub_00000000-0000-4000-8000-000000000001''),
      (''targetCertificateId'', JStr ''crt_00000000-0000-4000-8000-000000000001''),
      (''actionType'', JStr ''revoke-certificate''),
      (''authorityClass'', JStr ''severity-rule''),
      (''reasonCode'', JStr ''SEVERE''),
      (''triggerContextHashSha256'', JStr (replicate 64 (CHR ''a''))),
      (''claimToken'', JStr ''clm_00000000-0000-4000-8000-000000000001''),
      (''attemptCount'', num 1),
      (''expectedStateVersion'', num 1),
      (''currentState'', action_state_value initial_security_action_state),
      (''recoveryAuthorizationId'', JNull),
      (''recoveryAuthorizedBySubjectId'', JNull),
      (''recoveryAuthorizedUntil'', JNull),
      (''causeResolutionReference'', JNull)]"

lemma ao_claim_get:
  "get ao_claim ''tenantId'' = JStr ''tnt_00000000-0000-4000-8000-000000000001''"
  "get ao_claim ''actionId'' = JStr ''act_00000000-0000-4000-8000-000000000001''"
  "get ao_claim ''decisionId'' = JStr ''dec_00000000-0000-4000-8000-000000000001''"
  "get ao_claim ''correlationId'' = JStr ''cor_00000000-0000-4000-8000-000000000001''"
  "get ao_claim ''targetSubjectId'' = JStr ''sub_00000000-0000-4000-8000-000000000001''"
  "get ao_claim ''targetCertificateId'' = JStr ''crt_00000000-0000-4000-8000-000000000001''"
  "get ao_claim ''actionType'' = JStr ''revoke-certificate''"
  "get ao_claim ''authorityClass'' = JStr ''severity-rule''"
  "get ao_claim ''reasonCode'' = JStr ''SEVERE''"
  "get ao_claim ''triggerContextHashSha256'' = JStr (replicate 64 (CHR ''a''))"
  "get ao_claim ''claimToken'' = JStr ''clm_00000000-0000-4000-8000-000000000001''"
  "get ao_claim ''attemptCount'' = num 1"
  "get ao_claim ''expectedStateVersion'' = num 1"
  "get ao_claim ''currentState'' = action_state_value initial_security_action_state"
  "get ao_claim ''recoveryAuthorizationId'' = JNull"
  "get ao_claim ''recoveryAuthorizedBySubjectId'' = JNull"
  "get ao_claim ''recoveryAuthorizedUntil'' = JNull"
  "get ao_claim ''causeResolutionReference'' = JNull"
  by (simp_all add: ao_claim_def)

lemma ao_mapped: "map_claim (\<lambda>v. None) ao_row = Inr ao_claim" "truthy ao_claim" "ao_claim = obj (own_fields ao_claim)"
proof -
  have "claim_value (\<lambda>v. None) ao_row = Inr ao_claim"
    by (simp add: claim_value_def iso_or_null_def js_number_def coalesce_def nullish_def map_state_def ao_claim_def
        action_state_value_def initial_security_action_state_def)
  moreover have "validate_action_identity ao_claim True = Inr ()"
    by (simp add: validate_action_identity_def ao_claim_get ao_ids) (simp add: ao_claim_def nullish_def)
  ultimately show "map_claim (\<lambda>v. None) ao_row = Inr ao_claim"
    by (simp add: map_claim_def ao_claim_get ao_ids ao_hash one_of_def orchestrated_types_def authority_classes_def
        safe_integer_from_def is_safe_integer_def is_integer_rat_def max_safe_integer_def recovery_fields_ok_def)
  show "truthy ao_claim" by (simp add: ao_claim_def)
  show "ao_claim = obj (own_fields ao_claim)" by (simp add: ao_claim_def)
qed

lemma ao_spread: "get (spread ao_claim kvs) k = (case map_of (rev kvs) k of Some x \<Rightarrow> x | None \<Rightarrow> get ao_claim k)"
  using get_spread[of "own_fields ao_claim" kvs k] by (simp only: ao_mapped(3)[symmetric])

lemma ao_claimed: "claim_next_action ao_env (obj [(''workerId'', JStr ''worker-1'')]) () = ((), Inr ao_claim)"
  by (simp add: claim_next_action_def read_def nullish_def ao_ids act_bind_def claim_token_def ao_env_def action_now_def
      env_now_def iso_def maybe_one_row_def coalesce_def ao_mapped(1))

lemma ao_transition:
  "transition_security_action_state (obj [(''currentState'', action_state_value initial_security_action_state), (''actionType'', JStr ''revoke-certificate'')])
    = Inr \<lparr> transition_action = RevokeCertificate, transition_authority = ''severity-rule'',
          transition_reversible = False, transition_changed = True, target_certificate_reactivated = False,
          transition_state = \<lparr> access = AccessSuspended, renewal = RenewalBlocked,
            target_certificate = CertificateRevoked, replacement = ReplacementRequired \<rparr> \<rparr>"
  by code_simp

lemma ao_stored: "\<exists>s. status_among (\<lambda>v. None) r [''succeeded''] (obj [(''rows'', JArr [ao_row])]) = Inr s \<and> get s ''status'' = JStr ''succeeded''"
  by (simp add: status_among_def one_row_def map_status_def iso_or_null_def js_number_def validate_action_identity_def nullish_def
      ao_ids one_of_def execution_statuses_def safe_integer_from_def is_safe_integer_def is_integer_rat_def max_safe_integer_def Let_def)

lemma ao_nullish: "\<not> nullish (action_state_value s)"
  by (simp add: action_state_value_def)

lemma ao_env_simps: "env_query ao_env sql vs () = ((), Inr (obj [(''rows'', JArr [ao_row])]))" "env_date ao_env = (\<lambda>v. None)"
  "action_now ao_env () = ((), Inr (time_to_iso 0))"
  by (simp_all add: ao_env_def action_now_def env_now_def iso_def act_bind_def)

lemma completed_actions_are_confirmed_witness:
  "\<exists>out claim. run_action_once (security_action_worker ao_env (ao_executor (Some ao_revoke)) (JStr ''worker-1'')) () = ((), Inr out)
     \<and> get out ''status'' = JStr ''succeeded'' \<and> get out ''actionId'' = get claim ''actionId''"
proof -
  obtain s where s: "status_among (\<lambda>v. None) ''SECURITY_ACTION_SUCCESS_INVALID'' [''succeeded''] (obj [(''rows'', JArr [ao_row])]) = Inr s"
    "get s ''status'' = JStr ''succeeded''" using ao_stored by blast
  have n: "\<not> nullish s" using s(2) by (auto simp: nullish_def)
  have "\<exists>out. run_action_once (security_action_worker ao_env (ao_executor (Some ao_revoke)) (JStr ''worker-1'')) () = ((), Inr out)
     \<and> get out ''status'' = JStr ''succeeded''"
    unfolding run_action_once_def security_action_worker_def action_worker.simps
    by (simp add: act_bind_def ao_claimed ao_mapped(2) act_catch_def attempt_action_def ao_claim_get ao_transition transition_value_def ao_nullish read_def
      ao_env_simps execute_action_def ao_executor_def ao_revoke_def revoke_confirmed_def ao_spread ao_ids one_of_def orchestrated_types_def confirmation_def
      execution_confirmed_def mark_succeeded_def check_success_def validate_action_identity_def safe_integer_from_def is_safe_integer_def
      is_integer_rat_def max_safe_integer_def s n)
  then obtain out where r: "run_action_once (security_action_worker ao_env (ao_executor (Some ao_revoke)) (JStr ''worker-1'')) () = ((), Inr out)"
    "get out ''status'' = JStr ''succeeded''" by blast
  obtain claim where "get out ''actionId'' = get claim ''actionId''"
    using completed_actions_are_confirmed[OF r] by blast
  then show ?thesis using r by blast
qed

lemma failed_actions_are_recorded_witness:
  "\<exists>delay e. 5 \<le> delay \<and> delay \<le> 600 \<and> run_action_once (security_action_worker ao_env (ao_executor None) (JStr ''worker-1'')) ()
     = act_bind (send_failure ao_env (failure_request ao_claim e delay)) (\<lambda>stored. act_res (failure_report ao_claim e stored)) ()"
proof -
  have "attempt_action (security_action_worker ao_env (ao_executor None) (JStr ''worker-1'')) ao_claim ()
    = ((), Inl (act_fault ''REVOCATION_EXECUTOR_UNAVAILABLE''))"
    by (simp add: act_bind_def attempt_action_def ao_claim_get ao_transition transition_value_def ao_nullish read_def
      ao_env_simps execute_action_def ao_executor_def ao_spread ao_ids one_of_def orchestrated_types_def security_action_worker_def)
  from failed_actions_are_recorded[OF ao_claimed ao_mapped(2) this] show ?thesis by blast
qed

end
