(* ===== verification/ActionOperations.thy ===== *)
theory ActionOperations
  imports JsEffects
begin

text \<open>
  \<open>services/orchestrator/src/action-operations.mjs\<close>: the operator's view of the security actions, its
  recovery of expired leases and the monitor that summarises the issues the database reports.
\<close>

section \<open>Rows\<close>

definition ops_fault :: "string \<Rightarrow> js_error" where
  "ops_fault r = Thrown SecurityActionOperationsError r"

abbreviation ops_bad_source :: js_error where
  "ops_bad_source \<equiv> ops_fault ''SECURITY_ACTION_OPERATIONS_SOURCE_INVALID''"

definition ops_action_statuses :: "string list" where
  "ops_action_statuses = [''pending'', ''executing'', ''succeeded'', ''failed'']"

definition ops_audit_statuses :: "string list" where
  "ops_audit_statuses = [''pending'', ''submitting'', ''submitted'', ''confirming'', ''committed'', ''failed'']"

definition ops_severities :: "string list" where
  "ops_severities = [''critical'', ''warning'', ''info'']"

definition recover_leases_sql :: string where
  "recover_leases_sql = ''SELECT * FROM orchestration.recover_expired_security_action_leases($1,$2)''"

definition list_issues_sql :: string where
  "list_issues_sql = ''SELECT * FROM orchestration.list_security_action_operational_issues($1,$2)''"

definition maximum_issue_page_size :: rat where
  "maximum_issue_page_size = 500"

definition nullable_iso :: "(js \<Rightarrow> int option) \<Rightarrow> js \<Rightarrow> js res" where
  "nullable_iso pd v =
     (if nullish v \<or> v = JStr ''infinity'' \<or> v = JNum PosInf then Inr JNull
      else and_then (iso pd ops_bad_source v) (\<lambda>t. Inr (JStr t)))"

text \<open>\<open>row?.k\<close> is \<open>undefined\<close> for an absent row.\<close>

definition issue_value :: "(js \<Rightarrow> int option) \<Rightarrow> js \<Rightarrow> js res" where
  "issue_value pd row =
     and_then (nullable_iso pd (get row ''next_attempt_at'')) (\<lambda>next_attempt.
     and_then (nullable_iso pd (get row ''lease_expires_at'')) (\<lambda>lease_expires.
     and_then (iso pd ops_bad_source (get row ''observed_at'')) (\<lambda>observed. Inr (obj
       [(''tenantId'', get row ''tenant_id''), (''actionId'', get row ''action_id''),
        (''correlationId'', get row ''correlation_id''), (''issueCode'', get row ''issue_code''),
        (''severity'', get row ''severity''), (''actionStatus'', get row ''action_status''),
        (''attemptCount'', js_number (get row ''attempt_count'')),
        (''lastFailureCode'', coalesce (get row ''last_failure_code'') JNull),
        (''nextAttemptAt'', next_attempt), (''leaseExpiresAt'', lease_expires),
        (''auditEventId'', coalesce (get row ''audit_event_id'') JNull),
        (''auditDeliveryStatus'', coalesce (get row ''audit_delivery_status'') JNull),
        (''retryable'', get row ''retryable''), (''observedAt'', JStr observed)]))))"

definition map_issue :: "(js \<Rightarrow> int option) \<Rightarrow> js \<Rightarrow> js res" where
  "map_issue pd row =
     and_then (issue_value pd row) (\<lambda>i.
       if \<not> re_test_or_empty (is_id ''tnt'') (get i ''tenantId'') \<or> \<not> re_test_or_empty (is_id ''act'') (get i ''actionId'')
          \<or> \<not> re_test_or_empty (is_id ''cor'') (get i ''correlationId'')
          \<or> \<not> re_test_or_empty is_reason_code (get i ''issueCode'')
          \<or> \<not> one_of ops_severities (get i ''severity'') \<or> \<not> one_of ops_action_statuses (get i ''actionStatus'')
          \<or> \<not> safe_integer_from 0 (get i ''attemptCount'')
          \<or> (get i ''lastFailureCode'' \<noteq> JNull \<and> \<not> re_test is_reason_code (get i ''lastFailureCode''))
          \<or> (get i ''auditEventId'' \<noteq> JNull \<and> \<not> re_test (is_id ''evt'') (get i ''auditEventId''))
          \<or> (get i ''auditDeliveryStatus'' \<noteq> JNull \<and> \<not> one_of ops_audit_statuses (get i ''auditDeliveryStatus''))
          \<or> \<not> is_bool (get i ''retryable'')
       then Inl ops_bad_source else Inr i)"

section \<open>Repository\<close>

definition ops_now :: "'w env \<Rightarrow> ('w, string) act" where
  "ops_now E = env_now E ops_bad_source"

definition recover_expired_leases :: "'w env \<Rightarrow> js \<Rightarrow> ('w, js) act" where
  "recover_expired_leases E request =
     act_bind (act_res (read request ''workerId'')) (\<lambda>worker.
       if \<not> re_test_or_empty is_worker_id worker then act_fail (ops_fault ''SECURITY_ACTION_RECOVERY_INVALID'')
       else act_bind (ops_now E) (\<lambda>t.
            act_bind (env_query E recover_leases_sql [worker, JStr t]) (\<lambda>result. act_res (
              and_then (one_row (ops_fault ''SECURITY_ACTION_RECOVERY_INVALID'') result) (\<lambda>row.
              and_then (read row ''recovered_count'') (\<lambda>n.
                if \<not> safe_integer_from 0 (js_number n) then Inl (ops_fault ''SECURITY_ACTION_RECOVERY_INVALID'')
                else and_then (nullable_iso (env_date E) (get row ''earliest_retry_at'')) (\<lambda>earliest.
                  Inr (obj [(''recoveredCount'', js_number n), (''earliestRetryAt'', earliest)]))))))))"

text \<open>\<open>{ limit = 100 } = {}\<close>\<close>

definition limit_of :: "js \<Rightarrow> js res" where
  "limit_of request =
     (if request = JUndef then Inr (num 100)
      else and_then (read request ''limit'') (\<lambda>l. Inr (if l = JUndef then num 100 else l)))"

definition list_issues :: "'w env \<Rightarrow> js \<Rightarrow> ('w, js list) act" where
  "list_issues E request =
     act_bind (act_res (limit_of request)) (\<lambda>limit.
       if \<not> safe_integer_from 1 limit \<or> maximum_issue_page_size < num_of limit
       then act_fail (ops_fault ''SECURITY_ACTION_OPERATIONS_QUERY_INVALID'')
       else act_bind (ops_now E) (\<lambda>t.
            act_bind (env_query E list_issues_sql [limit, JStr t]) (\<lambda>result. act_res (
              if \<not> truthy result \<or> \<not> is_array (get result ''rows'') then Inl ops_bad_source
              else map_res (map_issue (env_date E)) (elements (get result ''rows''))))))"

section \<open>Monitor\<close>

record issue_counts =
  n_critical :: nat
  n_warning :: nat
  n_info :: nat

text \<open>A severity outside the three would add a property of its own; the repository refuses those.\<close>

definition count_severity :: "js \<Rightarrow> issue_counts \<Rightarrow> issue_counts" where
  "count_severity issue c =
     (if get issue ''severity'' = JStr ''critical'' then c \<lparr> n_critical := n_critical c + 1 \<rparr>
      else if get issue ''severity'' = JStr ''warning'' then c \<lparr> n_warning := n_warning c + 1 \<rparr>
      else if get issue ''severity'' = JStr ''info'' then c \<lparr> n_info := n_info c + 1 \<rparr> else c)"

definition summarize_issues :: "js list \<Rightarrow> issue_counts" where
  "summarize_issues issues = fold count_severity issues \<lparr> n_critical = 0, n_warning = 0, n_info = 0 \<rparr>"

record operations_report =
  report_status :: string
  report_counts :: issue_counts
  report_issues :: "js list"

definition report_of :: "js list \<Rightarrow> operations_report" where
  "report_of issues =
     (let counts = summarize_issues issues in
      \<lparr> report_status = (if 0 < n_critical counts then ''critical'' else if 0 < length issues then ''attention'' else ''healthy''),
        report_counts = counts, report_issues = issues \<rparr>)"

definition inspect_operations :: "'w env \<Rightarrow> js \<Rightarrow> ('w, operations_report) act" where
  "inspect_operations E request =
     act_bind (act_res (limit_of request)) (\<lambda>limit.
     act_bind (list_issues E (obj [(''limit'', limit)])) (\<lambda>issues. act_ret (report_of issues)))"

text \<open>\<open>recoverOnStartup({ workerId, limit = 100 })\<close>: the leases first, then the report.\<close>

definition recover_on_startup :: "'w env \<Rightarrow> js \<Rightarrow> ('w, js \<times> operations_report) act" where
  "recover_on_startup E request =
     act_bind (act_res (read request ''workerId'')) (\<lambda>worker.
     act_bind (act_res (limit_of request)) (\<lambda>limit.
     act_bind (recover_expired_leases E (obj [(''workerId'', worker)])) (\<lambda>recovery.
     act_bind (inspect_operations E (obj [(''limit'', limit)])) (\<lambda>report. act_ret (recovery, report)))))"

section \<open>Properties\<close>

lemma map_issue_severity: "map_issue pd row = Inr i \<Longrightarrow> one_of ops_severities (get i ''severity'')"
  by (auto simp: map_issue_def split: if_splits)

lemma count_total:
  "list_all (\<lambda>i. one_of ops_severities (get i ''severity'')) is \<Longrightarrow>
   let c' = fold count_severity is c in
     n_critical c' = n_critical c + length (filter (\<lambda>i. get i ''severity'' = JStr ''critical'') is)
     \<and> n_critical c' + n_warning c' + n_info c' = n_critical c + n_warning c + n_info c + length is"
proof (induction "is" arbitrary: c)
  case (Cons i "is")
  have "one_of ops_severities (get i ''severity'')" using Cons.prems by simp
  then have "get i ''severity'' \<in> {JStr ''critical'', JStr ''warning'', JStr ''info''}"
    by (auto simp: one_of_iff ops_severities_def)
  with Cons.IH[of "count_severity i c"] Cons.prems show ?case by (auto simp: count_severity_def Let_def)
qed simp

text \<open>The monitor never understates the state of the queue: its report covers every issue the database
  returned, each counted under exactly one severity; it is critical exactly when a critical issue
  exists and healthy exactly when there is no issue at all.\<close>

theorem operations_report_is_exact:
  assumes "inspect_operations E request w = (w', Inr report)"
  shows "n_critical (report_counts report) + n_warning (report_counts report) + n_info (report_counts report) = length (report_issues report)
    \<and> (report_status report = ''critical'' \<longleftrightarrow> (\<exists>i \<in> set (report_issues report). get i ''severity'' = JStr ''critical''))
    \<and> (report_status report = ''healthy'' \<longleftrightarrow> report_issues report = [])
    \<and> (\<exists>limit t u result. env_query E list_issues_sql [limit, JStr t] u = (w', Inr result) \<and> num_of limit \<le> 500
        \<and> map_res (map_issue (env_date E)) (elements (get result ''rows'')) = Inr (report_issues report))"
proof -
  obtain limit issues where l: "list_issues E (obj [(''limit'', limit)]) w = (w', Inr issues)" "report = report_of issues"
    using assms by (auto simp: inspect_operations_def act_bind_Inr)
  obtain lm t u result where q: "env_query E list_issues_sql [lm, JStr t] u = (w', Inr result)" "num_of lm \<le> 500"
    "map_res (map_issue (env_date E)) (elements (get result ''rows'')) = Inr issues"
    using l(1) by (auto simp: list_issues_def act_bind_Inr maximum_issue_page_size_def not_less split: if_splits)
  have "list_all (\<lambda>i. one_of ops_severities (get i ''severity'')) issues"
    by (rule map_res_all[OF q(3)]) (rule map_issue_severity)
  from count_total[OF this, of "\<lparr> n_critical = 0, n_warning = 0, n_info = 0 \<rparr>"]
  have c: "n_critical (summarize_issues issues) = length (filter (\<lambda>i. get i ''severity'' = JStr ''critical'') issues)"
    "n_critical (summarize_issues issues) + n_warning (summarize_issues issues) + n_info (summarize_issues issues) = length issues"
    by (simp_all add: summarize_issues_def Let_def)
  have r: "report_counts report = summarize_issues issues" "report_issues report = issues"
    "report_status report = (if 0 < n_critical (summarize_issues issues) then ''critical'' else if 0 < length issues then ''attention'' else ''healthy'')"
    by (simp_all add: l(2) report_of_def Let_def)
  have "0 < n_critical (summarize_issues issues) \<longleftrightarrow> (\<exists>i \<in> set issues. get i ''severity'' = JStr ''critical'')"
    by (auto simp: c(1) filter_empty_conv)
  then have status: "report_status report = ''critical'' \<longleftrightarrow> (\<exists>i \<in> set (report_issues report). get i ''severity'' = JStr ''critical'')"
    "report_status report = ''healthy'' \<longleftrightarrow> report_issues report = []"
    unfolding r by auto
  show ?thesis unfolding r(1,2) using c(2) status[unfolded r(2)] q
    by (intro conjI exI[of _ lm] exI[of _ t] exI[of _ u] exI[of _ result]) assumption+
qed

abbreviation ops_row :: js where
  "ops_row \<equiv> obj
     [(''tenant_id'', JStr ''tnt_00000000-0000-4000-8000-000000000001''), (''action_id'', JStr ''act_00000000-0000-4000-8000-000000000001''),
      (''correlation_id'', JStr ''cor_00000000-0000-4000-8000-000000000001''), (''issue_code'', JStr ''LEASE_EXPIRED''),
      (''severity'', JStr ''critical''), (''action_status'', JStr ''executing''), (''attempt_count'', num 1), (''last_failure_code'', JNull),
      (''next_attempt_at'', JNull), (''lease_expires_at'', JNull), (''audit_event_id'', JNull), (''audit_delivery_status'', JNull),
      (''retryable'', JBool True), (''observed_at'', JDate (Some 0))]"

definition ops_env :: "unit env" where
  "ops_env = \<lparr> env_query = (\<lambda>sql values. act_ret (obj [(''rows'', JArr [ops_row])])), env_id = act_ret JNull,
     env_clock = act_ret (JDate (Some 0)), env_date = (\<lambda>v. None) \<rparr>"

lemma operations_report_is_exact_witness:
  "\<exists>report. inspect_operations ops_env JUndef () = ((), Inr report) \<and> report_status report = ''critical''"
proof -
  have ids: "is_id ''tnt'' ''tnt_00000000-0000-4000-8000-000000000001''" "is_id ''act'' ''act_00000000-0000-4000-8000-000000000001''"
    "is_id ''cor'' ''cor_00000000-0000-4000-8000-000000000001''" "is_reason_code ''LEASE_EXPIRED''"
    by code_simp+
  have "\<exists>i. map_issue (\<lambda>v. None) ops_row = Inr i \<and> get i ''severity'' = JStr ''critical''"
    by (simp add: map_issue_def issue_value_def nullable_iso_def iso_def js_number_def coalesce_def ids one_of_def ops_severities_def
        ops_action_statuses_def safe_integer_from_def is_safe_integer_def is_integer_rat_def max_safe_integer_def)
  then obtain i where i: "map_issue (\<lambda>v. None) ops_row = Inr i" "get i ''severity'' = JStr ''critical''" by blast
  have "inspect_operations ops_env JUndef () = ((), Inr (report_of [i]))"
    using i(1) by (simp add: inspect_operations_def act_bind_def limit_of_def list_issues_def ops_env_def ops_now_def env_now_def iso_def
        safe_integer_from_def is_safe_integer_def is_integer_rat_def max_safe_integer_def maximum_issue_page_size_def)
  moreover from operations_report_is_exact[OF this] i(2) have "report_status (report_of [i]) = ''critical''"
    by (simp add: report_of_def Let_def)
  ultimately show ?thesis by blast
qed

end
