(* ===== verification/StateInvalidation.thy ===== *)
theory StateInvalidation
  imports JsEffects TenantContext "HOL-Library.Sublist"
begin

text \<open>
  \<open>services/orchestrator/src/security-state-invalidation.mjs\<close>: the Redis store of sessions and cache
  entries per subject, with its two Lua scripts, the repository of invalidation work and the worker
  that carries one invalidation out. The Redis commands the scripts call are a parameter; what the code
  relies on is \<open>redis_ok\<close>, which describes them over a view of the live keys of the database and
  the time each has left; time passes between the operations of the store, and a script sees one moment.
\<close>

section \<open>Policy\<close>

definition inv_fault :: "string \<Rightarrow> js_error" where
  "inv_fault r = Thrown SecurityStateInvalidationError r"

definition invalidating_actions :: "string list" where
  "invalidating_actions = [''suspend-subject'', ''revoke-certificate'']"

definition invalidation_statuses :: "string list" where
  "invalidation_statuses = [''pending'', ''executing'', ''completed'', ''failed'']"

definition claim_invalidation_sql :: string where
  "claim_invalidation_sql = ''SELECT * FROM orchestration.claim_security_state_invalidation($1,$2,$3)''"

definition complete_invalidation_sql :: string where
  "complete_invalidation_sql = ''SELECT * FROM orchestration.complete_security_state_invalidation($1,$2,$3,$4,$5,$6,$7)''"

definition fail_invalidation_sql :: string where
  "fail_invalidation_sql = ''SELECT * FROM orchestration.fail_security_state_invalidation($1,$2,$3,$4,$5,$6)''"

record invalidation_policy =
  ip_enforcement_delay_ms :: rat
  ip_first_retry :: rat
  ip_last_retry :: rat
  ip_marker_ttl :: rat
  ip_entry_ttl :: rat

definition state_invalidation_policy :: invalidation_policy where
  "state_invalidation_policy =
     \<lparr> ip_enforcement_delay_ms = 5000, ip_first_retry = 1, ip_last_retry = 60, ip_marker_ttl = 604800,
       ip_entry_ttl = 86400 \<rparr>"

definition invalidation_integer :: "js_error \<Rightarrow> js \<Rightarrow> js res" where
  "invalidation_integer e v = (if safe_integer_from 0 (js_number v) then Inr (js_number v) else Inl e)"

definition invalidation_retry_delay :: "js \<Rightarrow> rat res" where
  "invalidation_retry_delay n =
     back_off (ip_first_retry state_invalidation_policy) (ip_last_retry state_invalidation_policy)
       (inv_fault ''SECURITY_INVALIDATION_SOURCE_INVALID'') n"

definition invalidation_failure_code :: "js_error \<Rightarrow> string" where
  "invalidation_failure_code e = reason_or ''SECURITY_INVALIDATION_FAILED'' e"

section \<open>Redis\<close>

record 'r redis =
  rd_get :: "string \<Rightarrow> ('r, string option) act"
  rd_set_ex :: "string \<Rightarrow> string \<Rightarrow> rat \<Rightarrow> ('r, unit) act"
  rd_sadd :: "string \<Rightarrow> string \<Rightarrow> ('r, unit) act"
  rd_ttl :: "string \<Rightarrow> ('r, rat) act"
  rd_expire :: "string \<Rightarrow> rat \<Rightarrow> ('r, unit) act"
  rd_members :: "string \<Rightarrow> ('r, string list) act"
  rd_del :: "string \<Rightarrow> ('r, nat) act"
  rd_elapse :: "nat \<Rightarrow> 'r \<Rightarrow> 'r"                      \<comment> \<open>the database after so many milliseconds\<close>

text \<open>What a key holds, and the documented effect of each command on it: \<open>view\<close> gives the live keys, \<open>left\<close> the
  milliseconds until a key expires, none for a key that does not. \<open>SET EX\<close> and \<open>EXPIRE\<close> set the time,
  \<open>SADD\<close> keeps it, \<open>TTL\<close> answers in whole seconds, less than one away from the time left, and a key
  whose time is over is gone.\<close>

datatype redis_value = RString string | RSet "string set"

abbreviation redis_error :: js_error where
  "redis_error \<equiv> ForeignError None"

definition lifetime :: "nat \<Rightarrow> bool" where
  "lifetime n \<longleftrightarrow> 1 \<le> n \<and> n \<le> 1000000000"

definition redis_ok :: "'r redis \<Rightarrow> ('r \<Rightarrow> string \<Rightarrow> redis_value option) \<Rightarrow> ('r \<Rightarrow> string \<Rightarrow> nat option) \<Rightarrow> bool" where
  "redis_ok R view left \<longleftrightarrow>
     (\<forall>r k. rd_get R k r = (r, case view r k of None \<Rightarrow> Inr None | Some (RString s) \<Rightarrow> Inr (Some s)
                                | Some (RSet S) \<Rightarrow> Inl redis_error))
   \<and> (\<forall>r k. case view r k of None \<Rightarrow> rd_members R k r = (r, Inr [])
             | Some (RString s) \<Rightarrow> rd_members R k r = (r, Inl redis_error)
             | Some (RSet S) \<Rightarrow> \<exists>xs. rd_members R k r = (r, Inr xs) \<and> set xs = S \<and> distinct xs)
   \<and> (\<forall>r k v n. lifetime n \<longrightarrow> (\<exists>s. rd_set_ex R k v (of_nat n) r = (s, Inr ()) \<and> view s = (view r)(k \<mapsto> RString v)
                                      \<and> left s = (left r)(k \<mapsto> 1000 * n)))
   \<and> (\<forall>r k x. case view r k of None \<Rightarrow> (\<exists>s. rd_sadd R k x r = (s, Inr ()) \<and> view s = (view r)(k \<mapsto> RSet {x}) \<and> left s = (left r)(k := None))
             | Some (RSet S) \<Rightarrow> (\<exists>s. rd_sadd R k x r = (s, Inr ()) \<and> view s = (view r)(k \<mapsto> RSet (insert x S)) \<and> left s = left r)
             | Some (RString t) \<Rightarrow> rd_sadd R k x r = (r, Inl redis_error))
   \<and> (\<forall>r k. if view r k = None then rd_ttl R k r = (r, Inr (- 2))
             else case left r k of None \<Rightarrow> rd_ttl R k r = (r, Inr (- 1))
             | Some t \<Rightarrow> \<exists>n. rd_ttl R k r = (r, Inr (of_nat n)) \<and> t < 1000 * n + 1000 \<and> 1000 * n < t + 1000)
   \<and> (\<forall>r k n. lifetime n \<and> view r k \<noteq> None \<longrightarrow> (\<exists>s. rd_expire R k (of_nat n) r = (s, Inr ()) \<and> view s = view r
                                      \<and> left s = (left r)(k \<mapsto> 1000 * n)))
   \<and> (\<forall>r k. \<exists>s. rd_del R k r = (s, Inr (if view r k = None then 0 else 1)) \<and> view s = (view r)(k := None)
                                      \<and> left s = (left r)(k := None))
   \<and> (\<forall>r d k. view (rd_elapse R d r) k = (if \<exists>t. left r k = Some t \<and> t \<le> d then None else view r k)
            \<and> left (rd_elapse R d r) k = (case left r k of None \<Rightarrow> None | Some t \<Rightarrow> if t \<le> d then None else Some (t - d)))"

section \<open>Scripts\<close>

text \<open>\<open>tonumber\<close>, for the decimal numerals the store sends.\<close>

definition lua_tonumber :: "string \<Rightarrow> rat option" where
  "lua_tonumber s = (case parse_number s of Some (JNum (Fin x), []) \<Rightarrow> Some x | _ \<Rightarrow> None)"

definition lua_register :: "'r redis \<Rightarrow> string \<Rightarrow> string \<Rightarrow> string \<Rightarrow> string \<Rightarrow> ('r, js) act" where
  "lua_register R key index v ttl_text =
     (case lua_tonumber ttl_text of
        None \<Rightarrow> act_fail redis_error
      | Some ttl \<Rightarrow>
          if ttl < 1 then act_fail redis_error
          else act_bind (rd_set_ex R key v ttl) (\<lambda>_.
               act_bind (rd_sadd R index key) (\<lambda>_.
               act_bind (rd_ttl R index) (\<lambda>index_ttl.
               act_bind (if index_ttl < ttl then rd_expire R index ttl else act_ret ()) (\<lambda>_. act_ret (num 1))))))"

primrec delete_all :: "'r redis \<Rightarrow> string list \<Rightarrow> nat \<Rightarrow> ('r, nat) act" where
  "delete_all R [] n = act_ret n"
| "delete_all R (k # ks) n = act_bind (rd_del R k) (\<lambda>d. delete_all R ks (n + d))"

definition same_action :: "string \<Rightarrow> string \<Rightarrow> bool" where
  "same_action prior action \<longleftrightarrow> CHR ''|'' \<in> set prior \<and> takeWhile (\<lambda>c. c \<noteq> CHR ''|'') prior = action"

text \<open>The part of the script after the test of the marker: \<open>K\<close> are the keys, \<open>P\<close> the two prefixes.\<close>

definition lua_clear ::
  "'r redis \<Rightarrow> string \<times> string \<times> string \<Rightarrow> string \<times> string \<Rightarrow> string \<Rightarrow> string \<Rightarrow> string \<Rightarrow> ('r, js) act" where
  "lua_clear R K P action time ttl_text =
     (case (K, P) of ((session_index, cache_index, marker), (session_prefix, cache_prefix)) \<Rightarrow>
        act_bind (rd_members R session_index) (\<lambda>sessions.
        act_bind (rd_members R cache_index) (\<lambda>caches.
          if list_ex (\<lambda>k. \<not> prefix session_prefix k) sessions then act_fail redis_error
          else if list_ex (\<lambda>k. \<not> prefix cache_prefix k) caches then act_fail redis_error
          else act_bind (delete_all R sessions 0) (\<lambda>session_count.
               act_bind (delete_all R caches 0) (\<lambda>cache_count.
               act_bind (delete_all R [session_index, cache_index] 0) (\<lambda>_.
               case lua_tonumber ttl_text of
                 None \<Rightarrow> act_fail redis_error
               | Some ttl \<Rightarrow>
                   act_bind (rd_set_ex R marker (action @ ''|'' @ time) ttl) (\<lambda>_.
                   act_ret (JArr [num 1, num (of_nat session_count), num (of_nat cache_count), JStr time]))))))))"

definition lua_invalidate ::
  "'r redis \<Rightarrow> string \<times> string \<times> string \<Rightarrow> string \<times> string \<Rightarrow> string \<Rightarrow> string \<Rightarrow> string \<Rightarrow> ('r, js) act" where
  "lua_invalidate R K P action time ttl_text =
     act_bind (rd_get R (snd (snd K))) (\<lambda>found.
       case found of
         Some prior \<Rightarrow>
           if same_action prior action
           then act_ret (JArr [num 0, num 0, num 0, JStr (tl (dropWhile (\<lambda>c. c \<noteq> CHR ''|'') prior))])
           else lua_clear R K P action time ttl_text
       | None \<Rightarrow> lua_clear R K P action time ttl_text)"

datatype script = RegisterEntry | InvalidateSubject

text \<open>\<open>evaluate(script, { keys, arguments })\<close> on the store itself; a client refuses arguments that are not strings.\<close>

definition redis_evaluate :: "'r redis \<Rightarrow> script \<Rightarrow> string list \<Rightarrow> js list \<Rightarrow> ('r, js) act" where
  "redis_evaluate R script ks arguments =
     (let arg = (\<lambda>i. str_of (arguments ! i)) in
      if \<not> list_all is_string arguments then act_fail redis_error
      else case script of
        RegisterEntry \<Rightarrow>
          if length ks = 2 \<and> length arguments = 2 then lua_register R (ks ! 0) (ks ! 1) (arg 0) (arg 1)
          else act_fail redis_error
      | InvalidateSubject \<Rightarrow>
          if length ks = 3 \<and> length arguments = 5
          then lua_invalidate R (ks ! 0, ks ! 1, ks ! 2) (arg 3, arg 4) (arg 0) (arg 1) (arg 2)
          else act_fail redis_error)"

section \<open>Keys\<close>

definition inv_key_part :: "js \<Rightarrow> string res" where
  "inv_key_part v =
     (if \<not> is_string v \<or> length (str_of v) < 1 \<or> 255 < length (str_of v) then Inl TypeErrorThrown
      else Inr (encode_uri_component (str_of v)))"

definition assert_scope :: "js \<Rightarrow> js \<Rightarrow> unit res" where
  "assert_scope tenant subject =
     (if \<not> re_test_or_empty (is_id ''tnt'') tenant \<or> \<not> re_test_or_empty (is_id ''sub'') subject
      then Inl (inv_fault ''SECURITY_INVALIDATION_SCOPE_INVALID'') else Inr ())"

record subject_keys =
  sk_session_index :: string
  sk_cache_index :: string
  sk_marker :: string
  sk_session_prefix :: string
  sk_cache_prefix :: string

definition scoped_key :: "js \<Rightarrow> string \<Rightarrow> string \<Rightarrow> string" where
  "scoped_key tenant kind rest = ''tenant:'' @ to_string tenant @ '':'' @ kind @ '':'' @ rest"

definition security_state_redis_keys :: "js \<Rightarrow> js \<Rightarrow> subject_keys res" where
  "security_state_redis_keys tenant subject =
     and_then (assert_scope tenant subject) (\<lambda>_. and_then (inv_key_part subject) (\<lambda>s. Inr
       \<lparr> sk_session_index = scoped_key tenant ''security-session-index'' s,
         sk_cache_index = scoped_key tenant ''security-cache-index'' s,
         sk_marker = scoped_key tenant ''security-invalidation'' s,
         sk_session_prefix = scoped_key tenant ''session'' [], sk_cache_prefix = scoped_key tenant ''cache'' [] \<rparr>))"

definition security_session_redis_key :: "js \<Rightarrow> js \<Rightarrow> string res" where
  "security_session_redis_key tenant hash =
     (if \<not> re_test_or_empty (is_id ''tnt'') tenant \<or> \<not> re_test_or_empty is_sha256 hash
      then Inl (inv_fault ''SECURITY_SESSION_KEY_INVALID'') else Inr (scoped_key tenant ''session'' (to_string hash)))"

definition subject_security_cache_redis_key :: "js \<Rightarrow> js \<Rightarrow> js \<Rightarrow> string res" where
  "subject_security_cache_redis_key tenant namespace cache =
     (if \<not> re_test_or_empty (is_id ''tnt'') tenant \<or> \<not> re_test_or_empty is_key_namespace namespace
      then Inl (inv_fault ''SECURITY_CACHE_KEY_INVALID'')
      else and_then (inv_key_part cache) (\<lambda>c. Inr (scoped_key tenant ''cache'' (to_string namespace @ '':'' @ c))))"

section \<open>Store\<close>

record 'w state_store =
  st_evaluate :: "script \<Rightarrow> string list \<Rightarrow> js list \<Rightarrow> ('w, js) act"
  st_date :: "js \<Rightarrow> int option"

definition entry_ttl :: "js \<Rightarrow> js res" where
  "entry_ttl v =
     (if \<not> safe_integer_from 1 v \<or> ip_entry_ttl state_invalidation_policy < num_of v
      then Inl (inv_fault ''SECURITY_STATE_TTL_INVALID'') else Inr (JStr (to_string v)))"

text \<open>Every operation destructures its request, which throws for an absent one.\<close>

definition register_session :: "'w state_store \<Rightarrow> js \<Rightarrow> ('w, string \<times> string) act" where
  "register_session S r =
     act_bind (act_res (
       and_then (read r ''tenantId'') (\<lambda>tenant.
       and_then (security_state_redis_keys tenant (get r ''subjectId'')) (\<lambda>ks.
       and_then (security_session_redis_key tenant (get r ''sessionIdHashSha256'')) (\<lambda>key.
         if \<not> is_string (get r ''value'') \<or> length (str_of (get r ''value'')) < 1 \<or> 4096 < length (str_of (get r ''value''))
         then Inl (inv_fault ''SECURITY_SESSION_VALUE_INVALID'')
         else and_then (entry_ttl (get r ''ttlSeconds'')) (\<lambda>ttl. Inr (key, sk_session_index ks, ttl))))))) (\<lambda>(key, index, ttl).
     act_bind (st_evaluate S RegisterEntry [key, index] [get r ''value'', ttl]) (\<lambda>_. act_ret (key, index)))"

definition register_cache_entry :: "'w state_store \<Rightarrow> js \<Rightarrow> ('w, string \<times> string) act" where
  "register_cache_entry S r =
     act_bind (act_res (
       and_then (read r ''tenantId'') (\<lambda>tenant.
       and_then (security_state_redis_keys tenant (get r ''subjectId'')) (\<lambda>ks.
       and_then (subject_security_cache_redis_key tenant (get r ''namespace'') (get r ''cacheId'')) (\<lambda>key.
         if \<not> is_string (get r ''value'') \<or> 65536 < length (str_of (get r ''value''))
         then Inl (inv_fault ''SECURITY_CACHE_VALUE_INVALID'')
         else and_then (entry_ttl (get r ''ttlSeconds'')) (\<lambda>ttl. Inr (key, sk_cache_index ks, ttl))))))) (\<lambda>(key, index, ttl).
     act_bind (st_evaluate S RegisterEntry [key, index] [get r ''value'', ttl]) (\<lambda>_. act_ret (key, index)))"

record invalidation_result =
  ir_applied :: bool
  ir_sessions :: js
  ir_caches :: js
  ir_at :: string

definition invalidation_reply :: "(js \<Rightarrow> int option) \<Rightarrow> js \<Rightarrow> invalidation_result res" where
  "invalidation_reply pd raw =
     (let bad = inv_fault ''SECURITY_INVALIDATION_RESULT_INVALID'' in
      case elements raw of
        [a, b, c, d] \<Rightarrow>
          if js_number a \<noteq> num 0 \<and> js_number a \<noteq> num 1 then Inl bad
          else and_then (invalidation_integer bad b) (\<lambda>sessions.
               and_then (invalidation_integer bad c) (\<lambda>caches.
               and_then (iso pd bad d) (\<lambda>t. Inr
                 \<lparr> ir_applied = (js_number a = num 1), ir_sessions = sessions, ir_caches = caches, ir_at = t \<rparr>)))
      | _ \<Rightarrow> Inl bad)"

text \<open>\<open>clock\<close> is what the clock returns when it is read.\<close>

definition invalidate :: "'w state_store \<Rightarrow> js \<Rightarrow> js \<Rightarrow> ('w, invalidation_result) act" where
  "invalidate S clock r =
     act_bind (act_res (
       and_then (read r ''tenantId'') (\<lambda>tenant.
       and_then (assert_scope tenant (get r ''subjectId'')) (\<lambda>_.
         if \<not> re_test_or_empty (is_id ''act'') (get r ''actionId'') \<or> \<not> one_of invalidating_actions (get r ''actionType'')
         then Inl (inv_fault ''SECURITY_INVALIDATION_REQUEST_INVALID'')
         else and_then (iso (st_date S) (inv_fault ''SECURITY_INVALIDATION_TIME_INVALID'') clock) (\<lambda>t.
              and_then (security_state_redis_keys tenant (get r ''subjectId'')) (\<lambda>ks. Inr (ks, t))))))) (\<lambda>(ks, t).
     act_bind (act_catch (st_evaluate S InvalidateSubject [sk_session_index ks, sk_cache_index ks, sk_marker ks]
         [get r ''actionId'', JStr t, JStr (to_string (num (ip_marker_ttl state_invalidation_policy))),
          JStr (sk_session_prefix ks), JStr (sk_cache_prefix ks)])
       (\<lambda>_. act_fail (inv_fault ''SECURITY_INVALIDATION_REDIS_FAILED''))) (\<lambda>raw.
     act_res (invalidation_reply (st_date S) raw)))"

definition redis_store :: "'r redis \<Rightarrow> (js \<Rightarrow> int option) \<Rightarrow> 'r state_store" where
  "redis_store R pd = \<lparr> st_evaluate = redis_evaluate R, st_date = pd \<rparr>"

section \<open>Repository\<close>

definition inv_now :: "'w env \<Rightarrow> ('w, string) act" where
  "inv_now E = env_now E (inv_fault ''SECURITY_INVALIDATION_TIME_INVALID'')"

abbreviation inv_bad_source :: js_error where
  "inv_bad_source \<equiv> inv_fault ''SECURITY_INVALIDATION_SOURCE_INVALID''"

definition invalidation_claim :: "(js \<Rightarrow> int option) \<Rightarrow> js \<Rightarrow> js res" where
  "invalidation_claim pd row =
     (if \<not> truthy row then Inr JNull
      else and_then (iso pd inv_bad_source (get row ''action_succeeded_at'')) (\<lambda>succeeded.
        let c = obj
          [(''tenantId'', get row ''tenant_id''), (''actionId'', get row ''action_id''), (''subjectId'', get row ''subject_id''),
           (''certificateId'', get row ''certificate_id''), (''actionType'', get row ''action_type''),
           (''claimToken'', get row ''claim_token''), (''attemptCount'', js_number (get row ''attempt_count'')),
           (''actionSucceededAt'', JStr succeeded)]
        in if \<not> re_test_or_empty (is_id ''tnt'') (get c ''tenantId'') \<or> \<not> re_test_or_empty (is_id ''act'') (get c ''actionId'')
              \<or> \<not> re_test_or_empty (is_id ''sub'') (get c ''subjectId'') \<or> \<not> is_string (get c ''certificateId'')
              \<or> \<not> one_of invalidating_actions (get c ''actionType'')
              \<or> \<not> re_test_or_empty (is_id ''icl'') (get c ''claimToken'') \<or> \<not> safe_integer_from 1 (get c ''attemptCount'')
           then Inl inv_bad_source else Inr c))"

definition invalidation_status :: "(js \<Rightarrow> int option) \<Rightarrow> js \<Rightarrow> js res" where
  "invalidation_status pd row =
     and_then (iso_or_null pd inv_bad_source (get row ''completed_at'')) (\<lambda>completed.
       let s = obj
         [(''tenantId'', get row ''tenant_id''), (''actionId'', get row ''action_id''), (''status'', get row ''status''),
          (''attemptCount'', js_number (get row ''attempt_count'')),
          (''enforcementDelayMs'', if nullish (get row ''enforcement_delay_ms'') then JNull else js_number (get row ''enforcement_delay_ms'')),
          (''withinTarget'', coalesce (get row ''within_target'') JNull), (''completedAt'', completed)]
       in if \<not> re_test_or_empty (is_id ''tnt'') (get s ''tenantId'') \<or> \<not> re_test_or_empty (is_id ''act'') (get s ''actionId'')
             \<or> \<not> one_of invalidation_statuses (get s ''status'') \<or> \<not> safe_integer_from 0 (get s ''attemptCount'')
             \<or> (get s ''enforcementDelayMs'' \<noteq> JNull \<and> \<not> safe_integer_from 0 (get s ''enforcementDelayMs''))
             \<or> (get s ''withinTarget'' \<noteq> JNull \<and> \<not> is_bool (get s ''withinTarget''))
          then Inl (inv_fault ''SECURITY_INVALIDATION_STATUS_INVALID'') else Inr s)"

definition claim_invalidation :: "'w env \<Rightarrow> js \<Rightarrow> ('w, js) act" where
  "claim_invalidation E request =
     act_bind (act_res (read request ''workerId'')) (\<lambda>worker.
       if \<not> re_test_or_empty is_worker_id worker then act_fail (inv_fault ''SECURITY_INVALIDATION_CLAIM_INVALID'')
       else act_bind (env_id E) (\<lambda>v. let token = ''icl_'' @ to_string v in
         if \<not> is_id ''icl'' token then act_fail (inv_fault ''SECURITY_INVALIDATION_CLAIM_INVALID'')
         else act_bind (inv_now E) (\<lambda>t.
              act_bind (env_query E claim_invalidation_sql [worker, JStr token, JStr t]) (\<lambda>result.
              act_res (and_then (maybe_one_row inv_bad_source result) (invalidation_claim (env_date E)))))))"

definition mark_invalidation_completed :: "'w env \<Rightarrow> js \<Rightarrow> ('w, js) act" where
  "mark_invalidation_completed E v =
     (let bad = inv_fault ''SECURITY_INVALIDATION_COMPLETION_INVALID'' in
      if \<not> re_test_or_empty (is_id ''tnt'') (get v ''tenantId'') \<or> \<not> re_test_or_empty (is_id ''act'') (get v ''actionId'')
         \<or> \<not> re_test_or_empty (is_id ''icl'') (get v ''claimToken'')
         \<or> \<not> safe_integer_from 0 (get v ''sessionsInvalidated'') \<or> \<not> safe_integer_from 0 (get v ''cacheEntriesInvalidated'')
      then act_fail bad
      else act_bind (act_res (iso (env_date E) bad (get v ''invalidatedAt''))) (\<lambda>invalidated.
           act_bind (inv_now E) (\<lambda>t.
           act_bind (env_query E complete_invalidation_sql
             [get v ''tenantId'', get v ''actionId'', get v ''claimToken'', get v ''sessionsInvalidated'',
              get v ''cacheEntriesInvalidated'', JStr invalidated, JStr t]) (\<lambda>result.
           act_res (and_then (one_row bad result) (invalidation_status (env_date E)))))))"

definition mark_invalidation_failed :: "'w env \<Rightarrow> js \<Rightarrow> ('w, js) act" where
  "mark_invalidation_failed E v =
     (let bad = inv_fault ''SECURITY_INVALIDATION_FAILURE_INVALID'' in
      if \<not> re_test_or_empty (is_id ''tnt'') (get v ''tenantId'') \<or> \<not> re_test_or_empty (is_id ''act'') (get v ''actionId'')
         \<or> \<not> re_test_or_empty (is_id ''icl'') (get v ''claimToken'')
         \<or> \<not> re_test_or_empty is_reason_code (get v ''failureCode'') \<or> \<not> safe_integer_from 1 (get v ''retryDelaySeconds'')
         \<or> ip_last_retry state_invalidation_policy < num_of (get v ''retryDelaySeconds'')
      then act_fail bad
      else act_bind (inv_now E) (\<lambda>t.
           act_bind (env_query E fail_invalidation_sql
             [get v ''tenantId'', get v ''actionId'', get v ''claimToken'', get v ''failureCode'', JStr t,
              get v ''retryDelaySeconds'']) (\<lambda>result.
           act_res (and_then (one_row bad result) (invalidation_status (env_date E))))))"

section \<open>Worker\<close>

record 'w invalidation_worker =
  iw_id :: js
  iw_claim :: "js \<Rightarrow> ('w, js) act"
  iw_complete :: "js \<Rightarrow> ('w, js) act"
  iw_fail :: "js \<Rightarrow> ('w, js) act"
  iw_invalidate :: "js \<Rightarrow> ('w, js) act"
  iw_date :: "js \<Rightarrow> int option"

text \<open>The delay in milliseconds, a safe integer of at least 0, or the error.\<close>

definition enforcement_delay :: "(js \<Rightarrow> int option) \<Rightarrow> js \<Rightarrow> js \<Rightarrow> rat res" where
  "enforcement_delay pd invalidated succeeded =
     (let bad = inv_fault ''SECURITY_INVALIDATION_RESULT_INVALID'' in
      case (pd invalidated, pd succeeded) of
        (Some i, Some s) \<Rightarrow> if \<not> is_safe_integer (num (of_int (i - s))) \<or> i - s < 0 then Inl bad else Inr (of_int (i - s))
      | _ \<Rightarrow> Inl bad)"

definition attempt_invalidation :: "'w invalidation_worker \<Rightarrow> js \<Rightarrow> ('w, js) act" where
  "attempt_invalidation W claim =
     act_bind (iw_invalidate W claim) (\<lambda>result.
     act_bind (act_res (read result ''invalidatedAt'')) (\<lambda>at_time.
     act_bind (act_res (enforcement_delay (iw_date W) at_time (get claim ''actionSucceededAt''))) (\<lambda>delay.
     act_bind (iw_complete W (spread claim (own_fields result))) (\<lambda>stored.
       let on_time = JBool (delay \<le> ip_enforcement_delay_ms state_invalidation_policy) in
       act_bind (act_res (read stored ''status'')) (\<lambda>status.
         if status \<noteq> JStr ''completed'' \<or> \<not> strict_eq (get stored ''enforcementDelayMs'') (num delay)
            \<or> \<not> strict_eq (get stored ''withinTarget'') on_time
         then act_fail (inv_fault ''SECURITY_INVALIDATION_COMPLETION_INVALID'')
         else act_ret (obj
           [(''status'', status), (''tenantId'', get claim ''tenantId''), (''actionId'', get claim ''actionId''),
            (''actionType'', get claim ''actionType''), (''applied'', get result ''applied''),
            (''sessionsInvalidated'', get result ''sessionsInvalidated''),
            (''cacheEntriesInvalidated'', get result ''cacheEntriesInvalidated''),
            (''enforcementDelayMs'', num delay), (''withinTarget'', on_time)]))))))"

definition record_invalidation_failure :: "'w invalidation_worker \<Rightarrow> js \<Rightarrow> js_error \<Rightarrow> ('w, js) act" where
  "record_invalidation_failure W claim e =
     act_bind (act_res (invalidation_retry_delay (get claim ''attemptCount''))) (\<lambda>delay.
     act_bind (iw_fail W (spread claim [(''failureCode'', JStr (invalidation_failure_code e)), (''retryDelaySeconds'', num delay)])) (\<lambda>stored.
     act_bind (act_res (read stored ''status'')) (\<lambda>status. act_ret (obj
       [(''status'', status), (''tenantId'', get claim ''tenantId''), (''actionId'', get claim ''actionId''),
        (''actionType'', get claim ''actionType''), (''attemptCount'', get claim ''attemptCount''),
        (''failureCode'', JStr (invalidation_failure_code e))]))))"

definition run_invalidation_once :: "'w invalidation_worker \<Rightarrow> ('w, js) act" where
  "run_invalidation_once W =
     act_bind (iw_claim W (obj [(''workerId'', iw_id W)])) (\<lambda>claim.
       if \<not> truthy claim then act_ret (obj [(''status'', JStr ''idle'')])
       else act_catch (attempt_invalidation W claim) (record_invalidation_failure W claim))"

definition create_invalidation_worker :: "js \<Rightarrow> js \<Rightarrow> js \<Rightarrow> unit res" where
  "create_invalidation_worker worker repository store =
     (if \<not> re_test_or_empty is_worker_id worker \<or> \<not> truthy repository
         \<or> \<not> list_all (\<lambda>k. is_function (get repository k)) [''claimNext'', ''markCompleted'', ''markFailed'']
         \<or> \<not> truthy store \<or> \<not> is_function (get store ''invalidate'')
      then Inl TypeErrorThrown else Inr ())"

section \<open>Keys of the store\<close>

definition entry_key :: "string \<Rightarrow> string \<Rightarrow> string \<Rightarrow> string" where
  "entry_key T kind rest = ''tenant:'' @ T @ '':'' @ kind @ '':'' @ rest"

lemma scoped_key_entry: "scoped_key t kind rest = entry_key (to_string t) kind rest"
  by (simp add: scoped_key_def entry_key_def)

lemma kinds_no_colon [simp]:
  "no_colon ''session''" "no_colon ''cache''" "no_colon ''security-session-index''" "no_colon ''security-cache-index''"
  "no_colon ''security-invalidation''" "no_colon ''tnt''"
  by (simp_all add: no_colon_def)

lemma tenant_no_colon: "is_id ''tnt'' T \<Longrightarrow> no_colon T"
  by (rule id_no_colon[of "''tnt''"]) simp_all

lemma entry_key_eq:
  assumes "is_id ''tnt'' T" "is_id ''tnt'' U" "no_colon k" "no_colon j"
  shows "entry_key T k x = entry_key U j y \<longleftrightarrow> T = U \<and> k = j \<and> x = y"
proof
  assume "entry_key T k x = entry_key U j y"
  then have "T @ CHR '':'' # (k @ CHR '':'' # x) = U @ CHR '':'' # (j @ CHR '':'' # y)" by (simp add: entry_key_def)
  from colon_split[OF tenant_no_colon[OF assms(1)] tenant_no_colon[OF assms(2)] this]
  have "T = U" "k @ CHR '':'' # x = j @ CHR '':'' # y" by simp_all
  with colon_split[OF assms(3,4)] show "T = U \<and> k = j \<and> x = y" by blast
qed simp

lemma prefix_entry: "prefix (entry_key T k []) y \<longleftrightarrow> (\<exists>x. y = entry_key T k x)"
  by (auto simp: prefix_def entry_key_def)

lemma valid_tenant: "re_test_or_empty (is_id p) v \<Longrightarrow> is_id p (to_string v)"
  using is_id_length[of p "[]"] by (auto simp: re_test_or_empty_def coalesce_def split: if_splits)

lemma subject_keys:
  assumes "security_state_redis_keys tenant subject = Inr ks"
  obtains s where "is_id ''tnt'' (to_string tenant)" "s = encode_uri_component (str_of subject)"
    "sk_session_index ks = entry_key (to_string tenant) ''security-session-index'' s"
    "sk_cache_index ks = entry_key (to_string tenant) ''security-cache-index'' s"
    "sk_marker ks = entry_key (to_string tenant) ''security-invalidation'' s"
    "sk_session_prefix ks = entry_key (to_string tenant) ''session'' []"
    "sk_cache_prefix ks = entry_key (to_string tenant) ''cache'' []"
  using assms that[of "encode_uri_component (str_of subject)"]
  by (auto simp: security_state_redis_keys_def assert_scope_def inv_key_part_def scoped_key_entry valid_tenant
      split: if_splits)

section \<open>What the store keeps\<close>

text \<open>Every key the store writes has one of five shapes and the matching type, and the members of an index
  lie in the session or cache scope of its tenant.\<close>

definition entry_ok :: "string \<Rightarrow> redis_value \<Rightarrow> bool" where
  "entry_ok k v \<longleftrightarrow> (\<exists>T rest. is_id ''tnt'' T \<and>
     (case v of
        RString s \<Rightarrow> k = entry_key T ''session'' rest \<or> k = entry_key T ''cache'' rest
          \<or> (k = entry_key T ''security-invalidation'' rest \<and> (\<exists>a t. is_id ''act'' a \<and> valid_time t \<and> s = a @ ''|'' @ time_to_iso t))
      | RSet S \<Rightarrow> (k = entry_key T ''security-session-index'' rest \<and> (\<forall>y \<in> S. \<exists>x. y = entry_key T ''session'' x))
          \<or> (k = entry_key T ''security-cache-index'' rest \<and> (\<forall>y \<in> S. \<exists>x. y = entry_key T ''cache'' x))))"

text \<open>An entry that has a second left to live is a member of an index, which outlives it up to a second.\<close>

definition covered :: "string \<Rightarrow> string \<Rightarrow> (string \<Rightarrow> redis_value option) \<Rightarrow> (string \<Rightarrow> nat option) \<Rightarrow> bool" where
  "covered key index m l \<longleftrightarrow> (\<forall>e. m key \<noteq> None \<longrightarrow> l key = Some e \<longrightarrow> 1000 \<le> e \<longrightarrow>
     (\<exists>S i. m index = Some (RSet S) \<and> key \<in> S \<and> l index = Some i \<and> e < i + 1000))"

text \<open>Every key expires, and every session or cache entry is covered by an index of its tenant.\<close>

definition indexed :: "string \<Rightarrow> string \<Rightarrow> (string \<Rightarrow> redis_value option) \<Rightarrow> (string \<Rightarrow> nat option) \<Rightarrow> bool" where
  "indexed kind index m l \<longleftrightarrow> (\<forall>T x. is_id ''tnt'' T \<longrightarrow> (\<exists>s. covered (entry_key T kind x) (entry_key T index s) m l))"

definition store_ok :: "(string \<Rightarrow> redis_value option) \<Rightarrow> (string \<Rightarrow> nat option) \<Rightarrow> bool" where
  "store_ok m l \<longleftrightarrow> (\<forall>k v. m k = Some v \<longrightarrow> entry_ok k v) \<and> (\<forall>k. m k \<noteq> None \<longrightarrow> l k \<noteq> None)
     \<and> indexed ''session'' ''security-session-index'' m l \<and> indexed ''cache'' ''security-cache-index'' m l"

lemma redis_okD:
  assumes "redis_ok R view left"
  shows "rd_get R k r = (r, case view r k of None \<Rightarrow> Inr None | Some (RString s) \<Rightarrow> Inr (Some s) | Some (RSet S) \<Rightarrow> Inl redis_error)"
    "view r k = None \<Longrightarrow> rd_members R k r = (r, Inr [])"
    "view r k = Some (RSet S) \<Longrightarrow> \<exists>xs. rd_members R k r = (r, Inr xs) \<and> set xs = S \<and> distinct xs"
    "lifetime n \<Longrightarrow> \<exists>s. rd_set_ex R k v (of_nat n) r = (s, Inr ()) \<and> view s = (view r)(k \<mapsto> RString v) \<and> left s = (left r)(k \<mapsto> 1000 * n)"
    "view r k = None \<Longrightarrow> \<exists>s. rd_sadd R k x r = (s, Inr ()) \<and> view s = (view r)(k \<mapsto> RSet {x}) \<and> left s = (left r)(k := None)"
    "view r k = Some (RSet S) \<Longrightarrow> \<exists>s. rd_sadd R k x r = (s, Inr ()) \<and> view s = (view r)(k \<mapsto> RSet (insert x S)) \<and> left s = left r"
    "view r k \<noteq> None \<Longrightarrow> left r k = None \<Longrightarrow> rd_ttl R k r = (r, Inr (- 1))"
    "view r k \<noteq> None \<Longrightarrow> left r k = Some t \<Longrightarrow> \<exists>n. rd_ttl R k r = (r, Inr (of_nat n)) \<and> t < 1000 * n + 1000 \<and> 1000 * n < t + 1000"
    "lifetime n \<Longrightarrow> view r k \<noteq> None \<Longrightarrow> \<exists>s. rd_expire R k (of_nat n) r = (s, Inr ()) \<and> view s = view r \<and> left s = (left r)(k \<mapsto> 1000 * n)"
    "\<exists>s. rd_del R k r = (s, Inr (if view r k = None then 0 else 1)) \<and> view s = (view r)(k := None) \<and> left s = (left r)(k := None)"
    "view (rd_elapse R d r) k = (if \<exists>t. left r k = Some t \<and> t \<le> d then None else view r k)"
    "left (rd_elapse R d r) k = (case left r k of None \<Rightarrow> None | Some t \<Rightarrow> if t \<le> d then None else Some (t - d))"
proof -
  note c = assms[unfolded redis_ok_def]
  note c1 = conjunct1[OF c] and r1 = conjunct2[OF c]
  note c2 = conjunct1[OF r1] and r2 = conjunct2[OF r1]
  note c3 = conjunct1[OF r2] and r3 = conjunct2[OF r2]
  note c4 = conjunct1[OF r3] and r4 = conjunct2[OF r3]
  note c5 = conjunct1[OF r4] and r5 = conjunct2[OF r4]
  note c6 = conjunct1[OF r5] and r6 = conjunct2[OF r5]
  note c7 = conjunct1[OF r6] and c8 = conjunct2[OF r6]
  show "rd_get R k r = (r, case view r k of None \<Rightarrow> Inr None | Some (RString s) \<Rightarrow> Inr (Some s) | Some (RSet S) \<Rightarrow> Inl redis_error)"
    using c1 by blast
  show "view r k = None \<Longrightarrow> rd_members R k r = (r, Inr [])" using spec[OF spec[OF c2, of r], of k] by simp
  show "view r k = Some (RSet S) \<Longrightarrow> \<exists>xs. rd_members R k r = (r, Inr xs) \<and> set xs = S \<and> distinct xs"
    using spec[OF spec[OF c2, of r], of k] by simp
  show "lifetime n \<Longrightarrow> \<exists>s. rd_set_ex R k v (of_nat n) r = (s, Inr ()) \<and> view s = (view r)(k \<mapsto> RString v) \<and> left s = (left r)(k \<mapsto> 1000 * n)"
    using c3 by blast
  show "view r k = None \<Longrightarrow> \<exists>s. rd_sadd R k x r = (s, Inr ()) \<and> view s = (view r)(k \<mapsto> RSet {x}) \<and> left s = (left r)(k := None)"
    using spec[OF spec[OF spec[OF c4, of r], of k], of x] by simp
  show "view r k = Some (RSet S) \<Longrightarrow> \<exists>s. rd_sadd R k x r = (s, Inr ()) \<and> view s = (view r)(k \<mapsto> RSet (insert x S)) \<and> left s = left r"
    using spec[OF spec[OF spec[OF c4, of r], of k], of x] by simp
  show "rd_ttl R k r = (r, Inr (- 1))" if "view r k \<noteq> None" "left r k = None"
    using spec[OF spec[OF c5, of r], of k] unfolding if_not_P[OF that(1)] that(2) option.case .
  show "\<exists>n. rd_ttl R k r = (r, Inr (of_nat n)) \<and> t < 1000 * n + 1000 \<and> 1000 * n < t + 1000" if "view r k \<noteq> None" "left r k = Some t"
    using spec[OF spec[OF c5, of r], of k] unfolding if_not_P[OF that(1)] that(2) option.case .
  show "lifetime n \<Longrightarrow> view r k \<noteq> None \<Longrightarrow> \<exists>s. rd_expire R k (of_nat n) r = (s, Inr ()) \<and> view s = view r \<and> left s = (left r)(k \<mapsto> 1000 * n)"
    using c6 by blast
  show "\<exists>s. rd_del R k r = (s, Inr (if view r k = None then 0 else 1)) \<and> view s = (view r)(k := None) \<and> left s = (left r)(k := None)"
    using c7 by blast
  show "view (rd_elapse R d r) k = (if \<exists>t. left r k = Some t \<and> t \<le> d then None else view r k)" using c8 by blast
  show "left (rd_elapse R d r) k = (case left r k of None \<Rightarrow> None | Some t \<Rightarrow> if t \<le> d then None else Some (t - d))" using c8 by blast
qed

definition without :: "string set \<Rightarrow> (string \<Rightarrow> 'v option) \<Rightarrow> string \<Rightarrow> 'v option" where
  "without A m k = (if k \<in> A then None else m k)"

lemma delete_all_ok:
  assumes "redis_ok R view left"
  shows "distinct ks \<Longrightarrow> \<exists>s. delete_all R ks n r = (s, Inr (n + card {k \<in> set ks. view r k \<noteq> None}))
    \<and> view s = without (set ks) (view r) \<and> left s = without (set ks) (left r)"
proof (induction ks arbitrary: n r)
  case (Cons k ks)
  obtain s where s: "rd_del R k r = (s, Inr (if view r k = None then 0 else 1))" "view s = (view r)(k := None)" "left s = (left r)(k := None)"
    using redis_okD(10)[OF assms] by blast
  have e: "{j \<in> set ks. view s j \<noteq> None} = {j \<in> set ks. view r j \<noteq> None}" using Cons.prems s(2) by auto
  have c: "card {j \<in> set (k # ks). view r j \<noteq> None} = (if view r k = None then 0 else 1) + card {j \<in> set ks. view r j \<noteq> None}"
  proof -
    have "{j \<in> set (k # ks). view r j \<noteq> None} = (if view r k = None then {} else {k}) \<union> {j \<in> set ks. view r j \<noteq> None}" by auto
    then show ?thesis using Cons.prems by auto
  qed
  obtain u where u: "delete_all R ks (n + (if view r k = None then 0 else 1)) s
      = (u, Inr (n + (if view r k = None then 0 else 1) + card {j \<in> set ks. view s j \<noteq> None}))" "view u = without (set ks) (view s)"
    "left u = without (set ks) (left s)"
    using Cons.IH[of "n + (if view r k = None then 0 else 1)" s] Cons.prems by auto
  have "view u = without (set (k # ks)) (view r)" "left u = without (set (k # ks)) (left r)"
    by (auto simp: u(2,3) s(2,3) without_def fun_eq_iff)
  moreover have "delete_all R (k # ks) n r = (u, Inr (n + card {j \<in> set (k # ks). view r j \<noteq> None}))"
    unfolding c using s(1) u(1)[unfolded e] by (simp add: act_bind_def add.assoc)
  ultimately show ?case by blast
qed (simp add: without_def fun_eq_iff)

lemma double_int: "\<bar>n\<bar> < 2 ^ 53 \<Longrightarrow> double (of_int n)"
proof -
  assume n: "\<bar>n\<bar> < 2 ^ 53"
  have "\<bar>of_int n :: rat\<bar> < 2 ^ 53" using n by (metis of_int_abs of_int_less_iff of_int_numeral of_int_power)
  moreover have "(2::rat) ^ 53 \<le> 2 ^ 1024" by (rule power_increasing) auto
  ultimately have "(of_int n :: rat) < 2 ^ 1024" "- (2 ^ 1024) < (of_int n :: rat)" by linarith+
  then show ?thesis by (simp add: double_def to_double_def rnd64_int[OF n] Let_def)
qed

lemma lua_number:
  assumes "safe_integer_from lo (num x)"
  shows "lua_tonumber (rat_to_string x) = Some x"
proof -
  have x: "x = of_int \<lfloor>x\<rfloor>" "\<bar>x\<bar> \<le> 2 ^ 53 - 1"
    using assms by (auto simp: safe_integer_from_def is_safe_integer_def is_integer_rat_def max_safe_integer_def)
  have "\<bar>\<lfloor>x\<rfloor>\<bar> < 2 ^ 53" using x(2) by (simp add: abs_le_iff) linarith
  from double_int[OF this] have "double x" using x(1) by simp
  from parse_rat[OF this, of "[]"] show ?thesis by (simp add: lua_tonumber_def ends_number_def)
qed

definition index_members :: "(string \<Rightarrow> redis_value option) \<Rightarrow> string \<Rightarrow> string set" where
  "index_members m k = (case m k of Some (RSet S) \<Rightarrow> S | _ \<Rightarrow> {})"

text \<open>The keys a request for the subject \<open>s\<close> (encoded) of the tenant \<open>T\<close> works on.\<close>

definition keys_for :: "string \<Rightarrow> string \<Rightarrow> subject_keys" where
  "keys_for T s =
     \<lparr> sk_session_index = entry_key T ''security-session-index'' s, sk_cache_index = entry_key T ''security-cache-index'' s,
       sk_marker = entry_key T ''security-invalidation'' s, sk_session_prefix = entry_key T ''session'' [],
       sk_cache_prefix = entry_key T ''cache'' [] \<rparr>"

lemma subject_keys_for:
  assumes "security_state_redis_keys tenant subject = Inr ks"
  shows "is_id ''tnt'' (to_string tenant) \<and> ks = keys_for (to_string tenant) (encode_uri_component (str_of subject))"
  using assms by (auto simp: security_state_redis_keys_def assert_scope_def inv_key_part_def scoped_key_entry valid_tenant
      keys_for_def split: if_splits)

definition cleared :: "(string \<Rightarrow> redis_value option) \<Rightarrow> subject_keys \<Rightarrow> string \<Rightarrow> string \<Rightarrow> redis_value option" where
  "cleared m ks text_value =
     (without (index_members m (sk_session_index ks) \<union> index_members m (sk_cache_index ks)
        \<union> {sk_session_index ks, sk_cache_index ks}) m)(sk_marker ks \<mapsto> RString text_value)"

definition cleared_left :: "(string \<Rightarrow> redis_value option) \<Rightarrow> (string \<Rightarrow> nat option) \<Rightarrow> subject_keys \<Rightarrow> string \<Rightarrow> nat option" where
  "cleared_left m l ks =
     (without (index_members m (sk_session_index ks) \<union> index_members m (sk_cache_index ks)
        \<union> {sk_session_index ks, sk_cache_index ks}) l)(sk_marker ks \<mapsto> 604800000)"

lemma entry_shape:
  assumes "store_ok m l" "m k = Some v"
  shows "entry_ok k v"
  using assms by (simp add: store_ok_def)

lemma not_string: "\<forall>t. a \<noteq> RString t \<Longrightarrow> \<exists>S. a = RSet S"
  by (cases a) auto

lemma index_scope:
  assumes "store_ok m l" "is_id ''tnt'' T"
  shows "y \<in> index_members m (entry_key T ''security-session-index'' s) \<Longrightarrow> \<exists>x. y = entry_key T ''session'' x"
    "y \<in> index_members m (entry_key T ''security-cache-index'' s) \<Longrightarrow> \<exists>x. y = entry_key T ''cache'' x"
    "m (entry_key T ''security-session-index'' s) = None \<or> (\<exists>S. m (entry_key T ''security-session-index'' s) = Some (RSet S))"
    "m (entry_key T ''security-cache-index'' s) = None \<or> (\<exists>S. m (entry_key T ''security-cache-index'' s) = Some (RSet S))"
proof -
  have e: "entry_ok (entry_key T k s) v" if "m (entry_key T k s) = Some v" for k v using assms(1) that by (rule entry_shape)
  show "\<exists>x. y = entry_key T ''session'' x" if "y \<in> index_members m (entry_key T ''security-session-index'' s)"
    using that e[of "''security-session-index''"] assms(2)
    by (auto simp: index_members_def entry_ok_def entry_key_eq split: option.splits redis_value.splits)
  show "\<exists>x. y = entry_key T ''cache'' x" if "y \<in> index_members m (entry_key T ''security-cache-index'' s)"
    using that e[of "''security-cache-index''"] assms(2)
    by (auto simp: index_members_def entry_ok_def entry_key_eq split: option.splits redis_value.splits)
  show "m (entry_key T ''security-session-index'' s) = None \<or> (\<exists>S. m (entry_key T ''security-session-index'' s) = Some (RSet S))"
    using e[of "''security-session-index''"] assms(2)
    by (cases "m (entry_key T ''security-session-index'' s)")
      (auto simp: entry_ok_def entry_key_eq intro: not_string split: redis_value.splits)
  show "m (entry_key T ''security-cache-index'' s) = None \<or> (\<exists>S. m (entry_key T ''security-cache-index'' s) = Some (RSet S))"
    using e[of "''security-cache-index''"] assms(2)
    by (cases "m (entry_key T ''security-cache-index'' s)")
      (auto simp: entry_ok_def entry_key_eq intro: not_string split: redis_value.splits)
qed

lemma members_of_index:
  assumes "redis_ok R view left" "view r k = None \<or> (\<exists>S. view r k = Some (RSet S))"
  shows "\<exists>xs. rd_members R k r = (r, Inr xs) \<and> set xs = index_members (view r) k \<and> distinct xs"
  using assms(2) redis_okD(2)[OF assms(1), of r k] redis_okD(3)[OF assms(1), of r k]
  by (auto simp: index_members_def)

lemma lua_clear_ok:
  assumes R: "redis_ok R view left" and m: "store_ok (view r) (left r)" and T: "is_id ''tnt'' T" and ks: "ks = keys_for T s"
    and ttl: "lua_tonumber ttl_text = Some (of_nat 604800)"
  shows "\<exists>u. lua_clear R (sk_session_index ks, sk_cache_index ks, sk_marker ks) (sk_session_prefix ks, sk_cache_prefix ks) action time ttl_text r
      = (u, Inr (JArr [num 1,
          num (of_nat (card {k \<in> index_members (view r) (sk_session_index ks). view r k \<noteq> None})),
          num (of_nat (card {k \<in> index_members (view r) (sk_cache_index ks). view r k \<noteq> None})), JStr time]))
    \<and> view u = cleared (view r) ks (action @ ''|'' @ time) \<and> left u = cleared_left (view r) (left r) ks"
proof -
  let ?si = "entry_key T ''security-session-index'' s" and ?ci = "entry_key T ''security-cache-index'' s"
    and ?m = "entry_key T ''security-invalidation'' s"
  note k = keys_for_def[of T s]
  note sc = index_scope(1,2)[OF m T, where s = s] index_scope(3,4)[OF m T, of s]
  obtain xs where xs: "rd_members R ?si r = (r, Inr xs)" "set xs = index_members (view r) ?si" "distinct xs"
    using members_of_index[OF R, of r ?si, OF sc(3)] by blast
  obtain ys where ys: "rd_members R ?ci r = (r, Inr ys)" "set ys = index_members (view r) ?ci" "distinct ys"
    using members_of_index[OF R, of r ?ci, OF sc(4)] by blast
  have p: "\<not> list_ex (\<lambda>k. \<not> prefix (entry_key T ''session'' []) k) xs" "\<not> list_ex (\<lambda>k. \<not> prefix (entry_key T ''cache'' []) k) ys"
    unfolding list_ex_iff xs(2) ys(2) prefix_entry using sc(1,2) by blast+
  obtain u1 where u1: "delete_all R xs 0 r = (u1, Inr (card {k \<in> set xs. view r k \<noteq> None}))" "view u1 = without (set xs) (view r)" "left u1 = without (set xs) (left r)"
    using delete_all_ok[OF R xs(3), of 0 r] by auto
  obtain u2 where u2: "delete_all R ys 0 u1 = (u2, Inr (card {k \<in> set ys. view u1 k \<noteq> None}))" "view u2 = without (set ys) (view u1)" "left u2 = without (set ys) (left u1)"
    using delete_all_ok[OF R ys(3), of 0 u1] by auto
  have disj: "k \<notin> set xs" if "k \<in> set ys" for k
    using that sc(1)[of k] sc(2)[of k] xs(2) ys(2) T by (auto simp: entry_key_eq)
  have live: "{k \<in> set ys. view u1 k \<noteq> None} = {k \<in> set ys. view r k \<noteq> None}"
    using disj by (auto simp: u1(2) without_def)
  have ne: "?si \<noteq> ?ci" using T by (simp add: entry_key_eq)
  obtain u3 n where u3: "delete_all R [?si, ?ci] 0 u2 = (u3, Inr n)" "view u3 = without {?si, ?ci} (view u2)" "left u3 = without {?si, ?ci} (left u2)"
  proof -
    from delete_all_ok[OF R, of "[?si, ?ci]" 0 u2] ne obtain v where
      "delete_all R [?si, ?ci] 0 u2 = (v, Inr (0 + card {k \<in> set [?si, ?ci]. view u2 k \<noteq> None}))" "view v = without (set [?si, ?ci]) (view u2)" "left v = without (set [?si, ?ci]) (left u2)"
      by (auto simp del: delete_all.simps)
    then show thesis using that by (simp del: delete_all.simps)
  qed
  have week: "lifetime 604800" by (simp add: lifetime_def)
  obtain u4 where u4: "rd_set_ex R ?m (action @ ''|'' @ time) (of_nat 604800) u3 = (u4, Inr ())"
    "view u4 = (view u3)(?m \<mapsto> RString (action @ ''|'' @ time))" "left u4 = (left u3)(?m \<mapsto> 1000 * 604800)"
    using redis_okD(4)[OF R week, of ?m "action @ ''|'' @ time" u3] by blast
  have "view u4 = cleared (view r) ks (action @ ''|'' @ time)"
    by (auto simp: u4(2) u3(2) u2(2) u1(2) cleared_def ks k without_def fun_eq_iff xs(2) ys(2))
  moreover have "left u4 = cleared_left (view r) (left r) ks"
    by (auto simp: u4(3) u3(3) u2(3) u1(3) cleared_left_def ks k without_def fun_eq_iff xs(2) ys(2))
  moreover have "lua_clear R (?si, ?ci, ?m) (entry_key T ''session'' [], entry_key T ''cache'' []) action time ttl_text r
    = (u4, Inr (JArr [num 1, num (of_nat (card {k \<in> set xs. view r k \<noteq> None})), num (of_nat (card {k \<in> set ys. view r k \<noteq> None})), JStr time]))"
    using u3(1) u4(1) by (simp add: lua_clear_def act_bind_def xs(1) ys(1) p u1(1) u2(1)[unfolded live] ttl del: delete_all.simps of_nat_numeral)
  ultimately show ?thesis by (auto simp: ks k xs(2) ys(2))
qed

text \<open>The two kinds of entries with their index.\<close>

definition entry_kinds :: "(string \<times> string) set" where
  "entry_kinds = {(''session'', ''security-session-index''), (''cache'', ''security-cache-index'')}"

lemma covered_cleared:
  assumes c: "covered key index m l" and n: "key \<noteq> sk_marker ks" "index \<noteq> sk_marker ks"
    "index \<notin> index_members m (sk_session_index ks) \<union> index_members m (sk_cache_index ks)"
  shows "covered key index (cleared m ks v) (cleared_left m l ks)"
  unfolding covered_def
proof (intro allI impI)
  fix e
  assume live: "cleared m ks v key \<noteq> None" and e: "cleared_left m l ks key = Some e" "1000 \<le> e"
  have k: "m key \<noteq> None" "key \<notin> index_members m (sk_session_index ks) \<union> index_members m (sk_cache_index ks)"
    using live n(1) by (auto simp: cleared_def without_def split: if_splits)
  have le: "l key = Some e" using e(1) k(2) n(1) by (auto simp: cleared_left_def without_def split: if_splits)
  obtain S i where z: "m index = Some (RSet S)" "key \<in> S" "l index = Some i" "e < i + 1000"
    using c k(1) le e(2) unfolding covered_def by blast
  have "S = index_members m index" using z(1) by (simp add: index_members_def)
  then have "index \<notin> {sk_session_index ks, sk_cache_index ks}" using k(2) z(2) by auto
  then have "cleared m ks v index = Some (RSet S)" "cleared_left m l ks index = Some i"
    using z(1,3) n(2,3) by (simp_all add: cleared_def cleared_left_def without_def)
  then show "\<exists>S i. cleared m ks v index = Some (RSet S) \<and> key \<in> S \<and> cleared_left m l ks index = Some i \<and> e < i + 1000"
    using z(2,4) by blast
qed

text \<open>The keys of an entry and of an index are neither markers nor members of an index.\<close>

lemma apart_from_subject:
  assumes m: "store_ok m l" and T: "is_id ''tnt'' T" and U: "is_id ''tnt'' U" and k: "(kind, index) \<in> entry_kinds"
  shows "entry_key U kind x \<noteq> sk_marker (keys_for T s)" "entry_key U index z \<noteq> sk_marker (keys_for T s)"
    "entry_key U index z \<notin> index_members m (sk_session_index (keys_for T s)) \<union> index_members m (sk_cache_index (keys_for T s))"
    "sk_marker (keys_for U z) \<notin> index_members m (sk_session_index (keys_for T s)) \<union> index_members m (sk_cache_index (keys_for T s))"
proof -
  note eq = entry_key_eq[OF U T]
  note sc = index_scope(1,2)[OF m T, where s = s]
  show "entry_key U kind x \<noteq> sk_marker (keys_for T s)" "entry_key U index z \<noteq> sk_marker (keys_for T s)"
    using k by (auto simp: keys_for_def entry_kinds_def eq)
  show "entry_key U index z \<notin> index_members m (sk_session_index (keys_for T s)) \<union> index_members m (sk_cache_index (keys_for T s))"
    using sc[of "entry_key U index z"] k by (auto simp: keys_for_def entry_kinds_def eq)
  show "sk_marker (keys_for U z) \<notin> index_members m (sk_session_index (keys_for T s)) \<union> index_members m (sk_cache_index (keys_for T s))"
    using sc[of "sk_marker (keys_for U z)"] by (auto simp: keys_for_def eq)
qed

lemma store_ok_cleared:
  assumes m: "store_ok m l" and T: "is_id ''tnt'' T" and a: "is_id ''act'' a" and t: "valid_time t"
  shows "store_ok (cleared m (keys_for T s) (a @ ''|'' @ time_to_iso t)) (cleared_left m l (keys_for T s))"
proof -
  let ?ks = "keys_for T s" and ?m' = "cleared m (keys_for T s) (a @ ''|'' @ time_to_iso t)"
    and ?l' = "cleared_left m l (keys_for T s)"
  have marker: "sk_marker ?ks = entry_key T ''security-invalidation'' s" by (simp add: keys_for_def)
  have shape: "entry_ok k v" if "?m' k = Some v" for k v
  proof (cases "k = sk_marker ?ks")
    case True
    then have "v = RString (a @ ''|'' @ time_to_iso t)" using that by (simp add: cleared_def)
    then show ?thesis using True T a t unfolding entry_ok_def marker
      by (intro exI[of _ T] exI[of _ s]) (auto intro!: exI[of _ a] exI[of _ t])
  next
    case False
    then have "m k = Some v" using that by (auto simp: cleared_def without_def split: if_splits)
    then show ?thesis by (rule entry_shape[OF m])
  qed
  have live: "?l' k \<noteq> None" if "?m' k \<noteq> None" for k
  proof (cases "k = sk_marker ?ks")
    case False
    then have "?m' k = m k" "?l' k = l k" using that by (auto simp: cleared_def cleared_left_def without_def split: if_splits)
    then show ?thesis using that m by (simp add: store_ok_def)
  qed (simp add: cleared_left_def)
  have idx: "indexed kind index ?m' ?l'" if i: "indexed kind index m l" and k: "(kind, index) \<in> entry_kinds" for kind index
    using i covered_cleared[OF _ apart_from_subject(1-3)[OF m T _ k, of _ _ s]] unfolding indexed_def by metis
  show ?thesis using shape live idx m by (simp add: store_ok_def entry_kinds_def)
qed

definition registered :: "(string \<Rightarrow> redis_value option) \<Rightarrow> string \<Rightarrow> string \<Rightarrow> string \<Rightarrow> string \<Rightarrow> redis_value option" where
  "registered m key index v = m(key \<mapsto> RString v, index \<mapsto> RSet (insert key (index_members m index)))"

lemma lua_register_ok:
  assumes R: "redis_ok R view left" and m: "store_ok (view r) (left r)" and T: "is_id ''tnt'' T" and k: "(kind, index) \<in> entry_kinds"
    and ttl: "lua_tonumber ttl_text = Some (of_nat n)" "lifetime n"
  shows "\<exists>u i. lua_register R (entry_key T kind x) (entry_key T index s) v ttl_text r = (u, Inr (num 1))
    \<and> view u = registered (view r) (entry_key T kind x) (entry_key T index s) v
    \<and> left u = (left r)(entry_key T kind x \<mapsto> 1000 * n, entry_key T index s \<mapsto> i)
    \<and> 1000 * n < i + 1000 \<and> (\<forall>t. view r (entry_key T index s) \<noteq> None \<and> left r (entry_key T index s) = Some t \<longrightarrow> t \<le> i)"
proof -
  let ?k = "entry_key T kind x" and ?i = "entry_key T index s"
  have ne: "?k \<noteq> ?i" using k T by (auto simp: entry_kinds_def entry_key_eq)
  obtain u1 where u1: "rd_set_ex R ?k v (of_nat n) r = (u1, Inr ())" "view u1 = (view r)(?k \<mapsto> RString v)" "left u1 = (left r)(?k \<mapsto> 1000 * n)"
    using redis_okD(4)[OF R ttl(2), of ?k v r] by blast
  have i1: "view u1 ?i = view r ?i" "left u1 ?i = left r ?i" using u1(2,3) ne by simp_all
  have i: "view r ?i = None \<or> (\<exists>S. view r ?i = Some (RSet S))"
    using index_scope(3,4)[OF m T, of s] k by (auto simp: entry_kinds_def)
  obtain u2 where u2: "rd_sadd R ?i ?k u1 = (u2, Inr ())" "view u2 = (view u1)(?i \<mapsto> RSet (insert ?k (index_members (view r) ?i)))"
    "left u2 = (if view r ?i = None then (left u1)(?i := None) else left u1)"
  proof (cases "view r ?i")
    case None
    then show thesis using redis_okD(5)[OF R, of u1 ?i ?k] that i1 by (auto simp: index_members_def)
  next
    case (Some a)
    then obtain S where "view r ?i = Some (RSet S)" using i by auto
    then show thesis using redis_okD(6)[OF R, of u1 ?i S ?k] that i1 by (auto simp: index_members_def)
  qed
  have v2: "view u2 ?i \<noteq> None" "view u2 = registered (view r) ?k ?i v" by (simp_all add: u2(2) u1(2) registered_def)
  have ok: "\<not> (of_nat n :: rat) < 1" using ttl(2) by (simp add: lifetime_def)
  obtain e where e: "rd_expire R ?i (of_nat n) u2 = (e, Inr ())" "view e = view u2" "left e = (left u2)(?i \<mapsto> 1000 * n)"
    using redis_okD(9)[OF R ttl(2) v2(1)] by blast
  have run: "lua_register R ?k ?i v ttl_text r = (if a < of_nat n then e else u2, Inr (num 1))"
    if "rd_ttl R ?i u2 = (u2, Inr a)" for a
    using ttl(1) ok u1(1) u2(1) that e(1) by (simp add: lua_register_def act_bind_def)
  have le: "left e = (left r)(?k \<mapsto> 1000 * n, ?i \<mapsto> 1000 * n)" by (auto simp: e(3) u2(3) u1(3) fun_eq_iff)
  show ?thesis
  proof (cases "left u2 ?i")
    case None
    then have "lua_register R ?k ?i v ttl_text r = (e, Inr (num 1))" using run[OF redis_okD(7)[OF R v2(1)]] by simp
    moreover have "\<forall>t. view r ?i \<noteq> None \<and> left r ?i = Some t \<longrightarrow> t \<le> 1000 * n" using None i1 by (auto simp: u2(3))
    ultimately show ?thesis using e(2) v2(2) le by (intro exI[of _ e] exI[of _ "1000 * n"] conjI) (assumption | simp)+
  next
    case (Some t)
    then have old: "view r ?i \<noteq> None" "left r ?i = Some t" using i1 by (auto simp: u2(3) split: if_splits)
    obtain a where a: "rd_ttl R ?i u2 = (u2, Inr (of_nat a))" "t < 1000 * a + 1000" "1000 * a < t + 1000"
      using redis_okD(8)[OF R v2(1) Some] by blast
    show ?thesis
    proof (cases "a < n")
      case True
      then have "lua_register R ?k ?i v ttl_text r = (e, Inr (num 1))" "t \<le> 1000 * n" using run[OF a(1)] a(2) by simp_all
      then show ?thesis using e(2) v2(2) le old by (intro exI[of _ e] exI[of _ "1000 * n"]) simp
    next
      case False
      then have "lua_register R ?k ?i v ttl_text r = (u2, Inr (num 1))" "1000 * n < t + 1000" using run[OF a(1)] a(3) by simp_all
      moreover have "left u2 = (left r)(?k \<mapsto> 1000 * n, ?i \<mapsto> t)" using old ne by (auto simp: u2(3) u1(3) fun_eq_iff)
      ultimately show ?thesis using v2(2) old by (intro exI[of _ u2] exI[of _ t]) simp
    qed
  qed
qed

text \<open>A registration covers its entry, by an index that is not shortened, and every other entry is covered as before.\<close>

lemma covered_registered:
  assumes c: "key \<noteq> k \<Longrightarrow> covered key index m l" "key = k \<Longrightarrow> index = i" and ne: "key \<noteq> i" "index \<noteq> k"
    and n: "1000 * n < b + 1000" "\<And>t. m i \<noteq> None \<Longrightarrow> l i = Some t \<Longrightarrow> t \<le> b"
  shows "covered key index (registered m k i v) (l(k \<mapsto> 1000 * n, i \<mapsto> b))"
  unfolding covered_def
proof (intro allI impI)
  fix e
  assume lv: "registered m k i v key \<noteq> None" and e: "(l(k \<mapsto> 1000 * n, i \<mapsto> b)) key = Some e" "1000 \<le> e"
  show "\<exists>S j. registered m k i v index = Some (RSet S) \<and> key \<in> S \<and> (l(k \<mapsto> 1000 * n, i \<mapsto> b)) index = Some j \<and> e < j + 1000"
  proof (cases "key = k")
    case True
    moreover have "e = 1000 * n" using True e(1) ne(1) by simp
    ultimately show ?thesis using c(2) n(1) by (simp add: registered_def)
  next
    case False
    then have "m key \<noteq> None" "l key = Some e" using lv e(1) ne(1) by (simp_all add: registered_def split: if_splits)
    then obtain S d where z: "m index = Some (RSet S)" "key \<in> S" "l index = Some d" "e < d + 1000"
      using c(1)[OF False] e(2) unfolding covered_def by blast
    show ?thesis
    proof (cases "index = i")
      case True
      then have "index_members m i = S" "d \<le> b" using z(1,3) n(2)[of d] by (simp_all add: index_members_def)
      then show ?thesis using z(2,4) True by (simp add: registered_def)
    next
      case False
      then show ?thesis using z ne(2) by (simp add: registered_def)
    qed
  qed
qed

lemma entry_not_index:
  assumes "(kind, index) \<in> entry_kinds" "(kd, ix) \<in> entry_kinds" "is_id ''tnt'' T" "is_id ''tnt'' U"
  shows "entry_key U kind x \<noteq> entry_key T ix z" "entry_key U kind x = entry_key T kd y \<Longrightarrow> U = T \<and> index = ix"
  using assms(1,2) entry_key_eq[OF assms(4,3)] by (auto simp: entry_kinds_def)

lemma store_ok_registered:
  assumes m: "store_ok m l" and T: "is_id ''tnt'' T" and k: "(kind, index) \<in> entry_kinds"
    and n: "1000 * n < b + 1000" "\<And>t. m (entry_key T index s) \<noteq> None \<Longrightarrow> l (entry_key T index s) = Some t \<Longrightarrow> t \<le> b"
  shows "store_ok (registered m (entry_key T kind x) (entry_key T index s) v) (l(entry_key T kind x \<mapsto> 1000 * n, entry_key T index s \<mapsto> b))"
proof -
  let ?k = "entry_key T kind x" and ?i = "entry_key T index s"
  let ?m' = "registered m ?k ?i v" and ?l' = "l(?k \<mapsto> 1000 * n, ?i \<mapsto> b)"
  have shape: "entry_ok j w" if a: "?m' j = Some w" for j w
  proof -
    have e: "?m' j = (if j = ?i then Some (RSet (insert ?k (index_members m ?i))) else if j = ?k then Some (RString v) else m j)"
      by (simp add: registered_def)
    show ?thesis
    proof (cases "j = ?i")
      case True
      then have "w = RSet (insert ?k (index_members m ?i))" using a e by simp
      then show ?thesis using True k T index_scope(1,2)[OF m T, where s = s] unfolding entry_kinds_def entry_ok_def
        by (intro exI[of _ T] exI[of _ s]) auto
    next
      case i: False
      show ?thesis
      proof (cases "j = ?k")
        case True
        then have "w = RString v" using a e i by simp
        then show ?thesis using True k T unfolding entry_kinds_def entry_ok_def by (intro exI[of _ T] exI[of _ x]) auto
      next
        case False
        then have "m j = Some w" using a e i by simp
        then show ?thesis by (rule entry_shape[OF m])
      qed
    qed
  qed
  have live: "?l' j \<noteq> None" if "?m' j \<noteq> None" for j
    using that m by (auto simp: registered_def store_ok_def split: if_splits)
  have idx: "indexed kd ix ?m' ?l'" if i: "indexed kd ix m l" and p: "(kd, ix) \<in> entry_kinds" for kd ix
    unfolding indexed_def
  proof (intro allI impI)
    fix U y
    assume U: "is_id ''tnt'' U"
    obtain z where z: "covered (entry_key U kd y) (entry_key U ix z) m l" using i U unfolding indexed_def by blast
    note ni = entry_not_index[OF p k T U] entry_not_index(1)[OF k p U T]
    show "\<exists>s. covered (entry_key U kd y) (entry_key U ix s) ?m' ?l'"
    proof (cases "entry_key U kd y = ?k")
      case True
      then show ?thesis using ni(2)[of y x] by (intro exI[of _ s] covered_registered n) (use ni in \<open>auto dest: sym\<close>)
    next
      case False
      then show ?thesis using z by (intro exI[of _ z] covered_registered n) (use ni in \<open>auto dest: sym\<close>)
    qed
  qed
  show ?thesis using shape live idx m by (simp add: store_ok_def entry_kinds_def)
qed

text \<open>Time takes the same from an entry and from its index.\<close>

lemma covered_elapsed:
  assumes R: "redis_ok R view left" and c: "covered key index (view r) (left r)"
  shows "covered key index (view (rd_elapse R d r)) (left (rd_elapse R d r))"
  unfolding covered_def
proof (intro allI impI)
  fix e
  note v = redis_okD(11)[OF R, of d r] and w = redis_okD(12)[OF R, of d r]
  assume a: "view (rd_elapse R d r) key \<noteq> None" "left (rd_elapse R d r) key = Some e" "1000 \<le> e"
  have b: "view r key \<noteq> None" using a(1) by (auto simp: v split: if_splits)
  have l: "left r key = Some (e + d)" using a(2) by (auto simp: w split: option.splits if_splits)
  have "1000 \<le> e + d" using a(3) by simp
  then obtain S n where z: "view r index = Some (RSet S)" "key \<in> S" "left r index = Some n" "e + d < n + 1000"
    using c b l unfolding covered_def by blast
  then have "\<not> n \<le> d" using a(3) by simp
  then show "\<exists>S i. view (rd_elapse R d r) index = Some (RSet S) \<and> key \<in> S \<and> left (rd_elapse R d r) index = Some i \<and> e < i + 1000"
    using z by (intro exI[of _ S] exI[of _ "n - d"]) (auto simp: v w)
qed

lemma store_ok_elapsed:
  assumes R: "redis_ok R view left" and m: "store_ok (view r) (left r)"
  shows "store_ok (view (rd_elapse R d r)) (left (rd_elapse R d r))"
proof -
  note v = redis_okD(11)[OF R, of d r] and w = redis_okD(12)[OF R, of d r]
  have old: "view r k = Some x" if "view (rd_elapse R d r) k = Some x" for k x using that by (simp add: v split: if_splits)
  have live: "left (rd_elapse R d r) k \<noteq> None" if "view (rd_elapse R d r) k \<noteq> None" for k
  proof -
    have "view r k \<noteq> None" using that old by blast
    then obtain t where t: "left r k = Some t" using m by (auto simp: store_ok_def)
    have "\<not> t \<le> d" using that t by (auto simp: v)
    then show ?thesis using t by (simp add: w)
  qed
  have idx: "indexed kind index (view (rd_elapse R d r)) (left (rd_elapse R d r))" if i: "indexed kind index (view r) (left r)" for kind index
    using i covered_elapsed[OF R, of _ _ r d] unfolding indexed_def by blast
  show ?thesis using old live idx m unfolding store_ok_def by blast
qed

section \<open>The store as a machine\<close>

datatype store_op = RegisterSession js | RegisterCacheEntry js | Invalidate js js | Elapse nat
  \<comment> \<open>an invalidation with clock and request, the passage of time in milliseconds\<close>

datatype store_out = Registered "(string \<times> string) res" | Invalidated "invalidation_result res" | Elapsed

definition store_step :: "'r redis \<Rightarrow> (js \<Rightarrow> int option) \<Rightarrow> 'r \<Rightarrow> store_op \<Rightarrow> 'r \<times> store_out" where
  "store_step R pd r op =
     (case op of
        RegisterSession q \<Rightarrow> (case register_session (redis_store R pd) q r of (u, x) \<Rightarrow> (u, Registered x))
      | RegisterCacheEntry q \<Rightarrow> (case register_cache_entry (redis_store R pd) q r of (u, x) \<Rightarrow> (u, Registered x))
      | Invalidate clock q \<Rightarrow> (case invalidate (redis_store R pd) clock q r of (u, x) \<Rightarrow> (u, Invalidated x))
      | Elapse d \<Rightarrow> (rd_elapse R d r, Elapsed))"

text \<open>\<open>Date\<close>: times are within its range, and an ISO string stands for its time.\<close>

definition date_ok :: "(js \<Rightarrow> int option) \<Rightarrow> bool" where
  "date_ok pd \<longleftrightarrow> (\<forall>v t. pd v = Some t \<longrightarrow> valid_time t) \<and> (\<forall>t. valid_time t \<longrightarrow> pd (JStr (time_to_iso t)) = Some t)"

definition clock_ok :: "js \<Rightarrow> bool" where
  "clock_ok v \<longleftrightarrow> (case v of JDate (Some t) \<Rightarrow> valid_time t | _ \<Rightarrow> True)"

definition store_op_ok :: "store_op \<Rightarrow> bool" where
  "store_op_ok op \<longleftrightarrow> (case op of Invalidate clock q \<Rightarrow> clock_ok clock | _ \<Rightarrow> True)"

lemma iso_valid:
  assumes "iso pd e v = Inr t" "date_ok pd" "clock_ok v"
  obtains n where "valid_time n" "t = time_to_iso n"
  using assms by (cases v) (auto simp: iso_def date_ok_def clock_ok_def split: option.splits)

lemma entry_ttl_number:
  assumes "entry_ttl v = Inr t"
  obtains n where "t = JStr (rat_to_string (of_nat n))" "lua_tonumber (rat_to_string (of_nat n)) = Some (of_nat n)" "lifetime n" "v = num (of_nat n)"
proof -
  have v: "safe_integer_from 1 v" "t = JStr (to_string v)" "num_of v \<le> 86400"
    using assms by (auto simp: entry_ttl_def state_invalidation_policy_def split: if_splits)
  then obtain x where x: "v = num x"
    by (cases v) (auto simp: safe_integer_from_def is_safe_integer_def split: js_num.splits)
  then have i: "x = of_int \<lfloor>x\<rfloor>" "1 \<le> x" "x \<le> 86400"
    using v by (auto simp: safe_integer_from_def is_safe_integer_def is_integer_rat_def)
  then have "1 \<le> \<lfloor>x\<rfloor>" "\<lfloor>x\<rfloor> \<le> 86400" by (simp_all add: le_floor_iff floor_le_iff)
  then have n: "x = of_nat (nat \<lfloor>x\<rfloor>)" "lifetime (nat \<lfloor>x\<rfloor>)"
    using i(1) by (simp_all add: lifetime_def nat_le_iff le_nat_iff del: le_floor_iff one_le_floor floor_le_numeral)
  show thesis using that[of "nat \<lfloor>x\<rfloor>"] v lua_number[of 1 x] n by (simp add: x)
qed

lemma register_entry_ok:
  assumes R: "redis_ok R view left" and m: "store_ok (view r) (left r)" and T: "is_id ''tnt'' T" and k: "(kind, index) \<in> entry_kinds"
    and t: "entry_ttl v = Inr t" and x: "is_string y"
  shows "\<exists>u i n. redis_evaluate R RegisterEntry [entry_key T kind rest, entry_key T index s] [y, t] r = (u, Inr (num 1))
    \<and> view u = registered (view r) (entry_key T kind rest) (entry_key T index s) (str_of y)
    \<and> left u = (left r)(entry_key T kind rest \<mapsto> 1000 * n, entry_key T index s \<mapsto> i) \<and> v = num (of_nat n)
    \<and> 1000 * n < i + 1000 \<and> (\<forall>t. view r (entry_key T index s) \<noteq> None \<and> left r (entry_key T index s) = Some t \<longrightarrow> t \<le> i)"
proof -
  obtain n where q: "t = JStr (rat_to_string (of_nat n))" "lua_tonumber (rat_to_string (of_nat n)) = Some (of_nat n)" "lifetime n" "v = num (of_nat n)"
    using t by (rule entry_ttl_number)
  have "redis_evaluate R RegisterEntry [entry_key T kind rest, entry_key T index s] [y, t] r
      = lua_register R (entry_key T kind rest) (entry_key T index s) (str_of y) (rat_to_string (of_nat n)) r"
    using x by (simp add: redis_evaluate_def q(1) Let_def)
  then show ?thesis using lua_register_ok[OF R m T k q(2,3), of rest s "str_of y"] q(4) by metis
qed

text \<open>What the checks of the two register operations let through.\<close>

definition entry_request :: "js \<Rightarrow> string \<Rightarrow> string \<Rightarrow> js \<Rightarrow> bool" where
  "entry_request q key index ttl \<longleftrightarrow>
     (\<exists>kind ix rest s. (kind, ix) \<in> entry_kinds \<and> is_id ''tnt'' (to_string (get q ''tenantId''))
        \<and> key = entry_key (to_string (get q ''tenantId'')) kind rest
        \<and> index = entry_key (to_string (get q ''tenantId'')) ix s \<and> entry_ttl (get q ''ttlSeconds'') = Inr ttl
        \<and> is_string (get q ''value''))"

text \<open>A registration adds an entry with the lifetime requested and a member to its index, whose time it does not
  shorten and extends to the lifetime of the entry, up to a second.\<close>

definition entry_registered ::
  "('r \<Rightarrow> string \<Rightarrow> redis_value option) \<Rightarrow> ('r \<Rightarrow> string \<Rightarrow> nat option) \<Rightarrow> 'r \<Rightarrow> js \<Rightarrow> string \<Rightarrow> string \<Rightarrow> 'r \<Rightarrow> bool" where
  "entry_registered view left r q key index u \<longleftrightarrow>
     view u = registered (view r) key index (str_of (get q ''value''))
     \<and> (\<exists>n i. get q ''ttlSeconds'' = num (of_nat n) \<and> left u = (left r)(key \<mapsto> 1000 * n, index \<mapsto> i) \<and> 1000 * n < i + 1000
          \<and> (\<forall>t. view r index \<noteq> None \<and> left r index = Some t \<longrightarrow> t \<le> i))
     \<and> (\<exists>ttl. entry_request q key index ttl)"

lemma registration_ok:
  assumes R: "redis_ok R view left" and m: "store_ok (view r) (left r)" and e: "entry_request q key index ttl"
  shows "\<exists>u. redis_evaluate R RegisterEntry [key, index] [get q ''value'', ttl] r = (u, Inr (num 1))
    \<and> entry_registered view left r q key index u \<and> store_ok (view u) (left u)"
proof -
  obtain kind ix rest s where k: "(kind, ix) \<in> entry_kinds" "is_id ''tnt'' (to_string (get q ''tenantId''))"
    "key = entry_key (to_string (get q ''tenantId'')) kind rest" "index = entry_key (to_string (get q ''tenantId'')) ix s"
    "entry_ttl (get q ''ttlSeconds'') = Inr ttl" "is_string (get q ''value'')"
    using e by (auto simp: entry_request_def)
  obtain u i n where u: "redis_evaluate R RegisterEntry [key, index] [get q ''value'', ttl] r = (u, Inr (num 1))"
    "view u = registered (view r) key index (str_of (get q ''value''))" "left u = (left r)(key \<mapsto> 1000 * n, index \<mapsto> i)"
    "get q ''ttlSeconds'' = num (of_nat n)" "1000 * n < i + 1000" "\<forall>t. view r index \<noteq> None \<and> left r index = Some t \<longrightarrow> t \<le> i"
    using register_entry_ok[OF R m k(2,1,5,6), of rest s] unfolding k(3,4) by blast
  have "store_ok (view u) (left u)" unfolding u(2,3) k(3,4)
    by (rule store_ok_registered[OF m k(2,1)]) (use u(5,6) in \<open>auto simp: k(4)\<close>)
  moreover have "entry_registered view left r q key index u" using u(2-6) e unfolding entry_registered_def by blast
  ultimately show ?thesis using u(1) by blast
qed

lemma session_request:
  assumes "security_state_redis_keys (get q ''tenantId'') (get q ''subjectId'') = Inr ks"
    "security_session_redis_key (get q ''tenantId'') (get q ''sessionIdHashSha256'') = Inr key"
    "is_string (get q ''value'')" "entry_ttl (get q ''ttlSeconds'') = Inr t"
  shows "entry_request q key (sk_session_index ks) t"
  using subject_keys_for[OF assms(1)] assms(2-4)
  by (auto simp: entry_request_def entry_kinds_def keys_for_def security_session_redis_key_def scoped_key_entry split: if_splits)

lemma cache_request:
  assumes "security_state_redis_keys (get q ''tenantId'') (get q ''subjectId'') = Inr ks"
    "subject_security_cache_redis_key (get q ''tenantId'') (get q ''namespace'') (get q ''cacheId'') = Inr key"
    "is_string (get q ''value'')" "entry_ttl (get q ''ttlSeconds'') = Inr t"
  shows "entry_request q key (sk_cache_index ks) t"
  using subject_keys_for[OF assms(1)] assms(2-4)
  by (auto simp: entry_request_def entry_kinds_def keys_for_def subject_security_cache_redis_key_def scoped_key_entry split: if_splits)

lemma register_ok:
  assumes R: "redis_ok R view left" and m: "store_ok (view r) (left r)"
    and reg: "register_session (redis_store R pd) q r = (u, x) \<or> register_cache_entry (redis_store R pd) q r = (u, x)"
  shows "store_ok (view u) (left u) \<and> (case x of Inl e \<Rightarrow> u = r
    | Inr (key, index) \<Rightarrow> entry_registered view left r q key index u)"
proof -
  have run: "store_ok (view u') (left u') \<and> (case y of Inl e \<Rightarrow> u' = r | Inr (key, index) \<Rightarrow> entry_registered view left r q key index u')"
    if p: "act_bind (act_res prep) (\<lambda>(key, index, ttl). act_bind (st_evaluate (redis_store R pd) RegisterEntry [key, index] [get q ''value'', ttl])
        (\<lambda>_. act_ret (key, index))) r = (u', y)"
      and ok: "\<And>key index ttl. prep = Inr (key, index, ttl) \<Longrightarrow> entry_request q key index ttl" for prep u' y
  proof (cases prep)
    case (Inl e)
    then show ?thesis using p m by (auto simp: act_bind_def)
  next
    case (Inr a)
    obtain key index ttl where a: "a = (key, index, ttl)" by (cases a) auto
    obtain v where "redis_evaluate R RegisterEntry [key, index] [get q ''value'', ttl] r = (v, Inr (num 1))"
      "store_ok (view v) (left v)" "entry_registered view left r q key index v"
      using registration_ok[OF R m ok[of key index ttl]] Inr a by blast
    then show ?thesis using p Inr a by (auto simp: act_bind_def redis_store_def)
  qed
  show ?thesis using reg
  proof
    assume "register_session (redis_store R pd) q r = (u, x)"
    from run[OF this[unfolded register_session_def]] show ?thesis by (auto intro: session_request split: if_splits)
  next
    assume "register_cache_entry (redis_store R pd) q r = (u, x)"
    from run[OF this[unfolded register_cache_entry_def]] show ?thesis by (auto intro: cache_request split: if_splits)
  qed
qed

lemma id_no_bar: "is_id p s \<Longrightarrow> CHR ''|'' \<notin> set p \<Longrightarrow> CHR ''|'' \<notin> set s"
proof -
  have m: "matches ps t \<Longrightarrow> list_all (\<lambda>q. \<not> q (CHR ''|'')) ps \<Longrightarrow> CHR ''|'' \<notin> set t" for ps t
    by (induction ps t rule: matches.induct) auto
  have h: "\<not> lower_hex (CHR ''|'')" by (simp add: lower_hex_def)
  show "CHR ''|'' \<notin> set s" if i: "is_id p s" and p: "CHR ''|'' \<notin> set p"
    by (rule m[OF i[unfolded is_id_def]]) (use h p in \<open>auto simp: uuid_classes_def lit_def list_all_iff\<close>)
qed

lemma same_action_marker:
  assumes "is_id ''act'' a" "is_id ''act'' b"
  shows "same_action (a @ ''|'' @ t) b \<longleftrightarrow> a = b" "tl (dropWhile (\<lambda>c. c \<noteq> CHR ''|'') (a @ ''|'' @ t)) = t"
proof -
  have n: "CHR ''|'' \<notin> set a" using id_no_bar[OF assms(1)] by simp
  then have "takeWhile (\<lambda>c. c \<noteq> CHR ''|'') (a @ CHR ''|'' # t) = a" "dropWhile (\<lambda>c. c \<noteq> CHR ''|'') (a @ CHR ''|'' # t) = CHR ''|'' # t"
    by (auto simp: takeWhile_append dropWhile_append)
  then show "same_action (a @ ''|'' @ t) b \<longleftrightarrow> a = b" "tl (dropWhile (\<lambda>c. c \<noteq> CHR ''|'') (a @ ''|'' @ t)) = t"
    by (simp_all add: same_action_def)
qed

lemma marker_shape:
  assumes "store_ok m l" "is_id ''tnt'' T" "m (entry_key T ''security-invalidation'' s) = Some v"
  obtains a t where "is_id ''act'' a" "valid_time t" "v = RString (a @ ''|'' @ time_to_iso t)"
  using entry_shape[OF assms(1,3)] assms(2) that
  by (cases v) (auto simp: entry_ok_def entry_key_eq)

lemma marker_ttl: "lua_tonumber (to_string (num (ip_marker_ttl state_invalidation_policy))) = Some (of_nat 604800)"
  using lua_number[of 0 604800]
  by (simp add: state_invalidation_policy_def safe_integer_from_def is_safe_integer_def is_integer_rat_def max_safe_integer_def)

text \<open>The marker of an earlier invalidation by the same action, if it is the last one.\<close>

definition marked :: "(string \<Rightarrow> redis_value option) \<Rightarrow> subject_keys \<Rightarrow> string \<Rightarrow> int option \<Rightarrow> bool" where
  "marked m ks a at_time \<longleftrightarrow>
     (case at_time of
        Some t \<Rightarrow> valid_time t \<and> m (sk_marker ks) = Some (RString (a @ ''|'' @ time_to_iso t))
      | None \<Rightarrow> \<forall>t. m (sk_marker ks) \<noteq> Some (RString (a @ ''|'' @ t)))"

lemma marked_total:
  assumes "store_ok m l" "is_id ''tnt'' T" "is_id ''act'' a"
  shows "\<exists>t. marked m (keys_for T s) a t"
proof (cases "m (entry_key T ''security-invalidation'' s)")
  case None
  then show ?thesis by (intro exI[of _ None]) (simp add: marked_def keys_for_def)
next
  case (Some v)
  obtain b t where b: "is_id ''act'' b" "valid_time t" "v = RString (b @ ''|'' @ time_to_iso t)"
    using marker_shape[OF assms(1,2) Some] by blast
  show ?thesis
  proof (cases "a = b")
    case True
    then show ?thesis using b Some by (intro exI[of _ "Some t"]) (simp add: marked_def keys_for_def)
  next
    case False
    have "b @ ''|'' @ time_to_iso t \<noteq> a @ ''|'' @ u" for u
      using same_action_marker(1)[OF b(1) b(1), of "time_to_iso t"] same_action_marker(1)[OF assms(3) b(1), of u] False by auto
    then show ?thesis using b Some by (intro exI[of _ None]) (simp add: marked_def keys_for_def)
  qed
qed

text \<open>The script on the keys of a subject.\<close>

lemma lua_invalidate_ok:
  assumes R: "redis_ok R view left" and m: "store_ok (view r) (left r)" and T: "is_id ''tnt'' T" and a: "is_id ''act'' a" and ks: "ks = keys_for T s"
    and t: "marked (view r) ks a t"
  shows "\<exists>u. redis_evaluate R InvalidateSubject [sk_session_index ks, sk_cache_index ks, sk_marker ks]
       [JStr a, JStr now, JStr (to_string (num (ip_marker_ttl state_invalidation_policy))), JStr (sk_session_prefix ks), JStr (sk_cache_prefix ks)] r
     = (u, Inr (case t of Some t \<Rightarrow> JArr [num 0, num 0, num 0, JStr (time_to_iso t)]
         | None \<Rightarrow> JArr [num 1,
             num (of_nat (card {k \<in> index_members (view r) (sk_session_index ks). view r k \<noteq> None})),
             num (of_nat (card {k \<in> index_members (view r) (sk_cache_index ks). view r k \<noteq> None})), JStr now]))
     \<and> (case t of Some t \<Rightarrow> u = r | None \<Rightarrow> view u = cleared (view r) ks (a @ ''|'' @ now) \<and> left u = cleared_left (view r) (left r) ks)"
proof -
  let ?K = "(sk_session_index ks, sk_cache_index ks, sk_marker ks)" and ?P = "(sk_session_prefix ks, sk_cache_prefix ks)"
    and ?ttl = "to_string (num (ip_marker_ttl state_invalidation_policy))"
  have ev: "redis_evaluate R InvalidateSubject [sk_session_index ks, sk_cache_index ks, sk_marker ks]
       [JStr a, JStr now, JStr ?ttl, JStr (sk_session_prefix ks), JStr (sk_cache_prefix ks)] r
     = lua_invalidate R ?K ?P a now ?ttl r"
    by (simp add: redis_evaluate_def Let_def del: to_string.simps)
  note g = redis_okD(1)[OF R, of "sk_marker ks" r]
  show ?thesis
  proof (cases t)
    case (Some w)
    then have w: "view r (sk_marker ks) = Some (RString (a @ ''|'' @ time_to_iso w))" using t by (simp add: marked_def)
    have "lua_invalidate R ?K ?P a now ?ttl r = (r, Inr (JArr [num 0, num 0, num 0, JStr (time_to_iso w)]))"
      using same_action_marker[OF a a, of "time_to_iso w"] unfolding lua_invalidate_def act_bind_def snd_conv g w by simp
    then show ?thesis using ev Some by auto
  next
    case None
    have "lua_invalidate R ?K ?P a now ?ttl r = lua_clear R ?K ?P a now ?ttl r"
    proof (cases "view r (sk_marker ks)")
      case None
      then show ?thesis unfolding lua_invalidate_def act_bind_def snd_conv g by simp
    next
      case (Some v)
      then have v: "view r (entry_key T ''security-invalidation'' s) = Some v" by (simp add: ks keys_for_def)
      obtain b w where b: "is_id ''act'' b" "v = RString (b @ ''|'' @ time_to_iso w)"
        by (rule marker_shape[OF m T v])
      have "a \<noteq> b" using t \<open>t = None\<close> Some b(2) by (auto simp: marked_def)
      then show ?thesis using same_action_marker(1)[OF b(1) a, of "time_to_iso w"]
        unfolding lua_invalidate_def act_bind_def snd_conv g Some b(2) by simp
    qed
    moreover obtain u where "lua_clear R ?K ?P a now ?ttl r = (u, Inr (JArr [num 1,
             num (of_nat (card {k \<in> index_members (view r) (sk_session_index ks). view r k \<noteq> None})),
             num (of_nat (card {k \<in> index_members (view r) (sk_cache_index ks). view r k \<noteq> None})), JStr now]))"
        "view u = cleared (view r) ks (a @ ''|'' @ now)" "left u = cleared_left (view r) (left r) ks"
      using lua_clear_ok[OF R m T ks marker_ttl, of a now] by auto
    ultimately show ?thesis using ev None by auto
  qed
qed

text \<open>A well-formed request to invalidate the subject whose keys are \<open>ks\<close>.\<close>

definition invalidation_request :: "js \<Rightarrow> subject_keys \<Rightarrow> string \<Rightarrow> bool" where
  "invalidation_request q ks a \<longleftrightarrow>
     security_state_redis_keys (get q ''tenantId'') (get q ''subjectId'') = Inr ks \<and> \<not> nullish q
     \<and> get q ''actionId'' = JStr a \<and> is_id ''act'' a \<and> one_of invalidating_actions (get q ''actionType'')"

definition live_members :: "(string \<Rightarrow> redis_value option) \<Rightarrow> string \<Rightarrow> nat" where
  "live_members m index = card {k \<in> index_members m index. m k \<noteq> None}"

text \<open>A valid request reaches the script, and answers what the script replied.\<close>

definition script_reply :: "(string \<Rightarrow> redis_value option) \<Rightarrow> subject_keys \<Rightarrow> int \<Rightarrow> int option \<Rightarrow> js" where
  "script_reply m ks now t =
     (case t of Some t \<Rightarrow> JArr [num 0, num 0, num 0, JStr (time_to_iso t)]
      | None \<Rightarrow> JArr [num 1, num (of_nat (live_members m (sk_session_index ks))), num (of_nat (live_members m (sk_cache_index ks))),
                  JStr (time_to_iso now)])"

lemma invalidate_replies:
  assumes R: "redis_ok R view left" and m: "store_ok (view r) (left r)" and q: "invalidation_request q ks a"
    and t: "marked (view r) ks a t"
  shows "\<exists>u. invalidate (redis_store R pd) (JDate (Some now)) q r = (u, invalidation_reply pd (script_reply (view r) ks now t))
     \<and> (case t of Some _ \<Rightarrow> u = r
        | None \<Rightarrow> view u = cleared (view r) ks (a @ ''|'' @ time_to_iso now) \<and> left u = cleared_left (view r) (left r) ks)"
proof -
  have k: "is_id ''tnt'' (to_string (get q ''tenantId''))" "ks = keys_for (to_string (get q ''tenantId'')) (encode_uri_component (str_of (get q ''subjectId'')))"
    using q subject_keys_for by (auto simp: invalidation_request_def)
  have a: "is_id ''act'' a" using q by (simp add: invalidation_request_def)
  have p: "iso pd e (JDate (Some now)) = Inr (time_to_iso now)" for e by (simp add: iso_def)
  have scope: "assert_scope (get q ''tenantId'') (get q ''subjectId'') = Inr ()"
    using q by (auto simp: invalidation_request_def security_state_redis_keys_def)
  from lua_invalidate_ok[OF R m k(1) a k(2) t, of "time_to_iso now"] obtain u where
    u: "redis_evaluate R InvalidateSubject [sk_session_index ks, sk_cache_index ks, sk_marker ks]
       [JStr a, JStr (time_to_iso now), JStr (to_string (num (ip_marker_ttl state_invalidation_policy))), JStr (sk_session_prefix ks), JStr (sk_cache_prefix ks)] r
     = (u, Inr (script_reply (view r) ks now t))"
    "case t of Some t \<Rightarrow> u = r | None \<Rightarrow> view u = cleared (view r) ks (a @ ''|'' @ time_to_iso now) \<and> left u = cleared_left (view r) (left r) ks"
    unfolding live_members_def script_reply_def by blast
  have "invalidate (redis_store R pd) (JDate (Some now)) q r = (u, invalidation_reply pd (script_reply (view r) ks now t))"
    using q u(1) by (simp add: invalidate_def invalidation_request_def read_def scope p act_bind_def act_catch_def redis_store_def del: to_string.simps)
  then show ?thesis using u(2) by (cases t) auto
qed

lemma iso_of_iso: "date_ok pd \<Longrightarrow> valid_time w \<Longrightarrow> iso pd e (JStr (time_to_iso w)) = Inr (time_to_iso w)"
  by (simp add: iso_def date_ok_def)

lemma reply_marked:
  assumes "date_ok pd" "valid_time t"
  shows "invalidation_reply pd (script_reply m ks now (Some t))
     = Inr \<lparr> ir_applied = False, ir_sessions = num 0, ir_caches = num 0, ir_at = time_to_iso t \<rparr>"
  by (simp add: script_reply_def invalidation_reply_def invalidation_integer_def js_number_def safe_integer_from_def is_safe_integer_def
      is_integer_rat_def max_safe_integer_def iso_of_iso[OF assms] Let_def)

lemma reply_applied:
  assumes "date_ok pd" "valid_time now" "invalidation_reply pd (script_reply m ks now None) = Inr x"
  shows "ir_applied x \<and> ir_at x = time_to_iso now"
  using assms(3) iso_of_iso[OF assms(1,2)]
  by (auto simp: script_reply_def invalidation_reply_def js_number_def invalidation_integer_def Let_def split: if_splits)

text \<open>A valid request never fails for another reason than a count beyond the safe integers.\<close>

lemma invalidate_ok:
  assumes R: "redis_ok R view left" and m: "store_ok (view r) (left r)" and pd: "date_ok pd" and q: "invalidation_request q ks a"
    and now: "valid_time now" and t: "marked (view r) ks a t"
    and small: "of_nat (live_members (view r) (sk_session_index ks)) \<le> max_safe_integer"
      "of_nat (live_members (view r) (sk_cache_index ks)) \<le> max_safe_integer"
  shows "\<exists>u. invalidate (redis_store R pd) (JDate (Some now)) q r
     = (u, Inr (case t of
          Some t \<Rightarrow> \<lparr> ir_applied = False, ir_sessions = num 0, ir_caches = num 0, ir_at = time_to_iso t \<rparr>
        | None \<Rightarrow> \<lparr> ir_applied = True, ir_sessions = num (of_nat (live_members (view r) (sk_session_index ks))),
                    ir_caches = num (of_nat (live_members (view r) (sk_cache_index ks))), ir_at = time_to_iso now \<rparr>))
     \<and> (case t of Some _ \<Rightarrow> u = r
        | None \<Rightarrow> view u = cleared (view r) ks (a @ ''|'' @ time_to_iso now) \<and> left u = cleared_left (view r) (left r) ks)"
proof -
  have nat: "invalidation_integer e (num (of_nat n)) = Inr (num (of_nat n))" if "of_nat n \<le> max_safe_integer" for e n
  proof -
    have "(of_nat n :: rat) = of_int (int n)" by simp
    then show ?thesis using that
      by (auto simp: invalidation_integer_def js_number_def safe_integer_from_def is_safe_integer_def is_integer_rat_def)
  qed
  have "invalidation_reply pd (script_reply (view r) ks now t) = Inr (case t of
          Some t \<Rightarrow> \<lparr> ir_applied = False, ir_sessions = num 0, ir_caches = num 0, ir_at = time_to_iso t \<rparr>
        | None \<Rightarrow> \<lparr> ir_applied = True, ir_sessions = num (of_nat (live_members (view r) (sk_session_index ks))),
                    ir_caches = num (of_nat (live_members (view r) (sk_cache_index ks))), ir_at = time_to_iso now \<rparr>)"
  proof (cases t)
    case (Some w)
    then show ?thesis using reply_marked[OF pd] t by (simp add: marked_def)
  next
    case None
    then show ?thesis using nat[OF small(1)] nat[OF small(2)] iso_of_iso[OF pd now]
      by (simp add: script_reply_def invalidation_reply_def js_number_def Let_def)
  qed
  then show ?thesis using invalidate_replies[OF R m q t, of pd now] by (simp split: option.splits)
qed

lemma invalidate_applied:
  assumes R: "redis_ok R view left" and m: "store_ok (view r) (left r)" and pd: "date_ok pd" and q: "invalidation_request q ks a"
    and now: "valid_time now" and run: "invalidate (redis_store R pd) (JDate (Some now)) q r = (u, Inr x)" "ir_applied x"
  shows "view u = cleared (view r) ks (a @ ''|'' @ time_to_iso now) \<and> left u = cleared_left (view r) (left r) ks \<and> ir_at x = time_to_iso now"
proof -
  have k: "is_id ''tnt'' (to_string (get q ''tenantId''))" "ks = keys_for (to_string (get q ''tenantId'')) (encode_uri_component (str_of (get q ''subjectId'')))"
    "is_id ''act'' a"
    using q subject_keys_for by (auto simp: invalidation_request_def)
  obtain t where t: "marked (view r) ks a t" using marked_total[OF m k(1,3)] k(2) by blast
  from invalidate_replies[OF R m q t, of pd now] run(1) have e: "invalidation_reply pd (script_reply (view r) ks now t) = Inr x"
    "case t of Some _ \<Rightarrow> u = r
        | None \<Rightarrow> view u = cleared (view r) ks (a @ ''|'' @ time_to_iso now) \<and> left u = cleared_left (view r) (left r) ks"
    by auto
  show ?thesis
  proof (cases t)
    case (Some w)
    then have "\<not> ir_applied x" using e(1) reply_marked[OF pd, of w "view r" ks now] t by (auto simp: marked_def)
    then show ?thesis using run(2) by simp
  next
    case None
    then show ?thesis using e reply_applied[OF pd now] by auto
  qed
qed

text \<open>Any invalidation at all, well-formed or not, changes nothing or clears the subject it names.\<close>

lemma invalidate_effect:
  assumes R: "redis_ok R view left" and m: "store_ok (view r) (left r)" and pd: "date_ok pd" and c: "clock_ok clock"
    and run: "invalidate (redis_store R pd) clock q r = (u, x)"
  shows "u = r \<or> (\<exists>ks a now. security_state_redis_keys (get q ''tenantId'') (get q ''subjectId'') = Inr ks \<and> get q ''actionId'' = JStr a
    \<and> is_id ''act'' a \<and> valid_time now \<and> marked (view r) ks a None
    \<and> view u = cleared (view r) ks (a @ ''|'' @ time_to_iso now) \<and> left u = cleared_left (view r) (left r) ks)"
proof (cases "u = r")
  case False
  define ev where "ev ks t = redis_evaluate R InvalidateSubject [sk_session_index ks, sk_cache_index ks, sk_marker ks]
     [get q ''actionId'', JStr t, JStr (to_string (num (ip_marker_ttl state_invalidation_policy))), JStr (sk_session_prefix ks), JStr (sk_cache_prefix ks)] r" for ks :: subject_keys and t
  obtain ks t where k: "security_state_redis_keys (get q ''tenantId'') (get q ''subjectId'') = Inr ks"
    "re_test_or_empty (is_id ''act'') (get q ''actionId'')" "iso pd (inv_fault ''SECURITY_INVALIDATION_TIME_INVALID'') clock = Inr t"
    and u: "u = fst (ev ks t)"
    using run False unfolding ev_def
    by (auto simp: invalidate_def act_bind_def act_catch_def read_def and_then_def redis_store_def simp del: to_string.simps split: sum.splits prod.splits if_splits)
  obtain now where now: "valid_time now" "t = time_to_iso now" using iso_valid[OF k(3) pd c] by blast
  note T = subject_keys_for[OF k(1)]
  show ?thesis
  proof (cases "get q ''actionId''")
    case (JStr a)
    then have a: "is_id ''act'' a" using k(2) by simp
    obtain w where w: "marked (view r) ks a w" using marked_total[OF m _ a] T by blast
    obtain u' y where e: "ev ks t = (u', y)" "case w of Some w \<Rightarrow> u' = r
        | None \<Rightarrow> view u' = cleared (view r) ks (a @ ''|'' @ t) \<and> left u' = cleared_left (view r) (left r) ks"
      using lua_invalidate_ok[OF R m conjunct1[OF T] a conjunct2[OF T] w, of t] unfolding ev_def JStr by blast
    then have "u' = u" using u by simp
    then have "w = None" using e(2) False by (cases w) auto
    then show ?thesis using e(2) \<open>u' = u\<close> w k(1) JStr a now by (intro disjI2 exI[of _ ks] exI[of _ a] exI[of _ now]) simp
  qed (use u False in \<open>simp_all add: ev_def redis_evaluate_def Let_def\<close>)
qed simp

lemma invalidate_keeps:
  assumes R: "redis_ok R view left" and m: "store_ok (view r) (left r)" and pd: "date_ok pd" and c: "clock_ok clock"
    and run: "invalidate (redis_store R pd) clock q r = (u, x)"
  shows "store_ok (view u) (left u)"
  using invalidate_effect[OF assms] m store_ok_cleared[OF m] subject_keys_for by metis

interpretation redis_machine: invariant_machine "store_step R pd" "\<lambda>r. redis_ok R view left \<and> date_ok pd \<and> store_ok (view r) (left r)" store_op_ok
  for R :: "'r redis" and pd and view left
proof (unfold_locales, goal_cases)
  case (1 r op)
  then have a: "redis_ok R view left" "date_ok pd" "store_ok (view r) (left r)" by auto
  have reg: "store_ok (view (fst (register_session (redis_store R pd) q r))) (left (fst (register_session (redis_store R pd) q r)))"
    "store_ok (view (fst (register_cache_entry (redis_store R pd) q r))) (left (fst (register_cache_entry (redis_store R pd) q r)))" for q
    using register_ok[OF a(1,3), of pd q] by (metis prod.collapse)+
  show ?case
  proof (cases op)
    case (Invalidate clock q)
    then have "clock_ok clock" using 1(2) by (simp add: store_op_ok_def)
    then show ?thesis using a invalidate_keeps[OF a(1,3,2), of clock q] Invalidate
      by (cases "invalidate (redis_store R pd) clock q r") (simp add: store_step_def)
  next
    case (Elapse d)
    then show ?thesis using a store_ok_elapsed[OF a(1,3)] by (simp add: store_step_def)
  qed (use a reg in \<open>simp_all add: store_step_def case_prod_unfold\<close>)
qed

lemma store_ok_empty: "store_ok (\<lambda>k. None) l"
  by (simp add: store_ok_def indexed_def covered_def)

lemma reachable_store:
  assumes "redis_ok R view left" "date_ok pd" "view r0 = (\<lambda>k. None)" "list_all store_op_ok ops"
  shows "store_ok (view (fst (run_machine (store_step R pd) r0 ops))) (left (fst (run_machine (store_step R pd) r0 ops)))"
  using redis_machine.run_inv[of R view left pd r0 ops] assms store_ok_empty by simp

section \<open>Histories\<close>

definition op_time :: "store_op \<Rightarrow> nat" where
  "op_time op = (case op of Elapse d \<Rightarrow> d | _ \<Rightarrow> 0)"

definition total_time :: "store_op list \<Rightarrow> nat" where
  "total_time ops = sum_list (map op_time ops)"

text \<open>An invalidation of the same subject for another action takes the place of the marker.\<close>

definition supersedes :: "subject_keys \<Rightarrow> string \<Rightarrow> store_op \<Rightarrow> bool" where
  "supersedes ks a op \<longleftrightarrow>
     (case op of
        Invalidate clock q \<Rightarrow> security_state_redis_keys (get q ''tenantId'') (get q ''subjectId'') = Inr ks \<and> get q ''actionId'' \<noteq> JStr a
      | _ \<Rightarrow> False)"

text \<open>A step registers an entry, clears a subject for an action that is not the marked one, lets time pass or changes nothing.\<close>

lemma store_step_cases:
  assumes R: "redis_ok R view left" and m: "store_ok (view r) (left r)" and pd: "date_ok pd" and op: "store_op_ok op"
    and run: "store_step R pd r op = (u, out)"
  obtains (unchanged) "u = r" "op_time op = 0"
  | (registered) q key index where "out = Registered (Inr (key, index))" "entry_registered view left r q key index u" "op_time op = 0"
  | (cleared) q clock T s a now where "op = Invalidate clock q" "is_id ''tnt'' T"
      "security_state_redis_keys (get q ''tenantId'') (get q ''subjectId'') = Inr (keys_for T s)" "get q ''actionId'' = JStr a"
      "marked (view r) (keys_for T s) a None" "view u = cleared (view r) (keys_for T s) (a @ ''|'' @ time_to_iso now)"
      "left u = cleared_left (view r) (left r) (keys_for T s)" "op_time op = 0"
  | (elapsed) d where "u = rd_elapse R d r" "op_time op = d"
proof (cases op)
  case (Invalidate clock q)
  then have x: "invalidate (redis_store R pd) clock q r = (u, snd (invalidate (redis_store R pd) clock q r))" "op_time op = 0" "clock_ok clock"
    using run op by (auto simp: store_step_def op_time_def store_op_ok_def split: prod.splits)
  from invalidate_effect[OF R m pd x(3,1)] show thesis
  proof
    assume "u = r"
    then show thesis using unchanged x(2) by blast
  next
    assume "\<exists>ks a now. security_state_redis_keys (get q ''tenantId'') (get q ''subjectId'') = Inr ks \<and> get q ''actionId'' = JStr a
      \<and> is_id ''act'' a \<and> valid_time now \<and> marked (view r) ks a None
      \<and> view u = cleared (view r) ks (a @ ''|'' @ time_to_iso now) \<and> left u = cleared_left (view r) (left r) ks"
    then show thesis using cleared[OF Invalidate] subject_keys_for x(2) by metis
  qed
next
  case (Elapse d)
  then show thesis using elapsed[of d] run by (simp add: store_step_def op_time_def)
next
  case (RegisterSession q)
  then obtain x where x: "register_session (redis_store R pd) q r = (u, x)" "out = Registered x" "op_time op = 0"
    using run by (auto simp: store_step_def op_time_def split: prod.splits)
  then show thesis using register_ok[OF R m disjI1[OF x(1)]] unchanged registered by (auto split: sum.splits)
next
  case (RegisterCacheEntry q)
  then obtain x where x: "register_cache_entry (redis_store R pd) q r = (u, x)" "out = Registered x" "op_time op = 0"
    using run by (auto simp: store_step_def op_time_def split: prod.splits)
  then show thesis using register_ok[OF R m disjI2[OF x(1)]] unchanged registered by (auto split: sum.splits)
qed

lemma covered_step:
  assumes R: "redis_ok R view left" and m: "store_ok (view r) (left r)" and pd: "date_ok pd" and op: "store_op_ok op"
    and run: "store_step R pd r op = (u, out)" and k: "(kind, index) \<in> entry_kinds" and T: "is_id ''tnt'' T"
    and c: "covered (entry_key T kind x) (entry_key T index s) (view r) (left r)"
    and o: "\<And>j. out = Registered (Inr (entry_key T kind x, j)) \<Longrightarrow> j = entry_key T index s"
  shows "covered (entry_key T kind x) (entry_key T index s) (view u) (left u)"
  using R m pd op run
proof (cases rule: store_step_cases)
  case (registered q key ix)
  then obtain kd jx y z n i where e: "(kd, jx) \<in> entry_kinds" "is_id ''tnt'' (to_string (get q ''tenantId''))"
    "key = entry_key (to_string (get q ''tenantId'')) kd y" "ix = entry_key (to_string (get q ''tenantId'')) jx z"
    and u: "view u = StateInvalidation.registered (view r) key ix (str_of (get q ''value''))" "left u = (left r)(key \<mapsto> 1000 * n, ix \<mapsto> i)"
      "1000 * n < i + 1000" "\<forall>t. view r ix \<noteq> None \<and> left r ix = Some t \<longrightarrow> t \<le> i"
    unfolding entry_registered_def entry_request_def by blast
  have ne: "entry_key T kind x \<noteq> ix" "entry_key T index s \<noteq> key"
    using entry_not_index(1)[OF k e(1,2) T] entry_not_index(1)[OF e(1) k T e(2)] unfolding e(3,4) by metis+
  show ?thesis unfolding u(1,2)
    by (rule covered_registered[OF _ _ ne u(3)]) (use c o registered(1) u(4) in auto)
next
  case (cleared q clock U z a now)
  then show ?thesis using covered_cleared[OF c apart_from_subject(1-3)[OF m _ T k, of U]] by simp
next
  case (elapsed d)
  then show ?thesis using covered_elapsed[OF R c] by simp
qed (use c in simp)

lemma covered_run:
  assumes R: "redis_ok R view left" and pd: "date_ok pd" and k: "(kind, index) \<in> entry_kinds" and T: "is_id ''tnt'' T"
  shows "store_ok (view r) (left r) \<Longrightarrow> list_all store_op_ok ops \<Longrightarrow> run_machine (store_step R pd) r ops = (u, outs)
    \<Longrightarrow> covered (entry_key T kind x) (entry_key T index s) (view r) (left r)
    \<Longrightarrow> (\<And>j. Registered (Inr (entry_key T kind x, j)) \<in> set outs \<Longrightarrow> j = entry_key T index s)
    \<Longrightarrow> covered (entry_key T kind x) (entry_key T index s) (view u) (left u)"
proof (induction ops arbitrary: r outs)
  case (Cons op ops)
  obtain v out where v: "store_step R pd r op = (v, out)" by fastforce
  obtain outs' where o: "run_machine (store_step R pd) v ops = (u, outs')" "outs = out # outs'"
    using Cons.prems(3) v by (auto split: prod.splits)
  have op: "store_op_ok op" "list_all store_op_ok ops" using Cons.prems(2) by simp_all
  have "store_ok (view v) (left v)" using redis_machine.step_inv[of R view left pd r op] R pd Cons.prems(1) op(1) v by simp
  moreover have "covered (entry_key T kind x) (entry_key T index s) (view v) (left v)"
    by (rule covered_step[OF R Cons.prems(1) pd op(1) v k T Cons.prems(4)]) (use Cons.prems(5) o(2) in auto)
  ultimately show ?case using Cons.IH[OF _ op(2) o(1)] Cons.prems(5) o(2) by simp
qed simp

text \<open>The marker of an invalidation stays until it is superseded or its week is over.\<close>

lemma marker_step:
  assumes R: "redis_ok R view left" and m: "store_ok (view r) (left r)" and pd: "date_ok pd" and op: "store_op_ok op"
    and run: "store_step R pd r op = (u, out)" and ks: "ks = keys_for T s" and T: "is_id ''tnt'' T"
    and v: "view r (sk_marker ks) = Some (RString (a @ ''|'' @ w))" "left r (sk_marker ks) = Some t"
    and n: "\<not> supersedes ks a op" "op_time op < t"
  shows "view u (sk_marker ks) = Some (RString (a @ ''|'' @ w)) \<and> left u (sk_marker ks) = Some (t - op_time op)"
  using R m pd op run
proof (cases rule: store_step_cases)
  case (registered q key ix)
  then obtain kd jx y z n i where e: "(kd, jx) \<in> entry_kinds" "is_id ''tnt'' (to_string (get q ''tenantId''))"
    "key = entry_key (to_string (get q ''tenantId'')) kd y" "ix = entry_key (to_string (get q ''tenantId'')) jx z"
    and u: "view u = StateInvalidation.registered (view r) key ix (str_of (get q ''value''))" "left u = (left r)(key \<mapsto> 1000 * n, ix \<mapsto> i)"
    unfolding entry_registered_def entry_request_def by blast
  have "key \<noteq> sk_marker ks" "ix \<noteq> sk_marker ks" using apart_from_subject(1,2)[OF m T e(2,1)] by (simp_all add: ks e(3,4))
  then show ?thesis using v registered(3) by (simp add: u StateInvalidation.registered_def)
next
  case (cleared q clock U z b now)
  show ?thesis
  proof (cases "sk_marker ks = sk_marker (keys_for U z)")
    case True
    then have "keys_for U z = ks" using entry_key_eq[OF T cleared(2)] by (simp add: ks keys_for_def)
    then have "b = a" "\<forall>t. b @ ''|'' @ t \<noteq> a @ ''|'' @ w" using n(1) cleared(1,3-5) v(1) by (auto simp: supersedes_def marked_def)
    then show ?thesis by simp
  next
    case False
    have "sk_marker ks \<notin> index_members (view r) (sk_session_index (keys_for U z)) \<union> index_members (view r) (sk_cache_index (keys_for U z))"
      using apart_from_subject(4)[OF m cleared(2) T, of "''session''" "''security-session-index''"] by (simp add: ks entry_kinds_def)
    moreover have "sk_marker ks \<noteq> sk_session_index (keys_for U z)" "sk_marker ks \<noteq> sk_cache_index (keys_for U z)"
      using entry_key_eq[OF T cleared(2)] by (simp_all add: ks keys_for_def)
    ultimately show ?thesis using v False cleared(8) by (simp add: cleared(6,7) StateInvalidation.cleared_def cleared_left_def without_def)
  qed
next
  case (elapsed d)
  then show ?thesis using v n(2) redis_okD(11,12)[OF R, of d r "sk_marker ks"] by auto
qed (use v in simp)

lemma marker_run:
  assumes R: "redis_ok R view left" and pd: "date_ok pd" and ks: "ks = keys_for T s" and T: "is_id ''tnt'' T"
  shows "store_ok (view r) (left r) \<Longrightarrow> list_all store_op_ok ops \<Longrightarrow> \<not> list_ex (supersedes ks a) ops \<Longrightarrow> total_time ops < t
    \<Longrightarrow> view r (sk_marker ks) = Some (RString (a @ ''|'' @ w)) \<Longrightarrow> left r (sk_marker ks) = Some t
    \<Longrightarrow> view (fst (run_machine (store_step R pd) r ops)) (sk_marker ks) = Some (RString (a @ ''|'' @ w))"
proof (induction ops arbitrary: r t)
  case (Cons op ops)
  obtain v out where v: "store_step R pd r op = (v, out)" by fastforce
  have op: "store_op_ok op" "list_all store_op_ok ops" "\<not> supersedes ks a op" "op_time op < t" "total_time ops < t - op_time op"
    using Cons.prems(2-4) by (simp_all add: total_time_def)
  have "store_ok (view v) (left v)" using redis_machine.step_inv[of R view left pd r op] R pd Cons.prems(1) op(1) v by simp
  then have "view (fst (run_machine (store_step R pd) v ops)) (sk_marker ks) = Some (RString (a @ ''|'' @ w))"
    using Cons.IH[of v "t - op_time op"] marker_step[OF R Cons.prems(1) pd op(1) v ks T Cons.prems(5,6) op(3,4)] op(2,5) Cons.prems(3) by simp
  then show ?case using v by (simp split: prod.splits) (metis fst_conv)
qed simp

section \<open>Properties\<close>

text \<open>C24: a session or cache entry stays within reach of the invalidation of its subject. Let an entry be
  registered for a subject after any mixture of valid and invalid registrations, invalidations and waits on an
  empty database, and let any such mixture follow in which the entry is not registered for another subject. As
  long as the entry has a second left to live, the index of its subject is live and has it as a member, and the
  index expires less than a second before the entry, if before it at all.\<close>

theorem live_entries_are_indexed:
  assumes "redis_ok R view left" "date_ok pd" "view r0 = (\<lambda>k. None)" "list_all store_op_ok (before @ op # after)"
    and "r1 = fst (run_machine (store_step R pd) r0 before)" "store_step R pd r1 op = (r2, Registered (Inr (key, index)))"
    and "run_machine (store_step R pd) r2 after = (r, outs)" "\<And>j. Registered (Inr (key, j)) \<in> set outs \<Longrightarrow> j = index"
    and "view r key \<noteq> None" "left r key = Some e" "1000 \<le> e"
  shows "key \<in> index_members (view r) index \<and> (\<exists>i. left r index = Some i \<and> e < i + 1000)"
proof -
  have m: "store_ok (view r1) (left r1)" unfolding assms(5) by (rule reachable_store[OF assms(1-3)]) (use assms(4) in simp)
  have op: "store_op_ok op" using assms(4) by simp
  have "\<exists>q. register_session (redis_store R pd) q r1 = (r2, Inr (key, index)) \<or> register_cache_entry (redis_store R pd) q r1 = (r2, Inr (key, index))"
    using assms(6) by (cases op) (auto simp: store_step_def split: prod.splits)
  then obtain q where q: "entry_registered view left r1 q key index r2" using register_ok[OF assms(1) m] by fastforce
  obtain kind ix x s T n i where k: "(kind, ix) \<in> entry_kinds" "is_id ''tnt'' T" "key = entry_key T kind x" "index = entry_key T ix s"
    and u: "view r2 = registered (view r1) key index (str_of (get q ''value''))" "left r2 = (left r1)(key \<mapsto> 1000 * n, index \<mapsto> i)"
      "1000 * n < i + 1000" "\<forall>t. view r1 index \<noteq> None \<and> left r1 index = Some t \<longrightarrow> t \<le> i"
    using q unfolding entry_registered_def entry_request_def by blast
  have ne: "key \<noteq> index" using entry_not_index(1)[OF k(1,1,2,2)] by (simp add: k(3,4))
  have "covered (entry_key T kind x) (entry_key T ix s) (view r2) (left r2)" unfolding u(1,2) k(3,4)[symmetric]
    by (rule covered_registered[OF _ _ ne ne[symmetric] u(3)]) (use u(4) in auto)
  moreover have "store_ok (view r2) (left r2)" using redis_machine.step_inv[of R view left pd r1 op] assms(1,2,6) m op by simp
  moreover have "list_all store_op_ok after" using assms(4) by simp
  ultimately have "covered key index (view r) (left r)"
    using covered_run[OF assms(1,2) k(1,2), of r2 after r outs x s] assms(7,8) by (simp add: k(3,4))
  then show ?thesis using assms(9-11) by (auto simp: covered_def index_members_def)
qed

text \<open>C25: in every reachable state a well-formed invalidation succeeds and refines one atomic update of the
  key space: every session and cache entry of the subject and both indexes are gone, the marker is
  set for a week, no other key or expiry changes, and the counts are those of the entries that were live; unless the last
  invalidation of the subject was by the same action, when nothing changes.\<close>

theorem invalidation_clears_subject:
  assumes "redis_ok R view left" "date_ok pd" "view r0 = (\<lambda>k. None)" "list_all store_op_ok ops"
    and "r = fst (run_machine (store_step R pd) r0 ops)" "invalidation_request q ks a" "valid_time now"
    and "of_nat (live_members (view r) (sk_session_index ks)) \<le> max_safe_integer"
      "of_nat (live_members (view r) (sk_cache_index ks)) \<le> max_safe_integer"
  shows "\<exists>u x. invalidate (redis_store R pd) (JDate (Some now)) q r = (u, Inr x)
    \<and> (if \<exists>t. view r (sk_marker ks) = Some (RString (a @ ''|'' @ t)) then \<not> ir_applied x \<and> u = r
       else ir_applied x \<and> view u = cleared (view r) ks (a @ ''|'' @ time_to_iso now) \<and> left u = cleared_left (view r) (left r) ks
         \<and> ir_sessions x = num (of_nat (live_members (view r) (sk_session_index ks)))
         \<and> ir_caches x = num (of_nat (live_members (view r) (sk_cache_index ks))) \<and> ir_at x = time_to_iso now)"
proof -
  have m: "store_ok (view r) (left r)" unfolding assms(5) by (rule reachable_store[OF assms(1-4)])
  have k: "is_id ''tnt'' (to_string (get q ''tenantId''))" "ks = keys_for (to_string (get q ''tenantId'')) (encode_uri_component (str_of (get q ''subjectId'')))"
    "is_id ''act'' a"
    using assms(6) subject_keys_for by (auto simp: invalidation_request_def)
  obtain t where t: "marked (view r) ks a t" using marked_total[OF m k(1,3)] k(2) by blast
  have "(t = None) = (\<nexists>t. view r (sk_marker ks) = Some (RString (a @ ''|'' @ t)))"
    using t by (cases t) (auto simp: marked_def)
  then show ?thesis using invalidate_ok[OF assms(1) m assms(2,6,7) t assms(8,9)] by (cases t) auto
qed

text \<open>C26: redelivery is harmless for the seven days of the marker. Once an invalidation has been applied,
  let any operations follow that take less than seven days together, among them no invalidation of the same
  subject for another action: repeating the request changes nothing at all, says so, and reports the time of the first.\<close>

theorem invalidation_happens_once:
  assumes "redis_ok R view left" "date_ok pd" "view r0 = (\<lambda>k. None)" "list_all store_op_ok ops"
    and "r = fst (run_machine (store_step R pd) r0 ops)" "invalidation_request q ks a" "valid_time now"
    and "invalidate (redis_store R pd) (JDate (Some now)) q r = (u, Inr x)" "ir_applied x"
    and "list_all store_op_ok between" "\<not> list_ex (supersedes ks a) between" "total_time between < 7 * 24 * 60 * 60 * 1000"
    and "v = fst (run_machine (store_step R pd) u between)"
  shows "\<exists>y. invalidate (redis_store R pd) (JDate (Some later)) q v = (v, Inr y) \<and> \<not> ir_applied y \<and> ir_at y = ir_at x"
proof -
  have m: "store_ok (view r) (left r)" unfolding assms(5) by (rule reachable_store[OF assms(1-4)])
  have T: "is_id ''tnt'' (to_string (get q ''tenantId''))" "ks = keys_for (to_string (get q ''tenantId'')) (encode_uri_component (str_of (get q ''subjectId'')))"
    using assms(6) subject_keys_for by (auto simp: invalidation_request_def)
  note first = invalidate_applied[OF assms(1) m assms(2,6,7,8,9)]
  have u: "view u (sk_marker ks) = Some (RString (a @ ''|'' @ time_to_iso now))" "left u (sk_marker ks) = Some 604800000"
    using first by (simp_all add: cleared_def cleared_left_def)
  have mu: "store_ok (view u) (left u)" using invalidate_keeps[OF assms(1) m assms(2) _ assms(8)] assms(7) by (simp add: clock_ok_def)
  have "marked (view v) ks a (Some now)"
    using marker_run[OF assms(1,2) T(2,1) mu assms(10,11) _ u] assms(7,12) by (simp add: marked_def assms(13))
  moreover have "store_ok (view v) (left v)"
    using redis_machine.run_inv[of R view left pd u between] assms(1,2,10) mu by (simp add: assms(13))
  ultimately show ?thesis using invalidate_replies[OF assms(1) _ assms(6), of v "Some now" pd later] first reply_marked[OF assms(2,7)] by auto
qed

subsection \<open>Witnesses\<close>

text \<open>A Redis database as a finite map with the milliseconds each key has left, a session of a subject, and its
  suspension. \<open>TTL\<close> rounds to the nearest second, as the server does.\<close>

type_synonym map_db = "string \<Rightarrow> ((string + string list) \<times> nat option) option"

definition map_redis :: "map_db redis" where
  "map_redis =
     \<lparr> rd_get = (\<lambda>k r. (r, case r k of None \<Rightarrow> Inr None | Some (Inl s, _) \<Rightarrow> Inr (Some s) | Some (Inr xs, _) \<Rightarrow> Inl redis_error)),
       rd_set_ex = (\<lambda>k v ttl r. if ttl < 1 then (r, Inl redis_error) else (r(k \<mapsto> (Inl v, Some (1000 * nat \<lfloor>ttl\<rfloor>))), Inr ())),
       rd_sadd = (\<lambda>k x r. case r k of None \<Rightarrow> (r(k \<mapsto> (Inr [x], None)), Inr ())
          | Some (Inr xs, t) \<Rightarrow> (r(k \<mapsto> (Inr (x # xs), t)), Inr ()) | Some (Inl s, t) \<Rightarrow> (r, Inl redis_error)),
       rd_ttl = (\<lambda>k r. (r, Inr (case r k of None \<Rightarrow> - 2 | Some (_, None) \<Rightarrow> - 1 | Some (_, Some t) \<Rightarrow> of_nat ((t + 500) div 1000)))),
       rd_expire = (\<lambda>k n r. (case r k of None \<Rightarrow> r | Some (v, _) \<Rightarrow> r(k \<mapsto> (v, Some (1000 * nat \<lfloor>n\<rfloor>))), Inr ())),
       rd_members = (\<lambda>k r. (r, case r k of None \<Rightarrow> Inr [] | Some (Inl s, _) \<Rightarrow> Inl redis_error | Some (Inr xs, _) \<Rightarrow> Inr (remdups xs))),
       rd_del = (\<lambda>k r. (r(k := None), Inr (if r k = None then 0 else 1))),
       rd_elapse = (\<lambda>d r k. case r k of Some (v, Some t) \<Rightarrow> if t \<le> d then None else Some (v, Some (t - d)) | x \<Rightarrow> x) \<rparr>"

definition map_view :: "map_db \<Rightarrow> string \<Rightarrow> redis_value option" where
  "map_view r k = (case r k of None \<Rightarrow> None | Some (Inl s, _) \<Rightarrow> Some (RString s) | Some (Inr xs, _) \<Rightarrow> Some (RSet (set xs)))"

definition map_left :: "map_db \<Rightarrow> string \<Rightarrow> nat option" where
  "map_left r k = (case r k of None \<Rightarrow> None | Some (_, t) \<Rightarrow> t)"

lemma map_view_update [simp]: "map_view (r(k \<mapsto> (Inl s, t))) = (map_view r)(k \<mapsto> RString s)"
  "map_view (r(k \<mapsto> (Inr xs, t))) = (map_view r)(k \<mapsto> RSet (set xs))" "map_view (r(k := None)) = (map_view r)(k := None)"
  "map_left (r(k \<mapsto> (v, t))) = (map_left r)(k := t)" "map_left (r(k := None)) = (map_left r)(k := None)"
  by (simp_all add: map_view_def map_left_def fun_eq_iff)

lemma map_view_None [simp]: "map_view r k = None \<longleftrightarrow> r k = None"
  by (auto simp: map_view_def split: option.split sum.split)

lemma nearest_second: "\<exists>n. (t + 500) div 1000 = n \<and> t < 1000 * n + 1000 \<and> 1000 * n < t + (1000 :: nat)"
proof -
  have "1000 * ((t + 500) div 1000) + (t + 500) mod 1000 = t + 500" "(t + 500) mod 1000 < 1000" by simp_all
  then show ?thesis by (intro exI[of _ "(t + 500) div 1000"] conjI refl) linarith+
qed

lemma map_redis_ok: "redis_ok map_redis map_view map_left"
  unfolding redis_ok_def
proof (intro conjI allI impI, goal_cases)
  case (1 r k)
  then show ?case by (auto simp: map_redis_def map_view_def split: option.split sum.split)
next
  case (2 r k)
  then show ?case by (auto simp: map_redis_def map_view_def split: option.split sum.split)
next
  case (4 r k x)
  show ?case
  proof (cases "map_view r k")
    case None
    then have "r k = None" by simp
    then show ?thesis unfolding None option.case by (auto simp: map_redis_def)
  next
    case (Some v)
    then obtain a t where a: "r k = Some (a, t)" by (auto simp: map_view_def split: option.splits)
    have "map_left r k = t" by (simp add: map_left_def a)
    then have "(map_left r)(k := t) = map_left r" by (simp add: fun_upd_idem)
    then show ?thesis unfolding Some option.case using Some a
      by (cases a) (auto simp: map_redis_def map_view_def)
  qed
next
  case (5 r k)
  show ?case
  proof (cases "r k")
    case None
    then show ?thesis by (simp add: map_redis_def)
  next
    case (Some a)
    then obtain v t where a: "r k = Some (v, t)" by (cases a) simp
    then have "map_view r k \<noteq> None" "map_left r k = t" by (simp_all add: map_left_def)
    then show ?thesis using a nearest_second by (cases t) (simp_all add: map_redis_def)
  qed
next
  case (6 r k n)
  then obtain a t where a: "r k = Some (a, t)" by auto
  have "map_view (r(k \<mapsto> (a, t'))) = map_view r" for t' using a by (auto simp: map_view_def fun_eq_iff)
  then show ?case using a by (simp add: map_redis_def)
next
  case (8 r d k)
  show ?case
  proof (cases "r k")
    case (Some a)
    then show ?thesis by (cases a; cases "snd a") (auto simp: map_redis_def map_view_def map_left_def)
  qed (simp add: map_redis_def map_view_def map_left_def)
next
  case (9 r d k)
  show ?case
  proof (cases "r k")
    case (Some a)
    then show ?thesis by (cases a; cases "snd a") (auto simp: map_redis_def map_left_def)
  qed (simp add: map_redis_def map_left_def)
qed (simp_all add: map_redis_def lifetime_def)

definition iso_date :: "js \<Rightarrow> int option" where
  "iso_date v = (case v of JStr s \<Rightarrow> date_parse s | _ \<Rightarrow> None)"

lemma iso_date_ok: "date_ok iso_date"
  by (auto simp: date_ok_def iso_date_def date_parse_iff split: js.splits)

abbreviation si_tenant :: string where "si_tenant \<equiv> ''tnt_00000000-0000-4000-8000-000000000001''"

text \<open>Requests of the subject for the session with the hash \<open>c\<dots>c\<close>, and for the action \<open>a\<close>.\<close>

abbreviation si_action :: string where "si_action \<equiv> ''act_00000000-0000-4000-8000-000000000001''"

abbreviation si_other :: string where "si_other \<equiv> ''act_00000000-0000-4000-8000-000000000002''"

abbreviation si_request_of :: "char \<Rightarrow> string \<Rightarrow> js" where
  "si_request_of c a \<equiv> obj
     [(''tenantId'', JStr si_tenant), (''subjectId'', JStr ''sub_00000000-0000-4000-8000-000000000001''),
      (''sessionIdHashSha256'', JStr (replicate 64 c)), (''value'', JStr ''session''), (''ttlSeconds'', num 60),
      (''actionId'', JStr a), (''actionType'', JStr ''suspend-subject'')]"

abbreviation si_request :: js where "si_request \<equiv> si_request_of (CHR ''a'') si_action"

abbreviation si_keys :: subject_keys where
  "si_keys \<equiv> keys_for si_tenant (encode_uri_component ''sub_00000000-0000-4000-8000-000000000001'')"

abbreviation si_session_of :: "char \<Rightarrow> string" where
  "si_session_of c \<equiv> entry_key si_tenant ''session'' (replicate 64 c)"

abbreviation si_session :: string where "si_session \<equiv> si_session_of (CHR ''a'')"

abbreviation si_index :: string where "si_index \<equiv> sk_session_index si_keys"

lemma si_ids: "is_id ''tnt'' si_tenant" "is_id ''sub'' ''sub_00000000-0000-4000-8000-000000000001''"
  "is_id ''act'' si_action" "is_id ''act'' si_other"
  by code_simp+

lemma si_state_keys: "security_state_redis_keys (JStr si_tenant) (JStr ''sub_00000000-0000-4000-8000-000000000001'') = Inr si_keys"
  by (simp add: security_state_redis_keys_def assert_scope_def si_ids inv_key_part_def scoped_key_entry keys_for_def)

lemma map_register:
  assumes "key \<noteq> index" "lifetime n" "lua_tonumber text_value = Some (of_nat n)"
  shows "r index = None \<Longrightarrow> lua_register map_redis key index v text_value r
      = (r(key \<mapsto> (Inl v, Some (1000 * n)), index \<mapsto> (Inr [key], Some (1000 * n))), Inr (num 1))"
    "r index = Some (Inr xs, Some t) \<Longrightarrow> n \<le> (t + 500) div 1000 \<Longrightarrow> lua_register map_redis key index v text_value r
      = (r(key \<mapsto> (Inl v, Some (1000 * n)), index \<mapsto> (Inr (key # xs), Some t)), Inr (num 1))"
proof -
  have n: "\<not> (of_nat n :: rat) < 1" using assms(2) by (simp add: lifetime_def)
  show "r index = None \<Longrightarrow> lua_register map_redis key index v text_value r
      = (r(key \<mapsto> (Inl v, Some (1000 * n)), index \<mapsto> (Inr [key], Some (1000 * n))), Inr (num 1))"
    using assms n by (simp add: lua_register_def map_redis_def act_bind_def fun_upd_twist)
  assume a: "r index = Some (Inr xs, Some t)" "n \<le> (t + 500) div 1000"
  have "\<not> (of_nat ((t + 500) div 1000) :: rat) < of_nat n" using a(2) by (simp add: not_less del: of_nat_add)
  then show "lua_register map_redis key index v text_value r
      = (r(key \<mapsto> (Inl v, Some (1000 * n)), index \<mapsto> (Inr (key # xs), Some t)), Inr (num 1))"
    using assms n a by (simp add: lua_register_def map_redis_def act_bind_def del: of_nat_add)
qed

lemma si_keys_apart:
  "sk_cache_index si_keys \<noteq> si_index" "sk_marker si_keys \<noteq> si_index" "si_session_of c \<noteq> si_index" "si_session_of c \<noteq> sk_marker si_keys"
  "si_session_of c \<noteq> sk_cache_index si_keys" "sk_marker si_keys \<noteq> sk_cache_index si_keys"
  using si_ids(1) by (simp_all add: keys_for_def entry_key_eq)

lemma si_register:
  assumes "c \<in> {CHR ''a'', CHR ''b''}"
  shows "r si_index = None \<Longrightarrow> store_step map_redis iso_date r (RegisterSession (si_request_of c n))
      = (r(si_session_of c \<mapsto> (Inl ''session'', Some 60000), si_index \<mapsto> (Inr [si_session_of c], Some 60000)), Registered (Inr (si_session_of c, si_index)))"
    "r si_index = Some (Inr xs, Some t) \<Longrightarrow> 60 \<le> (t + 500) div 1000 \<Longrightarrow> store_step map_redis iso_date r (RegisterSession (si_request_of c n))
      = (r(si_session_of c \<mapsto> (Inl ''session'', Some 60000), si_index \<mapsto> (Inr (si_session_of c # xs), Some t)), Registered (Inr (si_session_of c, si_index)))"
proof -
  have h: "is_sha256 (replicate 64 c)" using assms by (auto simp: is_sha256_def lower_hex_def list_all_iff)
  have k: "security_session_redis_key (JStr si_tenant) (JStr (replicate 64 c)) = Inr (si_session_of c)"
    by (simp add: security_session_redis_key_def si_ids h scoped_key_entry del: replicate.simps)
  have t: "entry_ttl (num 60) = Inr (JStr (rat_to_string 60))"
    by (simp add: entry_ttl_def safe_integer_from_def is_safe_integer_def is_integer_rat_def max_safe_integer_def state_invalidation_policy_def)
  have l: "lua_tonumber (rat_to_string 60) = Some (of_nat 60)"
    using lua_number[of 0 60] by (simp add: safe_integer_from_def is_safe_integer_def is_integer_rat_def max_safe_integer_def)
  have sixty: "lifetime 60" by (simp add: lifetime_def)
  have e: "store_step map_redis iso_date r (RegisterSession (si_request_of c n)) = (u, Registered (Inr (si_session_of c, si_index)))"
    if "lua_register map_redis (si_session_of c) si_index ''session'' (rat_to_string 60) r = (u, Inr (num 1))" for u
    using that by (simp add: store_step_def register_session_def si_state_keys k t redis_store_def act_bind_def redis_evaluate_def Let_def
        del: replicate.simps to_string.simps)
  show "r si_index = None \<Longrightarrow> store_step map_redis iso_date r (RegisterSession (si_request_of c n))
      = (r(si_session_of c \<mapsto> (Inl ''session'', Some 60000), si_index \<mapsto> (Inr [si_session_of c], Some 60000)), Registered (Inr (si_session_of c, si_index)))"
    using map_register(1)[OF si_keys_apart(3) sixty l, of r] e by simp
  show "r si_index = Some (Inr xs, Some t) \<Longrightarrow> 60 \<le> (t + 500) div 1000 \<Longrightarrow> store_step map_redis iso_date r (RegisterSession (si_request_of c n))
      = (r(si_session_of c \<mapsto> (Inl ''session'', Some 60000), si_index \<mapsto> (Inr (si_session_of c # xs), Some t)), Registered (Inr (si_session_of c, si_index)))"
    using map_register(2)[OF si_keys_apart(3) sixty l, of r] e by simp
qed

lemma si_wait: "store_step map_redis iso_date r (Elapse d)
   = (\<lambda>k. case r k of Some (v, Some t) \<Rightarrow> if t \<le> d then None else Some (v, Some (t - d)) | x \<Rightarrow> x, Elapsed)"
  by (simp add: store_step_def map_redis_def)

lemma si_invalidation: "invalidation_request (si_request_of c si_action) si_keys si_action" "invalidation_request (si_request_of c si_other) si_keys si_other"
  by (simp_all add: invalidation_request_def si_state_keys si_ids one_of_def invalidating_actions_def del: replicate.simps)

lemma si_empty: "map_view (\<lambda>_. None) = (\<lambda>k. None)"
  by (simp add: map_view_def fun_eq_iff)

definition si_state :: map_db where
  "si_state = (\<lambda>_. None)(si_session \<mapsto> (Inl ''session'', Some 60000), si_index \<mapsto> (Inr [si_session], Some 60000))"

lemma si_first: "store_step map_redis iso_date (\<lambda>_. None) (RegisterSession si_request) = (si_state, Registered (Inr (si_session, si_index)))"
  unfolding si_state_def using si_register(1)[of "CHR ''a''" "\<lambda>_. None" si_action] by simp

lemma si_registered: "fst (run_machine (store_step map_redis iso_date) (\<lambda>_. None) [RegisterSession si_request]) = si_state"
  by (simp only: run_machine.simps si_first prod.case fst_conv)

lemma si_view:
  "map_view si_state (sk_marker si_keys) = None" "map_view si_state si_session \<noteq> None" "si_session \<in> index_members (map_view si_state) si_index"
  "of_nat (live_members (map_view si_state) si_index) \<le> max_safe_integer" "of_nat (live_members (map_view si_state) (sk_cache_index si_keys)) \<le> max_safe_integer"
proof -
  have v: "map_view si_state = (\<lambda>k. None)(si_session \<mapsto> RString ''session'', si_index \<mapsto> RSet {si_session})"
    by (simp add: si_state_def si_empty)
  show "map_view si_state (sk_marker si_keys) = None" "map_view si_state si_session \<noteq> None"
    using si_keys_apart(2) si_keys_apart(3,4)[of "CHR ''a''"] by (simp_all add: v)
  have i: "index_members (map_view si_state) si_index = {si_session}" by (simp add: v index_members_def)
  then show "si_session \<in> index_members (map_view si_state) si_index" by simp
  have "live_members (map_view si_state) si_index \<le> card {si_session}" unfolding live_members_def i by (rule card_mono) auto
  then show "of_nat (live_members (map_view si_state) si_index) \<le> max_safe_integer" by (simp add: max_safe_integer_def)
  have "index_members (map_view si_state) (sk_cache_index si_keys) = {}"
    using si_keys_apart(1) si_keys_apart(5)[of "CHR ''a''"] by (simp add: v index_members_def)
  then show "of_nat (live_members (map_view si_state) (sk_cache_index si_keys)) \<le> max_safe_integer" by (simp add: live_members_def max_safe_integer_def)
qed

lemma si_ops: "list_all store_op_ok [RegisterSession q]" "list_all store_op_ok [Elapse d]" by (simp_all add: store_op_ok_def)

lemma si_store: "store_ok (map_view si_state) (map_left si_state)"
  using reachable_store[of map_redis map_view map_left iso_date "\<lambda>_. None" "[RegisterSession si_request]", OF map_redis_ok iso_date_ok si_empty si_ops(1)] by (simp only: si_registered)

lemma live_entries_are_indexed_witness:
  "\<exists>r. fst (run_machine (store_step map_redis iso_date) (\<lambda>_. None) [RegisterSession si_request, Elapse 58000]) = r
     \<and> map_left r si_session = Some 2000 \<and> si_session \<in> index_members (map_view r) si_index \<and> map_left r si_index = Some 2000"
proof -
  define r where "r = fst (store_step map_redis iso_date si_state (Elapse 58000))"
  have step: "run_machine (store_step map_redis iso_date) si_state [Elapse 58000] = (r, [Elapsed])"
    by (simp add: r_def si_wait)
  have l: "map_view r si_session \<noteq> None" "map_left r si_session = Some 2000" "map_left r si_index = Some 2000"
    using si_keys_apart(3)[of "CHR ''a''"] by (simp_all add: r_def si_wait si_state_def map_left_def)
  have ops: "list_all store_op_ok ([] @ RegisterSession si_request # [Elapse 58000])" by (simp add: store_op_ok_def)
  have start: "(\<lambda>_. None) = fst (run_machine (store_step map_redis iso_date) (\<lambda>_. None) [])" by simp
  have "si_session \<in> index_members (map_view r) si_index"
    using live_entries_are_indexed[of map_redis map_view map_left iso_date "\<lambda>_. None" "[]" "RegisterSession si_request" "[Elapse 58000]" "\<lambda>_. None"
        si_state si_session si_index r "[Elapsed]" 2000, OF map_redis_ok iso_date_ok si_empty ops start si_first step _ l(1,2)] by simp
  moreover have "fst (run_machine (store_step map_redis iso_date) (\<lambda>_. None) [RegisterSession si_request, Elapse 58000]) = r"
    by (simp only: run_machine.simps(2)[of _ _ "RegisterSession si_request"] si_first step prod.case fst_conv)
  ultimately show ?thesis using l by blast
qed

lemma invalidation_clears_subject_witness:
  "\<exists>u x. map_view si_state si_session \<noteq> None \<and> map_view u si_session = None
     \<and> invalidate (redis_store map_redis iso_date) (JDate (Some 0)) si_request si_state = (u, Inr x) \<and> ir_applied x"
proof -
  have unmarked: "\<nexists>t. map_view si_state (sk_marker si_keys) = Some (RString (si_action @ ''|'' @ t))" unfolding si_view(1) by simp
  from invalidation_clears_subject[of map_redis map_view map_left iso_date "\<lambda>_. None" "[RegisterSession si_request]" si_state,
    OF map_redis_ok iso_date_ok si_empty si_ops(1) si_registered[symmetric] si_invalidation(1) valid_time_0 si_view(4,5)]
  obtain u x where u: "invalidate (redis_store map_redis iso_date) (JDate (Some 0)) si_request si_state = (u, Inr x)" "ir_applied x"
    "map_view u = cleared (map_view si_state) si_keys (si_action @ ''|'' @ time_to_iso 0)"
    unfolding if_not_P[OF unmarked] by blast
  have "map_view u si_session = None" using si_view(3) si_keys_apart(4)[of "CHR ''a''"] by (simp add: u(3) cleared_def without_def)
  then show ?thesis using si_view(2) u(1,2) by blast
qed

lemmas si_invalidate = invalidate_ok[of map_redis map_view map_left _ iso_date, OF map_redis_ok _ iso_date_ok]
  invalidate_keeps[of map_redis map_view map_left _ iso_date, OF map_redis_ok _ iso_date_ok]

lemma si_applied:
  "\<exists>u x. invalidate (redis_store map_redis iso_date) (JDate (Some 0)) si_request si_state = (u, Inr x) \<and> ir_applied x
     \<and> ir_at x = time_to_iso 0"
proof -
  have "marked (map_view si_state) si_keys si_action None" unfolding marked_def si_view(1) by simp
  from si_invalidate(1)[OF si_store si_invalidation(1)[of "CHR ''a''"] valid_time_0 this si_view(4,5)] show ?thesis by force
qed

lemma invalidation_happens_once_witness:
  "\<exists>u x v y. invalidate (redis_store map_redis iso_date) (JDate (Some 0)) si_request si_state = (u, Inr x) \<and> ir_applied x
     \<and> v = fst (run_machine (store_step map_redis iso_date) u [RegisterSession si_request, Elapse 86400000])
     \<and> invalidate (redis_store map_redis iso_date) (JDate (Some 86400000)) si_request v = (v, Inr y) \<and> \<not> ir_applied y
     \<and> ir_at y = time_to_iso 0"
proof -
  obtain u x where u: "invalidate (redis_store map_redis iso_date) (JDate (Some 0)) si_request si_state = (u, Inr x)" "ir_applied x"
    "ir_at x = time_to_iso 0"
    using si_applied by blast
  have b: "list_all store_op_ok [RegisterSession si_request, Elapse 86400000]"
    "\<not> list_ex (supersedes si_keys si_action) [RegisterSession si_request, Elapse 86400000]"
    "total_time [RegisterSession si_request, Elapse 86400000] < 7 * 24 * 60 * 60 * 1000"
    by (simp_all add: store_op_ok_def supersedes_def total_time_def op_time_def)
  from invalidation_happens_once[OF map_redis_ok iso_date_ok si_empty si_ops(1) si_registered[symmetric] si_invalidation(1) valid_time_0
      u(1,2) b refl, of 86400000] u show ?thesis by (metis (no_types))
qed

subsection \<open>Two limits of the store\<close>

text \<open>\<open>TTL\<close> rounds, so an index with 59.6 seconds left is not extended for an entry of 60 seconds: the entry
  outlives the index, and an invalidation of its subject in the last moments of its life misses it.\<close>

lemma entry_outlives_index:
  "\<exists>r u x. fst (run_machine (store_step map_redis iso_date) (\<lambda>_. None)
       [RegisterSession si_request, Elapse 400, RegisterSession (si_request_of (CHR ''b'') si_action), Elapse 59700]) = r
     \<and> map_view r (si_session_of (CHR ''b'')) \<noteq> None
     \<and> invalidate (redis_store map_redis iso_date) (JDate (Some 0)) si_request r = (u, Inr x) \<and> ir_applied x
     \<and> map_view u (si_session_of (CHR ''b'')) \<noteq> None"
proof -
  let ?b = "si_session_of (CHR ''b'')" and ?q = "si_request_of (CHR ''b'') si_action"
  define r1 where "r1 = fst (store_step map_redis iso_date si_state (Elapse 400))"
  define r2 where "r2 = r1(?b \<mapsto> (Inl ''session'', Some 60000), si_index \<mapsto> (Inr [?b, si_session], Some 59600))"
  define r where "r = fst (store_step map_redis iso_date r2 (Elapse 59700))"
  have r1: "r1 si_index = Some (Inr [si_session], Some 59600)" by (simp add: r1_def si_wait si_state_def)
  have s1: "store_step map_redis iso_date si_state (Elapse 400) = (r1, Elapsed)" by (simp add: r1_def si_wait)
  have s2: "store_step map_redis iso_date r1 (RegisterSession ?q) = (r2, Registered (Inr (?b, si_index)))"
    unfolding r2_def using si_register(2)[of "CHR ''b''" r1, OF _ r1, of si_action] by simp
  have s3: "store_step map_redis iso_date r2 (Elapse 59700) = (r, Elapsed)" by (simp add: r_def si_wait)
  have run: "fst (run_machine (store_step map_redis iso_date) (\<lambda>_. None) [RegisterSession si_request, Elapse 400, RegisterSession ?q, Elapse 59700]) = r"
    by (simp only: run_machine.simps si_first s1 s2 s3 prod.case fst_conv)
  have live: "map_view r ?b = Some (RString ''session'')" "map_view r si_index = None"
    using si_keys_apart(3)[of "CHR ''b''"] by (simp_all add: map_view_def r_def si_wait r2_def)
  have none: "map_view r (sk_marker si_keys) = None" "map_view r (sk_cache_index si_keys) = None"
    using si_keys_apart(1,2,6) si_keys_apart(4,5)[of "CHR ''a''"] si_keys_apart(4,5)[of "CHR ''b''"]
    by (auto simp: r_def si_wait r2_def r1_def si_state_def split: option.splits)
  have empty: "index_members (map_view r) si_index = {}" "index_members (map_view r) (sk_cache_index si_keys) = {}"
    using live(2) none(2) unfolding index_members_def by (simp_all del: map_view_None)
  have ok: "store_ok (map_view r) (map_left r)"
    using reachable_store[of map_redis map_view map_left iso_date "\<lambda>_. None" "[RegisterSession si_request, Elapse 400, RegisterSession ?q, Elapse 59700]",
      OF map_redis_ok iso_date_ok si_empty] unfolding run by (simp add: store_op_ok_def)
  have "marked (map_view r) si_keys si_action None" unfolding marked_def none(1) by simp
  moreover have "of_nat (live_members (map_view r) si_index) \<le> max_safe_integer" "of_nat (live_members (map_view r) (sk_cache_index si_keys)) \<le> max_safe_integer"
    by (simp_all add: live_members_def empty max_safe_integer_def)
  ultimately obtain u x where
    u: "invalidate (redis_store map_redis iso_date) (JDate (Some 0)) si_request r = (u, Inr x)" "ir_applied x"
      "map_view u = cleared (map_view r) si_keys (si_action @ ''|'' @ time_to_iso 0)"
    using si_invalidate(1)[OF ok si_invalidation(1)[of "CHR ''a''"] valid_time_0] by force
  have "map_view u ?b = map_view r ?b"
    using si_keys_apart(3-5)[of "CHR ''b''"] by (simp add: u(3) cleared_def without_def empty)
  then have "map_view u ?b \<noteq> None" "map_view r ?b \<noteq> None" using live(1) by simp_all
  then show ?thesis using run u(1,2) by blast
qed

text \<open>The marker remembers the last action only: when an invalidation of the subject for another action comes between
  two deliveries of the first, the second delivery is applied again.\<close>

lemma superseded_marker_is_forgotten:
  "\<exists>u v w x y z. invalidate (redis_store map_redis iso_date) (JDate (Some 0)) si_request si_state = (u, Inr x) \<and> ir_applied x
     \<and> invalidate (redis_store map_redis iso_date) (JDate (Some 1)) (si_request_of (CHR ''a'') si_other) u = (v, Inr y) \<and> ir_applied y
     \<and> invalidate (redis_store map_redis iso_date) (JDate (Some 2)) si_request v = (w, Inr z) \<and> ir_applied z"
proof -
  have t: "valid_time 1" "valid_time 2" by (simp_all add: valid_time_def max_time_def)
  have gone: "of_nat (live_members (cleared m si_keys t) si_index) \<le> max_safe_integer"
    "of_nat (live_members (cleared m si_keys t) (sk_cache_index si_keys)) \<le> max_safe_integer" for m t
    using si_keys_apart(2,6) by (simp_all add: live_members_def index_members_def cleared_def without_def max_safe_integer_def)
  have fresh: "marked m si_keys a None" if "m (sk_marker si_keys) = Some (RString (b @ ''|'' @ t))" "is_id ''act'' a" "is_id ''act'' b" "a \<noteq> b" for m a b t
    using that same_action_marker(1)[OF that(3,3), of t] same_action_marker(1)[OF that(2,3)] unfolding marked_def by (auto split: option.splits)
  have differ: "si_other \<noteq> si_action" by simp
  have "marked (map_view si_state) si_keys si_action None" unfolding marked_def si_view(1) by simp
  from si_invalidate(1)[OF si_store si_invalidation(1)[of "CHR ''a''"] valid_time_0 this si_view(4,5)] obtain u x where
    u: "invalidate (redis_store map_redis iso_date) (JDate (Some 0)) si_request si_state = (u, Inr x)" "ir_applied x"
      "map_view u = cleared (map_view si_state) si_keys (si_action @ ''|'' @ time_to_iso 0)"
    by force
  have clock: "clock_ok (JDate (Some n))" if "valid_time n" for n using that by (simp add: clock_ok_def)
  have ou: "store_ok (map_view u) (map_left u)"
    by (rule si_invalidate(2)[OF si_store clock[OF valid_time_0] u(1)])
  have "marked (map_view u) si_keys si_other None" by (rule fresh[OF _ si_ids(4,3) differ]) (simp add: u(3) cleared_def)
  from si_invalidate(1)[OF ou si_invalidation(2)[of "CHR ''a''"] t(1) this] gone obtain v y where
    v: "invalidate (redis_store map_redis iso_date) (JDate (Some 1)) (si_request_of (CHR ''a'') si_other) u = (v, Inr y)" "ir_applied y"
      "map_view v = cleared (map_view u) si_keys (si_other @ ''|'' @ time_to_iso 1)"
    unfolding u(3) by force
  have ov: "store_ok (map_view v) (map_left v)"
    by (rule si_invalidate(2)[OF ou clock[OF t(1)] v(1)])
  have "marked (map_view v) si_keys si_action None" by (rule fresh[OF _ si_ids(3,4) differ[symmetric]]) (simp add: v(3) cleared_def)
  from si_invalidate(1)[OF ov si_invalidation(1)[of "CHR ''a''"] t(2) this] gone obtain w z where
    "invalidate (redis_store map_redis iso_date) (JDate (Some 2)) si_request v = (w, Inr z)" "ir_applied z"
    unfolding v(3) by force
  then show ?thesis using u(1,2) v(1,2) by blast
qed

end
