(* ===== verification/GovernedRecovery.thy ===== *)
theory GovernedRecovery
  imports JsEffects SecurityActions TenantContext
begin

text \<open>
  \<open>services/orchestrator/src/governed-recovery.mjs\<close> and its wiring in \<open>index.mjs\<close>: a tenant administrator
  asks for the recovery of a subject, the service loads the recovery context, evaluates eligibility with
  the recovery rules of the state machine and records a short-lived authorization. The query function, the
  loader of active severe evidence, SHA-256, the clock and the ID factory are parameters.
\<close>

section \<open>Requests\<close>

definition rec_fault :: "string \<Rightarrow> js_error" where
  "rec_fault r = Thrown GovernedRecoveryError r"

definition recovery_actions :: "string list" where
  "recovery_actions = [''restore-access'', ''issue-replacement-certificate'']"

definition request_keys :: "string list" where
  "request_keys = [''causeResolutionReference'', ''idempotencyKey'', ''requestId'', ''sessionIdHashSha256'',
     ''stepUpProofIdHashSha256'', ''targetCertificateId'', ''targetSubjectId'']"

definition load_context_sql :: string where
  "load_context_sql = ''SELECT * FROM orchestration.get_security_recovery_context($1,$2)''"

definition authorize_recovery_sql :: string where
  "authorize_recovery_sql =
     ''SELECT * FROM orchestration.authorize_security_recovery($1,$2,$3,$4,$5,$6,$7,$8,$9,$10,$11,$12,$13,$14,$15,$16,$17)''"

definition authorized_role :: string where
  "authorized_role = ''tenant-admin''"

definition exact_object :: "js \<Rightarrow> string list \<Rightarrow> bool" where
  "exact_object v ks \<longleftrightarrow>
     is_object v \<and> \<not> is_array v \<and> length (keys v) = length ks \<and> list_all (\<lambda>k. k \<in> set ks) (keys v)"

definition rec_iso :: "(js \<Rightarrow> int option) \<Rightarrow> js \<Rightarrow> string res" where
  "rec_iso pd v = iso pd (rec_fault ''RECOVERY_TIME_INVALID'') v"

definition generated :: "('w, js) act \<Rightarrow> string \<Rightarrow> ('w, js) act" where
  "generated ids p =
     act_bind ids (\<lambda>v. let value = p @ ''_'' @ to_string v
       in act_res (if is_id p value then Inr (JStr value) else Inl (rec_fault ''RECOVERY_GENERATED_ID_INVALID'')))"

definition trusted_admin_context :: "context_store \<Rightarrow> context_arg \<Rightarrow> tenant_context res" where
  "trusted_admin_context st context =
     and_then (catch (assert_no_tenant_switch st context (JArr []))
         (\<lambda>e. Inl (if error_is TenantContextError e then rec_fault ''RECOVERY_TENANT_CONTEXT_INVALID'' else e)))
       (\<lambda>c. if authorized_role \<notin> set (ctx_roles c) then Inl (rec_fault ''RECOVERY_TENANT_ADMIN_REQUIRED'') else Inr c)"

definition normalize_request :: "js \<Rightarrow> js res" where
  "normalize_request q =
     (if \<not> exact_object q request_keys
         \<or> \<not> re_test_or_empty (is_id ''req'') (get q ''requestId'')
         \<or> \<not> re_test_or_empty is_idempotency_key (get q ''idempotencyKey'')
         \<or> \<not> re_test_or_empty (is_id ''sub'') (get q ''targetSubjectId'')
         \<or> \<not> re_test_or_empty (is_id ''crt'') (get q ''targetCertificateId'')
         \<or> \<not> re_test_or_empty is_sha256 (get q ''stepUpProofIdHashSha256'')
         \<or> \<not> re_test_or_empty is_sha256 (get q ''sessionIdHashSha256'')
         \<or> (get q ''causeResolutionReference'' \<noteq> JNull
            \<and> \<not> re_test_or_empty is_external_reference (get q ''causeResolutionReference''))
      then Inl (rec_fault ''RECOVERY_REQUEST_INVALID'') else Inr (spread q []))"

record recovery_target =
  rt_tenant :: string
  rt_subject :: js
  rt_certificate :: js

definition validate_loaded_context :: "js \<Rightarrow> recovery_target \<Rightarrow> js res" where
  "validate_loaded_context v t =
     (if \<not> truthy v \<or> \<not> strict_eq (get v ''tenantId'') (JStr (rt_tenant t))
         \<or> \<not> strict_eq (get v ''targetSubjectId'') (rt_subject t)
         \<or> \<not> strict_eq (get v ''targetCertificateId'') (rt_certificate t)
         \<or> \<not> re_test_or_empty (is_id ''trn'') (get v ''trustTransitionId'')
         \<or> \<not> safe_integer_from 1 (get v ''stateVersion'')
         \<or> \<not> truthy (get v ''currentState'') \<or> \<not> truthy (get v ''checkpoint'')
         \<or> \<not> is_array (get v ''activeSevereEvidence'')
      then Inl (rec_fault ''RECOVERY_CONTEXT_INVALID'') else Inr v)"

text \<open>\<open>Array.prototype.sort\<close>: by the texts of the elements, \<open>undefined\<close> last.\<close>

definition sort_values :: "js list \<Rightarrow> js list" where
  "sort_values vs = sort_key to_string (filter (\<lambda>v. v \<noteq> JUndef) vs) @ filter (\<lambda>v. v = JUndef) vs"

text \<open>The document whose SHA-256 binds an authorization to what was evaluated; \<open>hash\<close> is the digest in
  hexadecimal of the UTF-8 bytes of a text.\<close>

definition eligibility_document :: "recovery_target \<Rightarrow> js \<Rightarrow> js \<Rightarrow> js \<Rightarrow> js list \<Rightarrow> js" where
  "eligibility_document t context evaluation cause evidence_ids =
     obj [(''schemaVersion'', JStr ''1.0.0''), (''tenantId'', JStr (rt_tenant t)), (''targetSubjectId'', rt_subject t),
          (''targetCertificateId'', rt_certificate t), (''trustTransitionId'', get context ''trustTransitionId''),
          (''stateVersion'', get context ''stateVersion''), (''currentState'', get context ''currentState''),
          (''checkpoint'', get evaluation ''checkpoint''), (''activeSevereEvidenceIds'', JArr (sort_values evidence_ids)),
          (''actionType'', get evaluation ''nextActionType''), (''reasonCode'', get evaluation ''reasonCode''),
          (''causeResolutionReference'', cause), (''targetCertificateReactivated'', JBool False)]"

definition eligibility_hash :: "(string \<Rightarrow> string) \<Rightarrow> recovery_target \<Rightarrow> js \<Rightarrow> js \<Rightarrow> js \<Rightarrow> string res" where
  "eligibility_hash hash t context evaluation cause =
     and_then (map_res (\<lambda>e. read e ''evidenceId'') (elements (get context ''activeSevereEvidence''))) (\<lambda>ids.
       Inr (hash (the (json_stringify (eligibility_document t context evaluation cause ids)))))"

section \<open>Repository\<close>

definition authorization_value :: "(js \<Rightarrow> int option) \<Rightarrow> js \<Rightarrow> js res" where
  "authorization_value pd row =
     (let at_time = (\<lambda>v. if truthy v then and_then (rec_iso pd v) (\<lambda>t. Inr (JStr t)) else Inr JNull) in
      and_then (at_time (get row ''authorized_at'')) (\<lambda>authorized.
      and_then (at_time (get row ''expires_at'')) (\<lambda>expires.
        Inr (obj [(''tenantId'', get row ''tenant_id''), (''authorizationId'', get row ''authorization_id''),
                  (''actionId'', get row ''action_id''), (''actionType'', get row ''action_type''),
                  (''status'', get row ''status''), (''authorizedAt'', authorized), (''expiresAt'', expires)]))))"

definition map_authorization :: "(js \<Rightarrow> int option) \<Rightarrow> js \<Rightarrow> js res" where
  "map_authorization pd row =
     and_then (authorization_value pd row) (\<lambda>r.
       if \<not> re_test_or_empty (is_id ''tnt'') (get r ''tenantId'')
          \<or> \<not> re_test_or_empty (is_id ''rca'') (get r ''authorizationId'')
          \<or> \<not> re_test_or_empty (is_id ''act'') (get r ''actionId'')
          \<or> \<not> one_of recovery_actions (get r ''actionType'')
          \<or> \<not> one_of [''pending'', ''failed'', ''executing'', ''succeeded''] (get r ''status'')
          \<or> get r ''authorizedAt'' = JNull \<or> get r ''expiresAt'' = JNull
       then Inl (rec_fault ''RECOVERY_AUTHORIZATION_CONFIRMATION_INVALID'') else Inr r)"

text \<open>\<open>[...value]\<close>: an array or a string.\<close>

fun iterate :: "js \<Rightarrow> js list res" where
  "iterate (JArr vs) = Inr vs"
| "iterate (JStr s) = Inr (map (\<lambda>c. JStr [c]) s)"
| "iterate _ = Inl TypeErrorThrown"

definition recovery_context_value :: "js \<Rightarrow> js list \<Rightarrow> js res" where
  "recovery_context_value row evidence =
     (if nullish row then Inl TypeErrorThrown
      else and_then (iterate (coalesce (get row ''source_ids'') (JArr []))) (\<lambda>sources.
        Inr (obj [(''tenantId'', get row ''tenant_id''), (''targetSubjectId'', get row ''target_subject_id''),
          (''targetCertificateId'', get row ''target_certificate_id''), (''stateVersion'', js_number (get row ''state_version'')),
          (''trustTransitionId'', get row ''trust_transition_id''),
          (''currentState'', obj [(''access'', get row ''access_state''), (''renewal'', get row ''renewal_state''),
             (''targetCertificate'', get row ''target_certificate_state''), (''replacement'', get row ''replacement_state'')]),
          (''checkpoint'', obj [(''score'', js_number (get row ''score'')), (''band'', get row ''band''),
             (''transition'', get row ''transition''),
             (''consecutiveQualifyingEvaluations'', js_number (get row ''consecutive_qualifying_evaluations'')),
             (''sourceIds'', JArr sources)]),
          (''activeSevereEvidence'', JArr (map (\<lambda>e. spread e []) evidence))])))"

text \<open>\<open>loader\<close> is \<open>loadActiveSevereEvidence\<close>.\<close>

definition load_recovery_context :: "'w env \<Rightarrow> (js \<Rightarrow> ('w, js) act) \<Rightarrow> js \<Rightarrow> ('w, js) act" where
  "load_recovery_context E loader v =
     (if nullish v then act_fail TypeErrorThrown
      else if \<not> re_test_or_empty (is_id ''tnt'') (get v ''tenantId'')
         \<or> \<not> re_test_or_empty (is_id ''sub'') (get v ''targetSubjectId'')
         \<or> \<not> re_test_or_empty (is_id ''crt'') (get v ''targetCertificateId'')
      then act_fail (rec_fault ''RECOVERY_TARGET_INVALID'')
      else act_bind (env_query E load_context_sql [get v ''targetSubjectId'', get v ''targetCertificateId'']) (\<lambda>result.
           act_bind (act_res (one_row (rec_fault ''RECOVERY_CONTEXT_UNAVAILABLE'') result)) (\<lambda>row.
           act_bind (loader (obj [(''tenantId'', get v ''tenantId''), (''subjectId'', get v ''targetSubjectId''),
               (''evaluatedAt'', get v ''evaluatedAt'')])) (\<lambda>evidence.
             if \<not> is_array evidence then act_fail (rec_fault ''RECOVERY_EVIDENCE_INVALID'')
             else act_res (recovery_context_value row (elements evidence))))))"

definition authorization_fields :: "string list" where
  "authorization_fields = [''authorizationId'', ''actionId'', ''decisionId'', ''requestId'', ''correlationId'', ''idempotencyKey'',
     ''targetSubjectId'', ''targetCertificateId'', ''actionType'', ''trustTransitionId'', ''expectedStateVersion'', ''reasonCode'',
     ''eligibilityHashSha256'', ''stepUpProofIdHashSha256'', ''sessionIdHashSha256'', ''causeResolutionReference'', ''authorizedAt'']"

definition authorize_recovery_action :: "'w env \<Rightarrow> js \<Rightarrow> ('w, js) act" where
  "authorize_recovery_action E v =
     (if nullish v then act_fail TypeErrorThrown
      else act_bind (env_query E authorize_recovery_sql (map (get v) authorization_fields)) (\<lambda>result.
        act_res (and_then (one_row (rec_fault ''RECOVERY_AUTHORIZATION_CONFIRMATION_INVALID'') result)
          (map_authorization (env_date E)))))"

section \<open>Service\<close>

record 'w recovery_service =
  gs_load :: "js \<Rightarrow> ('w, js) act"
  gs_authorize :: "js \<Rightarrow> ('w, js) act"
  gs_evaluate :: "js \<Rightarrow> js res"
  gs_id :: "('w, js) act"
  gs_clock :: "('w, js) act"
  gs_date :: "js \<Rightarrow> int option"
  gs_hash :: "string \<Rightarrow> string"

definition evaluation_input :: "recovery_target \<Rightarrow> js \<Rightarrow> js \<Rightarrow> string \<Rightarrow> js" where
  "evaluation_input t loaded normalized evaluated_at =
     obj [(''target'', obj [(''tenantId'', JStr (rt_tenant t)), (''subjectId'', rt_subject t)]),
          (''currentState'', get loaded ''currentState''), (''checkpoint'', get loaded ''checkpoint''),
          (''activeSevereEvidence'', get loaded ''activeSevereEvidence''), (''evaluatedAt'', JStr evaluated_at),
          (''severeCauseResolved'', JBool (get normalized ''causeResolutionReference'' \<noteq> JNull))]"

text \<open>The tests between the evaluation and the authorization.\<close>

definition check_eligible :: "js \<Rightarrow> js \<Rightarrow> js \<Rightarrow> unit res" where
  "check_eligible evaluation loaded normalized =
     and_then (read evaluation ''eligible'') (\<lambda>eligible.
       if \<not> truthy eligible \<or> \<not> one_of recovery_actions (get evaluation ''nextActionType'')
       then Inl (rec_fault (to_string (coalesce (get evaluation ''reasonCode'') (JStr ''RECOVERY_NOT_ELIGIBLE''))))
       else if get (get loaded ''currentState'') ''targetCertificate'' = JStr ''revoked''
               \<and> get normalized ''causeResolutionReference'' = JNull
       then Inl (rec_fault ''SEVERE_CAUSE_UNRESOLVED'') else Inr ())"

definition authorization_request ::
  "'w recovery_service \<Rightarrow> recovery_target \<Rightarrow> js \<Rightarrow> js \<Rightarrow> js \<Rightarrow> string \<Rightarrow> ('w, js) act" where
  "authorization_request S t normalized loaded evaluation evaluated_at =
     act_bind (generated (gs_id S) ''rca'') (\<lambda>authorization_id.
     act_bind (generated (gs_id S) ''act'') (\<lambda>action.
     act_bind (generated (gs_id S) ''dec'') (\<lambda>decision.
     act_bind (generated (gs_id S) ''cor'') (\<lambda>correlation.
     act_bind (act_res (eligibility_hash (gs_hash S) t loaded evaluation (get normalized ''causeResolutionReference''))) (\<lambda>eligibility.
       act_ret (obj [(''authorizationId'', authorization_id), (''actionId'', action), (''decisionId'', decision),
         (''correlationId'', correlation), (''requestId'', get normalized ''requestId''),
         (''idempotencyKey'', get normalized ''idempotencyKey''), (''targetSubjectId'', rt_subject t),
         (''targetCertificateId'', rt_certificate t), (''actionType'', get evaluation ''nextActionType''),
         (''trustTransitionId'', get loaded ''trustTransitionId''), (''expectedStateVersion'', get loaded ''stateVersion''),
         (''reasonCode'', get evaluation ''reasonCode''), (''eligibilityHashSha256'', JStr eligibility),
         (''stepUpProofIdHashSha256'', get normalized ''stepUpProofIdHashSha256''),
         (''sessionIdHashSha256'', get normalized ''sessionIdHashSha256''),
         (''causeResolutionReference'', get normalized ''causeResolutionReference''),
         (''authorizedAt'', JStr evaluated_at)]))))))"

definition confirm_authorization :: "tenant_context \<Rightarrow> js \<Rightarrow> js \<Rightarrow> js res" where
  "confirm_authorization actor evaluation authorization =
     (if nullish authorization then Inl TypeErrorThrown
      else if \<not> strict_eq (get authorization ''tenantId'') (JStr (ctx_tenant actor))
         \<or> \<not> strict_eq (get authorization ''actionType'') (get evaluation ''nextActionType'')
      then Inl (rec_fault ''RECOVERY_AUTHORIZATION_CONFIRMATION_INVALID'')
      else Inr (spread authorization [(''reasonCode'', get evaluation ''reasonCode''),
                  (''targetCertificateReactivated'', JBool False)]))"

definition load_request :: "recovery_target \<Rightarrow> string \<Rightarrow> js" where
  "load_request t evaluated_at =
     obj [(''tenantId'', JStr (rt_tenant t)), (''targetSubjectId'', rt_subject t),
          (''targetCertificateId'', rt_certificate t), (''evaluatedAt'', JStr evaluated_at)]"

definition authorize_recovery :: "'w recovery_service \<Rightarrow> context_store \<Rightarrow> context_arg \<Rightarrow> js \<Rightarrow> ('w, js) act" where
  "authorize_recovery S st context request =
     act_bind (act_res (trusted_admin_context st context)) (\<lambda>actor.
     act_bind (act_res (normalize_request request)) (\<lambda>normalized.
     act_bind (gs_clock S) (\<lambda>now.
     act_bind (act_res (rec_iso (gs_date S) now)) (\<lambda>evaluated_at.
       let t = \<lparr> rt_tenant = ctx_tenant actor, rt_subject = get normalized ''targetSubjectId'',
                 rt_certificate = get normalized ''targetCertificateId'' \<rparr> in
       act_bind (gs_load S (load_request t evaluated_at)) (\<lambda>found.
       act_bind (act_res (validate_loaded_context found t)) (\<lambda>loaded.
       act_bind (act_res (gs_evaluate S (evaluation_input t loaded normalized evaluated_at))) (\<lambda>evaluation.
       act_bind (act_res (check_eligible evaluation loaded normalized)) (\<lambda>_.
       act_bind (authorization_request S t normalized loaded evaluation evaluated_at) (\<lambda>req.
       act_bind (gs_authorize S req) (\<lambda>authorization.
         act_res (confirm_authorization actor evaluation authorization)))))))))))"

text \<open>The wiring: the rules of the state machine over the PostgreSQL repository.\<close>

definition checkpoint_value :: "recovery_checkpoint \<Rightarrow> js" where
  "checkpoint_value c =
     obj [(''score'', num (checkpoint_score c)), (''band'', JStr (band_id (checkpoint_band c))),
          (''transition'', JStr (checkpoint_transition c)),
          (''consecutiveQualifyingEvaluations'', num (checkpoint_evaluations c)),
          (''sourceIds'', JArr (checkpoint_sources c))]"

definition evaluation_value :: "recovery_evaluation \<Rightarrow> js" where
  "evaluation_value r =
     obj [(''target'', obj [(''tenantId'', target_tenant (evaluation_target r)), (''subjectId'', target_subject (evaluation_target r))]),
          (''eligible'', JBool (evaluation_eligible r)),
          (''nextActionType'', case next_action_type r of None \<Rightarrow> JNull | Some a \<Rightarrow> JStr (action_id a)),
          (''reasonCode'', JStr (evaluation_reason r)), (''authorizationRequired'', JStr (authorization_required r)),
          (''targetCertificateReactivated'', JBool False), (''checkpoint'', checkpoint_value (evaluation_checkpoint r))]"

definition governed_recovery_service ::
  "'w env \<Rightarrow> (js \<Rightarrow> ('w, js) act) \<Rightarrow> (string \<Rightarrow> string) \<Rightarrow> 'w recovery_service" where
  "governed_recovery_service E loader hash =
     \<lparr> gs_load = load_recovery_context E loader, gs_authorize = authorize_recovery_action E,
       gs_evaluate = (\<lambda>v. and_then (evaluate_security_action_recovery v) (\<lambda>r. Inr (evaluation_value r))),
       gs_id = env_id E, gs_clock = env_clock E, gs_date = env_date E, gs_hash = hash \<rparr>"

section \<open>Properties\<close>

lemma trusted_admin:
  assumes "trusted_admin_context st context = Inr c"
  shows "trusted_context st context = Inr c" "authorized_role \<in> set (ctx_roles c)"
  using assms by (auto simp: trusted_admin_context_def catch_def assert_no_tenant_switch_def split: sum.splits if_splits)

lemma authorization_object:
  assumes "map_authorization pd row = Inr r"
  shows "\<exists>fs. r = obj fs \<and> one_of recovery_actions (get r ''actionType'')"
  using assms by (auto simp: map_authorization_def authorization_value_def Let_def)

lemma confirmed:
  assumes "confirm_authorization actor evaluation (obj fs) = Inr out" "get evaluation ''nextActionType'' = JStr a"
  shows "get out ''tenantId'' = JStr (ctx_tenant actor)" "get out ''actionType'' = JStr a"
    "get out ''reasonCode'' = get evaluation ''reasonCode''" "get out ''targetCertificateReactivated'' = JBool False"
proof -
  have o: "out = spread (obj fs) [(''reasonCode'', get evaluation ''reasonCode''), (''targetCertificateReactivated'', JBool False)]"
    "strict_eq (get (obj fs) ''tenantId'') (JStr (ctx_tenant actor))" "strict_eq (get (obj fs) ''actionType'') (JStr a)"
    using assms by (auto simp: confirm_authorization_def simp del: get.simps split: if_splits)
  have eq: "v = JStr x" if "strict_eq v (JStr x)" for v x using that by (cases v) auto
  show "get out ''tenantId'' = JStr (ctx_tenant actor)" "get out ''actionType'' = JStr a"
    using eq[OF o(2)] eq[OF o(3)] by (simp_all add: o(1) get_spread del: get.simps)
  show "get out ''reasonCode'' = get evaluation ''reasonCode''" "get out ''targetCertificateReactivated'' = JBool False"
    by (simp_all add: o(1) get_spread del: get.simps)
qed

lemma evaluation_value_get [simp]:
  "get (evaluation_value r) ''eligible'' = JBool (evaluation_eligible r)"
  "get (evaluation_value r) ''nextActionType'' = (case next_action_type r of None \<Rightarrow> JNull | Some a \<Rightarrow> JStr (action_id a))"
  "get (evaluation_value r) ''reasonCode'' = JStr (evaluation_reason r)"
  "get (evaluation_value r) ''checkpoint'' = checkpoint_value (evaluation_checkpoint r)"
  "\<not> nullish (evaluation_value r)"
  by (simp_all add: evaluation_value_def)

text \<open>What a successful authorization went through.\<close>

lemma authorize_recovery_steps:
  assumes "authorize_recovery S st context request w = (w', Inr out)"
  obtains c q t time loaded x req u v authorization where
    "trusted_admin_context st context = Inr c" "normalize_request request = Inr q"
    "t = \<lparr> rt_tenant = ctx_tenant c, rt_subject = get q ''targetSubjectId'', rt_certificate = get q ''targetCertificateId'' \<rparr>"
    "validate_loaded_context loaded t = Inr loaded"
    "gs_evaluate S (evaluation_input t loaded q time) = Inr x" "check_eligible x loaded q = Inr ()"
    "\<exists>u0. authorization_request S t q loaded x time u0 = (u, Inr req)"
    "gs_authorize S req u = (v, Inr authorization)" "confirm_authorization c x authorization = Inr out"
proof -
  have validated: "a = b" if "validate_loaded_context b t = Inr a" for a b t
    using that by (auto simp: validate_loaded_context_def split: if_splits)
  show ?thesis using assms unfolding authorize_recovery_def Let_def act_bind_Inr act_simps prod.inject
    by (elim exE conjE) (rule that, auto dest: validated)
qed

text \<open>C27: a recovery is authorized only for an administrator of the tenant, when the recovery rules evaluate the
  loaded state as eligible without active severe evidence, the state machine accepts the authorized
  action in that state, and the cause of a revocation has a resolution reference; what the database
  records is this action for the requested subject, certificate, state version and evidence hash, and
  the reply never reactivates the certificate.\<close>

theorem recovery_is_justified:
  assumes "authorize_recovery (governed_recovery_service E loader hash) st context request w = (w', Inr out)"
  shows "\<exists>c q t time loaded r s a tr digest ids u v result.
    trusted_context st context = Inr c \<and> ''tenant-admin'' \<in> set (ctx_roles c)
    \<and> normalize_request request = Inr q
    \<and> t = \<lparr> rt_tenant = ctx_tenant c, rt_subject = get q ''targetSubjectId'', rt_certificate = get q ''targetCertificateId'' \<rparr>
    \<and> validate_loaded_context loaded t = Inr loaded
    \<and> evaluate_security_action_recovery (evaluation_input t loaded q time) = Inr r
    \<and> normalize_severe_evidence (get loaded ''activeSevereEvidence'') (evaluation_target r) (parse_time (JStr time)) = Inr []
    \<and> define_security_action_state (get loaded ''currentState'') = Inr s
    \<and> next_action_type r = Some a \<and> a \<in> {RestoreAccess, IssueReplacementCertificate}
    \<and> transition_security_action_state (action_input s (JStr (action_id a))) = Inr tr
    \<and> (target_certificate s = CertificateRevoked \<longrightarrow> get q ''causeResolutionReference'' \<noteq> JNull)
    \<and> eligibility_hash hash t loaded (evaluation_value r) (get q ''causeResolutionReference'') = Inr digest
    \<and> env_query E authorize_recovery_sql
        (ids @ [get q ''targetSubjectId'', get q ''targetCertificateId'', JStr (action_id a), get loaded ''trustTransitionId'',
           get loaded ''stateVersion'', JStr (evaluation_reason r), JStr digest, get q ''stepUpProofIdHashSha256'',
           get q ''sessionIdHashSha256'', get q ''causeResolutionReference'', JStr time]) u = (v, Inr result)
    \<and> get out ''tenantId'' = JStr (ctx_tenant c) \<and> get out ''actionType'' = JStr (action_id a)
    \<and> get out ''targetCertificateReactivated'' = JBool False"
proof -
  from assms obtain c q t time loaded x req u v authorization where
    c: "trusted_admin_context st context = Inr c" and q: "normalize_request request = Inr q"
    and t: "t = \<lparr> rt_tenant = ctx_tenant c, rt_subject = get q ''targetSubjectId'', rt_certificate = get q ''targetCertificateId'' \<rparr>"
    and l: "validate_loaded_context loaded t = Inr loaded"
    and x: "gs_evaluate (governed_recovery_service E loader hash) (evaluation_input t loaded q time) = Inr x"
    and e: "check_eligible x loaded q = Inr ()"
    and req: "\<exists>u0. authorization_request (governed_recovery_service E loader hash) t q loaded x time u0 = (u, Inr req)"
    and sent: "gs_authorize (governed_recovery_service E loader hash) req u = (v, Inr authorization)"
    and out: "confirm_authorization c x authorization = Inr out"
    by (rule authorize_recovery_steps)
  obtain r where r: "evaluate_security_action_recovery (evaluation_input t loaded q time) = Inr r" "x = evaluation_value r"
    using x by (auto simp: governed_recovery_service_def)
  have el: "evaluation_eligible r" using e by (auto simp: check_eligible_def r(2) split: if_splits)
  obtain s where s: "define_security_action_state (get loaded ''currentState'') = Inr s"
    using r(1) by (auto simp: evaluate_security_action_recovery_def action_fail_def evaluation_input_def split: if_splits)
  have "define_security_action_state (get (evaluation_input t loaded q time) ''currentState'') = Inr s"
    using s by (simp add: evaluation_input_def)
  from eligible_recovery_executes[OF r(1) el this] obtain a tr where
    a: "next_action_type r = Some a" "a \<in> {RestoreAccess, IssueReplacementCertificate}"
      "transition_security_action_state (action_input s (JStr (action_id a))) = Inr tr"
      "normalize_severe_evidence (get loaded ''activeSevereEvidence'') (evaluation_target r) (parse_time (JStr time)) = Inr []"
      "target_certificate s = CertificateRevoked \<longrightarrow> get q ''causeResolutionReference'' \<noteq> JNull"
    by (auto simp: evaluation_input_def)
  obtain digest ids where d: "eligibility_hash hash t loaded (evaluation_value r) (get q ''causeResolutionReference'') = Inr digest"
    and vals: "map (get req) authorization_fields = ids @ [get q ''targetSubjectId'', get q ''targetCertificateId'',
        JStr (action_id a), get loaded ''trustTransitionId'', get loaded ''stateVersion'', JStr (evaluation_reason r), JStr digest,
        get q ''stepUpProofIdHashSha256'', get q ''sessionIdHashSha256'', get q ''causeResolutionReference'', JStr time]"
    using req by (auto simp: authorization_request_def act_bind_Inr governed_recovery_service_def r(2) a(1) t authorization_fields_def
        intro!: that)
  obtain v0 result where ask: "env_query E authorize_recovery_sql (map (get req) authorization_fields) u = (v0, Inr result)"
    and auth: "\<exists>row. map_authorization (env_date E) row = Inr authorization"
    using sent by (auto simp: governed_recovery_service_def authorize_recovery_action_def act_bind_Inr split: if_splits)
  obtain fs where fs: "authorization = obj fs" using auth authorization_object by blast
  have n: "get x ''nextActionType'' = JStr (action_id a)" by (simp add: r(2) a(1))
  note conf = confirmed[OF out[unfolded fs] n]
  show ?thesis
    using trusted_admin[OF c] q t l r(1) a s d ask[unfolded vals] conf unfolding authorized_role_def by blast
qed

subsection \<open>Witness\<close>

text \<open>The recovery of a subject whose certificate was revoked, asked for by an administrator.\<close>

abbreviation gr_state :: action_state where
  "gr_state \<equiv> \<lparr> access = AccessSuspended, renewal = RenewalBlocked, target_certificate = CertificateRevoked,
      replacement = ReplacementRequired \<rparr>"

abbreviation gr_sources :: js where
  "gr_sources \<equiv> JArr [JStr ''src_00000000-0000-4000-8000-000000000001'', JStr ''src_00000000-0000-4000-8000-000000000002'']"

definition gr_row :: js where
  "gr_row = obj [(''tenant_id'', example_tenant), (''target_subject_id'', example_subject),
     (''target_certificate_id'', JStr ''crt_00000000-0000-4000-8000-000000000001''), (''state_version'', num 3),
     (''trust_transition_id'', JStr ''trn_00000000-0000-4000-8000-000000000001''), (''access_state'', JStr ''suspended''),
     (''renewal_state'', JStr ''blocked''), (''target_certificate_state'', JStr ''revoked''), (''replacement_state'', JStr ''required''),
     (''score'', num 80), (''band'', JStr ''high''), (''transition'', JStr ''recovered''),
     (''consecutive_qualifying_evaluations'', num 2), (''source_ids'', gr_sources),
     (''authorization_id'', JStr ''rca_00000000-0000-4000-8000-000000000001''), (''action_id'', JStr ''act_00000000-0000-4000-8000-000000000001''),
     (''action_type'', JStr ''issue-replacement-certificate''), (''status'', JStr ''pending''),
     (''authorized_at'', JDate (Some 0)), (''expires_at'', JDate (Some 300000))]"

definition gr_env :: "unit env" where
  "gr_env = \<lparr> env_query = (\<lambda>sql values. act_ret (obj [(''rows'', JArr [gr_row])])),
     env_id = act_ret (JStr ''00000000-0000-4000-8000-000000000001''), env_clock = act_ret (JDate (Some 0)), env_date = (\<lambda>v. None) \<rparr>"

definition gr_context :: tenant_context where
  "gr_context = \<lparr> ctx_tenant = str_of example_tenant, ctx_subject = str_of example_subject, ctx_roles = [''tenant-admin''],
     ctx_source = ''mtls-certificate'', ctx_authentication_id = ''session'', ctx_tenant_version = 1, ctx_subject_version = 1,
     ctx_membership_version = 1 \<rparr>"

definition gr_request :: js where
  "gr_request = obj [(''causeResolutionReference'', JStr ''case/17''), (''idempotencyKey'', JStr ''recovery-1''),
     (''requestId'', JStr ''req_00000000-0000-4000-8000-000000000001''), (''sessionIdHashSha256'', JStr (replicate 64 (CHR ''a''))),
     (''stepUpProofIdHashSha256'', JStr (replicate 64 (CHR ''a''))),
     (''targetCertificateId'', JStr ''crt_00000000-0000-4000-8000-000000000001''), (''targetSubjectId'', example_subject)]"

definition gr_evaluation :: recovery_evaluation where
  "gr_evaluation =
     \<lparr> evaluation_target = \<lparr> target_tenant = example_tenant, target_subject = example_subject \<rparr>, evaluation_eligible = True,
       next_action_type = Some IssueReplacementCertificate, evaluation_reason = ''REPLACEMENT_ELIGIBLE'',
       authorization_required = ''recovery-authorization'',
       evaluation_checkpoint = \<lparr> checkpoint_score = 80, checkpoint_band = High, checkpoint_transition = ''recovered'',
         checkpoint_evaluations = 2, checkpoint_sources = elements gr_sources \<rparr> \<rparr>"

lemma gr_evaluates: "evaluate_security_action_recovery example_recovery = Inr gr_evaluation"
proof -
  let ?t = "\<lparr> target_tenant = example_tenant, target_subject = example_subject \<rparr>"
  let ?c = "\<lparr> checkpoint_score = 80, checkpoint_band = High, checkpoint_transition = ''recovered'',
      checkpoint_evaluations = 2, checkpoint_sources = elements gr_sources \<rparr>"
  have target: "normalize_target (get example_recovery ''target'') = Inr ?t"
    by (simp add: normalize_target_def has_exact_keys_def example_uuids)
  have s: "define_security_action_state (get example_recovery ''currentState'') = Inr gr_state"
    by (simp add: define_state_value valid_action_state_def)
  have c: "normalize_recovery_checkpoint (get example_recovery ''checkpoint'') = Inr ?c"
    by (simp add: normalize_recovery_checkpoint_def has_exact_keys_def number_between_def is_finite_def one_of_def
        trust_transitions_def safe_integer_from_def is_safe_integer_def is_integer_rat_def max_safe_integer_def
        example_uuids set_of_values_def config_simps Let_def)
  have e: "normalize_severe_evidence (get example_recovery ''activeSevereEvidence'') ?t 0 = Inr []"
    by (simp add: normalize_severe_evidence_def set_of_values_def)
  have sel: "select_recovery gr_state ?c [] True = (Some IssueReplacementCertificate, ''REPLACEMENT_ELIGIBLE'')" by code_simp
  have keys: "has_exact_keys example_recovery [''target'', ''currentState'', ''checkpoint'', ''activeSevereEvidence'',
      ''evaluatedAt'', ''severeCauseResolved'']" by (simp add: has_exact_keys_def)
  have at_time: "get example_recovery ''evaluatedAt'' = JStr (time_to_iso 0)"
    "get example_recovery ''severeCauseResolved'' = JBool True" by simp_all
  show ?thesis
    unfolding evaluate_security_action_recovery_def at_time gr_evaluation_def
    by (simp only: keys target s c e sel and_then_Inr epoch_canonical is_bool.simps prod.case option.distinct
        simp_thms if_False)
qed

lemma gr_ids:
  "is_id ''req'' ''req_00000000-0000-4000-8000-000000000001''" "is_id ''crt'' ''crt_00000000-0000-4000-8000-000000000001''"
  "is_id ''trn'' ''trn_00000000-0000-4000-8000-000000000001''" "is_id ''rca'' ''rca_00000000-0000-4000-8000-000000000001''"
  "is_id ''act'' ''act_00000000-0000-4000-8000-000000000001''" "is_id ''dec'' ''dec_00000000-0000-4000-8000-000000000001''"
  "is_id ''cor'' ''cor_00000000-0000-4000-8000-000000000001''" "is_id ''tnt'' (str_of example_tenant)" "is_id ''sub'' (str_of example_subject)"
  "is_idempotency_key ''recovery-1''" "is_external_reference ''case/17''"
  by code_simp+

lemma gr_digest: "is_sha256 (replicate 64 (CHR ''a''))"
  by (simp add: is_sha256_def lower_hex_def list_all_iff)

lemma gr_admin: "trusted_admin_context [gr_context] (Resolved 0) = Inr gr_context"
  by (simp add: trusted_admin_context_def assert_no_tenant_switch_def trusted_context_def gr_context_def authorized_role_def)

lemma gr_normalized: "normalize_request gr_request = Inr gr_request"
  using gr_ids gr_digest
  by (simp add: normalize_request_def gr_request_def exact_object_def request_keys_def spread_def del: replicate.simps)

definition gr_loaded :: js where
  "gr_loaded = obj [(''tenantId'', example_tenant), (''targetSubjectId'', example_subject),
     (''targetCertificateId'', JStr ''crt_00000000-0000-4000-8000-000000000001''), (''stateVersion'', num 3),
     (''trustTransitionId'', JStr ''trn_00000000-0000-4000-8000-000000000001''),
     (''currentState'', action_state_value gr_state),
     (''checkpoint'', obj [(''score'', num 80), (''band'', JStr ''high''), (''transition'', JStr ''recovered''),
        (''consecutiveQualifyingEvaluations'', num 2), (''sourceIds'', gr_sources)]),
     (''activeSevereEvidence'', JArr [])]"

abbreviation gr_target :: recovery_target where
  "gr_target \<equiv> \<lparr> rt_tenant = str_of example_tenant, rt_subject = example_subject,
     rt_certificate = JStr ''crt_00000000-0000-4000-8000-000000000001'' \<rparr>"

lemma gr_load: "load_recovery_context gr_env (\<lambda>v. act_ret (JArr [])) (load_request gr_target time) () = ((), Inr gr_loaded)"
  using gr_ids
  by (simp add: load_recovery_context_def load_request_def gr_env_def one_row_def recovery_context_value_def gr_row_def
      coalesce_def js_number_def gr_loaded_def action_state_value_def)

lemma gr_validated: "validate_loaded_context gr_loaded gr_target = Inr gr_loaded"
  using gr_ids
  by (simp add: validate_loaded_context_def gr_loaded_def safe_integer_from_def is_safe_integer_def is_integer_rat_def
      max_safe_integer_def action_state_value_def)

lemma gr_input: "evaluation_input gr_target gr_loaded gr_request (time_to_iso 0) = example_recovery"
  by (simp add: evaluation_input_def gr_loaded_def gr_request_def)

lemma gr_eligible: "check_eligible (evaluation_value gr_evaluation) gr_loaded gr_request = Inr ()"
  by (simp add: check_eligible_def gr_evaluation_def one_of_def recovery_actions_def gr_loaded_def gr_request_def)

abbreviation gr_service :: "unit recovery_service" where
  "gr_service \<equiv> governed_recovery_service gr_env (\<lambda>v. act_ret (JArr [])) (\<lambda>text. replicate 64 (CHR ''a''))"

lemma gr_requested: "\<exists>req. authorization_request gr_service gr_target gr_request gr_loaded (evaluation_value gr_evaluation) time () = ((), Inr req)
    \<and> \<not> nullish req"
proof -
  have ids: "generated (gs_id gr_service) p () = ((), Inr (JStr (p @ ''_00000000-0000-4000-8000-000000000001'')))"
    if "is_id p (p @ ''_00000000-0000-4000-8000-000000000001'')" for p
    using that by (simp add: generated_def governed_recovery_service_def gr_env_def)
  have h: "eligibility_hash (gs_hash gr_service) t gr_loaded x cause = Inr (replicate 64 (CHR ''a''))" for t x cause
    by (simp add: eligibility_hash_def governed_recovery_service_def gr_loaded_def del: replicate.simps)
  show ?thesis unfolding authorization_request_def using gr_ids
    by (simp add: ids h del: replicate.simps)
qed

lemma gr_confirmed: "\<not> nullish req \<Longrightarrow> \<exists>v. authorize_recovery_action gr_env req () = ((), Inr v)
    \<and> (\<exists>out. confirm_authorization gr_context (evaluation_value gr_evaluation) v = Inr out)"
  using gr_ids
  by (simp add: authorize_recovery_action_def gr_env_def one_row_def map_authorization_def authorization_value_def gr_row_def
      rec_iso_def iso_def one_of_def recovery_actions_def Let_def confirm_authorization_def gr_context_def gr_evaluation_def)

lemma recovery_is_justified_witness:
  "\<exists>out. authorize_recovery gr_service [gr_context] (Resolved 0) gr_request () = ((), Inr out)
     \<and> get out ''tenantId'' = JStr (str_of example_tenant)"
proof -
  obtain req v out where req: "authorization_request gr_service gr_target gr_request gr_loaded (evaluation_value gr_evaluation) (time_to_iso 0) () = ((), Inr req)"
    "authorize_recovery_action gr_env req () = ((), Inr v)" "confirm_authorization gr_context (evaluation_value gr_evaluation) v = Inr out"
    using gr_requested gr_confirmed by blast
  have s: "gs_load gr_service = load_recovery_context gr_env (\<lambda>v. act_ret (JArr []))" "gs_authorize gr_service = authorize_recovery_action gr_env"
    "gs_evaluate gr_service = (\<lambda>v. and_then (evaluate_security_action_recovery v) (\<lambda>r. Inr (evaluation_value r)))"
    "gs_clock gr_service () = ((), Inr (JDate (Some 0)))" "rec_iso (gs_date gr_service) (JDate (Some 0)) = Inr (time_to_iso 0)"
    by (simp_all add: governed_recovery_service_def gr_env_def rec_iso_def iso_def)
  have t: "\<lparr> rt_tenant = ctx_tenant gr_context, rt_subject = get gr_request ''targetSubjectId'',
      rt_certificate = get gr_request ''targetCertificateId'' \<rparr> = gr_target"
    by (simp add: gr_context_def gr_request_def)
  have run: "authorize_recovery gr_service [gr_context] (Resolved 0) gr_request () = ((), Inr out)"
    unfolding authorize_recovery_def
    by (simp only: act_simps act_bind_step gr_admin gr_normalized s Let_def t gr_load gr_validated gr_input gr_evaluates
        and_then_Inr gr_eligible req)
  then show ?thesis using recovery_is_justified[OF run] gr_admin trusted_admin(1)[OF gr_admin]
    by (auto simp: gr_context_def)
qed

end
