(* ===== verification/RoleTransactions.thy ===== *)
theory RoleTransactions
  imports JsEffects
begin

text \<open>
  The transaction bracket of the trust service's repositories: connect, \<open>BEGIN\<close>, \<open>SET LOCAL ROLE\<close>, the
  operation over the query function of the client, \<open>COMMIT\<close>; any failure, of the bracket's own
  statements too, sends \<open>ROLLBACK\<close>, whose failure is ignored, and passes on; the client is released. The
  signal goes to the driver with every query.
\<close>

section \<open>The bracket\<close>

definition set_role :: "string \<Rightarrow> string" where
  "set_role role = ''SET LOCAL ROLE '' @ role"

lemma set_role_statement [simp]: "set_role role \<noteq> ''BEGIN''" "set_role role \<noteq> ''COMMIT''" "set_role role \<noteq> ''ROLLBACK''"
  by (simp_all add: set_role_def)

type_synonym 'w query = "string \<Rightarrow> js list \<Rightarrow> ('w, js) act"

text \<open>\<open>finish\<close> is what still happens inside the \<open>try\<close> after \<open>COMMIT\<close>.\<close>

definition in_role_with ::
  "'w db \<Rightarrow> string \<Rightarrow> ('w query \<Rightarrow> ('w, 'b) act) \<Rightarrow> ('b \<Rightarrow> 'a res) \<Rightarrow> ('w, 'a) act" where
  "in_role_with db role operation finish =
     act_bind (db_connect db) (\<lambda>_ w.
       case act_bind (db_query db ''BEGIN'' []) (\<lambda>_.
            act_bind (db_query db (set_role role) []) (\<lambda>_.
            act_bind (operation (db_query db)) (\<lambda>r.
            act_bind (db_query db ''COMMIT'' []) (\<lambda>_. act_res (finish r))))) w of
         (w', Inr x) \<Rightarrow> (db_release db w', Inr x)
       | (w', Inl e) \<Rightarrow> (db_release db (fst (db_query db ''ROLLBACK'' [] w')), Inl e))"

definition in_role :: "'w db \<Rightarrow> string \<Rightarrow> ('w query \<Rightarrow> ('w, 'a) act) \<Rightarrow> ('w, 'a) act" where
  "in_role db role operation = in_role_with db role operation Inr"

text \<open>\<open>result.rows[0]\<close>\<close>

fun first_of :: "js \<Rightarrow> js" where
  "first_of (JArr vs) = (case vs of [] \<Rightarrow> JUndef | v # _ \<Rightarrow> v)"
| "first_of (JStr s) = (case s of [] \<Rightarrow> JUndef | c # _ \<Rightarrow> JStr [c])"
| "first_of v = get v ''0''"

definition first_result :: "js \<Rightarrow> js res" where
  "first_result result =
     and_then (read result ''rows'') (\<lambda>rows. if nullish rows then Inl TypeErrorThrown else Inr (first_of rows))"

text \<open>\<open>new Date(value).toISOString()\<close>\<close>

definition iso_string :: "(js \<Rightarrow> int option) \<Rightarrow> js \<Rightarrow> js res" where
  "iso_string pd v = and_then (iso pd RangeErrorThrown v) (\<lambda>t. Inr (JStr t))"

section \<open>Discipline\<close>

text \<open>A successful transaction ran the operation between its statements, and its last word was an accepted
  \<open>COMMIT\<close>.\<close>

lemma in_role_with_success:
  assumes "in_role_with db role operation finish w = (w', Inr x)"
  obtains u1 u2 y r where "operation (db_query db) u1 = (u2, Inr y)" "finish y = Inr x"
    "\<exists>u3. db_query db ''COMMIT'' [] u2 = (u3, Inr r) \<and> w' = db_release db u3"
proof -
  let ?body = "act_bind (db_query db ''BEGIN'' []) (\<lambda>_. act_bind (db_query db (set_role role) []) (\<lambda>_.
      act_bind (operation (db_query db)) (\<lambda>r. act_bind (db_query db ''COMMIT'' []) (\<lambda>_. act_res (finish r)))))"
  obtain v where "(case ?body v of (w', Inr x) \<Rightarrow> (db_release db w', Inr x)
      | (w', Inl e) \<Rightarrow> (db_release db (fst (db_query db ''ROLLBACK'' [] w')), Inl e)) = (w', Inr x)"
    using assms unfolding in_role_with_def act_bind_Inr by blast
  then obtain u where "?body v = (u, Inr x)" "w' = db_release db u" by (auto split: prod.splits sum.splits)
  then show ?thesis using that by (auto simp: act_bind_Inr)
qed

lemma in_role_success:
  assumes "in_role db role operation w = (w', Inr x)"
  obtains u1 u2 r where "operation (db_query db) u1 = (u2, Inr x)"
    "\<exists>u3. db_query db ''COMMIT'' [] u2 = (u3, Inr r) \<and> w' = db_release db u3"
  using assms unfolding in_role_def by (rule in_role_with_success) auto

text \<open>The same, statement by statement: connect, \<open>BEGIN\<close>, the role, the operation as a step \<open>P\<close> between two
  states, \<open>COMMIT\<close>, release, each in the state the one before left, and nothing else.\<close>

definition committed_in_role :: "'w db \<Rightarrow> string \<Rightarrow> ('w \<Rightarrow> 'w \<Rightarrow> bool) \<Rightarrow> 'w \<Rightarrow> 'w \<Rightarrow> bool" where
  "committed_in_role db role P w w' \<longleftrightarrow>
     (\<exists>w1 w2 w3 w4 w5 a b c. db_connect db w = (w1, Inr ()) \<and> db_query db ''BEGIN'' [] w1 = (w2, Inr a)
        \<and> db_query db (set_role role) [] w2 = (w3, Inr b) \<and> P w3 w4
        \<and> db_query db ''COMMIT'' [] w4 = (w5, Inr c) \<and> w' = db_release db w5)"

lemma in_role_committed:
  assumes "in_role db role operation w = (w', Inr x)"
  shows "committed_in_role db role (\<lambda>u v. operation (db_query db) u = (v, Inr x)) w w'"
proof -
  let ?body = "act_bind (db_query db ''BEGIN'' []) (\<lambda>_. act_bind (db_query db (set_role role) []) (\<lambda>_.
      act_bind (operation (db_query db)) (\<lambda>r. act_bind (db_query db ''COMMIT'' []) (\<lambda>_. act_res (Inr r)))))"
  obtain v where v: "db_connect db w = (v, Inr ())" "(case ?body v of (w', Inr x) \<Rightarrow> (db_release db w', Inr x)
      | (w', Inl e) \<Rightarrow> (db_release db (fst (db_query db ''ROLLBACK'' [] w')), Inl e)) = (w', Inr x)"
    using assms unfolding in_role_def in_role_with_def act_bind_Inr by auto
  then obtain u where u: "?body v = (u, Inr x)" "w' = db_release db u" by (auto split: prod.splits sum.splits)
  obtain w2 a w3 b w4 w5 c where "db_query db ''BEGIN'' [] v = (w2, Inr a)" "db_query db (set_role role) [] w2 = (w3, Inr b)"
    "operation (db_query db) w3 = (w4, Inr x)" "db_query db ''COMMIT'' [] w4 = (w5, Inr c)" "w5 = u"
    using u(1) by (auto simp: act_bind_Inr)
  then show ?thesis using v(1) u(2) unfolding committed_in_role_def by blast
qed

lemma committed_in_role_mono:
  "committed_in_role db role P w w' \<Longrightarrow> (\<And>u v. P u v \<Longrightarrow> Q u v) \<Longrightarrow> committed_in_role db role Q w w'"
  unfolding committed_in_role_def by blast

lemma committed_in_role_holds: "committed_in_role db role P w w' \<Longrightarrow> \<exists>u v. P u v"
  unfolding committed_in_role_def by blast

text \<open>An operation that only adds statements of its own to the log.\<close>

definition sends_own :: "(('w \<times> db_event list) query \<Rightarrow> ('w \<times> db_event list, 'a) act) \<Rightarrow> 'w db \<Rightarrow> bool" where
  "sends_own operation db \<longleftrightarrow>
     (\<forall>w l. \<exists>w' es r. operation (db_query (traced db)) (w, l) = ((w', l @ es), r) \<and> bracket_free es)"

lemma sends_own_res [intro]: "sends_own (\<lambda>q. act_res r) db"
  unfolding sends_own_def by (intro allI exI[where x = "[]"]) auto

lemma bracket_free_append: "bracket_free (a @ b) \<longleftrightarrow> bracket_free a \<and> bracket_free b"
  by (simp add: bracket_free_def)

lemma sends_own_query [intro]:
  assumes "sql \<notin> {''BEGIN'', ''COMMIT'', ''ROLLBACK''}" "\<And>v. sends_own (k v) db"
  shows "sends_own (\<lambda>q. act_bind (q sql vs) (\<lambda>v. k v q)) db"
  unfolding sends_own_def
proof (intro allI)
  fix w l
  obtain u r where q: "db_query db sql vs w = (u, r)" by fastforce
  show "\<exists>w' es y. act_bind (db_query (traced db) sql vs) (\<lambda>v. k v (db_query (traced db))) (w, l) = ((w', l @ es), y) \<and> bracket_free es"
  proof (cases r)
    case (Inl e)
    then show ?thesis using assms(1) q by (intro exI[of _ u] exI[of _ "[Stmt sql]"]) (auto simp: act_bind_def traced_query)
  next
    case (Inr v)
    obtain w' es y where k: "k v (db_query (traced db)) (u, l @ [Stmt sql]) = ((w', (l @ [Stmt sql]) @ es), y)" "bracket_free es"
      using assms(2)[of v] unfolding sends_own_def by meson
    then show ?thesis using assms(1) q Inr
      by (intro exI[of _ w'] exI[of _ "Stmt sql # es"] exI[of _ y]) (auto simp: act_bind_def traced_query)
  qed
qed

lemma in_role_with_log:
  assumes "sends_own operation db"
  shows "case in_role_with (traced db) role operation finish (w, []) of ((w', l), r) \<Rightarrow> transaction_log l (isl r)"
proof -
  let ?T = "traced db"
  let ?role = "set_role role"
  obtain w1 c where c: "db_connect db w = (w1, c)" by fastforce
  show ?thesis
  proof (cases c)
    case (Inl e)
    then show ?thesis using c by (simp add: in_role_with_def act_bind_def traced_def transaction_log_def)
  next
    case (Inr u)
    have con: "db_connect ?T (w, []) = ((w1, [Connected]), Inr u)" using c Inr by (simp add: traced_def)
    have ended: "transaction_log ([Connected, Stmt ''BEGIN''] @ es @ [Stmt ''ROLLBACK'', Released]) True" if "bracket_free es" for es
      using that unfolding transaction_log_def by auto
    have done_log: "transaction_log ([Connected, Stmt ''BEGIN''] @ es @ [Stmt ''COMMIT'', Released]) False" if "bracket_free es" for es
      using that unfolding transaction_log_def by auto
    have lost: "transaction_log ([Connected, Stmt ''BEGIN''] @ es @ [Stmt ''COMMIT'', Stmt ''ROLLBACK'', Released]) True" if "bracket_free es" for es
      using that unfolding transaction_log_def by auto
    obtain w2 b where b: "db_query db ''BEGIN'' [] w1 = (w2, b)" by fastforce
    show ?thesis
    proof (cases b)
      case (Inl e)
      then show ?thesis using con b ended[of "[]"] by (simp add: in_role_with_def act_bind_def traced_query)
    next
      case (Inr v)
      obtain w3 s where s: "db_query db ?role [] w2 = (w3, s)" by fastforce
      show ?thesis
      proof (cases s)
        case (Inl e)
        then show ?thesis using con b Inr s ended[of "[Stmt ?role]"] by (simp add: in_role_with_def act_bind_def traced_query)
      next
        case s_ok: (Inr v')
        obtain w4 es r where o: "operation (db_query ?T) (w3, [Connected, Stmt ''BEGIN'', Stmt ?role])
            = ((w4, [Connected, Stmt ''BEGIN'', Stmt ?role] @ es), r)" "bracket_free es"
          using assms unfolding sends_own_def by meson
        have bf: "bracket_free (Stmt ?role # es)" using o(2) by simp
        show ?thesis
        proof (cases r)
          case (Inl e)
          then show ?thesis using con b Inr s s_ok o ended[OF bf] by (simp add: in_role_with_def act_bind_def traced_query)
        next
          case r_ok: (Inr x)
          obtain w5 k where k: "db_query db ''COMMIT'' [] w4 = (w5, k)" by fastforce
          show ?thesis
            using con b Inr s s_ok o r_ok k done_log[OF bf] lost[OF bf]
            by (cases k; cases "finish x") (simp_all add: in_role_with_def act_bind_def traced_query)
        qed
      qed
    qed
  qed
qed

lemma in_role_log:
  "sends_own operation db \<Longrightarrow> case in_role (traced db) role operation (w, []) of ((w', l), r) \<Rightarrow> transaction_log l (isl r)"
  unfolding in_role_def by (rule in_role_with_log)

end
