(* ===== verification/TrustStorage.thy ===== *)
theory TrustStorage
  imports RoleTransactions TrustModel
begin

text \<open>
  \<open>services/trust/src/index.mjs\<close>: the repository of subject trust states. A write carries the five
  normalised components with one evidence reference each and the version it builds on; the database
  confirms the next version. The pool and the parsing of dates are parameters. SQL templates that span
  lines are written on one.
\<close>

section \<open>Writes\<close>

definition storage_fail :: "string \<Rightarrow> 'a res" where
  "storage_fail r = throw TrustStateStorageError r"

definition store_state_sql :: string where
  "store_state_sql =
     ''SELECT * FROM trust.store_subject_trust_state($1, $2, $3, $4, $5, $6, $7, $8, $9, $10, $11, $12::jsonb)''"

definition current_state_sql :: string where
  "current_state_sql = ''SELECT * FROM trust.get_current_subject_trust_state($1, $2)''"

definition version_state_sql :: string where
  "version_state_sql = ''SELECT * FROM trust.get_subject_trust_state_version($1, $2, $3)''"

definition write_keys :: "string list" where
  "write_keys = [''tenantId'', ''subjectId'', ''expectedPreviousVersion'', ''modelVersion'', ''configurationVersion'',
     ''components'', ''observedAt'', ''evidenceReferences'']"

definition normalize_reference :: "js \<Rightarrow> js res" where
  "normalize_reference v =
     (if \<not> has_exact_keys v [''evidenceId'', ''sourceEventId'', ''evidenceType'']
         \<or> \<not> re_test_or_empty (is_id ''evd'') (get v ''evidenceId'')
         \<or> \<not> re_test_or_empty (is_id ''evt'') (get v ''sourceEventId'')
         \<or> \<not> one_of trust_component_ids (get v ''evidenceType'')
      then storage_fail ''EVIDENCE_REFERENCE_INVALID''
      else Inr (obj [(''evidenceId'', get v ''evidenceId''), (''sourceEventId'', get v ''sourceEventId''),
                     (''evidenceType'', get v ''evidenceType'')]))"

definition all_different :: "string \<Rightarrow> js list \<Rightarrow> nat \<Rightarrow> bool" where
  "all_different k refs n \<longleftrightarrow> length (set_of_values (map (\<lambda>r. get r k) refs)) = n"

text \<open>\<open>byType.get(componentId)\<close>: the last reference of the type.\<close>

definition by_type :: "js list \<Rightarrow> string \<Rightarrow> js" where
  "by_type refs k = (case find (\<lambda>r. get r ''evidenceType'' = JStr k) (rev refs) of None \<Rightarrow> JUndef | Some r \<Rightarrow> r)"

definition normalize_reference_set :: "js \<Rightarrow> string \<Rightarrow> js list res" where
  "normalize_reference_set v reason =
     (if \<not> is_array v \<or> length (elements v) \<noteq> length trust_component_ids then storage_fail reason
      else and_then (map_res normalize_reference (elements v)) (\<lambda>refs.
        if \<not> all_different ''evidenceType'' refs (length trust_component_ids)
           \<or> \<not> all_different ''evidenceId'' refs (length refs) \<or> \<not> all_different ''sourceEventId'' refs (length refs)
        then storage_fail reason else Inr (map (by_type refs) trust_component_ids)))"

record trust_write =
  tw_tenant :: js
  tw_subject :: js
  tw_previous :: js
  tw_model :: js
  tw_configuration :: js
  tw_components :: component_table
  tw_observed :: js
  tw_references :: "js list"

definition normalize_trust_state_write :: "js \<Rightarrow> trust_write res" where
  "normalize_trust_state_write v =
     (if \<not> has_exact_keys v write_keys
         \<or> \<not> re_test_or_empty (is_id ''tnt'') (get v ''tenantId'') \<or> \<not> re_test_or_empty (is_id ''sub'') (get v ''subjectId'')
         \<or> \<not> safe_integer_from 0 (get v ''expectedPreviousVersion'')
         \<or> \<not> re_test_or_empty is_model_version (get v ''modelVersion'')
         \<or> \<not> safe_integer_from 1 (get v ''configurationVersion'')
         \<or> \<not> canonical_utc (get v ''observedAt'')
         \<or> \<not> is_array (get v ''evidenceReferences'')
         \<or> length (elements (get v ''evidenceReferences'')) \<noteq> length trust_component_ids
      then storage_fail ''TRUST_STATE_WRITE_INVALID''
      else and_then (catch (define_normalized_components (get v ''components''))
             (\<lambda>e. if error_is TrustModelDefinitionError e then storage_fail ''TRUST_COMPONENTS_INVALID'' else Inl e)) (\<lambda>components.
           and_then (normalize_reference_set (get v ''evidenceReferences'') ''EVIDENCE_REFERENCE_SET_INVALID'') (\<lambda>refs.
             Inr \<lparr> tw_tenant = get v ''tenantId'', tw_subject = get v ''subjectId'',
                   tw_previous = get v ''expectedPreviousVersion'', tw_model = get v ''modelVersion'',
                   tw_configuration = get v ''configurationVersion'', tw_components = components,
                   tw_observed = get v ''observedAt'', tw_references = refs \<rparr>)))"

definition normalize_read_identity :: "js \<Rightarrow> js res" where
  "normalize_read_identity arg =
     (let v = (if arg = JUndef then obj [] else arg) in
      if nullish v then Inl TypeErrorThrown
      else if \<not> re_test_or_empty (is_id ''tnt'') (get v ''tenantId'') \<or> \<not> re_test_or_empty (is_id ''sub'') (get v ''subjectId'')
      then storage_fail ''TRUST_STATE_READ_INVALID''
      else if get v ''updateVersion'' \<noteq> JUndef \<and> \<not> safe_integer_from 1 (get v ''updateVersion'')
      then storage_fail ''TRUST_STATE_READ_INVALID''
      else Inr (obj [(''tenantId'', get v ''tenantId''), (''subjectId'', get v ''subjectId''),
                     (''updateVersion'', get v ''updateVersion'')]))"

section \<open>Rows\<close>

text \<open>\<open>JSON.parse\<close> of a text column; a driver that parses \<open>jsonb\<close> hands over the value itself.\<close>

definition normalize_evidence_references :: "js \<Rightarrow> js list res" where
  "normalize_evidence_references v =
     (case (case v of JStr s \<Rightarrow> parse_json s | _ \<Rightarrow> Some v) of
        None \<Rightarrow> storage_fail ''TRUST_STATE_RESULT_INVALID''
      | Some parsed \<Rightarrow> catch (normalize_reference_set parsed ''TRUST_STATE_RESULT_INVALID'')
          (\<lambda>e. if error_is TrustStateStorageError e then storage_fail ''TRUST_STATE_RESULT_INVALID'' else Inl e))"

definition component_columns :: "js \<Rightarrow> js" where
  "component_columns row =
     obj (map (\<lambda>k. (k, js_number (get row (k @ ''_component'')))) trust_component_ids)"

record trust_state =
  ts_tenant :: js
  ts_subject :: js
  ts_version :: js
  ts_model :: js
  ts_configuration :: js
  ts_components :: component_table
  ts_observed :: js
  ts_recorded :: js
  ts_references :: "js list"

definition map_trust_state :: "(js \<Rightarrow> int option) \<Rightarrow> js \<Rightarrow> trust_state option res" where
  "map_trust_state pd row =
     (if \<not> truthy row then Inr None
      else and_then (define_normalized_components (component_columns row)) (\<lambda>components.
           and_then (iso_string pd (get row ''observed_at'')) (\<lambda>observed.
           and_then (iso_string pd (get row ''recorded_at'')) (\<lambda>recorded.
           and_then (normalize_evidence_references (get row ''evidence_references'')) (\<lambda>refs.
             if \<not> re_test_or_empty (is_id ''tnt'') (get row ''tenant_id'') \<or> \<not> re_test_or_empty (is_id ''sub'') (get row ''subject_id'')
                \<or> \<not> safe_integer_from 1 (js_number (get row ''update_version''))
                \<or> \<not> re_test_or_empty is_model_version (get row ''model_version'')
                \<or> \<not> safe_integer_from 1 (js_number (get row ''configuration_version''))
                \<or> length refs \<noteq> length trust_component_ids
             then storage_fail ''TRUST_STATE_RESULT_INVALID''
             else Inr (Some \<lparr> ts_tenant = get row ''tenant_id'', ts_subject = get row ''subject_id'',
                    ts_version = js_number (get row ''update_version''), ts_model = get row ''model_version'',
                    ts_configuration = js_number (get row ''configuration_version''), ts_components = components,
                    ts_observed = observed, ts_recorded = recorded, ts_references = refs \<rparr>))))))"

record write_confirmation =
  wc_tenant :: js
  wc_subject :: js
  wc_version :: js
  wc_model :: js
  wc_configuration :: js
  wc_observed :: js
  wc_recorded :: js

definition map_write_confirmation :: "(js \<Rightarrow> int option) \<Rightarrow> js \<Rightarrow> trust_write \<Rightarrow> write_confirmation res" where
  "map_write_confirmation pd row write =
     (if \<not> truthy row then storage_fail ''TRUST_STATE_WRITE_UNCONFIRMED''
      else and_then (iso_string pd (get row ''observed_at'')) (\<lambda>observed.
           and_then (iso_string pd (get row ''recorded_at'')) (\<lambda>recorded.
             if \<not> strict_eq (get row ''tenant_id'') (tw_tenant write) \<or> \<not> strict_eq (get row ''subject_id'') (tw_subject write)
                \<or> \<not> strict_eq (js_number (get row ''update_version'')) (num (rnd64 (num_of (tw_previous write) + 1)))
                \<or> \<not> strict_eq (get row ''model_version'') (tw_model write)
                \<or> \<not> strict_eq (js_number (get row ''configuration_version'')) (tw_configuration write)
                \<or> \<not> strict_eq observed (tw_observed write)
             then storage_fail ''TRUST_STATE_WRITE_UNCONFIRMED''
             else Inr \<lparr> wc_tenant = get row ''tenant_id'', wc_subject = get row ''subject_id'',
                    wc_version = js_number (get row ''update_version''), wc_model = get row ''model_version'',
                    wc_configuration = js_number (get row ''configuration_version''),
                    wc_observed = observed, wc_recorded = recorded \<rparr>)))"

section \<open>Repository\<close>

definition trust_engine :: string where
  "trust_engine = ''tenant_trust_trust_engine''"

definition store_parameters :: "trust_write \<Rightarrow> js list" where
  "store_parameters write =
     [tw_tenant write, tw_subject write, tw_previous write, tw_model write, tw_configuration write]
     @ map (\<lambda>k. get (table_value (tw_components write)) k) trust_component_ids
     @ [tw_observed write, JStr (the (json_stringify (JArr (tw_references write))))]"

definition store_trust_state :: "'w db \<Rightarrow> (js \<Rightarrow> int option) \<Rightarrow> js \<Rightarrow> ('w, write_confirmation) act" where
  "store_trust_state db pd v =
     act_bind (act_res (normalize_trust_state_write v)) (\<lambda>write.
       in_role db trust_engine (\<lambda>query.
         act_bind (query store_state_sql (store_parameters write)) (\<lambda>result.
           act_res (and_then (first_result result) (\<lambda>row. map_write_confirmation pd row write)))))"

definition get_current_trust_state :: "'w db \<Rightarrow> (js \<Rightarrow> int option) \<Rightarrow> js \<Rightarrow> ('w, trust_state option) act" where
  "get_current_trust_state db pd v =
     act_bind (act_res (normalize_read_identity v)) (\<lambda>t.
       in_role db trust_engine (\<lambda>query.
         act_bind (query current_state_sql [get t ''tenantId'', get t ''subjectId'']) (\<lambda>result.
           act_res (and_then (first_result result) (map_trust_state pd)))))"

definition get_trust_state_version :: "'w db \<Rightarrow> (js \<Rightarrow> int option) \<Rightarrow> js \<Rightarrow> ('w, trust_state option) act" where
  "get_trust_state_version db pd v =
     act_bind (act_res (normalize_read_identity v)) (\<lambda>t.
       if get t ''updateVersion'' = JUndef then act_fail (Thrown TrustStateStorageError ''TRUST_STATE_READ_INVALID'')
       else in_role db trust_engine (\<lambda>query.
         act_bind (query version_state_sql [get t ''tenantId'', get t ''subjectId'', get t ''updateVersion'']) (\<lambda>result.
           act_res (and_then (first_result result) (map_trust_state pd)))))"

section \<open>Properties\<close>

lemma strict_eq_same: "strict_eq v w \<Longrightarrow> v = w"
  by (cases v; cases w) auto

lemma set_of_values_all:
  assumes "length (set_of_values (map f xs)) = length xs" "list_all is_string (map f xs)"
  shows "distinct (map f xs)"
proof -
  note s = set_of_values_strings[OF assms(2)]
  have "card (set (map f xs)) = length (map f xs)"
    using s distinct_card[OF s(2)] assms(1) by simp
  then show ?thesis by (rule card_distinct)
qed

lemma reference_type:
  assumes "normalize_reference v = Inr r"
  shows "\<exists>k \<in> set trust_component_ids. get r ''evidenceType'' = JStr k"
  using assms by (auto simp: normalize_reference_def storage_fail_def one_of_def split: if_splits js.splits)

text \<open>An accepted set has one reference for each component, in the order of the components.\<close>

lemma reference_set_types:
  assumes "normalize_reference_set v reason = Inr refs"
  shows "map (\<lambda>r. get r ''evidenceType'') refs = map JStr trust_component_ids"
proof -
  obtain rs where rs: "map_res normalize_reference (elements v) = Inr rs" "length rs = length trust_component_ids"
    "all_different ''evidenceType'' rs (length trust_component_ids)" "refs = map (by_type rs) trust_component_ids"
    using assms map_res_length by (fastforce simp: normalize_reference_set_def storage_fail_def split: if_splits)
  have t: "\<exists>k \<in> set trust_component_ids. get r ''evidenceType'' = JStr k" if "r \<in> set rs" for r
    using map_res_set[OF rs(1) that] reference_type by blast
  let ?T = "map (\<lambda>r. get r ''evidenceType'') rs"
  have str: "list_all is_string ?T" using t by (fastforce simp: list_all_iff)
  have "distinct ?T" using rs(2,3) by (intro set_of_values_all[OF _ str]) (simp add: all_different_def)
  moreover have "set ?T \<subseteq> set (map JStr trust_component_ids)" using t by auto
  moreover have "distinct (map JStr trust_component_ids)" by (simp add: distinct_map inj_on_def)
  ultimately have all: "set ?T = set (map JStr trust_component_ids)"
    using rs(2) by (intro length_eq_subset_distinct) simp_all
  have "get (by_type rs k) ''evidenceType'' = JStr k" if k: "k \<in> set trust_component_ids" for k
  proof -
    have "JStr k \<in> set ?T" unfolding all using k by simp
    then obtain r where "r \<in> set rs" "get r ''evidenceType'' = JStr k" by auto
    then have "find (\<lambda>r. get r ''evidenceType'' = JStr k) (rev rs) \<noteq> None" by (auto simp: find_None_iff)
    then obtain x where x: "find (\<lambda>r. get r ''evidenceType'' = JStr k) (rev rs) = Some x" by blast
    then have "get x ''evidenceType'' = JStr k" by (auto simp: find_Some_iff)
    then show ?thesis by (simp add: by_type_def x)
  qed
  then show ?thesis by (simp add: rs(4))
qed

lemma write_valid:
  assumes "normalize_trust_state_write v = Inr wr"
  shows "valid_components (tw_components wr)"
    "map (\<lambda>r. get r ''evidenceType'') (tw_references wr) = map JStr trust_component_ids"
    "tw_tenant wr = get v ''tenantId''" "tw_subject wr = get v ''subjectId''"
    "tw_previous wr = get v ''expectedPreviousVersion''" "safe_integer_from 0 (tw_previous wr)"
    "tw_observed wr = get v ''observedAt''" "canonical_utc (tw_observed wr)"
    "tw_model wr = get v ''modelVersion''" "tw_configuration wr = get v ''configurationVersion''"
  using assms components_valid reference_set_types
  by (auto simp: normalize_trust_state_write_def storage_fail_def catch_def split: if_splits sum.splits)

lemma next_version_exact:
  assumes "safe_integer_from 0 v"
  shows "rnd64 (num_of v + 1) = num_of v + 1"
proof -
  obtain n :: int where n: "v = num (of_int n)" "0 \<le> n" "of_int n \<le> max_safe_integer"
    using assms by (cases v) (auto simp: safe_integer_from_def is_safe_integer_def is_integer_rat_def split: js_num.splits)
  have "of_int n \<le> (of_int (2 ^ 53 - 1) :: rat)" using n(3) by (simp add: max_safe_integer_def)
  then have "n \<le> 2 ^ 53 - 1" by (simp only: of_int_le_iff)
  then have "\<bar>n + 1\<bar> < 2 ^ 53 \<or> n + 1 = 2 ^ 53" using n(2) by linarith
  then have "rnd64 (of_int (n + 1)) = of_int (n + 1)"
  proof
    assume "\<bar>n + 1\<bar> < 2 ^ 53"
    then show ?thesis by (rule rnd64_int)
  next
    assume e: "n + 1 = 2 ^ 53"
    have "rnd64 (of_int 1 * 2 powi 53) = of_int 1 * 2 powi 53" by (rule rnd64_exact[OF refl]) simp_all
    then show ?thesis by (simp add: e power_int_def)
  qed
  then show ?thesis using n(1) by simp
qed

text \<open>C28: a reported write is confirmed and durable: the write had five components in range and one evidence
  reference for each in the order of the components; one transaction under the role of the trust engine
  sent exactly the statement that carries these, and was committed before the connection was released;
  the database answered with the same identity, model version, configuration version and observation
  time and the version after the expected one.\<close>

theorem stored_trust_state_is_confirmed:
  assumes "store_trust_state db pd v w = (w', Inr c)"
  shows "\<exists>wr result.
    normalize_trust_state_write v = Inr wr \<and> valid_components (tw_components wr)
    \<and> map (\<lambda>r. get r ''evidenceType'') (tw_references wr) = map JStr trust_component_ids
    \<and> committed_in_role db trust_engine (\<lambda>u u'. db_query db store_state_sql (store_parameters wr) u = (u', Inr result)) w w'
    \<and> wc_tenant c = get v ''tenantId'' \<and> wc_subject c = get v ''subjectId'' \<and> wc_observed c = get v ''observedAt''
    \<and> wc_model c = get v ''modelVersion'' \<and> wc_configuration c = get v ''configurationVersion''
    \<and> wc_version c = num (num_of (get v ''expectedPreviousVersion'') + 1)"
proof -
  obtain wr where wr: "normalize_trust_state_write v = Inr wr"
    and run: "in_role db trust_engine (\<lambda>query. act_bind (query store_state_sql (store_parameters wr)) (\<lambda>result.
        act_res (and_then (first_result result) (\<lambda>row. map_write_confirmation pd row wr)))) w = (w', Inr c)"
    using assms by (auto simp: store_trust_state_def act_bind_Inr)
  have steps: "committed_in_role db trust_engine (\<lambda>u u'. \<exists>result row. db_query db store_state_sql (store_parameters wr) u = (u', Inr result)
      \<and> map_write_confirmation pd row wr = Inr c) w w'"
    by (rule committed_in_role_mono[OF in_role_committed[OF run]]) (auto simp: act_bind_Inr)
  then obtain result row where row: "map_write_confirmation pd row wr = Inr c"
    and asked: "committed_in_role db trust_engine (\<lambda>u u'. db_query db store_state_sql (store_parameters wr) u = (u', Inr result)) w w'"
    unfolding committed_in_role_def by blast
  note valid = write_valid[OF wr]
  have "wc_tenant c = tw_tenant wr \<and> wc_subject c = tw_subject wr \<and> wc_observed c = tw_observed wr
    \<and> wc_model c = tw_model wr \<and> wc_configuration c = tw_configuration wr
    \<and> wc_version c = num (rnd64 (num_of (tw_previous wr) + 1))"
    using row strict_eq_same by (auto simp: map_write_confirmation_def storage_fail_def split: if_splits)
  then show ?thesis using wr valid asked next_version_exact[OF valid(6)] by auto
qed

subsection \<open>Witness\<close>

definition ts_value :: js where
  "ts_value = obj [(''tenantId'', JStr ''tnt_00000000-0000-4000-8000-000000000001''), (''subjectId'', JStr ''sub_00000000-0000-4000-8000-000000000001''),
     (''expectedPreviousVersion'', num 0), (''modelVersion'', JStr ''1.0.0''), (''configurationVersion'', num 1),
     (''components'', table_value (map (\<lambda>k. (k, 50)) trust_component_ids)), (''observedAt'', JStr (time_to_iso 0)),
     (''evidenceReferences'', JArr (map (\<lambda>(k, e, s). obj [(''evidenceId'', JStr e), (''sourceEventId'', JStr s), (''evidenceType'', JStr k)])
       [(''compliance'', ''evd_00000000-0000-4000-8000-000000000001'', ''evt_00000000-0000-4000-8000-000000000001''),
        (''identity'', ''evd_00000000-0000-4000-8000-000000000002'', ''evt_00000000-0000-4000-8000-000000000002''),
        (''device'', ''evd_00000000-0000-4000-8000-000000000003'', ''evt_00000000-0000-4000-8000-000000000003''),
        (''behaviour'', ''evd_00000000-0000-4000-8000-000000000004'', ''evt_00000000-0000-4000-8000-000000000004''),
        (''certificate'', ''evd_00000000-0000-4000-8000-000000000005'', ''evt_00000000-0000-4000-8000-000000000005'')]))]"

definition ts_db :: "unit db" where
  "ts_db = \<lparr> db_connect = act_ret (), db_query = (\<lambda>sql vs. act_ret (obj [(''rows'', JArr [obj
       [(''tenant_id'', JStr ''tnt_00000000-0000-4000-8000-000000000001''), (''subject_id'', JStr ''sub_00000000-0000-4000-8000-000000000001''),
        (''update_version'', num 1), (''model_version'', JStr ''1.0.0''), (''configuration_version'', num 1),
        (''observed_at'', JDate (Some 0)), (''recorded_at'', JDate (Some 5))]])])),
     db_release = (\<lambda>w. w), db_aborted = (\<lambda>w. False) \<rparr>"

lemma ts_ids:
  "is_id ''tnt'' ''tnt_00000000-0000-4000-8000-000000000001''" "is_id ''sub'' ''sub_00000000-0000-4000-8000-000000000001''"
  "is_id ''evd'' ''evd_00000000-0000-4000-8000-000000000001''"
  "is_id ''evd'' ''evd_00000000-0000-4000-8000-000000000002''"
  "is_id ''evd'' ''evd_00000000-0000-4000-8000-000000000003''"
  "is_id ''evd'' ''evd_00000000-0000-4000-8000-000000000004''"
  "is_id ''evd'' ''evd_00000000-0000-4000-8000-000000000005''"
  "is_id ''evt'' ''evt_00000000-0000-4000-8000-000000000001''"
  "is_id ''evt'' ''evt_00000000-0000-4000-8000-000000000002''"
  "is_id ''evt'' ''evt_00000000-0000-4000-8000-000000000003''"
  "is_id ''evt'' ''evt_00000000-0000-4000-8000-000000000004''"
  "is_id ''evt'' ''evt_00000000-0000-4000-8000-000000000005''"
  "is_model_version ''1.0.0''"
  by code_simp+

lemma ts_normalized: "\<exists>wr. normalize_trust_state_write ts_value = Inr wr"
proof -
  have c: "define_normalized_components (get ts_value ''components'') = Inr (map (\<lambda>k. (k, 50)) trust_component_ids)"
    using components_roundtrip[of "map (\<lambda>k. (k, 50)) trust_component_ids"]
    by (simp add: ts_value_def valid_components_def list_all_iff comp_def)
  have r: "\<exists>refs. normalize_reference_set (get ts_value ''evidenceReferences'') reason = Inr refs" for reason
    using ts_ids
    by (simp add: ts_value_def normalize_reference_set_def normalize_reference_def has_exact_keys_def trust_component_ids_def
        one_of_def all_different_def set_of_values_def)
  have k: "has_exact_keys ts_value write_keys" "canonical_utc (get ts_value ''observedAt'')"
    using canonical_utc_iff valid_time_0 by (auto simp: ts_value_def write_keys_def has_exact_keys_def)
  have n: "is_array (get ts_value ''evidenceReferences'')" "length (elements (get ts_value ''evidenceReferences'')) = length trust_component_ids"
    by (simp_all add: ts_value_def trust_component_ids_def)
  have i: "re_test_or_empty (is_id ''tnt'') (get ts_value ''tenantId'')" "re_test_or_empty (is_id ''sub'') (get ts_value ''subjectId'')"
    "safe_integer_from 0 (get ts_value ''expectedPreviousVersion'')" "re_test_or_empty is_model_version (get ts_value ''modelVersion'')"
    "safe_integer_from 1 (get ts_value ''configurationVersion'')"
    using ts_ids by (simp_all add: ts_value_def safe_integer_from_def is_safe_integer_def is_integer_rat_def max_safe_integer_def)
  obtain refs where "normalize_reference_set (get ts_value ''evidenceReferences'') ''EVIDENCE_REFERENCE_SET_INVALID'' = Inr refs"
    using r by blast
  then show ?thesis unfolding normalize_trust_state_write_def by (simp add: k n i c)
qed

lemma stored_trust_state_is_confirmed_witness:
  "\<exists>c. store_trust_state ts_db (\<lambda>v. None) ts_value () = ((), Inr c) \<and> wc_version c = num 1
     \<and> wc_model c = JStr ''1.0.0'' \<and> wc_configuration c = num 1"
proof -
  obtain wr where wr: "normalize_trust_state_write ts_value = Inr wr" using ts_normalized by blast
  have t: "tw_tenant wr = JStr ''tnt_00000000-0000-4000-8000-000000000001''" "tw_subject wr = JStr ''sub_00000000-0000-4000-8000-000000000001''"
    "tw_previous wr = num 0" "tw_observed wr = JStr (time_to_iso 0)" "tw_model wr = JStr ''1.0.0''" "tw_configuration wr = num 1"
    using write_valid[OF wr] by (simp_all add: ts_value_def)
  have one: "rnd64 1 = 1" using rnd64_int[of 1] by simp
  have "\<exists>c. store_trust_state ts_db (\<lambda>v. None) ts_value () = ((), Inr c)"
    by (simp add: store_trust_state_def wr in_role_def in_role_with_def act_bind_def ts_db_def first_result_def map_write_confirmation_def
        iso_string_def iso_def t js_number_def one)
  then obtain c where c: "store_trust_state ts_db (\<lambda>v. None) ts_value () = ((), Inr c)" by blast
  from stored_trust_state_is_confirmed[OF c] have "wc_version c = num 1 \<and> wc_model c = JStr ''1.0.0'' \<and> wc_configuration c = num 1"
    by (auto simp: ts_value_def)
  then show ?thesis using c by blast
qed

end
