(* ===== verification/ScoreLookup.thy ===== *)
theory ScoreLookup
  imports RoleTransactions TenantContext
begin

text \<open>
  \<open>services/trust/src/score-lookup.mjs\<close>: the current trust score of the acting subject. The database says
  whether the score is fresh, stale or missing; the module checks that what it says is consistent before
  a policy sees it. The pool and the parsing of dates are parameters; \<open>structuredClone\<close> copies a value.
\<close>

section \<open>Values\<close>

definition lookup_fail :: "string \<Rightarrow> 'a res" where
  "lookup_fail r = throw TrustScoreLookupError r"

abbreviation invalid_lookup :: "'a res" where
  "invalid_lookup \<equiv> lookup_fail ''TRUST_LOOKUP_RESULT_INVALID''"

definition freshness_states :: "string list" where
  "freshness_states = [''fresh'', ''stale'', ''missing'']"

definition lookup_bands :: "string list" where
  "lookup_bands = [''low'', ''medium'', ''high'']"

definition lookup_sql :: string where
  "lookup_sql = ''SELECT * FROM trust.get_current_actor_trust_score()''"

definition actor_context_sql :: string where
  "actor_context_sql = ''SELECT identity.set_tenant_actor_context($1::identity.tenant_id, $2::identity.subject_id)''"

definition require_lookup_context :: "context_store \<Rightarrow> context_arg \<Rightarrow> tenant_context res" where
  "require_lookup_context st a =
     catch (assert_no_tenant_switch st a (JArr []))
       (\<lambda>e. if error_is TenantContextError e then lookup_fail ''TRUST_CONTEXT_INVALID'' else Inl e)"

definition finite_number :: "js \<Rightarrow> js" where
  "finite_number v = (if is_finite (js_number v) then js_number v else JNull)"

definition positive_integer :: "js \<Rightarrow> js" where
  "positive_integer v = (if safe_integer_from 1 (js_number v) then js_number v else JNull)"

definition canonical_time :: "js \<Rightarrow> js" where
  "canonical_time v = (if canonical_utc v then v else JNull)"

definition row_time :: "(js \<Rightarrow> int option) \<Rightarrow> js \<Rightarrow> js" where
  "row_time pd v =
     (if nullish v then JNull
      else case (case v of JDate d \<Rightarrow> d | _ \<Rightarrow> pd v) of Some t \<Rightarrow> JStr (time_to_iso t) | None \<Rightarrow> v)"

definition null_or :: "(js \<Rightarrow> js) \<Rightarrow> js \<Rightarrow> js" where
  "null_or f v = (if v = JNull then JNull else f v)"

definition normalize_database_row :: "(js \<Rightarrow> int option) \<Rightarrow> js \<Rightarrow> js res" where
  "normalize_database_row pd row =
     (if \<not> truthy row \<or> \<not> is_object row \<or> is_array row then invalid_lookup
      else Inr (obj
        [(''tenantId'', get row ''tenant_id''), (''subjectId'', get row ''subject_id''),
         (''state'', get row ''freshness_state''), (''usableForPolicy'', get row ''usable_for_policy''),
         (''requiredOutcome'', get row ''required_outcome''), (''reasonCode'', get row ''reason_code''),
         (''policyScore'', null_or finite_number (get row ''policy_score'')), (''policyBand'', get row ''policy_band''),
         (''lastKnownScore'', null_or finite_number (get row ''last_known_score'')),
         (''lastKnownBand'', get row ''last_known_band''),
         (''ageSeconds'', null_or finite_number (get row ''age_seconds'')),
         (''staleAfterSeconds'', null_or positive_integer (get row ''stale_after_seconds'')),
         (''transitionId'', get row ''transition_id''),
         (''updateVersion'', null_or positive_integer (get row ''update_version'')),
         (''modelVersion'', get row ''model_version''),
         (''configurationVersion'', null_or positive_integer (get row ''configuration_version'')),
         (''observedAt'', row_time pd (get row ''observed_at'')), (''evaluatedAt'', row_time pd (get row ''evaluated_at'')),
         (''recordedAt'', row_time pd (get row ''recorded_at'')),
         (''explanationHashSha256'', get row ''explanation_hash_sha256'')]))"

section \<open>Validation\<close>

definition common_fields :: "string list" where
  "common_fields =
     [''policyScore'', ''policyBand'', ''lastKnownScore'', ''lastKnownBand'', ''ageSeconds'', ''staleAfterSeconds'',
      ''transitionId'', ''updateVersion'', ''modelVersion'', ''configurationVersion'', ''observedAt'', ''evaluatedAt'',
      ''recordedAt'', ''explanationHashSha256'']"

definition missing_consistent :: "js \<Rightarrow> bool" where
  "missing_consistent v \<longleftrightarrow>
     \<not> truthy (get v ''usableForPolicy'') \<and> get v ''requiredOutcome'' = JStr ''DENY''
     \<and> get v ''reasonCode'' = JStr ''TRUST_STATE_MISSING'' \<and> list_all (\<lambda>k. get v k = JNull) common_fields"

definition known_consistent :: "js \<Rightarrow> bool" where
  "known_consistent v \<longleftrightarrow>
     (let score = finite_number (get v ''lastKnownScore''); age = finite_number (get v ''ageSeconds'') in
      score \<noteq> JNull \<and> 0 \<le> num_of score \<and> num_of score \<le> 100 \<and> one_of lookup_bands (get v ''lastKnownBand'')
      \<and> age \<noteq> JNull \<and> 0 \<le> num_of age \<and> positive_integer (get v ''staleAfterSeconds'') \<noteq> JNull
      \<and> re_test_or_empty (is_id ''trn'') (get v ''transitionId'')
      \<and> positive_integer (get v ''updateVersion'') \<noteq> JNull
      \<and> re_test_or_empty is_model_version (get v ''modelVersion'')
      \<and> positive_integer (get v ''configurationVersion'') \<noteq> JNull
      \<and> canonical_time (get v ''observedAt'') \<noteq> JNull \<and> canonical_time (get v ''evaluatedAt'') \<noteq> JNull
      \<and> canonical_time (get v ''recordedAt'') \<noteq> JNull
      \<and> re_test_or_empty is_sha256 (get v ''explanationHashSha256'')
      \<and> parse_time (get v ''observedAt'') \<le> parse_time (get v ''evaluatedAt'')
      \<and> parse_time (get v ''evaluatedAt'') \<le> parse_time (get v ''recordedAt'') + 2000)"

text \<open>\<open>ageSeconds > value.staleAfterSeconds\<close> on values that passed \<open>known_consistent\<close>.\<close>

definition is_aged :: "js \<Rightarrow> bool" where
  "is_aged v \<longleftrightarrow> num_of (js_number (get v ''staleAfterSeconds'')) < num_of (finite_number (get v ''ageSeconds''))"

definition fresh_consistent :: "js \<Rightarrow> bool" where
  "fresh_consistent v \<longleftrightarrow>
     truthy (get v ''usableForPolicy'') \<and> get v ''requiredOutcome'' = JNull \<and> get v ''reasonCode'' = JNull
     \<and> strict_eq (finite_number (get v ''policyScore'')) (finite_number (get v ''lastKnownScore''))
     \<and> strict_eq (get v ''policyBand'') (get v ''lastKnownBand'') \<and> \<not> is_aged v"

definition stale_consistent :: "js \<Rightarrow> bool" where
  "stale_consistent v \<longleftrightarrow>
     \<not> truthy (get v ''usableForPolicy'') \<and> get v ''requiredOutcome'' = JStr ''DENY''
     \<and> get v ''reasonCode'' = JStr ''TRUST_STATE_STALE'' \<and> get v ''policyScore'' = JNull \<and> get v ''policyBand'' = JNull
     \<and> is_aged v"

definition validate_lookup_result :: "js \<Rightarrow> tenant_context \<Rightarrow> js res" where
  "validate_lookup_result v c =
     (if \<not> truthy v \<or> \<not> is_object v \<or> is_array v
         \<or> \<not> strict_eq (get v ''tenantId'') (JStr (ctx_tenant c)) \<or> \<not> strict_eq (get v ''subjectId'') (JStr (ctx_subject c))
         \<or> \<not> re_test_or_empty (is_id ''tnt'') (get v ''tenantId'') \<or> \<not> re_test_or_empty (is_id ''sub'') (get v ''subjectId'')
         \<or> \<not> one_of freshness_states (get v ''state'') \<or> \<not> is_bool (get v ''usableForPolicy'')
      then invalid_lookup
      else if get v ''state'' = JStr ''missing''
      then (if missing_consistent v then Inr v else invalid_lookup)
      else if \<not> known_consistent v then invalid_lookup
      else if get v ''state'' = JStr ''fresh''
      then (if fresh_consistent v then Inr v else invalid_lookup)
      else (if stale_consistent v then Inr v else invalid_lookup))"

section \<open>Repository and service\<close>

definition lookup_operation :: "(js \<Rightarrow> int option) \<Rightarrow> tenant_context \<Rightarrow> 'w query \<Rightarrow> ('w, js) act" where
  "lookup_operation pd c query =
     act_bind (query actor_context_sql [JStr (ctx_tenant c), JStr (ctx_subject c)]) (\<lambda>_.
     act_bind (query lookup_sql []) (\<lambda>result.
       act_res (and_then (one_row (Thrown TrustScoreLookupError ''TRUST_LOOKUP_RESULT_INVALID'') result)
         (normalize_database_row pd))))"

definition lookup_score_row :: "context_store \<Rightarrow> 'w db \<Rightarrow> (js \<Rightarrow> int option) \<Rightarrow> context_arg \<Rightarrow> ('w, js) act" where
  "lookup_score_row st db pd a =
     act_bind (act_res (require_lookup_context st a)) (\<lambda>c.
       in_role_with db ''tenant_trust_app'' (lookup_operation pd c) (\<lambda>v. validate_lookup_result v c))"

text \<open>The service over any repository; the context handed on is the trusted one.\<close>

definition lookup_trust_score :: "context_store \<Rightarrow> (context_arg \<Rightarrow> ('w, js) act) \<Rightarrow> context_arg \<Rightarrow> ('w, js) act" where
  "lookup_trust_score st repository a =
     act_bind (act_res (require_lookup_context st a)) (\<lambda>c.
     act_bind (repository a) (\<lambda>result. act_res (validate_lookup_result result c)))"

section \<open>Properties\<close>

lemma lookup_context:
  assumes "require_lookup_context st a = Inr c"
  shows "trusted_context st a = Inr c"
  using assms by (auto simp: require_lookup_context_def lookup_fail_def catch_def assert_no_tenant_switch_def split: sum.splits if_splits)

lemma positive_integer_some: "positive_integer v \<noteq> JNull \<Longrightarrow> \<exists>x. js_number v = num x \<and> 1 \<le> x"
  by (auto simp: positive_integer_def safe_integer_from_def is_safe_integer_def js_number_def split: if_splits js_num.splits)

lemma finite_number_some: "finite_number v \<noteq> JNull \<Longrightarrow> \<exists>x. finite_number v = num x \<and> js_number v = num x"
  by (auto simp: finite_number_def is_finite_def js_number_def split: if_splits js_num.splits)

lemma known_numbers:
  assumes "known_consistent v"
  obtains x age limit where "finite_number (get v ''lastKnownScore'') = num x" "js_number (get v ''lastKnownScore'') = num x" "0 \<le> x" "x \<le> 100"
    "finite_number (get v ''ageSeconds'') = num age" "js_number (get v ''ageSeconds'') = num age" "0 \<le> age"
    "js_number (get v ''staleAfterSeconds'') = num limit" "1 \<le> limit" "one_of lookup_bands (get v ''lastKnownBand'')"
proof -
  have n: "finite_number (get v ''lastKnownScore'') \<noteq> JNull" "finite_number (get v ''ageSeconds'') \<noteq> JNull"
    "positive_integer (get v ''staleAfterSeconds'') \<noteq> JNull" "one_of lookup_bands (get v ''lastKnownBand'')"
    "0 \<le> num_of (finite_number (get v ''lastKnownScore''))" "num_of (finite_number (get v ''lastKnownScore'')) \<le> 100"
    "0 \<le> num_of (finite_number (get v ''ageSeconds''))"
    using assms unfolding known_consistent_def Let_def by blast+
  obtain x age limit where x: "finite_number (get v ''lastKnownScore'') = num x" "js_number (get v ''lastKnownScore'') = num x"
      "finite_number (get v ''ageSeconds'') = num age" "js_number (get v ''ageSeconds'') = num age"
      "js_number (get v ''staleAfterSeconds'') = num limit" "1 \<le> limit"
    using finite_number_some[OF n(1)] finite_number_some[OF n(2)] positive_integer_some[OF n(3)] by blast
  show ?thesis using that[OF x(1,2) _ _ x(3,4) _ x(5,6) n(4)] n(5-7) by (simp add: x(1,3))
qed

text \<open>C29: what a policy learns is safe: the answer is for the acting subject of a resolved context; it is usable
  exactly when it is fresh; a usable answer carries a score between 0 and 100, the last known one with
  its band, whose age is within the staleness limit; any other answer demands DENY and carries no
  policy score, and a stale one is past the limit.\<close>

theorem looked_up_score_is_safe:
  assumes "lookup_trust_score st repository a w = (w', Inr r)"
  shows "\<exists>c. trusted_context st a = Inr c
    \<and> get r ''tenantId'' = JStr (ctx_tenant c) \<and> get r ''subjectId'' = JStr (ctx_subject c)
    \<and> get r ''usableForPolicy'' = JBool (get r ''state'' = JStr ''fresh'')
    \<and> (if get r ''state'' = JStr ''fresh''
       then get r ''requiredOutcome'' = JNull
         \<and> (\<exists>x age limit. js_number (get r ''policyScore'') = num x \<and> js_number (get r ''lastKnownScore'') = num x
              \<and> 0 \<le> x \<and> x \<le> 100 \<and> js_number (get r ''ageSeconds'') = num age \<and> 0 \<le> age
              \<and> js_number (get r ''staleAfterSeconds'') = num limit \<and> age \<le> limit)
         \<and> get r ''policyBand'' = get r ''lastKnownBand'' \<and> one_of lookup_bands (get r ''policyBand'')
       else get r ''requiredOutcome'' = JStr ''DENY'' \<and> get r ''policyScore'' = JNull \<and> get r ''policyBand'' = JNull
         \<and> (get r ''state'' = JStr ''missing'' \<or> is_aged r))"
proof -
  obtain c v where c: "require_lookup_context st a = Inr c" "validate_lookup_result v c = Inr r"
    using assms by (auto simp: lookup_trust_score_def act_bind_Inr)
  have r: "v = r" and same: "strict_eq (get r ''tenantId'') (JStr (ctx_tenant c))" "strict_eq (get r ''subjectId'') (JStr (ctx_subject c))"
    and b: "is_bool (get r ''usableForPolicy'')" and st: "one_of freshness_states (get r ''state'')"
    and m: "get r ''state'' = JStr ''missing'' \<longrightarrow> missing_consistent r"
    and k: "get r ''state'' \<noteq> JStr ''missing'' \<longrightarrow> known_consistent r"
    and f: "get r ''state'' = JStr ''fresh'' \<longrightarrow> fresh_consistent r"
    and s: "get r ''state'' \<noteq> JStr ''missing'' \<longrightarrow> get r ''state'' \<noteq> JStr ''fresh'' \<longrightarrow> stale_consistent r"
    using c(2) by (auto simp: validate_lookup_result_def lookup_fail_def split: if_splits)
  have ids: "get r ''tenantId'' = JStr (ctx_tenant c)" "get r ''subjectId'' = JStr (ctx_subject c)" using same by simp_all
  obtain u where u: "get r ''usableForPolicy'' = JBool u" using b by (cases "get r ''usableForPolicy''") auto
  show ?thesis
  proof (cases "get r ''state'' = JStr ''fresh''")
    case True
    then have f': "fresh_consistent r" and k': "known_consistent r" using f k by simp_all
    from k' obtain x age limit where x: "finite_number (get r ''lastKnownScore'') = num x" "js_number (get r ''lastKnownScore'') = num x"
      "0 \<le> x" "x \<le> 100" "finite_number (get r ''ageSeconds'') = num age" "js_number (get r ''ageSeconds'') = num age" "0 \<le> age"
      "js_number (get r ''staleAfterSeconds'') = num limit" "1 \<le> limit" "one_of lookup_bands (get r ''lastKnownBand'')"
      by (rule known_numbers)
    have "strict_eq (finite_number (get r ''policyScore'')) (num x)" using f' x(1) by (simp add: fresh_consistent_def)
    then have p: "finite_number (get r ''policyScore'') = num x" by (cases "finite_number (get r ''policyScore'')") auto
    then have p': "js_number (get r ''policyScore'') = num x" by (auto simp: finite_number_def split: if_splits)
    have band: "get r ''policyBand'' = get r ''lastKnownBand''"
      using f' x(10) by (cases "get r ''lastKnownBand''") (auto simp: fresh_consistent_def one_of_def)
    have "age \<le> limit" using f' by (simp add: fresh_consistent_def is_aged_def x)
    then show ?thesis using lookup_context[OF c(1)] ids u f' True x p' band by (auto simp: fresh_consistent_def)
  next
    case False
    have "\<not> truthy (get r ''usableForPolicy'') \<and> get r ''requiredOutcome'' = JStr ''DENY'' \<and> get r ''policyScore'' = JNull
        \<and> get r ''policyBand'' = JNull \<and> (get r ''state'' = JStr ''missing'' \<or> is_aged r)"
      using m s False by (auto simp: missing_consistent_def stale_consistent_def common_fields_def)
    then show ?thesis using lookup_context[OF c(1)] ids u False by auto
  qed
qed

subsection \<open>Witness\<close>

definition lk_row :: js where
  "lk_row = obj
     [(''tenant_id'', JStr ''tnt_00000000-0000-4000-8000-000000000001''), (''subject_id'', JStr ''sub_00000000-0000-4000-8000-000000000001''),
      (''freshness_state'', JStr ''fresh''), (''usable_for_policy'', JBool True), (''required_outcome'', JNull), (''reason_code'', JNull),
      (''policy_score'', num 80), (''policy_band'', JStr ''high''), (''last_known_score'', num 80), (''last_known_band'', JStr ''high''),
      (''age_seconds'', num 5), (''stale_after_seconds'', num 60), (''transition_id'', JStr ''trn_00000000-0000-4000-8000-000000000001''),
      (''update_version'', num 1), (''model_version'', JStr ''1.0.0''), (''configuration_version'', num 1),
      (''observed_at'', JDate (Some 0)), (''evaluated_at'', JDate (Some 0)), (''recorded_at'', JDate (Some 0)),
      (''explanation_hash_sha256'', JStr (replicate 64 (CHR ''a'')))]"

definition lk_db :: "unit db" where
  "lk_db = \<lparr> db_connect = act_ret (), db_query = (\<lambda>sql vs. act_ret (obj [(''rows'', JArr [lk_row])])),
     db_release = (\<lambda>w. w), db_aborted = (\<lambda>w. False) \<rparr>"

definition lk_context :: tenant_context where
  "lk_context = \<lparr> ctx_tenant = ''tnt_00000000-0000-4000-8000-000000000001'', ctx_subject = ''sub_00000000-0000-4000-8000-000000000001'',
     ctx_roles = [''tenant-member''], ctx_source = ''mtls-certificate'', ctx_authentication_id = ''session'', ctx_tenant_version = 1,
     ctx_subject_version = 1, ctx_membership_version = 1 \<rparr>"

definition lk_value :: js where
  "lk_value = obj
     [(''tenantId'', JStr ''tnt_00000000-0000-4000-8000-000000000001''), (''subjectId'', JStr ''sub_00000000-0000-4000-8000-000000000001''),
      (''state'', JStr ''fresh''), (''usableForPolicy'', JBool True), (''requiredOutcome'', JNull), (''reasonCode'', JNull),
      (''policyScore'', num 80), (''policyBand'', JStr ''high''), (''lastKnownScore'', num 80), (''lastKnownBand'', JStr ''high''),
      (''ageSeconds'', num 5), (''staleAfterSeconds'', num 60), (''transitionId'', JStr ''trn_00000000-0000-4000-8000-000000000001''),
      (''updateVersion'', num 1), (''modelVersion'', JStr ''1.0.0''), (''configurationVersion'', num 1),
      (''observedAt'', JStr (time_to_iso 0)), (''evaluatedAt'', JStr (time_to_iso 0)), (''recordedAt'', JStr (time_to_iso 0)),
      (''explanationHashSha256'', JStr (replicate 64 (CHR ''a'')))]"

lemma lk_ids:
  "is_id ''tnt'' ''tnt_00000000-0000-4000-8000-000000000001''" "is_id ''sub'' ''sub_00000000-0000-4000-8000-000000000001''"
  "is_id ''trn'' ''trn_00000000-0000-4000-8000-000000000001''" "is_model_version ''1.0.0''"
  by code_simp+

lemma lk_normalized: "normalize_database_row (\<lambda>v. None) lk_row = Inr lk_value"
  by (simp add: normalize_database_row_def lk_row_def lk_value_def null_or_def finite_number_def positive_integer_def js_number_def
      is_finite_def safe_integer_from_def is_safe_integer_def is_integer_rat_def max_safe_integer_def row_time_def nullish_def)

lemma lk_known: "known_consistent lk_value" "fresh_consistent lk_value"
proof -
  have h: "is_sha256 (replicate 64 (CHR ''a''))" by (simp add: is_sha256_def lower_hex_def list_all_iff)
  have t: "canonical_utc (JStr (time_to_iso 0))" using canonical_utc_iff valid_time_0 by blast
  note numbers = finite_number_def positive_integer_def js_number_def is_finite_def safe_integer_from_def is_safe_integer_def
    is_integer_rat_def max_safe_integer_def
  show "known_consistent lk_value" using lk_ids h t
    by (simp add: known_consistent_def lk_value_def numbers one_of_def lookup_bands_def canonical_time_def Let_def del: replicate.simps)
  show "fresh_consistent lk_value"
    by (simp add: fresh_consistent_def lk_value_def numbers is_aged_def del: replicate.simps)
qed

lemma lk_validated: "validate_lookup_result lk_value lk_context = Inr lk_value"
  using lk_known lk_ids
  by (simp add: validate_lookup_result_def lk_context_def one_of_def freshness_states_def) (simp add: lk_value_def)

lemma looked_up_score_is_safe_witness:
  "\<exists>r. lookup_trust_score [lk_context] (lookup_score_row [lk_context] lk_db (\<lambda>v. None)) (Resolved 0) () = ((), Inr r)
     \<and> get r ''usableForPolicy'' = JBool True"
proof -
  have c: "require_lookup_context [lk_context] (Resolved 0) = Inr lk_context"
    by (simp add: require_lookup_context_def assert_no_tenant_switch_def trusted_context_def)
  have run: "lookup_trust_score [lk_context] (lookup_score_row [lk_context] lk_db (\<lambda>v. None)) (Resolved 0) () = ((), Inr lk_value)"
    by (simp add: lookup_trust_score_def lookup_score_row_def c in_role_with_def act_bind_def lookup_operation_def lk_db_def
        one_row_def lk_normalized lk_validated)
  from looked_up_score_is_safe[OF run] run show ?thesis by (auto simp: lk_value_def)
qed

end
