(* ===== verification/ConfigurationManagement.thy ===== *)
theory ConfigurationManagement
  imports JsEffects TenantContext WeightedScore TemporalSmoothing
begin

text \<open>
  \<open>services/trust/src/configuration-management.mjs\<close>: tenant administrators draft, activate and roll back
  the trust configuration and read its history. Every answer of the repository is validated against the
  request. The query function, the clock and the parsing of dates are parameters; \<open>structuredClone\<close>
  copies a value.
\<close>

section \<open>Requests\<close>

definition cfg_deny :: "string \<Rightarrow> 'a res" where
  "cfg_deny r = throw TrustConfigurationManagementError r"

definition configuration_states :: "string list" where
  "configuration_states = [''draft'', ''active'', ''superseded'']"

definition configuration_event_types :: "string list" where
  "configuration_event_types = [''draft_created'', ''activated'', ''rollback_activated'']"

definition draft_fields :: "string list" where
  "draft_fields = [''initialScore'', ''maximumSourceInfluence'', ''modelVersion'', ''reasonCode'', ''smoothingAlpha'',
     ''staleAfterSeconds'', ''weights'']"

definition activate_fields :: "string list" where
  "activate_fields = [''configurationVersion'', ''reasonCode'']"

definition rollback_fields :: "string list" where
  "rollback_fields = [''reasonCode'', ''targetConfigurationVersion'']"

definition create_draft_sql :: string where
  "create_draft_sql =
     ''SELECT * FROM trust.create_trust_configuration_draft($1, $2, $3, $4, $5, $6, $7, $8, $9, $10, $11, $12)''"

definition activate_sql :: string where
  "activate_sql = ''SELECT * FROM trust.activate_trust_configuration($1, $2, $3)''"

definition rollback_sql :: string where
  "rollback_sql = ''SELECT * FROM trust.rollback_trust_configuration($1, $2, $3)''"

definition history_sql :: string where
  "history_sql = ''SELECT * FROM trust.list_trust_configuration_history()''"

definition require_exact_fields :: "js \<Rightarrow> string list \<Rightarrow> string \<Rightarrow> js res" where
  "require_exact_fields v ks r =
     (if \<not> is_record v then cfg_deny r else if sort (keys v) \<noteq> ks then cfg_deny r else Inr v)"

definition require_admin_context :: "context_store \<Rightarrow> context_arg \<Rightarrow> tenant_context res" where
  "require_admin_context st a =
     catch (and_then (assert_no_tenant_switch st a (JArr [])) (\<lambda>c.
         if ''tenant-admin'' \<notin> set (ctx_roles c) then cfg_deny ''TENANT_ADMIN_REQUIRED'' else Inr c))
       (\<lambda>e. if error_is TenantContextError e then cfg_deny ''TENANT_CONTEXT_INVALID'' else Inl e)"

definition require_reason_code :: "js \<Rightarrow> js res" where
  "require_reason_code v = (if \<not> re_test_or_empty is_reason_code v then cfg_deny ''REASON_CODE_INVALID'' else Inr v)"

definition require_positive_version :: "js \<Rightarrow> string \<Rightarrow> js res" where
  "require_positive_version v r = (if \<not> safe_integer_from 1 v then cfg_deny r else Inr v)"

definition require_utc_now :: "('w, js) act \<Rightarrow> ('w, js) act" where
  "require_utc_now clock =
     act_bind clock (\<lambda>v. act_res (case v of JDate (Some t) \<Rightarrow> Inr (JStr (time_to_iso t)) | _ \<Rightarrow> cfg_deny ''CONFIGURATION_TIME_INVALID''))"

record draft_request =
  dr_model :: string
  dr_initial :: rat
  dr_alpha :: rat
  dr_influence :: rat
  dr_stale :: rat
  dr_weights :: component_table
  dr_reason :: js

definition normalize_draft_request :: "js \<Rightarrow> draft_request res" where
  "normalize_draft_request v =
     and_then (require_exact_fields v draft_fields ''DRAFT_REQUEST_INVALID'') (\<lambda>input.
       if \<not> is_finite (get input ''maximumSourceInfluence'') \<or> num_of (get input ''maximumSourceInfluence'') \<le> 0
          \<or> 1 < num_of (get input ''maximumSourceInfluence'')
       then cfg_deny ''CONFIGURATION_INVALID''
       else catch
         (and_then (define_trust_model_configuration
            (obj [(''modelVersion'', get input ''modelVersion''), (''weights'', get input ''weights'')])) (\<lambda>model.
          and_then (define_temporal_trust_configuration
            (obj [(''initialScore'', get input ''initialScore''), (''smoothingAlpha'', get input ''smoothingAlpha''),
                  (''staleAfterSeconds'', get input ''staleAfterSeconds'')])) (\<lambda>temporal.
          and_then (require_reason_code (get input ''reasonCode'')) (\<lambda>reason.
            Inr \<lparr> dr_model = model_version model, dr_initial = initial_score temporal, dr_alpha = smoothing_alpha temporal,
                  dr_influence = num_of (get input ''maximumSourceInfluence''), dr_stale = stale_after_seconds temporal,
                  dr_weights = model_weights model, dr_reason = reason \<rparr>))))
         (\<lambda>e. if error_is TrustModelDefinitionError e \<or> error_is TrustSmoothingError e
              then cfg_deny ''CONFIGURATION_INVALID'' else Inl e))"

section \<open>Answers\<close>

definition utc_or_null :: "js \<Rightarrow> bool" where
  "utc_or_null v \<longleftrightarrow> v = JNull \<or> canonical_utc v"

text \<open>\<open>typeof v === "number"\<close> and neither \<open>v <= 0\<close> nor \<open>v > 1\<close>: \<open>NaN\<close> passes.\<close>

definition share_or_nan :: "js \<Rightarrow> bool" where
  "share_or_nan v \<longleftrightarrow> (case v of JNum NaN \<Rightarrow> True | JNum (Fin x) \<Rightarrow> 0 < x \<and> x \<le> 1 | _ \<Rightarrow> False)"

definition validate_configuration :: "js \<Rightarrow> string \<Rightarrow> js res" where
  "validate_configuration v tenant =
     (if \<not> truthy v \<or> \<not> strict_eq (get v ''tenantId'') (JStr tenant)
         \<or> \<not> re_test_or_empty (is_id ''tnt'') (get v ''tenantId'')
         \<or> \<not> re_test_or_empty (is_id ''sub'') (get v ''createdBySubjectId'')
         \<or> \<not> one_of configuration_states (get v ''state'')
         \<or> \<not> safe_integer_from 1 (get v ''configurationVersion'')
         \<or> \<not> is_string (get v ''modelVersion'')
         \<or> \<not> number_between 0 100 (get v ''initialScore'')
         \<or> \<not> share_or_nan (get v ''smoothingAlpha'') \<or> \<not> share_or_nan (get v ''maximumSourceInfluence'')
         \<or> \<not> safe_integer_from 1 (get v ''staleAfterSeconds'') \<or> \<not> truthy (get v ''weights'')
         \<or> \<not> utc_or_null (get v ''activatedAt'') \<or> \<not> utc_or_null (get v ''supersededAt'')
         \<or> \<not> utc_or_null (get v ''createdAt'') \<or> \<not> utc_or_null (get v ''updatedAt'')
      then cfg_deny ''CONFIGURATION_RESULT_INVALID''
      else and_then (catch (define_trust_model_configuration
               (obj [(''modelVersion'', get v ''modelVersion''), (''weights'', get v ''weights'')]))
             (\<lambda>e. if error_is TrustModelDefinitionError e then cfg_deny ''CONFIGURATION_RESULT_INVALID'' else Inl e)) (\<lambda>_. Inr v))"

definition validate_draft_result :: "js \<Rightarrow> tenant_context \<Rightarrow> draft_request \<Rightarrow> js res" where
  "validate_draft_result v c d =
     and_then (validate_configuration v (ctx_tenant c)) (\<lambda>r.
       if get r ''state'' \<noteq> JStr ''draft'' \<or> \<not> strict_eq (get r ''createdBySubjectId'') (JStr (ctx_subject c))
          \<or> \<not> strict_eq (get r ''modelVersion'') (JStr (dr_model d))
          \<or> \<not> strict_eq (get r ''initialScore'') (num (dr_initial d)) \<or> \<not> strict_eq (get r ''smoothingAlpha'') (num (dr_alpha d))
          \<or> \<not> strict_eq (get r ''maximumSourceInfluence'') (num (dr_influence d))
          \<or> \<not> strict_eq (get r ''staleAfterSeconds'') (num (dr_stale d))
          \<or> list_ex (\<lambda>(k, x). \<not> strict_eq (get (get r ''weights'') k) (num x)) (dr_weights d)
       then cfg_deny ''CONFIGURATION_WRITE_UNCONFIRMED'' else Inr r)"

definition validate_lifecycle_result :: "js \<Rightarrow> tenant_context \<Rightarrow> js \<Rightarrow> js res" where
  "validate_lifecycle_result v c version =
     and_then (validate_configuration v (ctx_tenant c)) (\<lambda>r.
       if get r ''state'' \<noteq> JStr ''active'' \<or> \<not> strict_eq (get r ''configurationVersion'') version
          \<or> get r ''activatedAt'' = JNull \<or> get r ''supersededAt'' \<noteq> JNull
       then cfg_deny ''CONFIGURATION_WRITE_UNCONFIRMED'' else Inr r)"

definition validate_rollback_result :: "js \<Rightarrow> tenant_context \<Rightarrow> js \<Rightarrow> js res" where
  "validate_rollback_result v c target =
     and_then (validate_configuration v (ctx_tenant c)) (\<lambda>r.
       if get r ''state'' \<noteq> JStr ''active'' \<or> num_of (get r ''configurationVersion'') \<le> num_of target
          \<or> \<not> strict_eq (get r ''createdBySubjectId'') (JStr (ctx_subject c))
          \<or> get r ''activatedAt'' = JNull \<or> get r ''supersededAt'' \<noteq> JNull
       then cfg_deny ''CONFIGURATION_WRITE_UNCONFIRMED'' else Inr r)"

text \<open>The loop over the history with the set of versions seen so far.\<close>

fun validate_history :: "string \<Rightarrow> js list \<Rightarrow> js list \<Rightarrow> js list res" where
  "validate_history tenant seen [] = Inr []"
| "validate_history tenant seen (row # rows) =
     and_then (validate_configuration row tenant) (\<lambda>c.
       if list_ex (same_value (get c ''configurationVersion'')) seen
          \<or> (get c ''latestEventType'' \<noteq> JNull \<and> \<not> one_of configuration_event_types (get c ''latestEventType''))
       then cfg_deny ''CONFIGURATION_HISTORY_INVALID''
       else and_then (validate_history tenant (get c ''configurationVersion'' # seen) rows) (\<lambda>cs. Inr (c # cs)))"

definition history_descends :: "js list \<Rightarrow> bool" where
  "history_descends cs \<longleftrightarrow>
     (\<forall>i < length cs. 0 < i \<longrightarrow> num_of (get (cs ! i) ''configurationVersion'') < num_of (get (cs ! (i - 1)) ''configurationVersion''))"

section \<open>Service\<close>

record 'w configuration_service =
  cs_create :: "js \<Rightarrow> ('w, js) act"
  cs_activate :: "js \<Rightarrow> ('w, js) act"
  cs_rollback :: "js \<Rightarrow> ('w, js) act"
  cs_history :: "js \<Rightarrow> ('w, js) act"
  cs_clock :: "('w, js) act"

definition draft_record :: "tenant_context \<Rightarrow> draft_request \<Rightarrow> js \<Rightarrow> js" where
  "draft_record c d now =
     obj [(''tenantId'', JStr (ctx_tenant c)), (''actorSubjectId'', JStr (ctx_subject c)), (''modelVersion'', JStr (dr_model d)),
          (''initialScore'', num (dr_initial d)), (''smoothingAlpha'', num (dr_alpha d)),
          (''maximumSourceInfluence'', num (dr_influence d)), (''staleAfterSeconds'', num (dr_stale d)),
          (''weights'', table_value (dr_weights d)), (''reasonCode'', dr_reason d), (''occurredAt'', now)]"

definition create_draft :: "'w configuration_service \<Rightarrow> context_store \<Rightarrow> context_arg \<Rightarrow> js \<Rightarrow> ('w, js) act" where
  "create_draft S st a request =
     act_bind (act_res (require_admin_context st a)) (\<lambda>c.
     act_bind (act_res (normalize_draft_request request)) (\<lambda>d.
     act_bind (require_utc_now (cs_clock S)) (\<lambda>now.
     act_bind (cs_create S (draft_record c d now)) (\<lambda>result. act_res (validate_draft_result result c d)))))"

definition lifecycle_record :: "tenant_context \<Rightarrow> string \<Rightarrow> js \<Rightarrow> js \<Rightarrow> js \<Rightarrow> js" where
  "lifecycle_record c k version reason now =
     obj [(''tenantId'', JStr (ctx_tenant c)), (''actorSubjectId'', JStr (ctx_subject c)), (k, version),
          (''reasonCode'', reason), (''occurredAt'', now)]"

definition activate_configuration :: "'w configuration_service \<Rightarrow> context_store \<Rightarrow> context_arg \<Rightarrow> js \<Rightarrow> ('w, js) act" where
  "activate_configuration S st a request =
     act_bind (act_res (require_admin_context st a)) (\<lambda>c.
     act_bind (act_res (require_exact_fields request activate_fields ''ACTIVATION_REQUEST_INVALID'')) (\<lambda>input.
     act_bind (act_res (require_positive_version (get input ''configurationVersion'') ''CONFIGURATION_VERSION_INVALID'')) (\<lambda>version.
     act_bind (act_res (require_reason_code (get input ''reasonCode''))) (\<lambda>reason.
     act_bind (require_utc_now (cs_clock S)) (\<lambda>now.
     act_bind (cs_activate S (lifecycle_record c ''configurationVersion'' version reason now)) (\<lambda>result.
       act_res (validate_lifecycle_result result c version)))))))"

definition rollback_configuration :: "'w configuration_service \<Rightarrow> context_store \<Rightarrow> context_arg \<Rightarrow> js \<Rightarrow> ('w, js) act" where
  "rollback_configuration S st a request =
     act_bind (act_res (require_admin_context st a)) (\<lambda>c.
     act_bind (act_res (require_exact_fields request rollback_fields ''ROLLBACK_REQUEST_INVALID'')) (\<lambda>input.
     act_bind (act_res (require_positive_version (get input ''targetConfigurationVersion'') ''ROLLBACK_TARGET_INVALID'')) (\<lambda>target.
     act_bind (act_res (require_reason_code (get input ''reasonCode''))) (\<lambda>reason.
     act_bind (require_utc_now (cs_clock S)) (\<lambda>now.
     act_bind (cs_rollback S (lifecycle_record c ''targetConfigurationVersion'' target reason now)) (\<lambda>result.
       act_res (validate_rollback_result result c target)))))))"

definition configuration_history :: "'w configuration_service \<Rightarrow> context_store \<Rightarrow> context_arg \<Rightarrow> ('w, js list) act" where
  "configuration_history S st a =
     act_bind (act_res (require_admin_context st a)) (\<lambda>c.
     act_bind (cs_history S (obj [(''tenantId'', JStr (ctx_tenant c)), (''actorSubjectId'', JStr (ctx_subject c))])) (\<lambda>rows.
       if \<not> is_array rows \<or> elements rows = [] then act_res (cfg_deny ''CONFIGURATION_HISTORY_INVALID'')
       else act_res (and_then (validate_history (ctx_tenant c) [] (elements rows)) (\<lambda>cs.
         if \<not> history_descends cs then cfg_deny ''CONFIGURATION_HISTORY_INVALID'' else Inr cs))))"

definition configuration_safe_denial :: "js_error \<Rightarrow> (nat \<times> string) res" where
  "configuration_safe_denial e =
     (if error_is TrustConfigurationManagementError e then Inr (403, ''ACCESS_DENIED'') else Inl e)"

section \<open>Repository\<close>

definition canonical_timestamp :: "(js \<Rightarrow> int option) \<Rightarrow> js \<Rightarrow> js res" where
  "canonical_timestamp pd v =
     (if nullish v then Inr JNull
      else and_then (iso pd (Thrown TrustConfigurationManagementError ''CONFIGURATION_RESULT_INVALID'') v) (\<lambda>t. Inr (JStr t)))"

definition number_or_null :: "js \<Rightarrow> js" where
  "number_or_null v = (if nullish v then JNull else js_number v)"

definition weight_columns :: "js \<Rightarrow> js" where
  "weight_columns row = obj (map (\<lambda>k. (k, js_number (get row (k @ ''_weight'')))) trust_component_ids)"

definition map_configuration :: "(js \<Rightarrow> int option) \<Rightarrow> js \<Rightarrow> js res" where
  "map_configuration pd row =
     (if \<not> truthy row then cfg_deny ''CONFIGURATION_RESULT_INVALID''
      else and_then (canonical_timestamp pd (get row ''activated_at'')) (\<lambda>activated.
           and_then (canonical_timestamp pd (get row ''superseded_at'')) (\<lambda>superseded.
           and_then (canonical_timestamp pd (get row ''created_at'')) (\<lambda>created.
           and_then (canonical_timestamp pd (get row ''updated_at'')) (\<lambda>updated.
           and_then (canonical_timestamp pd (get row ''latest_event_at'')) (\<lambda>latest.
             Inr (obj
               [(''tenantId'', get row ''tenant_id''), (''configurationVersion'', js_number (get row ''configuration_version'')),
                (''modelVersion'', get row ''model_version''), (''state'', get row ''state''),
                (''initialScore'', js_number (get row ''initial_score'')), (''smoothingAlpha'', js_number (get row ''smoothing_alpha'')),
                (''maximumSourceInfluence'', js_number (get row ''maximum_source_influence'')),
                (''staleAfterSeconds'', js_number (get row ''stale_after_seconds'')), (''weights'', weight_columns row),
                (''createdBySubjectId'', get row ''created_by_subject_id''), (''activatedAt'', activated),
                (''supersededAt'', superseded), (''createdAt'', created), (''updatedAt'', updated),
                (''latestEventType'', coalesce (get row ''latest_event_type'') JNull),
                (''latestReasonCode'', coalesce (get row ''latest_reason_code'') JNull),
                (''latestActorSubjectId'', coalesce (get row ''latest_actor_subject_id'') JNull),
                (''previousActiveConfigurationVersion'', number_or_null (get row ''previous_active_configuration_version'')),
                (''rollbackTargetConfigurationVersion'', number_or_null (get row ''rollback_target_configuration_version'')),
                (''latestEventAt'', latest)])))))))"

definition require_single_row :: "js \<Rightarrow> js res" where
  "require_single_row result = one_row (Thrown TrustConfigurationManagementError ''CONFIGURATION_WRITE_UNCONFIRMED'') result"

definition single_configuration :: "'w env \<Rightarrow> string \<Rightarrow> js list \<Rightarrow> ('w, js) act" where
  "single_configuration E sql vs =
     act_bind (env_query E sql vs) (\<lambda>result. act_res (and_then (require_single_row result) (map_configuration (env_date E))))"

definition repository_create_draft :: "'w env \<Rightarrow> js \<Rightarrow> ('w, js) act" where
  "repository_create_draft E r =
     (if nullish r \<or> nullish (get r ''weights'') then act_fail TypeErrorThrown
      else single_configuration E create_draft_sql
        ([get r ''modelVersion'', get r ''initialScore'', get r ''smoothingAlpha'', get r ''maximumSourceInfluence'', get r ''staleAfterSeconds'']
         @ map (get (get r ''weights'')) trust_component_ids @ [get r ''reasonCode'', get r ''occurredAt'']))"

definition repository_activate :: "'w env \<Rightarrow> js \<Rightarrow> ('w, js) act" where
  "repository_activate E r =
     (if nullish r then act_fail TypeErrorThrown
      else single_configuration E activate_sql [get r ''configurationVersion'', get r ''reasonCode'', get r ''occurredAt''])"

definition repository_rollback :: "'w env \<Rightarrow> js \<Rightarrow> ('w, js) act" where
  "repository_rollback E r =
     (if nullish r then act_fail TypeErrorThrown
      else single_configuration E rollback_sql [get r ''targetConfigurationVersion'', get r ''reasonCode'', get r ''occurredAt''])"

definition repository_history :: "'w env \<Rightarrow> js \<Rightarrow> ('w, js) act" where
  "repository_history E r =
     act_bind (env_query E history_sql []) (\<lambda>result.
       if \<not> truthy result \<or> \<not> is_array (get result ''rows'') then act_res (cfg_deny ''CONFIGURATION_HISTORY_INVALID'')
       else act_res (and_then (map_res (map_configuration (env_date E)) (elements (get result ''rows''))) (\<lambda>cs. Inr (JArr cs))))"

definition configuration_repository :: "'w env \<Rightarrow> 'w configuration_service" where
  "configuration_repository E =
     \<lparr> cs_create = repository_create_draft E, cs_activate = repository_activate E, cs_rollback = repository_rollback E,
       cs_history = repository_history E, cs_clock = env_clock E \<rparr>"

section \<open>Properties\<close>

lemma admin_context:
  assumes "require_admin_context st a = Inr c"
  shows "trusted_context st a = Inr c" "''tenant-admin'' \<in> set (ctx_roles c)"
  using assms by (auto simp: require_admin_context_def cfg_deny_def catch_def assert_no_tenant_switch_def split: sum.splits if_splits)

lemma exact_fields: "require_exact_fields v ks r = Inr x \<Longrightarrow> x = v"
  by (auto simp: require_exact_fields_def cfg_deny_def split: if_splits)

text \<open>What every answer of the service satisfies: it belongs to the tenant, carries an accepted model, its numbers are
  in range, and the two shares are in range or, as the validation lets through, not a number.\<close>

definition sound_configuration :: "string \<Rightarrow> js \<Rightarrow> bool" where
  "sound_configuration tenant v \<longleftrightarrow>
     get v ''tenantId'' = JStr tenant \<and> one_of configuration_states (get v ''state'')
     \<and> safe_integer_from 1 (get v ''configurationVersion'') \<and> number_between 0 100 (get v ''initialScore'')
     \<and> safe_integer_from 1 (get v ''staleAfterSeconds'')
     \<and> share_or_nan (get v ''smoothingAlpha'') \<and> share_or_nan (get v ''maximumSourceInfluence'')
     \<and> re_test_or_empty (is_id ''sub'') (get v ''createdBySubjectId'')
     \<and> list_all (\<lambda>k. utc_or_null (get v k)) [''activatedAt'', ''supersededAt'', ''createdAt'', ''updatedAt'']
     \<and> (\<exists>m. define_trust_model_configuration (obj [(''modelVersion'', get v ''modelVersion''), (''weights'', get v ''weights'')]) = Inr m
          \<and> valid_configuration m)"

lemma validated_configuration:
  assumes "validate_configuration v tenant = Inr r"
  shows "r = v" "sound_configuration tenant r"
proof -
  show r: "r = v" using assms by (auto simp: validate_configuration_def cfg_deny_def split: if_splits)
  have c: "strict_eq (get v ''tenantId'') (JStr tenant)" "one_of configuration_states (get v ''state'')"
    "safe_integer_from 1 (get v ''configurationVersion'')" "number_between 0 100 (get v ''initialScore'')"
    "safe_integer_from 1 (get v ''staleAfterSeconds'')"
    "share_or_nan (get v ''smoothingAlpha'')" "share_or_nan (get v ''maximumSourceInfluence'')"
    "re_test_or_empty (is_id ''sub'') (get v ''createdBySubjectId'')"
    "list_all (\<lambda>k. utc_or_null (get v k)) [''activatedAt'', ''supersededAt'', ''createdAt'', ''updatedAt'']"
    using assms by (auto simp: validate_configuration_def cfg_deny_def split: if_splits)
  obtain m where "define_trust_model_configuration (obj [(''modelVersion'', get v ''modelVersion''), (''weights'', get v ''weights'')]) = Inr m"
    using assms by (auto simp: validate_configuration_def cfg_deny_def catch_def split: if_splits sum.splits)
  then show "sound_configuration tenant r" using c configuration_valid unfolding r sound_configuration_def by auto
qed

lemma strict_num: "strict_eq v (num x) \<longleftrightarrow> v = num x"
  by (cases v) auto

lemma draft_request_valid:
  assumes "normalize_draft_request v = Inr d"
  shows "is_model_version (dr_model d)" "valid_weights (dr_weights d)" "0 < dr_alpha d" "dr_alpha d \<le> 1"
    "0 < dr_influence d" "dr_influence d \<le> 1"
proof -
  obtain m t where m: "define_trust_model_configuration (obj [(''modelVersion'', get v ''modelVersion''), (''weights'', get v ''weights'')]) = Inr m"
    and t: "define_temporal_trust_configuration (obj [(''initialScore'', get v ''initialScore''), (''smoothingAlpha'', get v ''smoothingAlpha''),
        (''staleAfterSeconds'', get v ''staleAfterSeconds'')]) = Inr t"
    and d: "dr_model d = model_version m" "dr_weights d = model_weights m" "dr_alpha d = smoothing_alpha t"
      "dr_influence d = num_of (get v ''maximumSourceInfluence'')"
    and i: "0 < num_of (get v ''maximumSourceInfluence'')" "num_of (get v ''maximumSourceInfluence'') \<le> 1"
    using assms exact_fields by (fastforce simp: normalize_draft_request_def cfg_deny_def catch_eq_Inr split: if_splits)
  show "is_model_version (dr_model d)" "valid_weights (dr_weights d)"
    using configuration_valid[OF m] d by (simp_all add: valid_configuration_def)
  show "0 < dr_alpha d" "dr_alpha d \<le> 1" using t d(3) by (auto simp: define_temporal_trust_configuration_def smoothing_fail_def split: if_splits)
  show "0 < dr_influence d" "dr_influence d \<le> 1" using i d(4) by simp_all
qed

lemma created_draft:
  assumes "create_draft S st a q w = (w', Inr r)"
  shows "\<exists>c d. trusted_context st a = Inr c \<and> ''tenant-admin'' \<in> set (ctx_roles c) \<and> normalize_draft_request q = Inr d
    \<and> valid_weights (dr_weights d) \<and> 0 < dr_alpha d \<and> dr_alpha d \<le> 1 \<and> 0 < dr_influence d \<and> dr_influence d \<le> 1
    \<and> sound_configuration (ctx_tenant c) r \<and> get r ''state'' = JStr ''draft'' \<and> get r ''createdBySubjectId'' = JStr (ctx_subject c)
    \<and> get r ''modelVersion'' = JStr (dr_model d) \<and> get r ''smoothingAlpha'' = num (dr_alpha d)
    \<and> get r ''maximumSourceInfluence'' = num (dr_influence d) \<and> (\<forall>(k, x) \<in> set (dr_weights d). get (get r ''weights'') k = num x)
    \<and> get r ''initialScore'' = num (dr_initial d) \<and> get r ''staleAfterSeconds'' = num (dr_stale d)
    \<and> (\<exists>u now. cs_create S (draft_record c d now) u = (w', Inr r))"
proof -
  obtain c d v u now where c: "require_admin_context st a = Inr c" "normalize_draft_request q = Inr d" "validate_draft_result v c d = Inr r"
    "cs_create S (draft_record c d now) u = (w', Inr v)"
    using assms by (auto simp: create_draft_def act_bind_Inr)
  from c(3) obtain x where x: "validate_configuration v (ctx_tenant c) = Inr x" "x = r"
    by (auto simp: validate_draft_result_def cfg_deny_def split: if_splits)
  have f: "get r ''state'' = JStr ''draft''" "strict_eq (get r ''createdBySubjectId'') (JStr (ctx_subject c))"
    "strict_eq (get r ''modelVersion'') (JStr (dr_model d))" "strict_eq (get r ''smoothingAlpha'') (num (dr_alpha d))"
    "strict_eq (get r ''maximumSourceInfluence'') (num (dr_influence d))"
    "strict_eq (get r ''initialScore'') (num (dr_initial d))" "strict_eq (get r ''staleAfterSeconds'') (num (dr_stale d))"
    "\<not> list_ex (\<lambda>(k, x). \<not> strict_eq (get (get r ''weights'') k) (num x)) (dr_weights d)"
    using c(3) by (auto simp: validate_draft_result_def cfg_deny_def split: if_splits)
  have "\<forall>(k, x) \<in> set (dr_weights d). get (get r ''weights'') k = num x" using f(8) by (auto simp: list_ex_iff strict_num)
  moreover have "cs_create S (draft_record c d now) u = (w', Inr r)" using c(4) x validated_configuration(1)[OF x(1)] by simp
  moreover have "sound_configuration (ctx_tenant c) r" using validated_configuration(2)[OF x(1)] x(2) by simp
  ultimately show ?thesis using admin_context[OF c(1)] c(2) draft_request_valid[OF c(2)] f(1-7)
    by (intro exI[of _ c] exI[of _ d]) (auto simp: strict_num)
qed

lemma activated_configuration:
  assumes "activate_configuration S st a q w = (w', Inr r)"
  shows "\<exists>c. trusted_context st a = Inr c \<and> ''tenant-admin'' \<in> set (ctx_roles c) \<and> sound_configuration (ctx_tenant c) r
    \<and> get r ''state'' = JStr ''active'' \<and> get r ''configurationVersion'' = get q ''configurationVersion''
    \<and> get r ''activatedAt'' \<noteq> JNull \<and> get r ''supersededAt'' = JNull
    \<and> (\<exists>u now. cs_activate S (lifecycle_record c ''configurationVersion'' (get q ''configurationVersion'') (get q ''reasonCode'') now) u = (w', Inr r))"
proof -
  obtain c v u now where c: "require_admin_context st a = Inr c"
    "validate_lifecycle_result v c (get q ''configurationVersion'') = Inr r" "safe_integer_from 1 (get q ''configurationVersion'')"
    "cs_activate S (lifecycle_record c ''configurationVersion'' (get q ''configurationVersion'') (get q ''reasonCode'') now) u = (w', Inr v)"
    using assms exact_fields
    by (fastforce simp: activate_configuration_def act_bind_Inr require_positive_version_def require_reason_code_def cfg_deny_def split: if_splits)
  from c(2) have x: "validate_configuration v (ctx_tenant c) = Inr r" "get r ''state'' = JStr ''active''"
    "strict_eq (get r ''configurationVersion'') (get q ''configurationVersion'')" "get r ''activatedAt'' \<noteq> JNull" "get r ''supersededAt'' = JNull"
    by (auto simp: validate_lifecycle_result_def cfg_deny_def split: if_splits)
  have "get r ''configurationVersion'' = get q ''configurationVersion''"
    using x(3) c(3) by (cases "get q ''configurationVersion''") (auto simp: safe_integer_from_def is_safe_integer_def strict_num split: js_num.splits)
  moreover have "v = r" using validated_configuration(1)[OF x(1)] by simp
  ultimately show ?thesis using admin_context[OF c(1)] validated_configuration(2)[OF x(1)] x c(4) by blast
qed

lemma rolled_back_configuration:
  assumes "rollback_configuration S st a q w = (w', Inr r)"
  shows "\<exists>c. trusted_context st a = Inr c \<and> ''tenant-admin'' \<in> set (ctx_roles c) \<and> sound_configuration (ctx_tenant c) r
    \<and> get r ''state'' = JStr ''active'' \<and> get r ''createdBySubjectId'' = JStr (ctx_subject c)
    \<and> num_of (get q ''targetConfigurationVersion'') < num_of (get r ''configurationVersion'')
    \<and> get r ''activatedAt'' \<noteq> JNull \<and> get r ''supersededAt'' = JNull
    \<and> (\<exists>u now. cs_rollback S (lifecycle_record c ''targetConfigurationVersion'' (get q ''targetConfigurationVersion'') (get q ''reasonCode'') now) u = (w', Inr r))"
proof -
  obtain c v u now where c: "require_admin_context st a = Inr c" "validate_rollback_result v c (get q ''targetConfigurationVersion'') = Inr r"
    "cs_rollback S (lifecycle_record c ''targetConfigurationVersion'' (get q ''targetConfigurationVersion'') (get q ''reasonCode'') now) u = (w', Inr v)"
    using assms exact_fields
    by (fastforce simp: rollback_configuration_def act_bind_Inr require_positive_version_def require_reason_code_def cfg_deny_def split: if_splits)
  from c(2) have x: "validate_configuration v (ctx_tenant c) = Inr r" "get r ''state'' = JStr ''active''"
    "\<not> num_of (get r ''configurationVersion'') \<le> num_of (get q ''targetConfigurationVersion'')"
    "strict_eq (get r ''createdBySubjectId'') (JStr (ctx_subject c))" "get r ''activatedAt'' \<noteq> JNull" "get r ''supersededAt'' = JNull"
    by (auto simp: validate_rollback_result_def cfg_deny_def split: if_splits)
  moreover have "v = r" using validated_configuration(1)[OF x(1)] by simp
  ultimately show ?thesis using admin_context[OF c(1)] validated_configuration(2)[OF x(1)] c(3)
    by (intro exI[of _ c]) (auto simp: not_le)
qed

lemma validated_history:
  assumes "validate_history tenant seen rows = Inr cs"
  shows "length cs = length rows \<and> list_all (sound_configuration tenant) cs"
  using assms
proof (induction tenant seen rows arbitrary: cs rule: validate_history.induct)
  case (2 tenant seen row rows)
  then show ?case using validated_configuration by (auto simp: cfg_deny_def split: if_splits)
qed simp

lemma descends_sorted:
  assumes "history_descends cs"
  shows "sorted_wrt (\<lambda>x y. num_of (get y ''configurationVersion'') < num_of (get x ''configurationVersion'')) cs"
proof -
  let ?R = "\<lambda>x y. num_of (get y ''configurationVersion'') < num_of (get x ''configurationVersion'')"
  have "\<forall>i. Suc i < length cs \<longrightarrow> ?R (cs ! i) (cs ! Suc i)" using assms by (auto simp: history_descends_def dest: spec[of _ "Suc _"])
  moreover have "transp ?R" by (auto simp: transp_def)
  ultimately show ?thesis by (simp add: sorted_wrt_iff_nth_Suc_transp)
qed

text \<open>C30: a configuration only changes for an administrator of its tenant, over any repository: a draft is what the
  accepted request asked for in every field, an activation activates the requested version, a rollback
  ends in a new active version after its target, created by the actor; each is the repository's own answer
  to the record made of the request. Every answer is a configuration of the tenant with an initial score in
  range and a model whose weights are in range and add up to one; the smoothing factor and the maximum source
  influence are in range for a draft, for the others in range or not a number.\<close>

theorem configuration_changes_are_confirmed:
  "(create_draft S st a q w = (w', Inr r) \<longrightarrow>
      (\<exists>c d. trusted_context st a = Inr c \<and> ''tenant-admin'' \<in> set (ctx_roles c) \<and> normalize_draft_request q = Inr d
        \<and> valid_weights (dr_weights d) \<and> 0 < dr_alpha d \<and> dr_alpha d \<le> 1 \<and> 0 < dr_influence d \<and> dr_influence d \<le> 1
        \<and> sound_configuration (ctx_tenant c) r \<and> get r ''state'' = JStr ''draft'' \<and> get r ''createdBySubjectId'' = JStr (ctx_subject c)
        \<and> get r ''modelVersion'' = JStr (dr_model d) \<and> get r ''smoothingAlpha'' = num (dr_alpha d)
        \<and> get r ''maximumSourceInfluence'' = num (dr_influence d) \<and> (\<forall>(k, x) \<in> set (dr_weights d). get (get r ''weights'') k = num x)
        \<and> get r ''initialScore'' = num (dr_initial d) \<and> get r ''staleAfterSeconds'' = num (dr_stale d)
        \<and> (\<exists>u now. cs_create S (draft_record c d now) u = (w', Inr r))))
   \<and> (activate_configuration S st a q w = (w', Inr r) \<longrightarrow>
      (\<exists>c. trusted_context st a = Inr c \<and> ''tenant-admin'' \<in> set (ctx_roles c) \<and> sound_configuration (ctx_tenant c) r
        \<and> get r ''state'' = JStr ''active'' \<and> get r ''configurationVersion'' = get q ''configurationVersion''
        \<and> get r ''activatedAt'' \<noteq> JNull \<and> get r ''supersededAt'' = JNull
    \<and> (\<exists>u now. cs_activate S (lifecycle_record c ''configurationVersion'' (get q ''configurationVersion'') (get q ''reasonCode'') now) u = (w', Inr r))))
   \<and> (rollback_configuration S st a q w = (w', Inr r) \<longrightarrow>
      (\<exists>c. trusted_context st a = Inr c \<and> ''tenant-admin'' \<in> set (ctx_roles c) \<and> sound_configuration (ctx_tenant c) r
        \<and> get r ''state'' = JStr ''active'' \<and> get r ''createdBySubjectId'' = JStr (ctx_subject c)
        \<and> num_of (get q ''targetConfigurationVersion'') < num_of (get r ''configurationVersion'')
        \<and> get r ''activatedAt'' \<noteq> JNull \<and> get r ''supersededAt'' = JNull
    \<and> (\<exists>u now. cs_rollback S (lifecycle_record c ''targetConfigurationVersion'' (get q ''targetConfigurationVersion'') (get q ''reasonCode'') now) u = (w', Inr r))))"
  by (intro conjI impI) (rule created_draft activated_configuration rolled_back_configuration; assumption)+

text \<open>The history an administrator reads is not empty, holds only configurations of the own tenant and lists
  their versions in strictly descending order, so none twice.\<close>

theorem configuration_history_is_ordered:
  assumes "configuration_history S st a w = (w', Inr cs)"
  shows "\<exists>c. trusted_context st a = Inr c \<and> ''tenant-admin'' \<in> set (ctx_roles c) \<and> cs \<noteq> []
    \<and> list_all (sound_configuration (ctx_tenant c)) cs
    \<and> sorted_wrt (\<lambda>x y. num_of (get y ''configurationVersion'') < num_of (get x ''configurationVersion'')) cs"
proof -
  obtain c rows where c: "require_admin_context st a = Inr c" "elements rows \<noteq> []"
    "validate_history (ctx_tenant c) [] (elements rows) = Inr cs" "history_descends cs"
    using assms by (auto simp: configuration_history_def act_bind_Inr cfg_deny_def split: if_splits)
  then have "cs \<noteq> []" using validated_history[OF c(3)] by auto
  then show ?thesis using admin_context[OF c(1)] validated_history[OF c(3)] descends_sorted[OF c(4)] by blast
qed

subsection \<open>Witnesses\<close>

definition cm_context :: tenant_context where
  "cm_context = \<lparr> ctx_tenant = ''tnt_00000000-0000-4000-8000-000000000001'', ctx_subject = ''sub_00000000-0000-4000-8000-000000000001'',
     ctx_roles = [''tenant-admin''], ctx_source = ''mtls-certificate'', ctx_authentication_id = ''session'', ctx_tenant_version = 1,
     ctx_subject_version = 1, ctx_membership_version = 1 \<rparr>"

definition cm_answer :: "string \<Rightarrow> rat \<Rightarrow> js \<Rightarrow> js" where
  "cm_answer s v activated = obj
     [(''tenantId'', JStr (ctx_tenant cm_context)), (''configurationVersion'', num v), (''modelVersion'', JStr ''1.0.0''),
      (''state'', JStr s), (''initialScore'', num 50), (''smoothingAlpha'', num (1/2)), (''maximumSourceInfluence'', num (1/4)),
      (''staleAfterSeconds'', num 60), (''weights'', table_value initial_trust_weights),
      (''createdBySubjectId'', JStr (ctx_subject cm_context)), (''activatedAt'', activated), (''supersededAt'', JNull),
      (''createdAt'', JStr (time_to_iso 0)), (''updatedAt'', JStr (time_to_iso 0)), (''latestEventType'', JNull)]"

definition cm_service :: "unit configuration_service" where
  "cm_service =
     \<lparr> cs_create = (\<lambda>v. act_ret (cm_answer ''draft'' 2 JNull)), cs_activate = (\<lambda>v. act_ret (cm_answer ''active'' 2 (JStr (time_to_iso 0)))),
       cs_rollback = (\<lambda>v. act_ret (cm_answer ''active'' 3 (JStr (time_to_iso 0)))),
       cs_history = (\<lambda>v. act_ret (JArr [cm_answer ''active'' 3 (JStr (time_to_iso 0)), cm_answer ''draft'' 2 JNull])),
       cs_clock = act_ret (JDate (Some 0)) \<rparr>"

definition cm_draft :: js where
  "cm_draft = obj [(''initialScore'', num 50), (''maximumSourceInfluence'', num (1/4)), (''modelVersion'', JStr ''1.0.0''),
     (''reasonCode'', JStr ''TUNING''), (''smoothingAlpha'', num (1/2)), (''staleAfterSeconds'', num 60),
     (''weights'', table_value initial_trust_weights)]"

lemma cm_ids:
  "is_id ''tnt'' ''tnt_00000000-0000-4000-8000-000000000001''" "is_id ''sub'' ''sub_00000000-0000-4000-8000-000000000001''"
  "is_reason_code ''TUNING''" "is_reason_code ''RESTORE''"
  by code_simp+

lemma cm_model: "define_trust_model_configuration (obj [(''modelVersion'', JStr ''1.0.0''), (''weights'', table_value initial_trust_weights)])
    = Inr initial_trust_model_configuration"
  using example_model by (simp add: configuration_value_def initial_trust_model_configuration_def)

lemma cm_validated:
  assumes "one_of configuration_states (JStr s)" "activated = JNull \<or> activated = JStr (time_to_iso 0)" "safe_integer_from 1 (num v)"
  shows "validate_configuration (cm_answer s v activated) (ctx_tenant cm_context) = Inr (cm_answer s v activated)"
proof -
  have t: "utc_or_null activated" "utc_or_null (JStr (time_to_iso 0))" "utc_or_null JNull"
    using assms(2) canonical_utc_iff valid_time_0 by (auto simp: utc_or_null_def)
  have n: "safe_integer_from 1 (num 60)"
    by (simp add: safe_integer_from_def is_safe_integer_def is_integer_rat_def max_safe_integer_def)
  show ?thesis using assms(1,3) cm_ids t cm_model n
    by (simp add: validate_configuration_def cm_answer_def cm_context_def number_between_def is_finite_def share_or_nan_def
        table_value_def)
qed

lemma cm_admin: "require_admin_context [cm_context] (Resolved 0) = Inr cm_context"
  by (simp add: require_admin_context_def assert_no_tenant_switch_def trusted_context_def cm_context_def)

lemma cm_versions: "safe_integer_from 1 (num 2)" "safe_integer_from 1 (num 3)"
  by (simp_all add: safe_integer_from_def is_safe_integer_def is_integer_rat_def max_safe_integer_def)

lemma cm_states: "one_of configuration_states (JStr ''draft'')" "one_of configuration_states (JStr ''active'')"
  by (simp_all add: one_of_def configuration_states_def)

definition cm_normalized :: draft_request where
  "cm_normalized = \<lparr> dr_model = ''1.0.0'', dr_initial = 50, dr_alpha = 1/2, dr_influence = 1/4, dr_stale = 60,
     dr_weights = initial_trust_weights, dr_reason = JStr ''TUNING'' \<rparr>"

lemma cm_request: "normalize_draft_request cm_draft = Inr cm_normalized"
proof -
  have f: "require_exact_fields cm_draft draft_fields ''DRAFT_REQUEST_INVALID'' = Inr cm_draft"
    by (simp add: require_exact_fields_def cm_draft_def is_record_def draft_fields_def)
  have g: "get cm_draft ''initialScore'' = num 50" "get cm_draft ''maximumSourceInfluence'' = num (1/4)"
    "get cm_draft ''modelVersion'' = JStr ''1.0.0''" "get cm_draft ''reasonCode'' = JStr ''TUNING''"
    "get cm_draft ''smoothingAlpha'' = num (1/2)" "get cm_draft ''staleAfterSeconds'' = num 60"
    "get cm_draft ''weights'' = table_value initial_trust_weights"
    by (simp_all add: cm_draft_def)
  have t: "define_temporal_trust_configuration (obj [(''initialScore'', num 50), (''smoothingAlpha'', num (1/2)), (''staleAfterSeconds'', num 60)])
      = Inr \<lparr> initial_score = 50, smoothing_alpha = 1/2, stale_after_seconds = 60 \<rparr>"
    by (simp add: define_temporal_trust_configuration_def has_exact_keys_def smoothing_valid_score_def number_between_def is_finite_def
        is_safe_integer_def is_integer_rat_def max_safe_integer_def maximum_stale_after_seconds_def)
  show ?thesis
    by (simp add: normalize_draft_request_def f g t cm_model is_finite_def require_reason_code_def cm_ids cm_normalized_def
        initial_trust_model_configuration_def)
qed

lemma cm_clock: "require_utc_now (cs_clock cm_service) () = ((), Inr (JStr (time_to_iso 0)))"
  by (simp add: require_utc_now_def cm_service_def act_bind_def)

lemma cm_created: "create_draft cm_service [cm_context] (Resolved 0) cm_draft () = ((), Inr (cm_answer ''draft'' 2 JNull))"
proof -
  have "list_all (\<lambda>(k, x). get (table_value initial_trust_weights) k = num x) initial_trust_weights"
    by (simp add: initial_trust_weights_def table_value_def)
  then have "\<not> list_ex (\<lambda>(k, x). \<not> strict_eq (get (table_value initial_trust_weights) k) (num x)) initial_trust_weights"
    by (auto simp: list_ex_iff list_all_iff)
  then have "validate_draft_result (cm_answer ''draft'' 2 JNull) cm_context cm_normalized = Inr (cm_answer ''draft'' 2 JNull)"
    unfolding validate_draft_result_def
    by (simp add: cm_validated[OF cm_states(1) disjI1[OF refl] cm_versions(1)]) (simp add: cm_answer_def cm_normalized_def)
  then show ?thesis by (simp add: create_draft_def cm_admin cm_request cm_clock act_bind_def) (simp add: cm_service_def)
qed

lemma cm_activated: "activate_configuration cm_service [cm_context] (Resolved 0)
    (obj [(''configurationVersion'', num 2), (''reasonCode'', JStr ''TUNING'')]) () = ((), Inr (cm_answer ''active'' 2 (JStr (time_to_iso 0))))"
proof -
  have "validate_lifecycle_result (cm_answer ''active'' 2 (JStr (time_to_iso 0))) cm_context (num 2) = Inr (cm_answer ''active'' 2 (JStr (time_to_iso 0)))"
    unfolding validate_lifecycle_result_def
    by (simp add: cm_validated[OF cm_states(2) disjI2[OF refl] cm_versions(1)]) (simp add: cm_answer_def)
  then show ?thesis
    by (simp add: activate_configuration_def cm_admin require_exact_fields_def is_record_def activate_fields_def require_positive_version_def
        cm_versions require_reason_code_def cm_ids cm_clock act_bind_def) (simp add: cm_service_def)
qed

lemma cm_rolled_back: "rollback_configuration cm_service [cm_context] (Resolved 0)
    (obj [(''reasonCode'', JStr ''RESTORE''), (''targetConfigurationVersion'', num 2)]) () = ((), Inr (cm_answer ''active'' 3 (JStr (time_to_iso 0))))"
proof -
  have "validate_rollback_result (cm_answer ''active'' 3 (JStr (time_to_iso 0))) cm_context (num 2) = Inr (cm_answer ''active'' 3 (JStr (time_to_iso 0)))"
    unfolding validate_rollback_result_def
    by (simp add: cm_validated[OF cm_states(2) disjI2[OF refl] cm_versions(2)]) (simp add: cm_answer_def)
  then show ?thesis
    by (simp add: rollback_configuration_def cm_admin require_exact_fields_def is_record_def rollback_fields_def require_positive_version_def
        cm_versions require_reason_code_def cm_ids cm_clock act_bind_def) (simp add: cm_service_def)
qed

lemma configuration_changes_are_confirmed_witness:
  "\<exists>r s t. create_draft cm_service [cm_context] (Resolved 0) cm_draft () = ((), Inr r) \<and> get r ''state'' = JStr ''draft''
     \<and> activate_configuration cm_service [cm_context] (Resolved 0)
         (obj [(''configurationVersion'', num 2), (''reasonCode'', JStr ''TUNING'')]) () = ((), Inr s) \<and> get s ''state'' = JStr ''active''
     \<and> rollback_configuration cm_service [cm_context] (Resolved 0)
         (obj [(''reasonCode'', JStr ''RESTORE''), (''targetConfigurationVersion'', num 2)]) () = ((), Inr t)
     \<and> 2 < num_of (get t ''configurationVersion'')"
proof (intro exI conjI)
  show "get (cm_answer ''draft'' 2 JNull) ''state'' = JStr ''draft''"
    using configuration_changes_are_confirmed[THEN conjunct1, rule_format, OF cm_created] by blast
  show "get (cm_answer ''active'' 2 (JStr (time_to_iso 0))) ''state'' = JStr ''active''"
    using configuration_changes_are_confirmed[THEN conjunct2, THEN conjunct1, rule_format, OF cm_activated] by blast
  show "2 < num_of (get (cm_answer ''active'' 3 (JStr (time_to_iso 0))) ''configurationVersion'')"
    using configuration_changes_are_confirmed[THEN conjunct2, THEN conjunct2, rule_format, OF cm_rolled_back] by auto
qed (rule cm_created cm_activated cm_rolled_back)+

lemma configuration_history_is_ordered_witness:
  "\<exists>cs. configuration_history cm_service [cm_context] (Resolved 0) () = ((), Inr cs) \<and> cs \<noteq> [] \<and> length cs = 2"
proof -
  let ?a = "cm_answer ''active'' 3 (JStr (time_to_iso 0))"
  let ?b = "cm_answer ''draft'' 2 JNull"
  have g: "get ?a ''latestEventType'' = JNull" "get ?b ''latestEventType'' = JNull" "get ?a ''configurationVersion'' = num 3"
    "get ?b ''configurationVersion'' = num 2" by (simp_all add: cm_answer_def)
  have v: "validate_history (ctx_tenant cm_context) [] [?a, ?b] = Inr [?a, ?b]"
    by (simp add: cm_validated[OF cm_states(2) disjI2[OF refl] cm_versions(2)] cm_validated[OF cm_states(1) disjI1[OF refl] cm_versions(1)] g)
  have d: "history_descends [?a, ?b]" by (auto simp: history_descends_def g less_Suc_eq)
  have run: "configuration_history cm_service [cm_context] (Resolved 0) () = ((), Inr [?a, ?b])"
    by (simp add: configuration_history_def cm_admin act_bind_def) (simp add: cm_service_def v d del: validate_history.simps)
  from configuration_history_is_ordered[OF run] run show ?thesis by auto
qed

end
