(* ===== verification/TransitionExplanation.thy ===== *)
theory TransitionExplanation
  imports TrustStorage WeightedScore TemporalSmoothing TransitionControls
begin

text \<open>
  \<open>services/trust/src/transition-explanation.mjs\<close>: one trust update from the components to the
  signed-off event. The weighted score, the smoothing and the transition controls are composed, and
  what they did is written into an explanation whose digest the published event carries. SHA-256,
  the power function of the engine, the pool, the clock, the ID factory and the parsing of dates are
  parameters. SQL templates that span lines are written on one.
\<close>

section \<open>Constants and canonical text\<close>

definition explain_fail :: "string \<Rightarrow> 'a res" where
  "explain_fail r = throw TrustTransitionExplanationError r"

definition is_producer_service :: "string \<Rightarrow> bool" where
  "is_producer_service = head_tail lower (\<lambda>c. lower c \<or> digit c \<or> c = CHR ''-'') 1 62"

definition internal_bands :: "string list" where
  "internal_bands = [''low'', ''medium'', ''high'']"

definition input_keys :: "string list" where
  "input_keys = [''tenantId'', ''subjectId'', ''updateVersion'', ''correlationId'', ''causationId'', ''components'',
     ''evidenceReferences'', ''configuration'', ''observedAt'', ''source'', ''criticalEvidence'']"

definition configuration_keys :: "string list" where
  "configuration_keys = [''modelVersion'', ''configurationVersion'', ''initialScore'', ''smoothingAlpha'', ''staleAfterSeconds'', ''weights'']"

definition previous_keys :: "string list" where
  "previous_keys = [''transitionId'', ''updateVersion'', ''score'', ''band'', ''recoveryStreak'', ''temporalState'']"

definition record_transition_sql :: string where
  "record_transition_sql =
     ''SELECT * FROM trust.record_subject_trust_transition($1, $2, $3, $4, $5, $6, $7, $8, $9, $10, $11, $12, $13, $14, $15, $16, $17, $18, $19, $20, $21, $22::jsonb, $23, $24, $25, $26)''"

definition event_band_mapping :: js where
  "event_band_mapping = obj [(''low'', JStr ''restricted''), (''medium'', JStr ''conditional''), (''high'', JStr ''trusted'')]"

definition trust_explanation_policy :: js where
  "trust_explanation_policy =
     obj [(''canonicalization'', JStr ''tenant-trust-json-v1''), (''digest'', JStr ''sha256''),
          (''componentOrder'', JArr (map JStr trust_component_ids)), (''eventType'', JStr ''trust.updated.v1''),
          (''eventBandMapping'', event_band_mapping)]"

text \<open>\<open>canonicalValue\<close>; what is neither a plain object nor a JSON value has no text.\<close>

function canonical_value :: "js \<Rightarrow> string res" where
  "canonical_value JNull = Inr ''null''"
| "canonical_value (JBool b) = Inr (if b then ''true'' else ''false'')"
| "canonical_value (JStr s) = Inr (json_string s)"
| "canonical_value (JNum n) = (case n of Fin x \<Rightarrow> Inr (rat_to_string x) | _ \<Rightarrow> explain_fail ''CANONICAL_CONTENT_INVALID'')"
| "canonical_value (JArr vs) = and_then (map_res canonical_value vs) (\<lambda>ts. Inr (''['' @ join '','' ts @ '']''))"
| "canonical_value (JObj p fs) =
     (if p = OtherProto then explain_fail ''CANONICAL_CONTENT_INVALID''
      else and_then (map_res (\<lambda>f. and_then (canonical_value (snd f)) (\<lambda>t. Inr (json_string (fst f) @ '':'' @ t))) (sorted_fields fs))
        (\<lambda>ts. Inr (''{'' @ join '','' ts @ ''}'')))"
| "canonical_value (JDate d) = explain_fail ''CANONICAL_CONTENT_INVALID''"
| "canonical_value JUndef = explain_fail ''CANONICAL_CONTENT_INVALID''"
| "canonical_value (JFun f) = explain_fail ''CANONICAL_CONTENT_INVALID''"
  by pat_completeness auto
termination
proof (relation "measure size", goal_cases)
  case (2 vs x)
  then show ?case using size_list_estimation'[of x vs "size x" size] by simp
next
  case (3 p fs f)
  then show ?case using sorted_fields_size[of "fst f" "snd f" fs p] by simp
qed simp

text \<open>Where it is defined it is the canonical JSON of the other modules.\<close>

lemma map_res_Inr_cong:
  assumes "map_res f xs = Inr ys" "\<And>x y. x \<in> set xs \<Longrightarrow> f x = Inr y \<Longrightarrow> g x = Inr y"
  shows "map_res g xs = Inr ys"
  using assms by (induction xs arbitrary: ys) auto

lemma canonical_value_json: "canonical_value v = Inr t \<Longrightarrow> canonical_json bad v = Inr t"
proof (induction v arbitrary: t rule: canonical_value.induct)
  case (5 vs)
  then obtain ts where ts: "map_res canonical_value vs = Inr ts" "t = ''['' @ join '','' ts @ '']''" by auto
  have "map_res (canonical_json bad) vs = Inr ts" using 5(1) by (intro map_res_Inr_cong[OF ts(1)])
  then show ?case using ts(2) by simp
next
  case (6 p fs)
  then obtain ts where p: "p \<noteq> OtherProto"
    and ts: "map_res (\<lambda>f. and_then (canonical_value (snd f)) (\<lambda>t. Inr (json_string (fst f) @ '':'' @ t))) (sorted_fields fs) = Inr ts"
    and t: "t = ''{'' @ join '','' ts @ ''}''"
    by (auto simp: explain_fail_def split: if_splits)
  have "map_res (\<lambda>f. and_then (canonical_json bad (snd f)) (\<lambda>t. Inr (json_string (fst f) @ '':'' @ t))) (sorted_fields fs) = Inr ts"
    using 6(1)[OF p] by (intro map_res_Inr_cong[OF ts]) auto
  then show ?case using t by simp
qed (auto simp: explain_fail_def split: js_num.splits)

section \<open>Inputs\<close>

definition normalize_producer :: "js \<Rightarrow> js res" where
  "normalize_producer v =
     (if \<not> is_plain_object v \<or> length (keys v) \<noteq> 2
         \<or> \<not> re_test_or_empty is_producer_service (get v ''service'')
         \<or> \<not> is_string (get v ''instanceId'')
         \<or> length (str_of (get v ''instanceId'')) < 1 \<or> 128 < length (str_of (get v ''instanceId''))
      then explain_fail ''TRUST_EVENT_PRODUCER_INVALID''
      else Inr (obj [(''service'', get v ''service''), (''instanceId'', get v ''instanceId'')]))"

record explanation_configuration =
  ex_model :: model_configuration
  ex_version :: js
  ex_temporal :: temporal_configuration

definition temporal_input :: "temporal_configuration \<Rightarrow> js" where
  "temporal_input c =
     obj [(''initialScore'', num (initial_score c)), (''smoothingAlpha'', num (smoothing_alpha c)),
          (''staleAfterSeconds'', num (stale_after_seconds c))]"

definition normalize_configuration :: "js \<Rightarrow> explanation_configuration res" where
  "normalize_configuration v =
     (if \<not> has_exact_keys v configuration_keys \<or> \<not> re_test_or_empty is_model_version (get v ''modelVersion'')
         \<or> \<not> safe_integer_from 1 (get v ''configurationVersion'')
      then explain_fail ''TRUST_CONFIGURATION_INVALID''
      else catch
        (and_then (define_trust_model_configuration
            (obj [(''modelVersion'', get v ''modelVersion''), (''weights'', get v ''weights'')])) (\<lambda>model.
         and_then (define_temporal_trust_configuration
            (obj [(''initialScore'', get v ''initialScore''), (''smoothingAlpha'', get v ''smoothingAlpha''),
                  (''staleAfterSeconds'', get v ''staleAfterSeconds'')])) (\<lambda>temporal.
         Inr \<lparr> ex_model = model, ex_version = get v ''configurationVersion'', ex_temporal = temporal \<rparr>)))
        (\<lambda>_. explain_fail ''TRUST_CONFIGURATION_INVALID''))"

definition explained_reference :: "js \<Rightarrow> js res" where
  "explained_reference v =
     (if \<not> has_exact_keys v [''evidenceId'', ''sourceEventId'', ''evidenceType'']
         \<or> \<not> re_test_or_empty (is_id ''evd'') (get v ''evidenceId'')
         \<or> \<not> re_test_or_empty (is_id ''evt'') (get v ''sourceEventId'')
         \<or> \<not> one_of trust_component_ids (get v ''evidenceType'')
      then explain_fail ''EVIDENCE_REFERENCE_SET_INVALID'' else Inr (spread v []))"

definition normalize_references :: "js \<Rightarrow> js list res" where
  "normalize_references v =
     (if \<not> is_array v \<or> length (elements v) \<noteq> length trust_component_ids
      then explain_fail ''EVIDENCE_REFERENCE_SET_INVALID''
      else and_then (map_res explained_reference (elements v)) (\<lambda>refs.
        if \<not> all_different ''evidenceType'' refs (length refs) \<or> \<not> all_different ''evidenceId'' refs (length refs)
           \<or> \<not> all_different ''sourceEventId'' refs (length refs)
        then explain_fail ''EVIDENCE_REFERENCE_SET_INVALID'' else Inr (map (by_type refs) trust_component_ids)))"

text \<open>The score, band and streak of a transition, as the controls take them.\<close>

definition control_input :: "js \<Rightarrow> js" where
  "control_input v = obj [(''score'', get v ''score''), (''band'', get v ''band''), (''recoveryStreak'', get v ''recoveryStreak'')]"

definition probe_source :: js where
  "probe_source =
     obj [(''sourceId'', JStr ''src_00000000-0000-4000-8000-000000000000''), (''maximumInfluence'', num 1),
          (''corroboratingSourceIds'', JArr [])]"

text \<open>The previous transition must be one that both calculators accept; their results are dropped here.\<close>

definition previous_accepted :: "(rat \<Rightarrow> rat) \<Rightarrow> js \<Rightarrow> temporal_configuration \<Rightarrow> js \<Rightarrow> unit res" where
  "previous_accepted pow2 v c evaluated =
     and_then (advance_smoothed_trust_score pow2 (temporal_input c) (get v ''temporalState'') JNull evaluated) (\<lambda>_.
     and_then (apply_trust_transition_controls (control_input v) (get v ''score'') probe_source JUndef) (\<lambda>_. Inr ()))"

definition normalize_previous :: "(rat \<Rightarrow> rat) \<Rightarrow> js \<Rightarrow> temporal_configuration \<Rightarrow> rat \<Rightarrow> js \<Rightarrow> js option res" where
  "normalize_previous pow2 v c version evaluated =
     (if nullish v then Inr None
      else if \<not> has_exact_keys v previous_keys \<or> \<not> re_test_or_empty (is_id ''trn'') (get v ''transitionId'')
         \<or> \<not> safe_integer_from 1 (get v ''updateVersion'') \<or> version \<le> num_of (get v ''updateVersion'')
         \<or> \<not> number_between 0 100 (get v ''score'') \<or> \<not> one_of internal_bands (get v ''band'')
         \<or> \<not> safe_integer_from 0 (get v ''recoveryStreak'') \<or> \<not> is_plain_object (get v ''temporalState'')
         \<or> \<not> strict_eq (get (get v ''temporalState'') ''score'') (get v ''score'')
      then explain_fail ''PREVIOUS_TRANSITION_INVALID''
      else catch (and_then (previous_accepted pow2 v c evaluated) (\<lambda>_. Inr (Some v)))
             (\<lambda>_. explain_fail ''PREVIOUS_TRANSITION_INVALID''))"

section \<open>What the calculators report\<close>

definition or_null :: "rat option \<Rightarrow> js" where
  "or_null x = (case x of None \<Rightarrow> JNull | Some r \<Rightarrow> num r)"

fun phase_id :: "smoothing_phase \<Rightarrow> string" where
  "phase_id ColdStart = ''cold-start''"
| "phase_id Initialized = ''initialized''"
| "phase_id Updated = ''updated''"
| "phase_id Held = ''held''"
| "phase_id Decayed = ''decayed''"

fun status_id :: "observation_status \<Rightarrow> string" where
  "status_id ObservationMissing = ''missing''"
| "status_id ObservationStale = ''stale''"
| "status_id ObservationFresh = ''fresh''"

fun calculation_value :: "smoothing_calculation \<Rightarrow> js" where
  "calculation_value (Ewa p x a kept age) =
     obj [(''kind'', JStr ''ewa''), (''priorScore'', num p), (''observationScore'', num x), (''alpha'', num a),
          (''retainedWeight'', num kept), (''observationAgeSeconds'', or_null age)]"
| "calculation_value (InitialScore s age) =
     obj [(''kind'', JStr ''initial-score''), (''initialScore'', num s), (''observationAgeSeconds'', or_null age)]"
| "calculation_value (HoldScore since limit age) =
     obj [(''kind'', JStr ''hold''), (''ageSinceFreshSeconds'', num since), (''staleAfterSeconds'', num limit),
          (''observationAgeSeconds'', or_null age)]"
| "calculation_value (ExponentialDecay b anchor since beyond half factor age) =
     obj [(''kind'', JStr ''exponential-decay''), (''baselineScore'', num b), (''anchorScore'', num anchor),
          (''ageSinceFreshSeconds'', num since), (''elapsedBeyondStaleSeconds'', num beyond),
          (''halfLifeSeconds'', num half), (''retentionFactor'', num factor), (''observationAgeSeconds'', or_null age)]"

definition temporal_smoothing_policy :: js where
  "temporal_smoothing_policy =
     obj [(''method'', JStr ''exponentially-weighted-average''), (''coldStart'', JStr ''configured-initial-score''),
          (''missingBeforeStale'', JStr ''hold''), (''staleHandling'', JStr ''withhold-observation''),
          (''decayMethod'', JStr ''exponential-toward-conservative-baseline''),
          (''decayHalfLife'', JStr ''stale-after-seconds''), (''scoreDecimalPlaces'', num 2), (''roundingMode'', JStr ''half-up'')]"

definition weighted_score_rounding :: js where
  "weighted_score_rounding =
     obj [(''scoreDecimalPlaces'', num 2), (''contributionDecimalPlaces'', num 6), (''mode'', JStr ''half-up'')]"

definition normalized_component_range :: js where
  "normalized_component_range =
     obj [(''minimum'', num normalized_minimum), (''maximum'', num normalized_maximum), (''direction'', JStr ''higher-is-more-trusted'')]"

definition weighted_score_normalization :: js where
  "weighted_score_normalization = obj [(''method'', JStr ''identity''), (''range'', normalized_component_range)]"

fun transition_kind_id :: "transition_kind \<Rightarrow> string" where
  "transition_kind_id CriticalOverride = ''critical-override''"
| "transition_kind_id Deteriorated = ''deteriorated''"
| "transition_kind_id Recovered = ''recovered''"
| "transition_kind_id HeldBand = ''held''"

definition influence_value :: "influence_report \<Rightarrow> js" where
  "influence_value i =
     obj [(''sourceId'', reported_source i), (''maximumInfluence'', num (reported_influence i)),
          (''maximumDeltaPoints'', num (maximum_delta_points i)), (''requestedDelta'', num (requested_delta i)),
          (''appliedDelta'', JNum (applied_delta i)), (''capped'', JBool (capped i)),
          (''bypassedForCriticalDeterioration'', JBool (bypassed_for_critical i))]"

definition recovery_value :: "recovery_report \<Rightarrow> js" where
  "recovery_value r =
     obj [(''eligible'', JBool (recovery_eligible r)), (''distinctSourceCount'', num (of_nat (distinct_source_count r))),
          (''requiredDistinctSourceCount'', num (of_nat (required_distinct_sources r))),
          (''qualifyingStreak'', num (of_int (qualifying_streak r))), (''requiredQualifyingStreak'', num (of_int (required_streak r)))]"

definition override_value :: "override_report option \<Rightarrow> js" where
  "override_value x =
     (case x of None \<Rightarrow> JNull
      | Some o_report \<Rightarrow> obj [(''kind'', override_kind o_report), (''componentId'', override_component o_report),
          (''scoreCeiling'', override_ceiling o_report), (''forcedBand'', override_band o_report)])"

definition trust_transition_control_policy :: js where
  "trust_transition_control_policy =
     obj [(''bandSemantics'', JStr ''policy-input-not-authorization-outcome''),
          (''deterioration'', JStr ''immediate-at-lower-threshold-with-multi-band-drop''),
          (''recovery'', JStr ''consecutive-corroborated-evaluations-one-band-at-a-time''),
          (''sourceInfluence'', JStr ''accepted-receipt-cap-bounds-absolute-score-delta''),
          (''criticalEvidence'', JStr ''closed-negative-only-overrides-bypass-cap-downward''),
          (''scoreDecimalPlaces'', num 2), (''roundingMode'', JStr ''half-up'')]"

definition transition_configuration_value :: js where
  "transition_configuration_value =
     obj [(''bands'', obj
            [(''low'', obj [(''minimum'', num 0), (''baseMaximumExclusive'', num (low_base_maximum cfg)),
                (''recoveryThreshold'', num (low_recovery cfg))]),
             (''medium'', obj [(''minimum'', num 40), (''baseMaximumExclusive'', num (medium_base_maximum cfg)),
                (''deteriorationThreshold'', num (medium_deterioration cfg)), (''recoveryThreshold'', num (medium_recovery cfg))]),
             (''high'', obj [(''minimum'', num 70), (''maximum'', num 100), (''deteriorationThreshold'', num (high_deterioration cfg))])]),
          (''recovery'', obj
            [(''consecutiveQualifyingEvaluations'', num (of_int (consecutive_qualifying_evaluations cfg))),
             (''distinctSourceCount'', num (of_nat (required_source_count cfg))), (''maximumBandAdvancePerEvaluation'', num 1)]),
          (''sourceInfluence'', obj
            [(''interpretation'', JStr ''maximum-absolute-score-delta-fraction''), (''scoreRange'', num (score_range_points cfg))])]"

section \<open>The calculation\<close>

record transition_calculation =
  tc_weighted :: weighted_score
  tc_temporal :: smoothing_result
  tc_controlled :: control_result

definition previous_control_state :: "js option \<Rightarrow> temporal_configuration \<Rightarrow> js res" where
  "previous_control_state previous c =
     (case previous of
        Some v \<Rightarrow> Inr (control_input v)
      | None \<Rightarrow> and_then (initialize_trust_control_state (num (initial_score c))) (\<lambda>s. Inr (state_value s)))"

definition calculate_transition ::
  "(rat \<Rightarrow> rat) \<Rightarrow> explanation_configuration \<Rightarrow> js \<Rightarrow> js option \<Rightarrow> js \<Rightarrow> transition_calculation res" where
  "calculate_transition pow2 c input previous evaluated =
     catch
      (and_then (calculate_weighted_trust_score (get input ''components'') (configuration_value (ex_model c))) (\<lambda>weighted.
       and_then (advance_smoothed_trust_score pow2 (temporal_input (ex_temporal c))
           (case previous of None \<Rightarrow> JNull | Some v \<Rightarrow> get v ''temporalState'')
           (obj [(''score'', num (weighted_value weighted)), (''observedAt'', get input ''observedAt'')]) evaluated) (\<lambda>temporal.
       and_then (previous_control_state previous (ex_temporal c)) (\<lambda>state.
       and_then (apply_trust_transition_controls state (num (smoothed_score temporal))
           (get input ''source'') (get input ''criticalEvidence'')) (\<lambda>controlled.
         Inr \<lparr> tc_weighted = weighted, tc_temporal = temporal, tc_controlled = controlled \<rparr>)))))
      (\<lambda>_. explain_fail ''TRUST_CALCULATION_INVALID'')"

text \<open>The references are those of \<open>normalizeReferences\<close>: one for each component.\<close>

definition contribution_records :: "weighted_score \<Rightarrow> js list \<Rightarrow> js list" where
  "contribution_records weighted refs =
     map (\<lambda>k. let c = the (map_of (score_contributions weighted) k) in
       obj [(''componentId'', JStr k), (''normalizedValue'', num (normalized_value c)), (''weight'', num (contribution_weight c)),
            (''weightedContribution'', num (weighted_contribution c)),
            (''evidenceId'', get (by_type refs k) ''evidenceId''), (''sourceEventId'', get (by_type refs k) ''sourceEventId'')])
      trust_component_ids"

definition previous_state :: "js option \<Rightarrow> explanation_configuration \<Rightarrow> js" where
  "previous_state previous c =
     (case previous of
        Some v \<Rightarrow> obj (map (\<lambda>k. (k, get v k)) previous_keys)
      | None \<Rightarrow> obj [(''transitionId'', JNull), (''updateVersion'', JNull), (''score'', num (initial_score (ex_temporal c))),
          (''band'', JStr ''uninitialized''), (''recoveryStreak'', num 0), (''temporalState'', JNull)])"

definition new_state :: "transition_calculation \<Rightarrow> js" where
  "new_state t =
     obj [(''score'', JNum (result_score (tc_controlled t))), (''band'', result_band (tc_controlled t)),
          (''recoveryStreak'', num (of_int (result_streak (tc_controlled t)))),
          (''temporalState'', temporal_state_value (smoothing_state (tc_temporal t)))]"

definition external_band :: "js \<Rightarrow> js" where
  "external_band b = get event_band_mapping (to_string b)"

section \<open>Explanation, event and record\<close>

definition transition_explanation ::
  "js \<Rightarrow> js \<Rightarrow> js \<Rightarrow> explanation_configuration \<Rightarrow> js option \<Rightarrow> js list \<Rightarrow> transition_calculation \<Rightarrow> js" where
  "transition_explanation transition_id evaluated input c previous refs t =
     (let weighted = tc_weighted t; temporal = tc_temporal t; controlled = tc_controlled t in
      obj [(''schemaVersion'', JStr ''1.0.0''), (''transitionId'', transition_id), (''tenantId'', get input ''tenantId''),
        (''subjectId'', get input ''subjectId''), (''updateVersion'', get input ''updateVersion''),
        (''modelVersion'', JStr (model_version (ex_model c))), (''configurationVersion'', ex_version c),
        (''observedAt'', get input ''observedAt''), (''evaluatedAt'', evaluated),
        (''previousState'', previous_state previous c), (''newState'', new_state t), (''evidenceReferences'', JArr refs),
        (''weightedCalculation'', obj
          [(''method'', JStr ''weighted-arithmetic-mean''), (''score'', num (weighted_value weighted)),
           (''normalization'', weighted_score_normalization), (''rounding'', weighted_score_rounding),
           (''contributions'', JArr (contribution_records weighted refs))]),
        (''temporalCalculation'', obj
          [(''phase'', JStr (phase_id (smoothing_phase temporal))),
           (''observationStatus'', JStr (status_id (smoothing_observation_status temporal))),
           (''score'', num (smoothed_score temporal)), (''calculation'', calculation_value (smoothing_calculation temporal)),
           (''policy'', temporal_smoothing_policy)]),
        (''transitionControl'', obj
          [(''transition'', JStr (transition_kind_id (result_transition controlled))),
           (''sourceInfluence'', influence_value (result_influence controlled)),
           (''recovery'', recovery_value (result_recovery controlled)),
           (''criticalOverride'', override_value (result_override controlled)),
           (''policy'', trust_transition_control_policy), (''configuration'', transition_configuration_value)]),
        (''policy'', trust_explanation_policy)])"

definition transition_event ::
  "js \<Rightarrow> js \<Rightarrow> js \<Rightarrow> js \<Rightarrow> js \<Rightarrow> explanation_configuration \<Rightarrow> js option \<Rightarrow> js list \<Rightarrow> transition_calculation \<Rightarrow> string \<Rightarrow> js" where
  "transition_event transition_id event_id producer evaluated input c previous refs t digest =
     (let before = previous_state previous c; after = new_state t in
      obj [(''schemaVersion'', JStr ''1.0.0''), (''eventId'', event_id), (''eventType'', JStr ''trust.updated.v1''),
        (''tenantId'', get input ''tenantId''), (''subjectId'', get input ''subjectId''), (''aggregateId'', transition_id),
        (''correlationId'', get input ''correlationId''), (''causationId'', get input ''causationId''),
        (''idempotencyKey'', JStr (''trust-transition:'' @ to_string transition_id)),
        (''occurredAt'', evaluated), (''recordedAt'', evaluated), (''producer'', producer),
        (''payload'', obj
          [(''transitionId'', transition_id), (''previousScore'', get before ''score''), (''newScore'', get after ''score''),
           (''previousBand'', if get before ''band'' = JStr ''uninitialized'' then JStr ''uninitialized''
                              else external_band (get before ''band'')),
           (''newBand'', external_band (get after ''band'')), (''modelVersion'', JStr (model_version (ex_model c))),
           (''configurationVersion'', ex_version c), (''evidenceIds'', JArr (map (\<lambda>r. get r ''evidenceId'') refs)),
           (''explanationHashSha256'', JStr digest)])])"

record transition_record =
  tr_transition :: js
  tr_event_id :: js
  tr_tenant :: js
  tr_subject :: js
  tr_version :: js
  tr_previous_id :: js
  tr_previous_state :: js
  tr_new_state :: js
  tr_weighted :: rat
  tr_smoothed :: rat
  tr_kind :: transition_kind
  tr_observed :: js
  tr_evaluated :: js
  tr_model :: string
  tr_configuration :: js
  tr_contributions :: "js list"
  tr_explanation :: js
  tr_explanation_text :: string
  tr_explanation_hash :: string
  tr_event :: js
  tr_event_text :: string
  tr_event_hash :: string

definition assemble_record ::
  "(string \<Rightarrow> string) \<Rightarrow> js \<Rightarrow> js \<Rightarrow> js \<Rightarrow> js \<Rightarrow> js \<Rightarrow> explanation_configuration \<Rightarrow> js option \<Rightarrow> js list \<Rightarrow> transition_calculation
    \<Rightarrow> transition_record res" where
  "assemble_record sha transition_id event_id producer evaluated input c previous refs t =
     (let explanation = transition_explanation transition_id evaluated input c previous refs t in
      and_then (canonical_value explanation) (\<lambda>explanation_text.
        let digest = sha explanation_text;
            event = transition_event transition_id event_id producer evaluated input c previous refs t digest in
        and_then (canonical_value event) (\<lambda>event_text.
          Inr \<lparr> tr_transition = transition_id, tr_event_id = event_id, tr_tenant = get input ''tenantId'',
                tr_subject = get input ''subjectId'', tr_version = get input ''updateVersion'',
                tr_previous_id = get (previous_state previous c) ''transitionId'', tr_previous_state = previous_state previous c,
                tr_new_state = new_state t, tr_weighted = weighted_value (tc_weighted t),
                tr_smoothed = smoothed_score (tc_temporal t), tr_kind = result_transition (tc_controlled t),
                tr_observed = get input ''observedAt'', tr_evaluated = evaluated, tr_model = model_version (ex_model c),
                tr_configuration = ex_version c, tr_contributions = contribution_records (tc_weighted t) refs,
                tr_explanation = explanation, tr_explanation_text = explanation_text, tr_explanation_hash = digest,
                tr_event = event, tr_event_text = event_text, tr_event_hash = sha event_text \<rparr>)))"

definition transition_input_valid :: "js \<Rightarrow> bool" where
  "transition_input_valid v \<longleftrightarrow>
     has_exact_keys v input_keys \<and> re_test_or_empty (is_id ''tnt'') (get v ''tenantId'')
     \<and> re_test_or_empty (is_id ''sub'') (get v ''subjectId'') \<and> safe_integer_from 1 (get v ''updateVersion'')
     \<and> re_test_or_empty (is_id ''cor'') (get v ''correlationId'') \<and> re_test_or_empty (is_id ''evt'') (get v ''causationId'')"

definition build_transition_explanation ::
  "(string \<Rightarrow> string) \<Rightarrow> (rat \<Rightarrow> rat) \<Rightarrow> js \<Rightarrow> js \<Rightarrow> js \<Rightarrow> js \<Rightarrow> js \<Rightarrow> js \<Rightarrow> transition_record res" where
  "build_transition_explanation sha pow2 transition_id event_id producer_value evaluated input previous_value =
     (if \<not> re_test_or_empty (is_id ''trn'') transition_id \<or> \<not> re_test_or_empty (is_id ''evt'') event_id
      then explain_fail ''TRUST_TRANSITION_IDENTITY_INVALID''
      else if \<not> transition_input_valid input then explain_fail ''TRUST_TRANSITION_INPUT_INVALID''
      else if \<not> canonical_utc evaluated then explain_fail ''TRUST_EVALUATION_TIME_INVALID''
      else if \<not> canonical_utc (get input ''observedAt'') \<or> parse_time evaluated < parse_time (get input ''observedAt'')
      then explain_fail ''TRUST_OBSERVATION_TIME_INVALID''
      else and_then (normalize_producer producer_value) (\<lambda>producer.
           and_then (normalize_configuration (get input ''configuration'')) (\<lambda>c.
           and_then (normalize_references (get input ''evidenceReferences'')) (\<lambda>refs.
             if \<not> list_ex (\<lambda>r. strict_eq (get r ''sourceEventId'') (get input ''causationId'')) refs
             then explain_fail ''TRUST_CAUSATION_INVALID''
             else and_then (normalize_previous pow2 previous_value (ex_temporal c) (num_of (get input ''updateVersion'')) evaluated) (\<lambda>previous.
                  and_then (calculate_transition pow2 c input previous evaluated) (\<lambda>t.
                    assemble_record sha transition_id event_id producer evaluated input c previous refs t))))))"

section \<open>Repository and service\<close>

definition transition_confirmation :: "(js \<Rightarrow> int option) \<Rightarrow> js \<Rightarrow> js res" where
  "transition_confirmation pd row =
     and_then (iso_string pd (get row ''recorded_at'')) (\<lambda>recorded.
       Inr (obj [(''tenantId'', get row ''tenant_id''), (''subjectId'', get row ''subject_id''), (''transitionId'', get row ''transition_id''),
         (''eventId'', get row ''event_id''), (''updateVersion'', js_number (get row ''update_version'')),
         (''explanationHashSha256'', get row ''explanation_hash_sha256''), (''eventSha256'', get row ''event_sha256''),
         (''recordedAt'', recorded)]))"

definition map_transition_confirmation :: "(js \<Rightarrow> int option) \<Rightarrow> js \<Rightarrow> transition_record \<Rightarrow> js res" where
  "map_transition_confirmation pd row r =
     and_then (transition_confirmation pd row) (\<lambda>c.
       if \<not> strict_eq (get c ''tenantId'') (tr_tenant r) \<or> \<not> strict_eq (get c ''subjectId'') (tr_subject r)
          \<or> \<not> strict_eq (get c ''transitionId'') (tr_transition r) \<or> \<not> strict_eq (get c ''eventId'') (tr_event_id r)
          \<or> \<not> strict_eq (get c ''updateVersion'') (tr_version r)
          \<or> get c ''explanationHashSha256'' \<noteq> JStr (tr_explanation_hash r) \<or> get c ''eventSha256'' \<noteq> JStr (tr_event_hash r)
          \<or> time_of (get c ''recordedAt'') = None
       then explain_fail ''TRUST_TRANSITION_CONFIRMATION_INVALID'' else Inr c)"

definition record_parameters :: "transition_record \<Rightarrow> js list" where
  "record_parameters r =
     [tr_tenant r, tr_subject r, tr_transition r, tr_event_id r, get (tr_event r) ''correlationId'', get (tr_event r) ''causationId'',
      tr_version r, tr_previous_id r, get (tr_previous_state r) ''score'', get (tr_previous_state r) ''band'',
      get (tr_previous_state r) ''recoveryStreak'', get (tr_new_state r) ''score'', get (tr_new_state r) ''band'',
      get (tr_new_state r) ''recoveryStreak'', num (tr_weighted r), num (tr_smoothed r), JStr (transition_kind_id (tr_kind r)),
      tr_observed r, tr_evaluated r, JStr (tr_model r), tr_configuration r, JStr (the (json_stringify (JArr (tr_contributions r)))),
      JStr (tr_explanation_text r), JStr (tr_explanation_hash r), JStr (tr_event_text r), JStr (tr_event_hash r)]"

definition store_transition :: "'w db \<Rightarrow> (js \<Rightarrow> int option) \<Rightarrow> transition_record \<Rightarrow> ('w, js) act" where
  "store_transition db pd r =
     in_role db trust_engine (\<lambda>query.
       act_bind (query record_transition_sql (record_parameters r)) (\<lambda>result.
         act_res (and_then (one_row (Thrown TrustTransitionExplanationError ''TRUST_TRANSITION_CONFIRMATION_INVALID'') result)
           (\<lambda>row. map_transition_confirmation pd row r))))"

text \<open>The service; the result is the record with the confirmation.\<close>

definition record_transition ::
  "'w env \<Rightarrow> (string \<Rightarrow> string) \<Rightarrow> (rat \<Rightarrow> rat) \<Rightarrow> (transition_record \<Rightarrow> ('w, js) act) \<Rightarrow> js \<Rightarrow> js \<Rightarrow> js
    \<Rightarrow> ('w, transition_record \<times> js) act" where
  "record_transition E sha pow2 repository producer input previous =
     act_bind (env_clock E) (\<lambda>now.
       case now of
         JDate (Some t) \<Rightarrow>
           act_bind (env_id E) (\<lambda>i. act_bind (env_id E) (\<lambda>j.
             act_bind (act_res (build_transition_explanation sha pow2 (JStr (''trn_'' @ to_string i)) (JStr (''evt_'' @ to_string j))
                 producer (JStr (time_to_iso t)) input previous)) (\<lambda>r.
               act_bind (repository r) (\<lambda>persisted. act_res (Inr (r, persisted))))))
       | _ \<Rightarrow> act_fail (Thrown TrustTransitionExplanationError ''TRUST_EVALUATION_TIME_INVALID''))"

definition transition_service ::
  "'w env \<Rightarrow> (string \<Rightarrow> string) \<Rightarrow> (rat \<Rightarrow> rat) \<Rightarrow> (transition_record \<Rightarrow> ('w, js) act) \<Rightarrow> js
    \<Rightarrow> (js \<Rightarrow> js \<Rightarrow> ('w, transition_record \<times> js) act) res" where
  "transition_service E sha pow2 repository producer =
     and_then (normalize_producer producer) (\<lambda>p. Inr (record_transition E sha pow2 repository p))"

section \<open>Properties\<close>

lemma canonical_member:
  assumes "canonical_value (JObj p fs) = Inr t" "own fs k = Some v"
  shows "\<exists>u. canonical_value v = Inr u"
proof -
  obtain ts where ts: "map_res (\<lambda>f. and_then (canonical_value (snd f)) (\<lambda>t. Inr (json_string (fst f) @ '':'' @ t))) (sorted_fields fs) = Inr ts"
    using assms(1) by (auto simp: explain_fail_def split: if_splits)
  have "(k, v) \<in> set (sorted_fields fs)"
    using assms(2) own_mem[OF assms(2)] by (force simp: sorted_fields_def)
  then obtain i where "i < length (sorted_fields fs)" "sorted_fields fs ! i = (k, v)" by (meson in_set_conv_nth)
  then have "\<exists>y. and_then (canonical_value v) (\<lambda>t. Inr (json_string k @ '':'' @ t)) = Inr y" using map_res_nth[OF ts] by fastforce
  then show ?thesis by auto
qed

text \<open>Finite numbers, strings and what is built of them have a text.\<close>

fun jsonable :: "js \<Rightarrow> bool" where
  "jsonable JNull = True"
| "jsonable (JBool b) = True"
| "jsonable (JStr s) = True"
| "jsonable (JNum n) = (case n of Fin x \<Rightarrow> True | _ \<Rightarrow> False)"
| "jsonable (JArr vs) = list_all jsonable vs"
| "jsonable (JObj p fs) = (p \<noteq> OtherProto \<and> list_all (\<lambda>(k, v). jsonable v) fs)"
| "jsonable (JDate d) = False"
| "jsonable JUndef = False"
| "jsonable (JFun f) = False"

lemma map_res_total: "(\<And>x. x \<in> set xs \<Longrightarrow> \<exists>y. f x = Inr y) \<Longrightarrow> \<exists>ys. map_res f xs = Inr ys"
  by (induction xs) (force simp: res_simps)+

lemma canonical_total: "jsonable v \<Longrightarrow> \<exists>t. canonical_value v = Inr t"
proof (induction v rule: canonical_value.induct)
  case (5 vs)
  then have "\<exists>ts. map_res canonical_value vs = Inr ts" by (intro map_res_total) (auto simp: list_all_iff)
  then show ?case by auto
next
  case (6 p fs)
  have "\<exists>ts. map_res (\<lambda>f. and_then (canonical_value (snd f)) (\<lambda>t. Inr (json_string (fst f) @ '':'' @ t))) (sorted_fields fs) = Inr ts"
  proof (rule map_res_total)
    fix f assume f: "f \<in> set (sorted_fields fs)"
    then have "jsonable (snd f)" using sorted_fields_mem[of "fst f" "snd f" fs] 6(2) by (fastforce simp: list_all_iff)
    then show "\<exists>y. and_then (canonical_value (snd f)) (\<lambda>t. Inr (json_string (fst f) @ '':'' @ t)) = Inr y" using 6(1)[OF _ f] 6(2) by auto
  qed
  then show ?case using 6(2) by auto
qed (auto split: js_num.splits)

lemma advance_score:
  assumes "advance_smoothed_trust_score pow2 configuration previous observation evaluated = Inr r"
  shows "temporal_score (smoothing_state r) = smoothed_score r"
proof -
  obtain c p ob age status e where
    "if status = ObservationFresh then advance_fresh c p (the ob) age e = Inr r
     else r = advance_without_fresh pow2 c p ob age status e"
    using assms by (rule advance_cases)
  then show ?thesis
    by (auto simp: advance_fresh_def advance_without_fresh_def smoothing_output_def freeze_state_def smoothing_fail_def Let_def
        split: if_splits option.splits)
qed

text \<open>What a record contains.\<close>

lemma build_steps:
  assumes "build_transition_explanation sha pow2 i e pv ev input prev = Inr r"
  obtains producer c refs p t where "transition_input_valid input" "canonical_utc ev" "re_test_or_empty (is_id ''trn'') i"
    "normalize_configuration (get input ''configuration'') = Inr c"
    "normalize_references (get input ''evidenceReferences'') = Inr refs"
    "list_ex (\<lambda>r. strict_eq (get r ''sourceEventId'') (get input ''causationId'')) refs"
    "normalize_previous pow2 prev (ex_temporal c) (num_of (get input ''updateVersion'')) ev = Inr p"
    "calculate_transition pow2 c input p ev = Inr t"
    "assemble_record sha i e producer ev input c p refs t = Inr r"
  using assms by (auto simp: build_transition_explanation_def explain_fail_def split: if_splits)

lemma assembled:
  assumes "assemble_record sha i e producer ev input c p refs t = Inr r"
  shows "tr_transition r = i" "tr_event_id r = e" "tr_tenant r = get input ''tenantId''" "tr_subject r = get input ''subjectId''"
    "tr_version r = get input ''updateVersion''" "tr_evaluated r = ev" "tr_new_state r = new_state t" "tr_previous_state r = previous_state p c"
    "tr_smoothed r = smoothed_score (tc_temporal t)"
    "tr_explanation r = transition_explanation i ev input c p refs t" "canonical_value (tr_explanation r) = Inr (tr_explanation_text r)"
    "tr_explanation_hash r = sha (tr_explanation_text r)"
    "tr_event r = transition_event i e producer ev input c p refs t (tr_explanation_hash r)"
    "canonical_value (tr_event r) = Inr (tr_event_text r)" "tr_event_hash r = sha (tr_event_text r)"
  using assms by (auto simp: assemble_record_def Let_def)

lemma calculated:
  assumes "calculate_transition pow2 c input p ev = Inr t"
  obtains state where
    "calculate_weighted_trust_score (get input ''components'') (configuration_value (ex_model c)) = Inr (tc_weighted t)"
    "advance_smoothed_trust_score pow2 (temporal_input (ex_temporal c))
        (case p of None \<Rightarrow> JNull | Some v \<Rightarrow> get v ''temporalState'')
        (obj [(''score'', num (weighted_value (tc_weighted t))), (''observedAt'', get input ''observedAt'')]) ev = Inr (tc_temporal t)"
    "previous_control_state p (ex_temporal c) = Inr state"
    "apply_trust_transition_controls state (num (smoothed_score (tc_temporal t))) (get input ''source'') (get input ''criticalEvidence'')
       = Inr (tc_controlled t)"
  using assms by (auto simp: calculate_transition_def explain_fail_def catch_eq_Inr)


text \<open>A kind of critical evidence that the rule table does not own has no text, so no record is built from it.\<close>

lemma explained_override:
  assumes "canonical_value (transition_explanation i ev input c p refs t) = Inr u"
  shows "\<exists>x. canonical_value (override_value (result_override (tc_controlled t))) = Inr x"
proof -
  define control where "control =
          [(''transition'', JStr (transition_kind_id (result_transition (tc_controlled t)))),
           (''sourceInfluence'', influence_value (result_influence (tc_controlled t))),
           (''recovery'', recovery_value (result_recovery (tc_controlled t))),
           (''criticalOverride'', override_value (result_override (tc_controlled t))),
           (''policy'', trust_transition_control_policy), (''configuration'', transition_configuration_value)]"
  have own: "own control ''criticalOverride'' = Some (override_value (result_override (tc_controlled t)))" by (simp add: control_def)
  obtain fs where e: "transition_explanation i ev input c p refs t = obj fs" and fs: "own fs ''transitionControl'' = Some (obj control)"
    unfolding transition_explanation_def Let_def control_def[symmetric] by simp
  obtain y where "canonical_value (obj control) = Inr y" using canonical_member[OF assms[unfolded e] fs] by blast
  from canonical_member[OF this own] show ?thesis .
qed

lemma explained_state_valid:
  assumes "calculate_transition pow2 c input p ev = Inr t"
    and "canonical_value (transition_explanation i ev input c p refs t) = Inr u"
  shows "\<exists>s. valid_control_state s \<and> result_state (tc_controlled t) = state_value s"
proof -
  obtain state where a: "apply_trust_transition_controls state (num (smoothed_score (tc_temporal t))) (get input ''source'')
      (get input ''criticalEvidence'') = Inr (tc_controlled t)"
    using assms(1) by (rule calculated)
  have "get (get input ''criticalEvidence'') ''componentId'' \<noteq> JUndef \<or> nullish (get input ''criticalEvidence'')"
  proof (rule ccontr)
    assume no: "\<not> ?thesis"
    obtain q s e where e: "normalize_critical_evidence (get input ''criticalEvidence'') = Inr e"
      and r: "tc_controlled t = evaluate_controls q (num_of (num (smoothed_score (tc_temporal t)))) s e"
      using a by (rule apply_cases)
    from e no obtain x where x: "e = Some x" "critical_component x = JUndef"
      by (auto simp: normalize_critical_evidence_def control_fail_def Let_def split: if_splits)
    have "\<exists>o'. result_override (tc_controlled t) = Some o' \<and> override_component o' = JUndef"
      unfolding r x(1) by (simp add: evaluate_controls_def critical_result_def Let_def x(2))
    then obtain o' where o': "result_override (tc_controlled t) = Some o'" "override_component o' = JUndef" by blast
    obtain y where "canonical_value (override_value (Some o')) = Inr y" using explained_override[OF assms(2)] o'(1) by auto
    then have "\<exists>z. canonical_value JUndef = Inr z"
      unfolding override_value_def option.case
      by (rule canonical_member[where k = "''componentId''"]) (simp add: o'(2))
    then show False by (simp add: explain_fail_def)
  qed
  then have "\<not> inherited_critical (get input ''criticalEvidence'')" by (auto simp: inherited_critical_def)
  then show ?thesis using evaluate_state[OF a] by simp
qed


lemma event_payload:
  "get (get (transition_event i e producer ev input c p refs t digest) ''payload'') ''newScore'' = get (new_state t) ''score''"
  "get (get (transition_event i e producer ev input c p refs t digest) ''payload'') ''newBand'' = external_band (get (new_state t) ''band'')"
  "get (get (transition_event i e producer ev input c p refs t digest) ''payload'') ''previousScore'' = get (previous_state p c) ''score''"
  "get (get (transition_event i e producer ev input c p refs t digest) ''payload'') ''explanationHashSha256'' = JStr digest"
  by (simp_all add: transition_event_def Let_def)

lemma new_state_control: "control_input (new_state t) = result_state (tc_controlled t)"
  by (simp add: control_input_def new_state_def result_state_def)

fun published_band :: "band \<Rightarrow> string" where
  "published_band Low = ''restricted''"
| "published_band Medium = ''conditional''"
| "published_band High = ''trusted''"

lemma external_band_id: "external_band (JStr (band_id b)) = JStr (published_band b)"
  by (cases b) (simp_all add: external_band_def event_band_mapping_def)

lemma built_transition:
  assumes "build_transition_explanation sha pow2 i e producer ev input prev = Inr r"
  shows "\<exists>c p t s. normalize_configuration (get input ''configuration'') = Inr c
    \<and> normalize_previous pow2 prev (ex_temporal c) (num_of (get input ''updateVersion'')) ev = Inr p
    \<and> calculate_transition pow2 c input p ev = Inr t \<and> tr_new_state r = new_state t \<and> tr_smoothed r = smoothed_score (tc_temporal t)
    \<and> valid_control_state s \<and> result_state (tc_controlled t) = state_value s
    \<and> get (get (tr_event r) ''payload'') ''newScore'' = num (control_score s)
    \<and> get (get (tr_event r) ''payload'') ''newBand'' = JStr (published_band (control_band s))
    \<and> get (get (tr_event r) ''payload'') ''previousScore'' = get (tr_previous_state r) ''score''
    \<and> get (get (tr_event r) ''payload'') ''explanationHashSha256'' = JStr (tr_explanation_hash r)
    \<and> tr_explanation_hash r = sha (tr_explanation_text r) \<and> tr_event_hash r = sha (tr_event_text r)
    \<and> canonical_value (tr_explanation r) = Inr (tr_explanation_text r) \<and> canonical_value (tr_event r) = Inr (tr_event_text r)"
proof -
  obtain pr c refs p t where b: "normalize_configuration (get input ''configuration'') = Inr c"
      "normalize_previous pow2 prev (ex_temporal c) (num_of (get input ''updateVersion'')) ev = Inr p"
      "calculate_transition pow2 c input p ev = Inr t"
    and r: "assemble_record sha i e pr ev input c p refs t = Inr r"
    using assms by (rule build_steps)
  note f = assembled[OF r]
  obtain s where s: "valid_control_state s" "result_state (tc_controlled t) = state_value s"
    using explained_state_valid[OF b(3) f(11)[unfolded f(10)]] by blast
  then have n: "result_score (tc_controlled t) = Fin (control_score s)" "result_band (tc_controlled t) = JStr (band_id (control_band s))"
    by (simp_all add: result_state_def state_value_def)
  have "get (new_state t) ''score'' = num (control_score s)" "get (new_state t) ''band'' = JStr (band_id (control_band s))"
    by (simp_all add: new_state_def n)
  then have ev: "get (get (tr_event r) ''payload'') ''newScore'' = num (control_score s)"
    "get (get (tr_event r) ''payload'') ''newBand'' = JStr (published_band (control_band s))"
    "get (get (tr_event r) ''payload'') ''previousScore'' = get (tr_previous_state r) ''score''"
    "get (get (tr_event r) ''payload'') ''explanationHashSha256'' = JStr (tr_explanation_hash r)"
    unfolding f(8,13) event_payload by (simp_all add: external_band_id)
  show ?thesis
    by (intro exI conjI) (rule b s ev f(7,9,11,12,14,15))+
qed

lemma confirmed_transition:
  assumes "map_transition_confirmation pd row r = Inr c"
  shows "get c ''tenantId'' = tr_tenant r" "get c ''subjectId'' = tr_subject r" "get c ''transitionId'' = tr_transition r"
    "get c ''eventId'' = tr_event_id r" "get c ''updateVersion'' = tr_version r"
    "get c ''explanationHashSha256'' = JStr (tr_explanation_hash r)" "get c ''eventSha256'' = JStr (tr_event_hash r)"
  using assms strict_eq_same by (auto simp: map_transition_confirmation_def explain_fail_def split: if_splits)

lemma recording_steps:
  assumes "record_transition E sha pow2 repository producer input previous w = (w', Inr (r, k))"
  obtains v i e t where "build_transition_explanation sha pow2 i e producer (JStr (time_to_iso t)) input previous = Inr r"
    "repository r v = (w', Inr k)"
proof -
  obtain u now where now: "env_clock E w = (u, Inr now)"
    and run: "(case now of JDate (Some t) \<Rightarrow>
           act_bind (env_id E) (\<lambda>i. act_bind (env_id E) (\<lambda>j.
             act_bind (act_res (build_transition_explanation sha pow2 (JStr (''trn_'' @ to_string i)) (JStr (''evt_'' @ to_string j))
                 producer (JStr (time_to_iso t)) input previous)) (\<lambda>r.
               act_bind (repository r) (\<lambda>persisted. act_res (Inr (r, persisted))))))
       | _ \<Rightarrow> act_fail (Thrown TrustTransitionExplanationError ''TRUST_EVALUATION_TIME_INVALID'')) u = (w', Inr (r, k))"
    using assms unfolding record_transition_def act_bind_Inr by blast
  from run obtain d where d: "now = JDate d" by (cases now) simp_all
  from run obtain t where t: "d = Some t" by (cases d) (simp_all add: d)
  show ?thesis using run that unfolding d t by (auto simp: act_bind_Inr)
qed

text \<open>C31: a recorded transition is what the calculators say, and everything published agrees with it: the new
  state comes from the weighted score, the smoothing and the controls on the inputs of this very call, it is
  valid, whatever critical evidence was claimed; the event carries its score, the public name of its band, the score it replaces and the digest of
  the canonical explanation; and the database committed and confirmed this tenant, subject, version and
  both digests.\<close>

theorem recorded_transition_is_explained:
  assumes "record_transition E sha pow2 (store_transition db pd) producer input previous w = (w', Inr (r, k))"
  shows "\<exists>c p t s u1 u2 u3 result ok. normalize_configuration (get input ''configuration'') = Inr c
    \<and> normalize_previous pow2 previous (ex_temporal c) (num_of (get input ''updateVersion'')) (tr_evaluated r) = Inr p
    \<and> calculate_transition pow2 c input p (tr_evaluated r) = Inr t
    \<and> control_input (tr_new_state r) = state_value s \<and> result_state (tc_controlled t) = state_value s \<and> valid_control_state s
    \<and> get (get (tr_event r) ''payload'') ''newScore'' = num (control_score s)
    \<and> get (get (tr_event r) ''payload'') ''newBand'' = JStr (published_band (control_band s))
    \<and> get (get (tr_event r) ''payload'') ''previousScore'' = get (tr_previous_state r) ''score''
    \<and> get (get (tr_event r) ''payload'') ''explanationHashSha256'' = JStr (sha (tr_explanation_text r))
    \<and> canonical_value (tr_explanation r) = Inr (tr_explanation_text r)
    \<and> db_query db record_transition_sql (record_parameters r) u1 = (u2, Inr result)
    \<and> db_query db ''COMMIT'' [] u2 = (u3, Inr ok) \<and> w' = db_release db u3
    \<and> get k ''tenantId'' = get input ''tenantId'' \<and> get k ''subjectId'' = get input ''subjectId''
    \<and> get k ''updateVersion'' = get input ''updateVersion''
    \<and> get k ''explanationHashSha256'' = JStr (sha (tr_explanation_text r)) \<and> get k ''eventSha256'' = JStr (sha (tr_event_text r))"
proof -
  obtain v i e t where built: "build_transition_explanation sha pow2 i e producer (JStr (time_to_iso t)) input previous = Inr r"
    and stored: "store_transition db pd r v = (w', Inr k)"
    using assms by (rule recording_steps)
  from built have same: "tr_tenant r = get input ''tenantId''" "tr_subject r = get input ''subjectId''" "tr_version r = get input ''updateVersion''"
    "tr_evaluated r = JStr (time_to_iso t)"
    by (auto elim!: build_steps dest: assembled)
  from stored obtain u1 u2 result row ok where q: "db_query db record_transition_sql (record_parameters r) u1 = (u2, Inr result)"
    "map_transition_confirmation pd row r = Inr k" "\<exists>u3. db_query db ''COMMIT'' [] u2 = (u3, Inr ok) \<and> w' = db_release db u3"
    unfolding store_transition_def by (elim in_role_success) (auto simp: act_bind_Inr)
  note k = confirmed_transition[OF q(2)]
  from built_transition[OF built] show ?thesis
    using same k q(1,3) new_state_control by (metis (no_types, lifting))
qed


text \<open>How a caller hands a record back as the previous transition (\<open>previousTransition\<close> of the scenario
  script).\<close>

definition as_previous :: "transition_record \<Rightarrow> js" where
  "as_previous r =
     obj [(''transitionId'', tr_transition r), (''updateVersion'', tr_version r), (''score'', get (tr_new_state r) ''score''),
          (''band'', get (tr_new_state r) ''band''), (''recoveryStreak'', get (tr_new_state r) ''recoveryStreak''),
          (''temporalState'', get (tr_new_state r) ''temporalState'')]"

lemma probe_source_valid: "\<exists>s. normalize_source probe_source = Inr s"
proof -
  have "isl (normalize_source probe_source) = False" by code_simp
  then show ?thesis by (cases "normalize_source probe_source") auto
qed

lemma previous_accepted_again:
  assumes "advance_smoothed_trust_score pow2 (temporal_input c) q obs ev = Inr x" "unit_power pow2"
    and "canonical_utc later" "parse_time ev \<le> parse_time later"
    and "get v ''temporalState'' = temporal_state_value (smoothing_state x)"
    and "control_input v = state_value s" "valid_control_state s"
  shows "previous_accepted pow2 v c later = Inr ()"
proof -
  obtain c' where c': "define_temporal_trust_configuration (temporal_input c) = Inr c'"
      "valid_temporal_state c' (smoothing_state x)" "JStr (last_evaluated_at (smoothing_state x)) = ev"
    using advance_state_valid[OF assms(1,2)] by blast
  have "ms_of (last_evaluated_at (smoothing_state x)) \<le> parse_time later" using c'(3)[symmetric] assms(4) by (simp add: ms_of_def)
  then have n: "normalize_temporal_state (temporal_state_value (smoothing_state x)) c' (parse_time later) = Inr (Some (smoothing_state x))"
    by (rule temporal_state_roundtrip[OF c'(2)])
  have a: "\<exists>y. advance_smoothed_trust_score pow2 (temporal_input c) (get v ''temporalState'') JNull later = Inr y"
    using assms(3) by (simp add: advance_smoothed_trust_score_def c'(1) assms(5) n normalize_observation_def observation_status_def)
  obtain p where p: "normalize_source probe_source = Inr p" using probe_source_valid by blast
  have score: "get v ''score'' = num (control_score s)" using assms(6) by (simp add: control_input_def state_value_def)
  have "\<exists>y. apply_trust_transition_controls (control_input v) (get v ''score'') probe_source JUndef = Inr y"
    using assms(7) p
    by (simp add: apply_trust_transition_controls_def assms(6) previous_state_roundtrip score control_valid_score_def number_between_def
        is_finite_def normalize_critical_evidence_def valid_control_state_def)
  then show ?thesis using a by (auto simp: previous_accepted_def)
qed

text \<open>C32: transitions form a chain exactly while the controls leave the smoothed score alone: under the same
  configuration a record is accepted as the previous transition of a later evaluation if and only if its new score is its smoothed
  score. After a capped source or a critical override the two differ and every later evaluation that is
  given this state is rejected.\<close>

theorem transition_chain_continues_iff_uncapped:
  assumes "build_transition_explanation sha pow2 i e producer ev input prev = Inr r" "unit_power pow2"
    and "normalize_configuration (get input ''configuration'') = Inr c"
    and "num_of (tr_version r) < version" "canonical_utc later" "parse_time ev \<le> parse_time later"
  shows "normalize_previous pow2 (as_previous r) (ex_temporal c) version later =
    (if get (tr_new_state r) ''score'' = num (tr_smoothed r) then Inr (Some (as_previous r))
     else throw TrustTransitionExplanationError ''PREVIOUS_TRANSITION_INVALID'')"
proof -
  obtain pr c' refs p t where v: "transition_input_valid input" and i: "re_test_or_empty (is_id ''trn'') i"
    and b: "normalize_configuration (get input ''configuration'') = Inr c'" "calculate_transition pow2 c' input p ev = Inr t"
    and a: "assemble_record sha i e pr ev input c' p refs t = Inr r"
    using assms(1) by (rule build_steps)
  note f = assembled[OF a]
  have c: "c' = c" using b(1) assms(3) by simp
  obtain s where s: "valid_control_state s" "result_state (tc_controlled t) = state_value s"
    using explained_state_valid[OF b(2) f(11)[unfolded f(10)]] by blast
  then have n: "get (tr_new_state r) ''score'' = num (control_score s)" "get (tr_new_state r) ''band'' = JStr (band_id (control_band s))"
    "get (tr_new_state r) ''recoveryStreak'' = num (of_int (control_streak s))"
    "get (tr_new_state r) ''temporalState'' = temporal_state_value (smoothing_state (tc_temporal t))"
    unfolding f(7) by (simp_all add: new_state_def result_state_def state_value_def)
  obtain q obs where adv: "advance_smoothed_trust_score pow2 (temporal_input (ex_temporal c)) q obs ev = Inr (tc_temporal t)"
    using b(2) unfolding c by (rule calculated)
  have g: "get (as_previous r) ''transitionId'' = i" "get (as_previous r) ''updateVersion'' = tr_version r"
    "get (as_previous r) ''score'' = num (control_score s)" "get (as_previous r) ''band'' = JStr (band_id (control_band s))"
    "get (as_previous r) ''recoveryStreak'' = num (of_int (control_streak s))"
    "get (as_previous r) ''temporalState'' = temporal_state_value (smoothing_state (tc_temporal t))"
    by (simp_all add: as_previous_def n f(1))
  have "control_input (as_previous r) = state_value s" by (simp add: control_input_def g state_value_def)
  from previous_accepted_again[OF adv assms(2,5,6) g(6) this s(1)]
  have ok: "previous_accepted pow2 (as_previous r) (ex_temporal c) later = Inr ()" .
  have shape: "has_exact_keys (as_previous r) previous_keys" "\<not> nullish (as_previous r)"
    by (simp_all add: as_previous_def has_exact_keys_def previous_keys_def)
  have version: "safe_integer_from 1 (tr_version r)" using v by (simp add: f(5) transition_input_valid_def)
  have fine: "number_between 0 100 (num (control_score s))" "safe_integer_from 0 (num (of_int (control_streak s)))"
    "one_of internal_bands (JStr (band_id (control_band s)))" "is_plain_object (temporal_state_value (smoothing_state (tc_temporal t)))"
    using s(1) is_safe_integer_int[of "control_streak s"]
    by (auto simp: valid_control_state_def number_between_def is_finite_def safe_integer_from_def one_of_def internal_bands_def
        temporal_state_value_def intro: band.exhaust[of "control_band s"])
  have eq: "strict_eq (get (temporal_state_value (smoothing_state (tc_temporal t))) ''score'') (num (control_score s))
      \<longleftrightarrow> get (tr_new_state r) ''score'' = num (tr_smoothed r)"
    by (auto simp: advance_score[OF adv] n(1) f(9))
  show ?thesis
    unfolding normalize_previous_def g ok using shape version i assms(4) fine eq by (simp add: explain_fail_def not_le)
qed

subsection \<open>Witness\<close>

definition te_reference :: "string \<times> string \<Rightarrow> js" where
  "te_reference ki = obj [(''evidenceId'', JStr (''evd_00000000-0000-4000-8000-00000000000'' @ snd ki)),
     (''sourceEventId'', JStr (''evt_00000000-0000-4000-8000-00000000000'' @ snd ki)), (''evidenceType'', JStr (fst ki))]"

definition te_references :: "js list" where
  "te_references = map te_reference
     [(''identity'', ''1''), (''device'', ''2''), (''behaviour'', ''3''), (''certificate'', ''4''), (''compliance'', ''5'')]"

definition te_configuration :: js where
  "te_configuration = obj [(''modelVersion'', JStr ''1.0.0''), (''configurationVersion'', num 1), (''initialScore'', num 50),
     (''smoothingAlpha'', num (1/2)), (''staleAfterSeconds'', num 60), (''weights'', table_value initial_trust_weights)]"

text \<open>Good components together with a revoked certificate.\<close>

definition te_input :: js where
  "te_input = obj [(''tenantId'', JStr ''tnt_00000000-0000-4000-8000-000000000001''),
     (''subjectId'', JStr ''sub_00000000-0000-4000-8000-000000000001''), (''updateVersion'', num 1),
     (''correlationId'', JStr ''cor_00000000-0000-4000-8000-000000000001''),
     (''causationId'', JStr ''evt_00000000-0000-4000-8000-000000000004''),
     (''components'', table_value (example_components 60)), (''evidenceReferences'', JArr te_references),
     (''configuration'', te_configuration), (''observedAt'', JStr (time_to_iso 0)), (''source'', example_source),
     (''criticalEvidence'', obj [(''kind'', JStr ''certificate-revoked''), (''componentId'', JStr ''certificate'')])]"

lemma te_get:
  "get te_input ''tenantId'' = JStr ''tnt_00000000-0000-4000-8000-000000000001''"
  "get te_input ''subjectId'' = JStr ''sub_00000000-0000-4000-8000-000000000001''" "get te_input ''updateVersion'' = num 1"
  "get te_input ''correlationId'' = JStr ''cor_00000000-0000-4000-8000-000000000001''"
  "get te_input ''causationId'' = JStr ''evt_00000000-0000-4000-8000-000000000004''"
  "get te_input ''components'' = table_value (example_components 60)" "get te_input ''evidenceReferences'' = JArr te_references"
  "get te_input ''configuration'' = te_configuration" "get te_input ''observedAt'' = JStr (time_to_iso 0)"
  "get te_input ''source'' = example_source"
  "get te_input ''criticalEvidence'' = obj [(''kind'', JStr ''certificate-revoked''), (''componentId'', JStr ''certificate'')]"
  by (simp_all add: te_input_def)

definition te_explained :: explanation_configuration where
  "te_explained = \<lparr> ex_model = initial_trust_model_configuration, ex_version = num 1, ex_temporal = example_temporal_configuration \<rparr>"

lemma te_normalized: "normalize_configuration te_configuration = Inr te_explained"
proof -
  have m: "define_trust_model_configuration (obj [(''modelVersion'', JStr ''1.0.0''), (''weights'', table_value initial_trust_weights)])
      = Inr initial_trust_model_configuration"
    using example_model by (simp add: configuration_value_def initial_trust_model_configuration_def)
  have v: "is_model_version ''1.0.0''" by code_simp
  have s: "safe_integer_from 1 (num 1)"
    by (simp add: safe_integer_from_def is_safe_integer_def is_integer_rat_def max_safe_integer_def)
  have g: "get te_configuration ''modelVersion'' = JStr ''1.0.0''" "get te_configuration ''configurationVersion'' = num 1"
    "get te_configuration ''initialScore'' = num 50" "get te_configuration ''smoothingAlpha'' = num (1/2)"
    "get te_configuration ''staleAfterSeconds'' = num 60" "get te_configuration ''weights'' = table_value initial_trust_weights"
    "has_exact_keys te_configuration configuration_keys"
    by (simp_all add: te_configuration_def has_exact_keys_def configuration_keys_def)
  show ?thesis
    unfolding normalize_configuration_def g(1-6) m example_temporal_accepted using g(7) by (simp add: v s te_explained_def re_test_or_empty_def coalesce_def nullish_def re_test_def)
qed

lemma te_refs: "normalize_references (JArr te_references) = Inr te_references"
proof -
  have "normalize_references (JArr te_references) = Inr te_references \<longleftrightarrow> True" by code_simp
  then show ?thesis by simp
qed

lemma te_valid: "transition_input_valid te_input"
proof -
  have "is_id ''tnt'' ''tnt_00000000-0000-4000-8000-000000000001''" "is_id ''sub'' ''sub_00000000-0000-4000-8000-000000000001''"
    "is_id ''cor'' ''cor_00000000-0000-4000-8000-000000000001''" "is_id ''evt'' ''evt_00000000-0000-4000-8000-000000000004''"
    by code_simp+
  moreover have "safe_integer_from 1 (num 1)"
    by (simp add: safe_integer_from_def is_safe_integer_def is_integer_rat_def max_safe_integer_def)
  moreover have "has_exact_keys te_input input_keys" by (simp add: te_input_def has_exact_keys_def input_keys_def)
  ultimately show ?thesis
    unfolding transition_input_valid_def te_get by (simp add: re_test_or_empty_def coalesce_def nullish_def re_test_def)
qed

lemma te_cause: "list_ex (\<lambda>r. strict_eq (get r ''sourceEventId'') (get te_input ''causationId'')) te_references"
  unfolding te_get by (simp add: te_references_def te_reference_def)

lemma te_fresh:
  assumes "0 \<le> x" "x \<le> 100"
  shows "\<exists>r. advance_smoothed_trust_score example_power example_temporal JNull
      (obj [(''score'', num x), (''observedAt'', JStr (time_to_iso 0))]) (JStr (time_to_iso 0)) = Inr r
    \<and> 25 \<le> smoothed_score r \<and> smoothed_score r \<le> 100"
proof -
  have c: "canonical_utc (JStr (time_to_iso 0))" using valid_time_0 canonical_utc_iff by blast
  have z: "parse_time (JStr (time_to_iso 0)) = 0" by (simp add: parse_time_def valid_time_0)
  have o: "normalize_observation (obj [(''score'', num x), (''observedAt'', JStr (time_to_iso 0))]) 0 =
      Inr (Some \<lparr> observed_score = x, observed_at = time_to_iso 0 \<rparr>)"
    using c assms z by (simp add: normalize_observation_def nullish_def has_exact_keys_def smoothing_valid_score_def number_between_def is_finite_def)
  have s: "observation_status example_temporal_configuration (Some \<lparr> observed_score = x, observed_at = time_to_iso 0 \<rparr>) 0
      = (Some 0, ObservationFresh)"
    by (simp add: observation_status_def seconds_between_def ms_of_def z)
  let ?y = "smoothing_round_score (weighted_average (1/2) x 50)"
  have r: "advance_fresh example_temporal_configuration None \<lparr> observed_score = x, observed_at = time_to_iso 0 \<rparr> (Some 0) (time_to_iso 0)
      = Inr (smoothing_output ?y Initialized ObservationFresh (time_to_iso 0) example_temporal_configuration None (Some x)
          (freeze_state ?y ?y (Some (time_to_iso 0)) (time_to_iso 0)) (Ewa 50 x (1/2) (rnd64 (1 - 1/2)) (Some 0)))"
    by (simp add: advance_fresh_def Let_def)
  have run: "advance_smoothed_trust_score example_power example_temporal JNull
      (obj [(''score'', num x), (''observedAt'', JStr (time_to_iso 0))]) (JStr (time_to_iso 0))
      = advance_fresh example_temporal_configuration None \<lparr> observed_score = x, observed_at = time_to_iso 0 \<rparr> (Some 0) (time_to_iso 0)"
    unfolding advance_smoothed_trust_score_def example_temporal_accepted z
    using c by (simp only: and_then_Inr o) (simp add: s normalize_temporal_state_def nullish_def)
  have low: "smoothing_round_score 25 = 25" "rnd64 (1/2) = 1/2" "rnd64 25 = 25" by code_simp+
  have "weighted_average (1/2) 0 50 \<le> weighted_average (1/2) x 50"
    unfolding weighted_average_def using assms(1) by (intro double.mono add_right_mono) simp
  moreover have "weighted_average (1/2) 0 50 = 25" by (simp add: weighted_average_def low)
  ultimately have "25 \<le> ?y" using double.score_mono[of 25 "weighted_average (1/2) x 50"] low(1) by (simp add: smoothing_round_score_eq)
  moreover have "?y \<le> 100"
  proof -
    have "weighted_average (1/2) x 50 \<le> weighted_average (1/2) 100 50"
      unfolding weighted_average_def using assms(2) by (intro double.mono add_right_mono) simp
    moreover have "smoothing_round_score (weighted_average (1/2) 100 50) = 75" by code_simp
    ultimately show ?thesis using double.score_mono[of "weighted_average (1/2) x 50" "weighted_average (1/2) 100 50"] by (simp add: smoothing_round_score_eq)
  qed
  ultimately show ?thesis unfolding run r by (simp add: smoothing_output_def)
qed

lemma te_calculation:
  "\<exists>t. calculate_transition example_power te_explained te_input None (JStr (time_to_iso 0)) = Inr t
    \<and> result_state (tc_controlled t) = state_value \<lparr> control_score = 0, control_band = Low, control_streak = 0 \<rparr>
    \<and> 25 \<le> smoothed_score (tc_temporal t)
    \<and> (\<exists>y. tc_controlled t = evaluate_controls \<lparr> control_score = 50, control_band = Medium, control_streak = 0 \<rparr> y example_influence
          (Some \<lparr> critical_kind = JStr ''certificate-revoked'', critical_component = JStr ''certificate'', critical_rule = override_rule ''certificate'' 0 \<rparr>))"
proof -
  let ?p = "\<lparr> control_score = 50, control_band = Medium, control_streak = 0 \<rparr>"
  let ?k = "obj [(''kind'', JStr ''certificate-revoked''), (''componentId'', JStr ''certificate'')]"
  let ?x = "\<lparr> critical_kind = JStr ''certificate-revoked'', critical_component = JStr ''certificate'', critical_rule = override_rule ''certificate'' 0 \<rparr>"
  have cs: "define_normalized_components (table_value (example_components 60)) = Inr (example_components 60)"
    by (rule example_accepted) simp_all
  obtain w where w: "calculate_weighted_trust_score (table_value (example_components 60)) (configuration_value initial_trust_model_configuration) = Inr w"
    using calculate_score[OF cs example_model example_binary64(1,3)] by blast
  have "0 \<le> weighted_value w" "weighted_value w \<le> 100"
    using w by (auto simp: calculate_weighted_trust_score_def Let_def normalized_minimum_def normalized_maximum_def split: if_splits)
  from te_fresh[OF this] obtain r where r: "advance_smoothed_trust_score example_power example_temporal JNull
      (obj [(''score'', num (weighted_value w)), (''observedAt'', JStr (time_to_iso 0))]) (JStr (time_to_iso 0)) = Inr r"
    "25 \<le> smoothed_score r" "smoothed_score r \<le> 100" by blast
  have p: "valid_control_state ?p" by (simp add: valid_control_state_def)
  have k: "normalize_critical_evidence ?k = Inr (Some ?x)" by code_simp
  have init: "previous_control_state None example_temporal_configuration = Inr (state_value ?p)"
    by (simp add: previous_control_state_def initialize_trust_control_state_def control_valid_score_def number_between_def is_finite_def
        classify_base_band_def config_simps)
  have a: "apply_trust_transition_controls (state_value ?p) (num (smoothed_score r)) example_source ?k
      = Inr (evaluate_controls ?p (smoothed_score r) example_influence (Some ?x))"
    using r by (intro example_apply[OF p _ _ k]) simp_all
  have c: "critical_score ?p (smoothed_score r) 0 = 0"
    using r(2) round_score_limit[of 0] by (simp add: critical_score_def)
  have "result_state (evaluate_controls ?p (smoothed_score r) example_influence (Some ?x))
      = state_value \<lparr> control_score = 0, control_band = Low, control_streak = 0 \<rparr>"
    unfolding evaluate_controls_def Let_def option.case by (subst critical_result_state[where limit = 0 and component = "''certificate''"]) (simp_all add: c)
  moreover have "calculate_transition example_power te_explained te_input None (JStr (time_to_iso 0))
      = Inr \<lparr> tc_weighted = w, tc_temporal = r, tc_controlled = evaluate_controls ?p (smoothed_score r) example_influence (Some ?x) \<rparr>"
    unfolding calculate_transition_def te_get te_explained_def explanation_configuration.simps w temporal_input_def temporal_configuration.simps
      option.case and_then_Inr r(1) init a catch_Inr ..
  ultimately show ?thesis using r(2) by (intro exI[of _ "\<lparr> tc_weighted = w, tc_temporal = r,
      tc_controlled = evaluate_controls ?p (smoothed_score r) example_influence (Some ?x) \<rparr>"]) auto
qed

lemma jsonable_numbers [simp]: "jsonable (or_null x)" "jsonable (temporal_state_value s)" "jsonable (calculation_value k)"
  "jsonable (JArr (contribution_records w te_references))" "jsonable (previous_state None c)"
proof -
  show o: "jsonable (or_null x)" for x by (cases x) (simp_all add: or_null_def)
  show "jsonable (temporal_state_value s)"
    by (cases "last_fresh_observed_at s") (simp_all add: temporal_state_value_def optional_string_def)
  show "jsonable (calculation_value k)" by (cases k) (simp_all add: o)
  show "jsonable (JArr (contribution_records w te_references))"
    by (simp add: contribution_records_def Let_def trust_component_ids_def by_type_def te_references_def te_reference_def)
  show "jsonable (previous_state None c)" by (simp add: previous_state_def)
qed

lemma te_jsonable:
  assumes "result_state (tc_controlled t) = state_value \<lparr> control_score = 0, control_band = Low, control_streak = 0 \<rparr>"
    and "tc_controlled t = evaluate_controls \<lparr> control_score = 50, control_band = Medium, control_streak = 0 \<rparr> y example_influence
          (Some \<lparr> critical_kind = JStr ''certificate-revoked'', critical_component = JStr ''certificate'', critical_rule = override_rule ''certificate'' 0 \<rparr>)"
  shows "jsonable (transition_explanation (JStr i) (JStr ev) te_input te_explained None te_references t)"
    "jsonable (transition_event (JStr i) (JStr e) (obj [(''service'', JStr a), (''instanceId'', JStr b)]) (JStr ev) te_input te_explained None te_references t d)"
proof -
  have n: "result_score (tc_controlled t) = Fin 0" "result_band (tc_controlled t) = JStr ''low''"
    using assms(1) by (simp_all add: result_state_def state_value_def)
  have ns: "jsonable (new_state t)" by (simp add: new_state_def n)
  have c: "jsonable (influence_value (result_influence (tc_controlled t)))" "jsonable (recovery_value (result_recovery (tc_controlled t)))"
    "jsonable (override_value (result_override (tc_controlled t)))"
    unfolding assms(2) evaluate_controls_def critical_result_def Let_def option.case
    by (simp_all add: influence_value_def recovery_value_def override_value_def)
  have k: "jsonable weighted_score_normalization" "jsonable weighted_score_rounding" "jsonable temporal_smoothing_policy"
    "jsonable trust_transition_control_policy" "jsonable transition_configuration_value" "jsonable trust_explanation_policy"
    "jsonable (JArr te_references)"
    by (simp_all add: weighted_score_normalization_def normalized_component_range_def weighted_score_rounding_def temporal_smoothing_policy_def
        trust_transition_control_policy_def transition_configuration_value_def trust_explanation_policy_def event_band_mapping_def
        trust_component_ids_def te_references_def te_reference_def)
  have m: "jsonable (ex_version te_explained)" by (simp add: te_explained_def)
  show "jsonable (transition_explanation (JStr i) (JStr ev) te_input te_explained None te_references t)"
    unfolding transition_explanation_def Let_def te_get using ns c k m jsonable_numbers(4,5)[of _ ] by simp
  have b: "external_band (JStr ''low'') = JStr ''restricted''" using external_band_id[of Low] by simp
  have p: "get (previous_state None te_explained) ''score'' = num 50" "get (previous_state None te_explained) ''band'' = JStr ''uninitialized''"
    "get (new_state t) ''score'' = num 0" "get (new_state t) ''band'' = JStr ''low''"
    by (simp_all add: previous_state_def new_state_def n te_explained_def)
  show "jsonable (transition_event (JStr i) (JStr e) (obj [(''service'', JStr a), (''instanceId'', JStr b)]) (JStr ev) te_input te_explained None te_references t d)"
    unfolding transition_event_def Let_def te_get p b using m by (simp add: te_references_def te_reference_def)
qed

definition te_digest :: "string \<Rightarrow> string" where
  "te_digest s = replicate 64 (CHR ''a'')"

definition te_producer :: js where
  "te_producer = obj [(''service'', JStr ''trust-engine''), (''instanceId'', JStr ''i-1'')]"

lemma te_built:
  assumes "is_id ''trn'' i" "is_id ''evt'' e"
  shows "\<exists>r. build_transition_explanation te_digest example_power (JStr i) (JStr e) te_producer (JStr (time_to_iso 0)) te_input JUndef = Inr r
    \<and> get (tr_new_state r) ''score'' = num 0 \<and> 25 \<le> tr_smoothed r \<and> tr_version r = num 1"
proof -
  obtain t y where t: "calculate_transition example_power te_explained te_input None (JStr (time_to_iso 0)) = Inr t"
    "result_state (tc_controlled t) = state_value \<lparr> control_score = 0, control_band = Low, control_streak = 0 \<rparr>"
    "25 \<le> smoothed_score (tc_temporal t)"
    "tc_controlled t = evaluate_controls \<lparr> control_score = 50, control_band = Medium, control_streak = 0 \<rparr> y example_influence
          (Some \<lparr> critical_kind = JStr ''certificate-revoked'', critical_component = JStr ''certificate'', critical_rule = override_rule ''certificate'' 0 \<rparr>)"
    using te_calculation by blast
  have pr: "normalize_producer te_producer = Inr te_producer" by code_simp
  note j = te_jsonable[OF t(2,4)]
  obtain x where x: "canonical_value (transition_explanation (JStr i) (JStr (time_to_iso 0)) te_input te_explained None te_references t) = Inr x"
    using canonical_total[OF j(1)] by blast
  obtain z where z: "canonical_value (transition_event (JStr i) (JStr e) te_producer (JStr (time_to_iso 0)) te_input te_explained None te_references t (te_digest x)) = Inr z"
    unfolding te_producer_def using canonical_total[OF j(2)] by blast
  obtain r where r: "assemble_record te_digest (JStr i) (JStr e) te_producer (JStr (time_to_iso 0)) te_input te_explained None te_references t = Inr r"
    unfolding assemble_record_def Let_def x and_then_Inr z by blast
  have c: "canonical_utc (JStr (time_to_iso 0))" using valid_time_0 canonical_utc_iff by blast
  have "build_transition_explanation te_digest example_power (JStr i) (JStr e) te_producer (JStr (time_to_iso 0)) te_input JUndef = Inr r"
    unfolding build_transition_explanation_def te_get(7-9) using assms te_valid te_cause c
    by (simp add: pr te_normalized te_refs normalize_previous_def t(1)[unfolded te_explained_def] t(1) r re_test_or_empty_def coalesce_def nullish_def re_test_def del: canonical_value.simps)
  moreover have "get (tr_new_state r) ''score'' = num 0"
    using assembled(7)[OF r] t(2) by (simp add: new_state_def result_state_def state_value_def)
  moreover have "25 \<le> tr_smoothed r" using assembled(9)[OF r] t(3) by simp
  moreover have "tr_version r = num 1" using assembled(5)[OF r] by (simp add: te_get)
  ultimately show ?thesis by blast
qed

text \<open>After the revocation the state \<open>(0, low)\<close> with a smoothed score of at least 25 cannot be continued.\<close>

lemma transition_chain_continues_iff_uncapped_witness:
  "\<exists>r. build_transition_explanation te_digest example_power (JStr ''trn_00000000-0000-4000-8000-000000000001'')
        (JStr ''evt_00000000-0000-4000-8000-000000000009'') te_producer (JStr (time_to_iso 0)) te_input JUndef = Inr r
     \<and> normalize_previous example_power (as_previous r) (ex_temporal te_explained) 2 (JStr (time_to_iso 60000))
        = throw TrustTransitionExplanationError ''PREVIOUS_TRANSITION_INVALID''"
proof -
  have "is_id ''trn'' ''trn_00000000-0000-4000-8000-000000000001''" "is_id ''evt'' ''evt_00000000-0000-4000-8000-000000000009''" by code_simp+
  from te_built[OF this] obtain r where r: "build_transition_explanation te_digest example_power (JStr ''trn_00000000-0000-4000-8000-000000000001'')
        (JStr ''evt_00000000-0000-4000-8000-000000000009'') te_producer (JStr (time_to_iso 0)) te_input JUndef = Inr r"
    "get (tr_new_state r) ''score'' = num 0" "25 \<le> tr_smoothed r" "tr_version r = num 1" by blast
  have later: "valid_time 60000" by (simp add: valid_time_def max_time_def)
  then have c: "canonical_utc (JStr (time_to_iso 60000))" using canonical_utc_iff by blast
  have le: "parse_time (JStr (time_to_iso 0)) \<le> parse_time (JStr (time_to_iso 60000))"
    unfolding parse_time_def by (simp add: time_of_iso[OF valid_time_0] time_of_iso[OF later])
  have n: "normalize_configuration (get te_input ''configuration'') = Inr te_explained" by (simp add: te_get te_normalized)
  have v: "num_of (tr_version r) < 2" by (simp add: r(4))
  from transition_chain_continues_iff_uncapped[OF r(1) example_power_unit n v c le]
  have "normalize_previous example_power (as_previous r) (ex_temporal te_explained) 2 (JStr (time_to_iso 60000))
        = throw TrustTransitionExplanationError ''PREVIOUS_TRANSITION_INVALID''"
    using r(2,3) by auto
  then show ?thesis using r(1) by blast
qed

definition te_env :: "unit env" where
  "te_env = \<lparr> env_query = (\<lambda>sql vs. act_fail TypeErrorThrown), env_id = act_ret (JStr ''00000000-0000-4000-8000-000000000009''),
     env_clock = act_ret (JDate (Some 0)), env_date = (\<lambda>v. None) \<rparr>"

text \<open>A database that confirms what it is given.\<close>

definition te_db :: "unit db" where
  "te_db = \<lparr> db_connect = act_ret (),
     db_query = (\<lambda>sql vs. act_ret (obj [(''rows'', JArr [obj [(''tenant_id'', vs ! 0), (''subject_id'', vs ! 1), (''transition_id'', vs ! 2),
        (''event_id'', vs ! 3), (''update_version'', vs ! 6), (''explanation_hash_sha256'', vs ! 23), (''event_sha256'', vs ! 25),
        (''recorded_at'', JDate (Some 0))]])])),
     db_release = id, db_aborted = (\<lambda>w. False) \<rparr>"

lemma te_stored:
  assumes "build_transition_explanation te_digest example_power (JStr i) (JStr e) te_producer (JStr (time_to_iso 0)) te_input JUndef = Inr r"
  shows "\<exists>k. store_transition te_db (\<lambda>v. None) r () = ((), Inr k)"
proof -
  have f: "tr_tenant r = JStr ''tnt_00000000-0000-4000-8000-000000000001''" "tr_subject r = JStr ''sub_00000000-0000-4000-8000-000000000001''"
    "tr_version r = num 1" "tr_transition r = JStr i" "tr_event_id r = JStr e"
    using assms by (auto elim!: build_steps simp: te_get assembled)
  show ?thesis
    by (simp add: store_transition_def in_role_def in_role_with_def act_bind_def te_db_def one_row_def map_transition_confirmation_def
        transition_confirmation_def iso_string_def iso_def record_parameters_def f js_number_def time_of_iso[OF valid_time_0])
qed

lemma recorded_transition_is_explained_witness:
  "\<exists>r k. record_transition te_env te_digest example_power (store_transition te_db (\<lambda>v. None)) te_producer te_input JUndef () = ((), Inr (r, k))
     \<and> get k ''updateVersion'' = num 1 \<and> get (get (tr_event r) ''payload'') ''newBand'' = JStr ''restricted''"
proof -
  have "is_id ''trn'' (''trn_'' @ ''00000000-0000-4000-8000-000000000009'')" "is_id ''evt'' (''evt_'' @ ''00000000-0000-4000-8000-000000000009'')" by code_simp+
  from te_built[OF this] obtain r where r: "build_transition_explanation te_digest example_power (JStr (''trn_'' @ ''00000000-0000-4000-8000-000000000009''))
        (JStr (''evt_'' @ ''00000000-0000-4000-8000-000000000009'')) te_producer (JStr (time_to_iso 0)) te_input JUndef = Inr r"
    "get (tr_new_state r) ''score'' = num 0" by blast
  obtain k where k: "store_transition te_db (\<lambda>v. None) r () = ((), Inr k)" using te_stored[OF r(1)] by blast
  have run: "record_transition te_env te_digest example_power (store_transition te_db (\<lambda>v. None)) te_producer te_input JUndef () = ((), Inr (r, k))"
    unfolding record_transition_def te_env_def using r(1) k by (simp add: act_bind_def)
  from recorded_transition_is_explained[OF run] obtain s where s: "control_input (tr_new_state r) = state_value s" "valid_control_state s"
    "get (get (tr_event r) ''payload'') ''newBand'' = JStr (published_band (control_band s))" "get k ''updateVersion'' = get te_input ''updateVersion''"
    by blast
  have "control_score s = 0" using s(1) r(2) by (simp add: control_input_def state_value_def)
  then have "control_band s = Low" using s(2) by (cases "control_band s") (auto simp: valid_control_state_def)
  then show ?thesis using run s(3,4) by (auto simp: te_get)
qed

end
