(* ===== verification/CertificateStatus.thy ===== *)
theory CertificateStatus
  imports JsEffects TenantContext
begin

text \<open>
  \<open>packages/certificate-status/src/index.mjs\<close>: may a presented client certificate be accepted? The answer
  fails closed: an unknown, stale, contradictory, late or failing status source denies. The inventory
  behind the service is a parameter that answers, fails or does not answer in time (the race with the
  timer); so are the clock, the query function and the parsing of dates. SQL templates that span lines
  are written on one.
\<close>

section \<open>Policy and inputs\<close>

record status_policy =
  maximum_source_age_seconds :: int
  future_clock_skew_seconds :: int
  accepted_result_lifetime_seconds :: int

definition certificate_status_policy :: status_policy where
  "certificate_status_policy =
     \<lparr> maximum_source_age_seconds = 5, future_clock_skew_seconds = 2, accepted_result_lifetime_seconds = 30 \<rparr>"

abbreviation status_rules :: status_policy where
  "status_rules \<equiv> certificate_status_policy"

definition status_fail :: "string \<Rightarrow> 'a res" where
  "status_fail r = throw CertificateStatusError r"

definition certificate_states :: "string list" where
  "certificate_states = [''active'', ''revoked'', ''expired'', ''superseded'']"

text \<open>\<^verbatim>\<open>(?!0{32}$)[0-9A-F]{32}\<close>\<close>

definition is_serial :: "string \<Rightarrow> bool" where
  "is_serial s \<longleftrightarrow> length s = 32 \<and> list_all upper_hex s \<and> \<not> list_all (\<lambda>c. c = CHR ''0'') s"

definition status_context :: "context_store \<Rightarrow> context_arg \<Rightarrow> tenant_context res" where
  "status_context st a =
     catch (assert_no_tenant_switch st a (JArr []))
       (\<lambda>e. if error_is TenantContextError e then status_fail ''TENANT_CONTEXT_INVALID'' else Inl e)"

text \<open>A \<open>Date\<close> or its exact ISO text, as the number of milliseconds.\<close>

definition date_from :: "js \<Rightarrow> string \<Rightarrow> int res" where
  "date_from v r =
     (case v of
        JDate (Some t) \<Rightarrow> Inr t
      | JStr s \<Rightarrow> if canonical_utc v then Inr (parse_time v) else status_fail r
      | _ \<Rightarrow> status_fail r)"

definition validate_presented :: "tenant_context \<Rightarrow> js \<Rightarrow> (int \<times> int) res" where
  "validate_presented c v =
     (if \<not> is_record v \<or> \<not> re_test_or_empty (is_id ''crt'') (get v ''certificateId'')
         \<or> \<not> re_test_or_empty (is_id ''sub'') (get v ''subjectId'') \<or> \<not> re_test_or_empty (is_id ''iss'') (get v ''issuerId'')
         \<or> \<not> re_test_or_empty is_serial (get v ''serialNumber'') \<or> \<not> re_test_or_empty is_sha256 (get v ''fingerprintSha256'')
         \<or> \<not> strict_eq (get v ''tenantId'') (JStr (ctx_tenant c)) \<or> \<not> strict_eq (get v ''subjectId'') (JStr (ctx_subject c))
      then status_fail ''PRESENTED_CERTIFICATE_INVALID''
      else and_then (date_from (get v ''notBefore'') ''PRESENTED_CERTIFICATE_INVALID'') (\<lambda>from.
           and_then (date_from (get v ''notAfter'') ''PRESENTED_CERTIFICATE_INVALID'') (\<lambda>to.
             if to \<le> from then status_fail ''PRESENTED_CERTIFICATE_INVALID'' else Inr (from, to))))"

section \<open>Verdicts\<close>

record status_verdict =
  sv_accepted :: bool
  sv_reason :: string
  sv_tenant :: string
  sv_certificate :: js
  sv_state :: js
  sv_source :: string
  sv_version :: js
  sv_observed :: js
  sv_checked :: string
  sv_cacheable_until :: js

text \<open>\<open>deny\<close> with the defaults of \<open>verdict\<close>; \<open>sv_certificate\<close> stands for the five fields copied from the
  presented certificate.\<close>

definition deny_status :: "tenant_context \<Rightarrow> js \<Rightarrow> int \<Rightarrow> string \<Rightarrow> js \<Rightarrow> string \<Rightarrow> js \<Rightarrow> js \<Rightarrow> status_verdict" where
  "deny_status c certificate checked reason state source version observed =
     \<lparr> sv_accepted = False, sv_reason = reason, sv_tenant = ctx_tenant c, sv_certificate = certificate, sv_state = state,
       sv_source = source, sv_version = version, sv_observed = observed, sv_checked = time_to_iso checked,
       sv_cacheable_until = JNull \<rparr>"

abbreviation unknown_state :: js where
  "unknown_state \<equiv> JStr ''unknown''"

section \<open>Validation\<close>

datatype loaded_status = LoadTimeout | LoadError | LoadedRecord js

text \<open>The inventory: its answer, or none within the time limit.\<close>

type_synonym 'w status_source = "js \<Rightarrow> 'w \<Rightarrow> 'w \<times> js res option"

definition load_with_timeout :: "'w status_source \<Rightarrow> js \<Rightarrow> 'w \<Rightarrow> 'w \<times> loaded_status" where
  "load_with_timeout source q w =
     (case source q w of
        (w', None) \<Rightarrow> (w', LoadTimeout)
      | (w', Some (Inl e)) \<Rightarrow> (w', LoadError)
      | (w', Some (Inr r)) \<Rightarrow> (w', LoadedRecord r))"

definition status_query_value :: "tenant_context \<Rightarrow> js \<Rightarrow> js" where
  "status_query_value c v =
     obj [(''tenantId'', JStr (ctx_tenant c)), (''certificateId'', get v ''certificateId''), (''issuerId'', get v ''issuerId''),
          (''serialNumber'', get v ''serialNumber''), (''fingerprintSha256'', get v ''fingerprintSha256'')]"

definition record_matches :: "tenant_context \<Rightarrow> js \<Rightarrow> js \<Rightarrow> bool" where
  "record_matches c v r \<longleftrightarrow>
     one_of certificate_states (get r ''state'') \<and> safe_integer_from 1 (get r ''version'')
     \<and> strict_eq (get r ''tenantId'') (JStr (ctx_tenant c))
     \<and> list_all (\<lambda>k. strict_eq (get r k) (get v k))
         [''certificateId'', ''subjectId'', ''issuerId'', ''serialNumber'', ''fingerprintSha256'', ''notBefore'', ''notAfter'']"

definition source_current :: "int \<Rightarrow> int \<Rightarrow> bool" where
  "source_current checked observed \<longleftrightarrow>
     checked - observed \<le> maximum_source_age_seconds status_rules * 1000
     \<and> - (future_clock_skew_seconds status_rules * 1000) \<le> checked - observed"

definition cache_deadline :: "int \<Rightarrow> int \<Rightarrow> int" where
  "cache_deadline observed not_after = min (observed + accepted_result_lifetime_seconds status_rules * 1000) not_after"

text \<open>The decision on a record of the inventory.\<close>

definition judge_record :: "tenant_context \<Rightarrow> js \<Rightarrow> int \<Rightarrow> int \<Rightarrow> js \<Rightarrow> status_verdict" where
  "judge_record c v not_after checked r =
     (if \<not> truthy r then deny_status c v checked ''CERTIFICATE_UNKNOWN'' unknown_state ''unknown'' JNull JNull
      else if \<not> record_matches c v r then deny_status c v checked ''STATUS_SOURCE_INVALID'' unknown_state ''invalid'' JNull JNull
      else case date_from (get r ''statusObservedAt'') ''STATUS_SOURCE_INVALID'' of
        Inl e \<Rightarrow> deny_status c v checked ''STATUS_SOURCE_INVALID'' (get r ''state'') ''invalid'' JNull JNull
      | Inr observed \<Rightarrow>
          let version = get r ''version''; seen = JStr (time_to_iso observed); state = get r ''state'';
              refuse = (\<lambda>reason source. deny_status c v checked reason state source version seen)
          in if \<not> source_current checked observed then refuse ''STATUS_SOURCE_STALE'' ''stale''
             else if state = JStr ''revoked'' then refuse ''CERTIFICATE_REVOKED'' ''authoritative''
             else if state = JStr ''expired'' then refuse ''CERTIFICATE_EXPIRED'' ''authoritative''
             else if state = JStr ''superseded'' then refuse ''CERTIFICATE_SUPERSEDED'' ''authoritative''
             else if cache_deadline observed not_after \<le> checked then refuse ''STATUS_SOURCE_STALE'' ''stale''
             else \<lparr> sv_accepted = True, sv_reason = ''CERTIFICATE_ACTIVE'', sv_tenant = ctx_tenant c, sv_certificate = v,
                    sv_state = state, sv_source = ''authoritative'', sv_version = version, sv_observed = seen,
                    sv_checked = time_to_iso checked,
                    sv_cacheable_until = JStr (time_to_iso (cache_deadline observed not_after)) \<rparr>)"

definition check_certificate ::
  "'w status_source \<Rightarrow> tenant_context \<Rightarrow> js \<Rightarrow> int \<times> int \<Rightarrow> int \<Rightarrow> ('w, status_verdict) act" where
  "check_certificate source c v validity checked w =
     (if checked < fst validity
      then (w, Inr (deny_status c v checked ''CERTIFICATE_NOT_YET_VALID'' unknown_state ''not-queried'' JNull JNull))
      else if snd validity \<le> checked
      then (w, Inr (deny_status c v checked ''CERTIFICATE_EXPIRED'' (JStr ''expired'') ''not-queried'' JNull JNull))
      else case load_with_timeout source (status_query_value c v) w of
        (w', LoadTimeout) \<Rightarrow> (w', Inr (deny_status c v checked ''STATUS_SOURCE_TIMEOUT'' unknown_state ''unavailable'' JNull JNull))
      | (w', LoadError) \<Rightarrow> (w', Inr (deny_status c v checked ''STATUS_SOURCE_UNAVAILABLE'' unknown_state ''unavailable'' JNull JNull))
      | (w', LoadedRecord r) \<Rightarrow> (w', Inr (judge_record c v (snd validity) checked r)))"

definition validate_certificate ::
  "'w status_source \<Rightarrow> ('w, js) act \<Rightarrow> context_store \<Rightarrow> context_arg \<Rightarrow> js \<Rightarrow> ('w, status_verdict) act" where
  "validate_certificate source clock st a v =
     act_bind (act_res (status_context st a)) (\<lambda>c.
     act_bind (act_res (validate_presented c v)) (\<lambda>validity.
     act_bind clock (\<lambda>now.
     act_bind (act_res (date_from now ''STATUS_CHECK_TIME_INVALID'')) (\<lambda>checked.
       check_certificate source c v validity checked))))"

text \<open>What the client of the service may see of a denial.\<close>

definition status_safe_response :: "status_verdict option \<Rightarrow> (nat \<times> string) res" where
  "status_safe_response result =
     (case result of
        None \<Rightarrow> status_fail ''STATUS_RESULT_INVALID''
      | Some v \<Rightarrow>
          if sv_accepted v then status_fail ''STATUS_RESULT_INVALID''
          else if sv_reason v \<in> {''STATUS_SOURCE_TIMEOUT'', ''STATUS_SOURCE_UNAVAILABLE'', ''STATUS_SOURCE_INVALID'', ''STATUS_SOURCE_STALE''}
          then Inr (503, ''CERTIFICATE_STATUS_UNAVAILABLE'')
          else Inr (401, ''CERTIFICATE_NOT_ACCEPTED''))"

section \<open>Repository\<close>

definition certificate_status_sql :: string where
  "certificate_status_sql =
     ''SELECT tenant_id, certificate_id, subject_id, issuer_id, serial_number, fingerprint_sha256, state, not_before, not_after, version, status_observed_at FROM identity.lock_current_actor_certificate_status($2, $3, $4, $5) WHERE tenant_id = $1''"

definition certificate_status_row :: "js \<Rightarrow> js res" where
  "certificate_status_row row =
     and_then (date_from (get row ''not_before'') ''STATUS_SOURCE_INVALID'') (\<lambda>from.
     and_then (date_from (get row ''not_after'') ''STATUS_SOURCE_INVALID'') (\<lambda>to.
     and_then (date_from (get row ''status_observed_at'') ''STATUS_SOURCE_INVALID'') (\<lambda>observed.
       Inr (obj [(''tenantId'', get row ''tenant_id''), (''certificateId'', get row ''certificate_id''), (''subjectId'', get row ''subject_id''),
         (''issuerId'', get row ''issuer_id''), (''serialNumber'', get row ''serial_number''),
         (''fingerprintSha256'', get row ''fingerprint_sha256''), (''state'', get row ''state''), (''notBefore'', JStr (time_to_iso from)),
         (''notAfter'', JStr (time_to_iso to)), (''version'', js_number (get row ''version'')),
         (''statusObservedAt'', JStr (time_to_iso observed))]))))"

definition load_certificate_status :: "'w env \<Rightarrow> js \<Rightarrow> ('w, js) act" where
  "load_certificate_status E q =
     act_bind (env_query E certificate_status_sql
         (map (get q) [''tenantId'', ''certificateId'', ''issuerId'', ''serialNumber'', ''fingerprintSha256''])) (\<lambda>result.
       act_res (if \<not> truthy result \<or> \<not> is_array (get result ''rows'') \<or> 1 < length (elements (get result ''rows''))
                then status_fail ''STATUS_SOURCE_INVALID''
                else case elements (get result ''rows'') of
                  [] \<Rightarrow> Inr JNull
                | row # _ \<Rightarrow> if \<not> truthy row then Inr JNull else certificate_status_row row))"

text \<open>The repository as a source of the service; \<open>late\<close> says which of its answers come after the time limit.\<close>

definition inventory_source :: "'w env \<Rightarrow> ('w \<Rightarrow> bool) \<Rightarrow> 'w status_source" where
  "inventory_source E late q w =
     (case load_certificate_status E q w of (w', r) \<Rightarrow> (w', if late w then None else Some r))"

section \<open>Properties\<close>

lemma status_context_trusted: "status_context st a = Inr c \<Longrightarrow> trusted_context st a = Inr c"
  by (auto simp: status_context_def status_fail_def catch_def assert_no_tenant_switch_def split: sum.splits if_splits)

lemma judge_accepted:
  "sv_accepted (judge_record c v not_after checked r) \<longleftrightarrow>
     truthy r \<and> record_matches c v r \<and> get r ''state'' = JStr ''active''
     \<and> (\<exists>observed. date_from (get r ''statusObservedAt'') ''STATUS_SOURCE_INVALID'' = Inr observed
          \<and> source_current checked observed \<and> checked < cache_deadline observed not_after)"
  by (cases "date_from (get r ''statusObservedAt'') ''STATUS_SOURCE_INVALID''")
    (auto simp: judge_record_def deny_status_def Let_def record_matches_def one_of_iff certificate_states_def)

lemma judge_tenant: "sv_tenant (judge_record c v not_after checked r) = ctx_tenant c" "sv_certificate (judge_record c v not_after checked r) = v"
  by (auto simp: judge_record_def deny_status_def Let_def split: sum.split)

lemma judge_refused: "\<not> sv_accepted (judge_record c v not_after checked r) \<Longrightarrow> sv_cacheable_until (judge_record c v not_after checked r) = JNull"
  by (auto simp: judge_record_def deny_status_def Let_def split: sum.splits if_splits)

lemma judge_cacheable:
  assumes "sv_accepted (judge_record c v not_after checked r)"
  shows "\<exists>d. sv_cacheable_until (judge_record c v not_after checked r) = JStr (time_to_iso d)
    \<and> checked < d \<and> d \<le> not_after \<and> d \<le> checked + 32000"
proof -
  obtain observed where o: "date_from (get r ''statusObservedAt'') ''STATUS_SOURCE_INVALID'' = Inr observed"
    "source_current checked observed" "checked < cache_deadline observed not_after"
    using assms judge_accepted by blast
  have "sv_cacheable_until (judge_record c v not_after checked r) = JStr (time_to_iso (cache_deadline observed not_after))"
    using assms o by (auto simp: judge_record_def deny_status_def Let_def split: if_splits)
  moreover have "cache_deadline observed not_after \<le> not_after" "cache_deadline observed not_after \<le> checked + 32000"
    using o(2) by (auto simp: cache_deadline_def source_current_def certificate_status_policy_def)
  ultimately show ?thesis using o(3) by blast
qed

text \<open>The decision once the presented certificate and the time are known.\<close>

lemma checked_certificate:
  assumes "check_certificate source c v (from, to) checked w = (w', Inr r)"
  shows "sv_tenant r = ctx_tenant c \<and> sv_certificate r = v
    \<and> (sv_accepted r \<longleftrightarrow> from \<le> checked \<and> checked < to
        \<and> (\<exists>x w2. source (status_query_value c v) w = (w2, Some (Inr x)) \<and> sv_accepted (judge_record c v to checked x)))
    \<and> (if sv_accepted r
       then \<exists>d. sv_cacheable_until r = JStr (time_to_iso d) \<and> checked < d \<and> d \<le> to \<and> d \<le> checked + 32000
       else sv_cacheable_until r = JNull)"
proof -
  consider (out) "checked < from \<or> to \<le> checked" | (inside) "from \<le> checked" "checked < to" by linarith
  then show ?thesis
  proof cases
    case out
    then show ?thesis using assms by (auto simp: check_certificate_def deny_status_def split: if_splits)
  next
    case inside
    obtain w2 x where s: "source (status_query_value c v) w = (w2, x)" by fastforce
    consider (none) "x = None" | (error) e where "x = Some (Inl e)" | (answer) y where "x = Some (Inr y)"
      by (metis not_None_eq sum.exhaust)
    then show ?thesis
    proof cases
      case answer
      then have r: "r = judge_record c v to checked y" using assms inside s by (simp add: check_certificate_def load_with_timeout_def)
      show ?thesis unfolding r using inside s answer judge_tenant judge_refused judge_cacheable by auto
    qed (use assms inside s in \<open>auto simp: check_certificate_def load_with_timeout_def deny_status_def\<close>)
  qed
qed

text \<open>C33: acceptance of a certificate is exactly justified: a verdict names the tenant of a resolved context, and it
  accepts if and only if the presented certificate is within its validity and the inventory answered in
  time with a matching, active and current record; an acceptance may be reused for at most 32 seconds and
  never past the end of the certificate, a denial never.\<close>

theorem certificate_acceptance_is_justified:
  assumes "validate_certificate source clock st a v w = (w', Inr r)"
  shows "\<exists>c from to now checked u. trusted_context st a = Inr c \<and> validate_presented c v = Inr (from, to)
    \<and> clock w = (u, Inr now) \<and> date_from now ''STATUS_CHECK_TIME_INVALID'' = Inr checked
    \<and> sv_tenant r = ctx_tenant c \<and> sv_certificate r = v
    \<and> (sv_accepted r \<longleftrightarrow> from \<le> checked \<and> checked < to
        \<and> (\<exists>x u'. source (status_query_value c v) u = (u', Some (Inr x)) \<and> truthy x \<and> record_matches c v x
             \<and> get x ''state'' = JStr ''active''
             \<and> (\<exists>observed. date_from (get x ''statusObservedAt'') ''STATUS_SOURCE_INVALID'' = Inr observed
                  \<and> source_current checked observed \<and> checked < cache_deadline observed to)))
    \<and> (if sv_accepted r
       then \<exists>d. sv_cacheable_until r = JStr (time_to_iso d) \<and> checked < d \<and> d \<le> to \<and> d \<le> checked + 32000
       else sv_cacheable_until r = JNull)"
proof -
  obtain c lo hi now checked u where c: "status_context st a = Inr c" "validate_presented c v = Inr (lo, hi)"
    "clock w = (u, Inr now)" "date_from now ''STATUS_CHECK_TIME_INVALID'' = Inr checked"
    "check_certificate source c v (lo, hi) checked u = (w', Inr r)"
    using assms by (fastforce simp: validate_certificate_def act_bind_Inr)
  show ?thesis
    using status_context_trusted[OF c(1)] c(2-4) checked_certificate[OF c(5)] unfolding judge_accepted by blast
qed

subsection \<open>Witness\<close>

definition cs_context :: tenant_context where
  "cs_context = \<lparr> ctx_tenant = ''tnt_00000000-0000-4000-8000-000000000001'', ctx_subject = ''sub_00000000-0000-4000-8000-000000000001'',
     ctx_roles = [''tenant-member''], ctx_source = ''mtls-certificate'', ctx_authentication_id = ''session'', ctx_tenant_version = 1,
     ctx_subject_version = 1, ctx_membership_version = 1 \<rparr>"

definition cs_certificate :: "(string \<times> js) list" where
  "cs_certificate =
     [(''certificateId'', JStr ''crt_00000000-0000-4000-8000-000000000001''), (''tenantId'', JStr ''tnt_00000000-0000-4000-8000-000000000001''),
      (''subjectId'', JStr ''sub_00000000-0000-4000-8000-000000000001''), (''issuerId'', JStr ''iss_00000000-0000-4000-8000-000000000001''),
      (''serialNumber'', JStr (replicate 32 (CHR ''1''))), (''fingerprintSha256'', JStr (replicate 64 (CHR ''a''))),
      (''notBefore'', JStr (time_to_iso 0)), (''notAfter'', JStr (time_to_iso 100000))]"

definition cs_record :: js where
  "cs_record = obj (cs_certificate @ [(''state'', JStr ''active''), (''version'', num 1), (''statusObservedAt'', JDate (Some 1000))])"

lemma cs_presented: "validate_presented cs_context (obj cs_certificate) = Inr (0, 100000)"
proof -
  have ids: "is_id ''crt'' ''crt_00000000-0000-4000-8000-000000000001''" "is_id ''sub'' ''sub_00000000-0000-4000-8000-000000000001''"
    "is_id ''iss'' ''iss_00000000-0000-4000-8000-000000000001''"
    by code_simp+
  have h: "is_serial (replicate 32 (CHR ''1''))" "is_sha256 (replicate 64 (CHR ''a''))" by code_simp+
  have v: "valid_time 100000" by (simp add: valid_time_def max_time_def)
  then have t: "canonical_utc (JStr (time_to_iso 0))" "canonical_utc (JStr (time_to_iso 100000))"
    using canonical_utc_iff valid_time_0 by blast+
  have p: "parse_time (JStr (time_to_iso 0)) = 0" "parse_time (JStr (time_to_iso 100000)) = 100000"
    by (simp_all add: parse_time_def time_of_iso[OF valid_time_0] time_of_iso[OF v])
  show ?thesis
    using ids h t p by (simp add: validate_presented_def cs_certificate_def cs_context_def is_record_def date_from_def del: replicate.simps)
qed

lemma certificate_acceptance_is_justified_witness:
  "\<exists>r. validate_certificate (\<lambda>q w. (w, Some (Inr cs_record))) (act_ret (JDate (Some 2000))) [cs_context] (Resolved 0) (obj cs_certificate) ()
       = ((), Inr r) \<and> sv_accepted r"
proof -
  have c: "status_context [cs_context] (Resolved 0) = Inr cs_context"
    by (simp add: status_context_def assert_no_tenant_switch_def trusted_context_def)
  have "\<exists>r. validate_certificate (\<lambda>q w. (w, Some (Inr cs_record))) (act_ret (JDate (Some 2000))) [cs_context] (Resolved 0) (obj cs_certificate) ()
       = ((), Inr r)"
    by (simp add: validate_certificate_def act_bind_def c cs_presented date_from_def check_certificate_def load_with_timeout_def)
  then obtain r where r: "validate_certificate (\<lambda>q w. (w, Some (Inr cs_record))) (act_ret (JDate (Some 2000))) [cs_context] (Resolved 0)
      (obj cs_certificate) () = ((), Inr r)" by blast
  have m: "record_matches cs_context (obj cs_certificate) cs_record"
    by (simp add: record_matches_def cs_record_def cs_certificate_def cs_context_def one_of_def certificate_states_def safe_integer_from_def
        is_safe_integer_def is_integer_rat_def max_safe_integer_def del: replicate.simps)
  have s: "get cs_record ''state'' = JStr ''active''" "get cs_record ''statusObservedAt'' = JDate (Some 1000)" "truthy cs_record"
    by (simp_all add: cs_record_def cs_certificate_def)
  have k: "trusted_context [cs_context] (Resolved 0) = Inr cs_context" by (simp add: trusted_context_def)
  from certificate_acceptance_is_justified[OF r] show ?thesis
    using m s k cs_presented r
    by (auto simp: date_from_def source_current_def cache_deadline_def certificate_status_policy_def)
qed

end
