(* ===== verification/AdaptivePolicy.thy ===== *)
theory AdaptivePolicy
  imports JsEffects
begin

text \<open>
  \<open>services/policy/src/adaptive-authorization-policy.mjs\<close>: the data document of the adaptive
  authorization policy. A tenant may tune scores and roles within the closed table of actions; the
  validator rejects a document that would open an action to other roles or switch off a mandatory
  step-up.
\<close>

section \<open>The table of actions\<close>

definition action_definition :: "string \<Rightarrow> string list \<Rightarrow> bool \<Rightarrow> js" where
  "action_definition sensitivity roles step_up =
     obj [(''sensitivity'', JStr sensitivity), (''allowedRoles'', JArr (map JStr roles)), (''stepUpRequired'', JBool step_up)]"

definition members_and_admins :: "string list" where
  "members_and_admins = [''tenant-member'', ''tenant-admin'']"

definition action_table :: "(string \<times> string \<times> string list \<times> bool) list" where
  "action_table =
     [(''profile:read'', ''confidential'', members_and_admins, False), (''record:read'', ''confidential'', members_and_admins, False),
      (''record:write'', ''confidential'', members_and_admins, False), (''record:export'', ''sensitive'', [''tenant-admin''], True),
      (''tenant:admin'', ''critical'', [''tenant-admin''], True), (''member:manage'', ''critical'', [''tenant-admin''], True),
      (''certificate:manage'', ''critical'', [''tenant-admin''], True), (''admin-key:rotate'', ''critical'', [''tenant-admin''], True)]"

definition action_definitions :: js where
  "action_definitions = obj (map (\<lambda>(k, s, rs, u). (k, action_definition s rs u)) action_table)"

definition default_minimum_scores :: "(string \<times> rat) list" where
  "default_minimum_scores =
     [(''profile:read'', 55), (''record:read'', 55), (''record:write'', 65), (''record:export'', 65), (''tenant:admin'', 80),
      (''member:manage'', 80), (''certificate:manage'', 80), (''admin-key:rotate'', 90)]"

definition policy_configuration_fields :: "string list" where
  "policy_configuration_fields =
     [''actionRules'', ''calibrationStatus'', ''policyProfile'', ''quarantineAction'', ''schemaVersion'', ''scoreBands'',
      ''stepUpMaximumAgeSeconds'', ''tenantId'']"

definition policy_schema_version :: string where "policy_schema_version = ''1.0.0''"
definition policy_profile :: string where "policy_profile = ''slide-14-prototype-v1''"
definition policy_calibration :: string where "policy_calibration = ''unvalidated-prototype-defaults''"
definition policy_quarantine_action :: string where "policy_quarantine_action = ''restrict-access''"
definition policy_step_up_seconds :: rat where "policy_step_up_seconds = 300"

definition policy_score_bands :: js where
  "policy_score_bands =
     obj [(''quarantineBelow'', num 50), (''restrictedBelow'', num 65), (''conditionalBelow'', num 80), (''maximum'', num 100)]"

text \<open>\<^verbatim>\<open>[a-z0-9](?:[a-z0-9-]{0,62}[a-z0-9])?\<close>\<close>

definition is_profile_id :: "string \<Rightarrow> bool" where
  "is_profile_id s \<longleftrightarrow>
     s \<noteq> [] \<and> length s \<le> 64 \<and> list_all (\<lambda>c. lower c \<or> digit c \<or> c = CHR ''-'') s
     \<and> hd s \<noteq> CHR ''-'' \<and> last s \<noteq> CHR ''-''"

section \<open>Validation\<close>

definition policy_fail :: "string \<Rightarrow> 'a res" where
  "policy_fail r = throw AdaptiveAuthorizationPolicyError r"

definition policy_fields :: "js \<Rightarrow> string list \<Rightarrow> string \<Rightarrow> js res" where
  "policy_fields v ks r =
     (if \<not> is_plain_object v then policy_fail r else if sort (keys v) \<noteq> ks then policy_fail r else Inr v)"

definition validate_score_bands :: "js \<Rightarrow> unit res" where
  "validate_score_bands v =
     and_then (policy_fields v [''conditionalBelow'', ''maximum'', ''quarantineBelow'', ''restrictedBelow''] ''POLICY_SCORE_BANDS_INVALID'') (\<lambda>b.
       let quarantine = get b ''quarantineBelow''; restricted = get b ''restrictedBelow'';
           conditional = get b ''conditionalBelow''; top = get b ''maximum'' in
       if \<not> list_all (number_between 0 100) [quarantine, restricted, conditional, top]
          \<or> num_of quarantine \<le> 0 \<or> num_of restricted \<le> num_of quarantine \<or> num_of conditional \<le> num_of restricted
          \<or> num_of top \<le> num_of conditional \<or> num_of top \<noteq> 100
       then policy_fail ''POLICY_SCORE_BANDS_INVALID'' else Inr ())"

text \<open>\<open>definition\<close> may be an inherited property of the table, which has no \<open>allowedRoles\<close>.\<close>

definition validate_roles :: "js \<Rightarrow> js \<Rightarrow> unit res" where
  "validate_roles v d =
     (if \<not> is_array v \<or> elements v = [] then policy_fail ''POLICY_ACTION_RULE_INVALID''
      else and_then (read (get d ''allowedRoles'') ''length'') (\<lambda>n.
        if num_of n < of_nat (length (elements v)) \<or> length (set_of_values (elements v)) \<noteq> length (elements v)
           \<or> list_ex (\<lambda>r. \<not> list_ex (same_value r) (elements (get d ''allowedRoles''))) (elements v)
        then policy_fail ''POLICY_ACTION_RULE_INVALID'' else Inr ()))"

definition validate_action_rule :: "js list \<Rightarrow> js \<Rightarrow> js res" where
  "validate_action_rule seen v =
     and_then (policy_fields v [''action'', ''minimumScore'', ''roles'', ''sensitivity'', ''stepUpRequired''] ''POLICY_ACTION_RULE_INVALID'') (\<lambda>rule.
       let d = get action_definitions (to_string (get rule ''action'')) in
       if \<not> truthy d \<or> list_ex (same_value (get rule ''action'')) seen
          \<or> \<not> strict_eq (get rule ''sensitivity'') (get d ''sensitivity'')
          \<or> \<not> number_between 0 100 (get rule ''minimumScore'') \<or> \<not> is_bool (get rule ''stepUpRequired'')
          \<or> (truthy (get d ''stepUpRequired'') \<and> get rule ''stepUpRequired'' \<noteq> JBool True)
       then policy_fail ''POLICY_ACTION_RULE_INVALID''
       else and_then (validate_roles (get rule ''roles'') d) (\<lambda>_. Inr (get rule ''action'')))"

fun validate_rules :: "js list \<Rightarrow> js list \<Rightarrow> unit res" where
  "validate_rules seen [] = Inr ()"
| "validate_rules seen (v # vs) = and_then (validate_action_rule seen v) (\<lambda>a. validate_rules (seen @ [a]) vs)"

definition validate_action_rules :: "js \<Rightarrow> unit res" where
  "validate_action_rules v =
     (if \<not> is_array v \<or> length (elements v) \<noteq> length action_table then policy_fail ''POLICY_ACTION_RULES_INVALID''
      else validate_rules [] (elements v))"

definition policy_configuration :: "js \<Rightarrow> js res" where
  "policy_configuration v =
     and_then (policy_fields v [''tenant_trust_policy''] ''POLICY_DATA_INVALID'') (\<lambda>data.
     and_then (policy_fields (get data ''tenant_trust_policy'') [''authorization''] ''POLICY_DATA_INVALID'') (\<lambda>root.
     and_then (policy_fields (get root ''authorization'') [''configuration''] ''POLICY_DATA_INVALID'') (\<lambda>authorization.
       policy_fields (get authorization ''configuration'') policy_configuration_fields ''POLICY_CONFIGURATION_INVALID'')))"

definition validate_policy_data :: "js \<Rightarrow> js \<Rightarrow> js res" where
  "validate_policy_data v tenant =
     and_then (policy_configuration v) (\<lambda>c.
       if \<not> re_test_or_empty (is_id ''tnt'') tenant \<or> \<not> strict_eq (get c ''tenantId'') tenant
          \<or> get c ''schemaVersion'' \<noteq> JStr policy_schema_version \<or> \<not> re_test_or_empty is_profile_id (get c ''policyProfile'')
          \<or> get c ''calibrationStatus'' \<noteq> JStr policy_calibration \<or> get c ''quarantineAction'' \<noteq> JStr policy_quarantine_action
          \<or> \<not> safe_integer_from 1 (get c ''stepUpMaximumAgeSeconds'') \<or> 900 < num_of (get c ''stepUpMaximumAgeSeconds'')
       then policy_fail ''POLICY_CONFIGURATION_INVALID''
       else and_then (validate_score_bands (get c ''scoreBands'')) (\<lambda>_.
            and_then (validate_action_rules (get c ''actionRules'')) (\<lambda>_. Inr v)))"

section \<open>The prototype policy\<close>

definition prototype_rules :: "js list" where
  "prototype_rules =
     map (\<lambda>(k, s, rs, u). obj [(''action'', JStr k), (''sensitivity'', JStr s), (''minimumScore'', num (the (map_of default_minimum_scores k))),
            (''roles'', JArr (map JStr rs)), (''stepUpRequired'', JBool u)]) action_table"

definition prototype_document :: "js \<Rightarrow> js" where
  "prototype_document tenant =
     obj [(''tenant_trust_policy'', obj [(''authorization'', obj [(''configuration'', obj
       [(''schemaVersion'', JStr policy_schema_version), (''policyProfile'', JStr policy_profile),
        (''calibrationStatus'', JStr policy_calibration), (''tenantId'', tenant), (''scoreBands'', spread policy_score_bands []),
        (''actionRules'', JArr prototype_rules), (''stepUpMaximumAgeSeconds'', num policy_step_up_seconds),
        (''quarantineAction'', JStr policy_quarantine_action)])])])]"

definition prototype_policy_data :: "js \<Rightarrow> js res" where
  "prototype_policy_data tenant =
     (if \<not> re_test_or_empty (is_id ''tnt'') tenant then policy_fail ''POLICY_TENANT_INVALID''
      else validate_policy_data (prototype_document tenant) tenant)"

section \<open>Properties\<close>

lemma policy_fields_same: "policy_fields v ks r = Inr x \<Longrightarrow> x = v"
  by (auto simp: policy_fields_def policy_fail_def split: if_splits)

definition the_configuration :: "js \<Rightarrow> js" where
  "the_configuration v = get (get (get v ''tenant_trust_policy'') ''authorization'') ''configuration''"

lemma policy_configuration_is: "policy_configuration v = Inr c \<Longrightarrow> c = the_configuration v"
  by (auto simp: policy_configuration_def the_configuration_def dest!: policy_fields_same)

text \<open>What the table says about an action.\<close>

lemma action_lookup:
  "get action_definitions k =
     (case map_of action_table k of Some (s, rs, u) \<Rightarrow> action_definition s rs u | None \<Rightarrow> inherited k)"
proof -
  have "own (map (\<lambda>(k, s, rs, u). (k, action_definition s rs u)) t) k =
      map_option (\<lambda>(s, rs, u). action_definition s rs u) (map_of t k)" for t
    by (induction t) auto
  then show ?thesis unfolding action_definitions_def get.simps by (auto split: option.splits)
qed

lemma inherited_roles: "nullish (get (inherited k) ''allowedRoles'')"
  by (simp add: inherited_def object_prototype_names_def)

text \<open>An accepted rule names an action of the table, keeps its mandatory step-up and opens it to none but the
  allowed roles.\<close>

definition sound_rule :: "js \<Rightarrow> bool" where
  "sound_rule r \<longleftrightarrow>
     (\<exists>s rs u. map_of action_table (to_string (get r ''action'')) = Some (s, rs, u)
        \<and> get r ''sensitivity'' = JStr s \<and> number_between 0 100 (get r ''minimumScore'')
        \<and> (u \<longrightarrow> get r ''stepUpRequired'' = JBool True)
        \<and> elements (get r ''roles'') \<noteq> [] \<and> set (elements (get r ''roles'')) \<subseteq> JStr ` set rs)"

lemma action_rule_sound:
  assumes "validate_action_rule seen v = Inr a"
  shows "sound_rule v" "a = get v ''action''" "\<not> list_ex (same_value a) seen"
proof -
  let ?d = "get action_definitions (to_string (get v ''action''))"
  have x: "policy_fields v [''action'', ''minimumScore'', ''roles'', ''sensitivity'', ''stepUpRequired''] ''POLICY_ACTION_RULE_INVALID'' = Inr v"
    and c: "truthy ?d" "\<not> list_ex (same_value (get v ''action'')) seen" "strict_eq (get v ''sensitivity'') (get ?d ''sensitivity'')"
      "number_between 0 100 (get v ''minimumScore'')" "truthy (get ?d ''stepUpRequired'') \<longrightarrow> get v ''stepUpRequired'' = JBool True"
      "validate_roles (get v ''roles'') ?d = Inr ()" and a: "a = get v ''action''"
    using assms policy_fields_same by (fastforce simp: validate_action_rule_def Let_def policy_fail_def split: if_splits)+
  have r: "elements (get v ''roles'') \<noteq> []" "\<not> nullish (get ?d ''allowedRoles'')"
    "\<not> list_ex (\<lambda>r. \<not> list_ex (same_value r) (elements (get ?d ''allowedRoles''))) (elements (get v ''roles''))"
    using c(6) by (auto simp: validate_roles_def policy_fail_def split: if_splits)
  obtain s rs u where m: "map_of action_table (to_string (get v ''action'')) = Some (s, rs, u)"
    using r(2) inherited_roles by (fastforce simp: action_lookup split: option.splits)
  have d: "?d = action_definition s rs u" by (simp add: action_lookup m)
  have "set (elements (get v ''roles'')) \<subseteq> JStr ` set rs"
  proof
    fix x assume "x \<in> set (elements (get v ''roles''))"
    then obtain y where "y \<in> set rs" "same_value x (JStr y)" using r(3) by (auto simp: d action_definition_def list_ex_iff)
    then show "x \<in> JStr ` set rs" by (cases x) auto
  qed
  then show "sound_rule v"
    unfolding sound_rule_def using m c(3-5) r(1) by (cases "get v ''sensitivity''") (auto simp: d action_definition_def)
  show "a = get v ''action''" "\<not> list_ex (same_value a) seen" using a c(2) by auto
qed

lemma rules_sound:
  assumes "validate_rules seen vs = Inr ()"
  shows "list_all sound_rule vs"
    "list_all is_string (seen @ map (\<lambda>r. get r ''action'') vs) \<Longrightarrow> distinct seen \<Longrightarrow> distinct (seen @ map (\<lambda>r. get r ''action'') vs)"
proof -
  show "list_all sound_rule vs" using assms by (induction seen vs rule: validate_rules.induct) (auto dest: action_rule_sound(1))
  assume "list_all is_string (seen @ map (\<lambda>r. get r ''action'') vs)" "distinct seen"
  with assms show "distinct (seen @ map (\<lambda>r. get r ''action'') vs)"
  proof (induction seen vs rule: validate_rules.induct)
    case (2 seen v vs)
    from 2(2) obtain a where a: "validate_action_rule seen v = Inr a" "validate_rules (seen @ [a]) vs = Inr ()" by auto
    have v: "a = get v ''action''" "\<not> list_ex (same_value a) seen" using action_rule_sound[OF a(1)] by auto
    have "is_string a" using 2(3) v(1) by simp
    then obtain k where k: "a = JStr k" by (cases a) auto
    have "a \<notin> set seen" using v(2) by (auto simp: list_ex_iff k)
    then show ?case using 2(1)[OF a] 2(3,4) v(1) by simp
  qed simp
qed

lemma bands_ordered:
  assumes "validate_score_bands v = Inr ()"
  shows "\<exists>q r c. get v ''quarantineBelow'' = num q \<and> get v ''restrictedBelow'' = num r \<and> get v ''conditionalBelow'' = num c
    \<and> get v ''maximum'' = num 100 \<and> 0 < q \<and> q < r \<and> r < c \<and> c < 100"
proof -
  have b: "list_all (number_between 0 100) [get v ''quarantineBelow'', get v ''restrictedBelow'', get v ''conditionalBelow'', get v ''maximum'']"
    "0 < num_of (get v ''quarantineBelow'')" "num_of (get v ''quarantineBelow'') < num_of (get v ''restrictedBelow'')"
    "num_of (get v ''restrictedBelow'') < num_of (get v ''conditionalBelow'')" "num_of (get v ''conditionalBelow'') < num_of (get v ''maximum'')"
    "num_of (get v ''maximum'') = 100"
    using assms policy_fields_same by (fastforce simp: validate_score_bands_def Let_def policy_fail_def split: if_splits)+
  have n: "number_between 0 100 x \<Longrightarrow> x = num (num_of x)" for x
    by (auto simp: number_between_def is_finite_iff)
  show ?thesis using b n by (intro exI conjI) (auto dest!: n)
qed

text \<open>C34: an accepted policy document belongs to the tenant, orders its score bands, opens every action to none
  but the roles of the table, keeps each mandatory step-up with a proof of at most fifteen minutes, and,
  when its actions are strings, rules on every action of the table exactly once.\<close>

theorem accepted_policy_is_safe:
  assumes "validate_policy_data v tenant = Inr d"
  shows "d = v \<and> get (the_configuration d) ''tenantId'' = tenant \<and> (\<exists>t. tenant = JStr t \<and> is_id ''tnt'' t)
    \<and> (\<exists>q r c. get (get (the_configuration d) ''scoreBands'') ''quarantineBelow'' = num q
         \<and> get (get (the_configuration d) ''scoreBands'') ''restrictedBelow'' = num r
         \<and> get (get (the_configuration d) ''scoreBands'') ''conditionalBelow'' = num c \<and> 0 < q \<and> q < r \<and> r < c \<and> c < 100)
    \<and> list_all sound_rule (elements (get (the_configuration d) ''actionRules''))
    \<and> (list_all is_string (map (\<lambda>r. get r ''action'') (elements (get (the_configuration d) ''actionRules''))) \<longrightarrow>
         distinct (map (\<lambda>r. get r ''action'') (elements (get (the_configuration d) ''actionRules'')))
         \<and> set (map (\<lambda>r. get r ''action'') (elements (get (the_configuration d) ''actionRules''))) = JStr ` fst ` set action_table)
    \<and> 1 \<le> num_of (get (the_configuration d) ''stepUpMaximumAgeSeconds'')
    \<and> num_of (get (the_configuration d) ''stepUpMaximumAgeSeconds'') \<le> 900"
proof -
  define c where "c = the_configuration v"
  define rules where "rules = elements (get c ''actionRules'')"
  obtain c' where "policy_configuration v = Inr c'" using assms by (auto simp: validate_policy_data_def)
  then have conf: "policy_configuration v = Inr c" using policy_configuration_is c_def by simp
  have f: "d = v" "re_test_or_empty (is_id ''tnt'') tenant" "strict_eq (get c ''tenantId'') tenant"
    "safe_integer_from 1 (get c ''stepUpMaximumAgeSeconds'')" "num_of (get c ''stepUpMaximumAgeSeconds'') \<le> 900"
    "validate_score_bands (get c ''scoreBands'') = Inr ()" "validate_action_rules (get c ''actionRules'') = Inr ()"
    using assms by (auto simp: validate_policy_data_def conf policy_fail_def split: if_splits)
  have r: "validate_rules [] rules = Inr ()" "length rules = length action_table"
    using f(7) by (auto simp: validate_action_rules_def policy_fail_def rules_def split: if_splits)
  have same: "get c ''tenantId'' = tenant" using f(3) by (cases "get c ''tenantId''"; cases tenant) auto
  have t: "\<exists>t. tenant = JStr t \<and> is_id ''tnt'' t" using id_string[OF f(2), of "get c ''tenantId''"] f(3) by blast
  have all: "distinct (map (\<lambda>r. get r ''action'') rules) \<and> set (map (\<lambda>r. get r ''action'') rules) = JStr ` fst ` set action_table"
    if s: "list_all is_string (map (\<lambda>r. get r ''action'') rules)"
  proof -
    have d: "distinct (map (\<lambda>r. get r ''action'') rules)" using rules_sound(2)[OF r(1)] s by simp
    have "set (map (\<lambda>r. get r ''action'') rules) \<subseteq> JStr ` fst ` set action_table"
    proof
      fix x assume "x \<in> set (map (\<lambda>r. get r ''action'') rules)"
      then obtain q where q: "q \<in> set rules" "x = get q ''action''" by auto
      have "is_string x" using s q by (auto simp: list_all_iff)
      then obtain k where k: "x = JStr k" by (cases x) auto
      have "sound_rule q" using rules_sound(1)[OF r(1)] q(1) by (simp add: list_all_iff)
      then obtain y where "map_of action_table (to_string (get q ''action'')) = Some y" by (auto simp: sound_rule_def)
      moreover have "get q ''action'' = JStr k" using q(2) k by simp
      ultimately have "map_of action_table k = Some y" by simp
      then show "x \<in> JStr ` fst ` set action_table" unfolding k by (force dest: map_of_SomeD)
    qed
    then have "set (map (\<lambda>r. get r ''action'') rules) \<subseteq> set (map JStr (map fst action_table))" by (simp add: image_image)
    moreover have "distinct (map JStr (map fst action_table))" by (simp add: action_table_def distinct_map inj_on_def)
    ultimately have "set (map (\<lambda>r. get r ''action'') rules) = set (map JStr (map fst action_table))"
      using d r(2) by (intro length_eq_subset_distinct) simp_all
    then show ?thesis using d by (simp add: image_image)
  qed
  have "1 \<le> num_of (get c ''stepUpMaximumAgeSeconds'')" using f(4) by (auto simp: safe_integer_from_def)
  then show ?thesis
    using f(5) same t bands_ordered[OF f(6)] rules_sound(1)[OF r(1)] all
    unfolding f(1) c_def[symmetric] rules_def[symmetric] by fast
qed

subsection \<open>Witness\<close>

lemma prototype_configuration:
  "policy_configuration (prototype_document (JStr t)) = Inr (the_configuration (prototype_document (JStr t)))"
  by (simp add: policy_configuration_def the_configuration_def prototype_document_def policy_fields_def policy_configuration_fields_def)

lemma prototype_bands: "validate_score_bands (spread policy_score_bands []) = Inr ()"
proof -
  have "isl (validate_score_bands (spread policy_score_bands [])) = False" by code_simp
  then show ?thesis by (cases "validate_score_bands (spread policy_score_bands [])") auto
qed

lemma prototype_rules_valid: "validate_action_rules (JArr prototype_rules) = Inr ()"
proof -
  have "isl (validate_action_rules (JArr prototype_rules)) = False" by code_simp
  then show ?thesis by (cases "validate_action_rules (JArr prototype_rules)") auto
qed

text \<open>The shipped prototype is accepted for every tenant.\<close>

lemma prototype_accepted:
  assumes "is_id ''tnt'' t"
  shows "prototype_policy_data (JStr t) = Inr (prototype_document (JStr t))"
proof -
  let ?c = "the_configuration (prototype_document (JStr t))"
  have g: "get ?c ''tenantId'' = JStr t" "get ?c ''schemaVersion'' = JStr policy_schema_version" "get ?c ''policyProfile'' = JStr policy_profile"
    "get ?c ''calibrationStatus'' = JStr policy_calibration" "get ?c ''quarantineAction'' = JStr policy_quarantine_action"
    "get ?c ''stepUpMaximumAgeSeconds'' = num policy_step_up_seconds" "get ?c ''scoreBands'' = spread policy_score_bands []"
    "get ?c ''actionRules'' = JArr prototype_rules"
    by (simp_all add: the_configuration_def prototype_document_def)
  have p: "is_profile_id policy_profile" by code_simp
  have n: "safe_integer_from 1 (num policy_step_up_seconds)" "policy_step_up_seconds \<le> 900"
    by (simp_all add: policy_step_up_seconds_def safe_integer_from_def is_safe_integer_def is_integer_rat_def max_safe_integer_def)
  show ?thesis
    using assms p n unfolding prototype_policy_data_def validate_policy_data_def prototype_configuration and_then_Inr g
      prototype_bands prototype_rules_valid by simp
qed

lemma accepted_policy_is_safe_witness:
  "\<exists>d. validate_policy_data d (JStr ''tnt_00000000-0000-4000-8000-000000000001'') = Inr d
     \<and> JStr ''admin-key:rotate'' \<in> set (map (\<lambda>r. get r ''action'') (elements (get (the_configuration d) ''actionRules'')))"
proof -
  let ?t = "JStr ''tnt_00000000-0000-4000-8000-000000000001''"
  have "is_id ''tnt'' ''tnt_00000000-0000-4000-8000-000000000001''" by code_simp
  from prototype_accepted[OF this] have v: "validate_policy_data (prototype_document ?t) ?t = Inr (prototype_document ?t)"
    by (auto simp: prototype_policy_data_def policy_fail_def split: if_splits)
  have r: "elements (get (the_configuration (prototype_document ?t)) ''actionRules'') = prototype_rules"
    by (simp add: the_configuration_def prototype_document_def)
  have s: "list_all is_string (map (\<lambda>r. get r ''action'') prototype_rules)"
    by (simp add: prototype_rules_def action_table_def)
  have "set (map (\<lambda>r. get r ''action'') prototype_rules) = JStr ` fst ` set action_table"
    using accepted_policy_is_safe[OF v] s unfolding r by blast
  then show ?thesis using v r by (intro exI[of _ "prototype_document ?t"]) (simp add: action_table_def)
qed

text \<open>An array around an action name passes as a further action: the last rule of the table is missing here.\<close>

definition wrapped_rules :: "js list" where
  "wrapped_rules =
     butlast prototype_rules
     @ [obj [(''action'', JArr [JStr ''profile:read'']), (''sensitivity'', JStr ''confidential''), (''minimumScore'', num 0),
             (''roles'', JArr [JStr ''tenant-member'']), (''stepUpRequired'', JBool False)]]"

lemma wrapped_action_hides_rule:
  "validate_action_rules (JArr wrapped_rules) = Inr () \<and> JStr ''admin-key:rotate'' \<notin> set (map (\<lambda>r. get r ''action'') wrapped_rules)"
proof
  have "isl (validate_action_rules (JArr wrapped_rules)) = False" by code_simp
  then show "validate_action_rules (JArr wrapped_rules) = Inr ()" by (cases "validate_action_rules (JArr wrapped_rules)") auto
  show "JStr ''admin-key:rotate'' \<notin> set (map (\<lambda>r. get r ''action'') wrapped_rules)"
    by (simp add: wrapped_rules_def prototype_rules_def action_table_def)
qed

end
