(* ===== verification/EventMessaging.thy ===== *)
theory EventMessaging
  imports JsEffects TenantContext
begin

text \<open>
  \<open>packages/messaging/src/index.mjs\<close>: the subjects of the event stream and the configuration of its
  stream and of durable consumers. A subject starts with the tenant of a resolved context, so what one
  tenant's consumer filters cannot be an event of another tenant.
\<close>

section \<open>Names\<close>

definition event_stream :: string where "event_stream = ''TENANT_TRUST_EVENTS''"

definition event_subject_pattern :: string where "event_subject_pattern = ''tenant.*.events.>''"

definition second :: rat where "second = 1000000000"

definition default_backoff :: js where
  "default_backoff = JArr (map (\<lambda>n. num (n * second)) [1, 5, 30, 120, 600])"

text \<open>\<^verbatim>\<open>[A-Za-z0-9_-]+\<close>\<close>

definition is_subject_token :: "string \<Rightarrow> bool" where
  "is_subject_token s \<longleftrightarrow> s \<noteq> [] \<and> list_all (\<lambda>c. upper c \<or> lower c \<or> digit c \<or> c \<in> set ''_-'') s"

text \<open>\<^verbatim>\<open>[a-z][a-z0-9-]*\<close> and \<^verbatim>\<open>v[1-9][0-9]*\<close>, the parts between the dots.\<close>

definition is_name_part :: "string \<Rightarrow> bool" where
  "is_name_part s \<longleftrightarrow> s \<noteq> [] \<and> lower (hd s) \<and> list_all (\<lambda>c. lower c \<or> digit c \<or> c = CHR ''-'') (tl s)"

definition is_version_part :: "string \<Rightarrow> bool" where
  "is_version_part s \<longleftrightarrow>
     (case s of v # d # ds \<Rightarrow> v = CHR ''v'' \<and> digit d \<and> d \<noteq> CHR ''0'' \<and> list_all digit ds | _ \<Rightarrow> False)"

definition is_event_type :: "string \<Rightarrow> bool" where
  "is_event_type s \<longleftrightarrow>
     (let ps = split_on (CHR ''.'') s
      in 3 \<le> length ps \<and> list_all is_name_part (butlast ps) \<and> is_version_part (last ps))"

definition is_event_prefix_filter :: "string \<Rightarrow> bool" where
  "is_event_prefix_filter s \<longleftrightarrow>
     (let ps = split_on (CHR ''.'') s
      in 2 \<le> length ps \<and> list_all is_name_part (butlast ps) \<and> last ps = ''>'')"

section \<open>Subjects\<close>

definition event_subject :: "string \<Rightarrow> string \<Rightarrow> string" where
  "event_subject tenant suffix = ''tenant.'' @ tenant @ ''.events.'' @ suffix"

definition subject_for_event :: "context_store \<Rightarrow> context_arg \<Rightarrow> js \<Rightarrow> string res" where
  "subject_for_event st a event =
     (if \<not> is_record event then Inl TypeErrorThrown
      else and_then (assert_no_tenant_switch st a
             (JArr [obj [(''source'', JStr ''body''), (''tenantId'', get event ''tenantId'')]])) (\<lambda>c.
           if \<not> re_test_or_empty is_event_type (get event ''eventType'') then Inl TypeErrorThrown
           else Inr (event_subject (ctx_tenant c) (to_string (get event ''eventType'')))))"

section \<open>Configurations\<close>

definition event_stream_config :: js where
  "event_stream_config = obj
     [(''name'', JStr event_stream), (''description'', JStr ''Validated, tenant-scoped security domain events''),
      (''subjects'', JArr [JStr event_subject_pattern]), (''storage'', JStr ''file''), (''retention'', JStr ''limits''),
      (''discard'', JStr ''old''), (''max_age'', num (7 * 24 * 60 * 60 * second)), (''max_bytes'', num (512 * 1024 * 1024)),
      (''duplicate_window'', num (2 * 60 * second)), (''allow_direct'', JBool True)]"

text \<open>The fields of \<open>options\<close>, \<open>JUndef\<close> where absent.\<close>

record consumer_options =
  co_durable :: js
  co_filter :: js
  co_start :: js
  co_backoff :: js

definition durable_consumer_config :: "context_store \<Rightarrow> context_arg \<Rightarrow> consumer_options \<Rightarrow> js res" where
  "durable_consumer_config st a opts =
     (let filter = (if co_filter opts = JUndef then JStr ''>'' else co_filter opts);
          backoff = (if co_backoff opts = JUndef then default_backoff else co_backoff opts)
      in and_then (assert_no_tenant_switch st a JUndef) (\<lambda>c.
         if \<not> re_test_or_empty is_subject_token (co_durable opts) then Inl TypeErrorThrown
         else if filter \<noteq> JStr ''>'' \<and> \<not> re_test_or_empty is_event_type filter \<and> \<not> re_test_or_empty is_event_prefix_filter filter
         then Inl TypeErrorThrown
         else if \<not> is_array backoff \<or> elements backoff = []
                \<or> list_ex (\<lambda>d. \<not> is_safe_integer d \<or> num_of d \<le> 0) (elements backoff)
         then Inl TypeErrorThrown
         else Inr (obj
           ([(''durable_name'', co_durable opts), (''description'', JStr ''Durable tenant security event processor''),
             (''filter_subject'', JStr (event_subject (ctx_tenant c) (to_string filter))), (''ack_policy'', JStr ''explicit''),
             (''deliver_policy'', JStr (if co_start opts = JUndef then ''all'' else ''by_start_sequence'')),
             (''replay_policy'', JStr ''instant''), (''max_deliver'', num (of_nat (length (elements backoff)))),
             (''backoff'', backoff), (''max_ack_pending'', num 1)]
            @ (if co_start opts = JUndef then [] else [(''opt_start_seq'', co_start opts)])))))"

section \<open>Subjects keep tenants apart\<close>

lemma event_subject_inject:
  assumes "is_tenant_id t" "is_tenant_id u" "event_subject t a = event_subject u b"
  shows "t = u \<and> a = b"
proof -
  have "length t = length u" using assms(1,2) by (auto simp: is_tenant_id_def dest!: is_id_length)
  then show ?thesis using assms(3) by (auto simp: event_subject_def)
qed

lemma subject_for_event_ok:
  assumes "subject_for_event st a event = Inr s"
  shows "\<exists>c. trusted_context st a = Inr c \<and> get event ''tenantId'' = JStr (ctx_tenant c)
    \<and> re_test_or_empty is_event_type (get event ''eventType'')
    \<and> s = event_subject (ctx_tenant c) (to_string (get event ''eventType''))"
proof -
  obtain c where c: "trusted_context st a = Inr c"
    "check_claims c [obj [(''source'', JStr ''body''), (''tenantId'', get event ''tenantId'')]] = Inr ()"
    "re_test_or_empty is_event_type (get event ''eventType'')"
    "s = event_subject (ctx_tenant c) (to_string (get event ''eventType''))"
    using assms by (auto simp: subject_for_event_def assert_no_tenant_switch_def split: if_splits)
  have "strict_eq (get event ''tenantId'') (JStr (ctx_tenant c))"
    using c(2) by (auto simp: deny_context_def split: if_splits)
  then show ?thesis using c by simp
qed

end
