(* ===== verification/SignedEvents.thy ===== *)
theory SignedEvents
  imports EventMessaging EvidenceProtection TransitionExplanation RoleTransactions
begin

text \<open>
  \<open>packages/evidence-events/src/index.mjs\<close> and \<open>packages/certificate-events/src/index.mjs\<close>: signed
  domain events. Both build an unsigned event from a validated record, sign its canonical text, publish
  it and confirm the outbox entry; consumers verify before they act. The two modules have the same
  code but for their record, their error class and the prefix of their reason codes, which a
  \<open>event_family\<close> carries. Signing, the digest, signature verification, the stream, the outbox and key
  resolution are parameters.
\<close>

section \<open>Families of events\<close>

record event_family =
  ef_class :: error_class
  ef_prefix :: string
  ef_build :: "js \<Rightarrow> js \<Rightarrow> js res"      \<comment> \<open>the unsigned event of a record and a producer\<close>
  ef_binding :: "js \<Rightarrow> unit res"        \<comment> \<open>the checks of the verifier that only this family has\<close>

definition event_error :: "error_class \<Rightarrow> string \<Rightarrow> string \<Rightarrow> js_error" where
  "event_error c p r = Thrown c (p @ r)"

definition family_error :: "event_family \<Rightarrow> string \<Rightarrow> js_error" where
  "family_error F r = event_error (ef_class F) (ef_prefix F) r"

definition event_fault :: "event_family \<Rightarrow> string \<Rightarrow> js_error" where
  "event_fault F r = Thrown (ef_class F) r"

definition require_event_record :: "js_error \<Rightarrow> js \<Rightarrow> js res" where
  "require_event_record e v = (if is_record v then Inr v else Inl e)"

definition require_utc :: "js_error \<Rightarrow> js \<Rightarrow> js res" where
  "require_utc e v = (if canonical_utc v then Inr v else Inl e)"

text \<open>\<open>canonicalizeJson\<close>: the one text of a value, or the family's error.\<close>

definition canonicalize_event :: "error_class \<Rightarrow> js \<Rightarrow> string res" where
  "canonicalize_event c v = catch (canonical_value v) (\<lambda>_. throw c ''CANONICAL_CONTENT_INVALID'')"

definition event_bytes :: "event_family \<Rightarrow> js \<Rightarrow> bytes res" where
  "event_bytes F v = and_then (canonicalize_event (ef_class F) v) (\<lambda>t. Inr (utf8 t))"

text \<open>The part of \<open>validateProducer\<close> that both modules share; \<open>e\<close> is the error.\<close>

definition validate_event_producer :: "js_error \<Rightarrow> js \<Rightarrow> js res" where
  "validate_event_producer e v =
     and_then (require_event_record e v) (\<lambda>p.
       if \<not> re_test_or_empty is_producer_service (get p ''service'') \<or> \<not> is_string (get p ''instanceId'')
          \<or> length (str_of (get p ''instanceId'')) < 1 \<or> 128 < length (str_of (get p ''instanceId''))
          \<or> length (keys p) \<noteq> 2
       then Inl e else Inr p)"

section \<open>Accepted evidence\<close>

abbreviation evidence_error :: "string \<Rightarrow> js_error" where
  "evidence_error r \<equiv> event_error EvidenceEventError ''EVIDENCE_EVENT_'' r"

definition validate_accepted_record :: "js \<Rightarrow> js res" where
  "validate_accepted_record record =
     and_then (require_event_record (evidence_error ''INVALID'') record) (\<lambda>v.
       if \<not> re_test_or_empty (is_id ''tnt'') (get v ''tenantId'') \<or> \<not> re_test_or_empty (is_id ''sub'') (get v ''subjectId'')
          \<or> \<not> re_test_or_empty (is_id ''src'') (get v ''sourceId'') \<or> \<not> re_test_or_empty (is_id ''evd'') (get v ''evidenceId'')
          \<or> \<not> re_test_or_empty (is_id ''evt'') (get v ''eventId'') \<or> \<not> re_test_or_empty (is_id ''evt'') (get v ''sourceEventId'')
          \<or> \<not> re_test_or_empty (is_id ''cor'') (get v ''correlationId'') \<or> \<not> one_of evidence_types (get v ''evidenceType'')
          \<or> \<not> safe_integer_from 0 (get v ''sourceSequence'') \<or> \<not> re_test_or_empty is_sha256 (get v ''contentHashSha256'')
          \<or> \<not> is_bool (get v ''synthetic'')
       then Inl (evidence_error ''SOURCE_INVALID'')
       else and_then (map_res (\<lambda>k. require_utc (evidence_error ''TIME_INVALID'') (get v k)) [''observedAt'', ''expiresAt'', ''acceptedAt'']) (\<lambda>_.
         if parse_time (get v ''expiresAt'') \<le> parse_time (get v ''observedAt'')
            \<or> parse_time (get v ''acceptedAt'') < parse_time (get v ''observedAt'')
            \<or> parse_time (get v ''expiresAt'') \<le> parse_time (get v ''acceptedAt'')
         then Inl (evidence_error ''TIME_INVALID'') else Inr v))"

definition build_evidence_event :: "js \<Rightarrow> js \<Rightarrow> js res" where
  "build_evidence_event record producer =
     and_then (validate_accepted_record record) (\<lambda>s.
     and_then (validate_event_producer (evidence_error ''PRODUCER_INVALID'') producer) (\<lambda>p.
       Inr (obj
         [(''schemaVersion'', JStr ''1.0.0''), (''eventId'', get s ''eventId''), (''eventType'', JStr ''evidence.accepted.v1''),
          (''tenantId'', get s ''tenantId''), (''subjectId'', get s ''subjectId''), (''aggregateId'', get s ''evidenceId''),
          (''correlationId'', get s ''correlationId''), (''causationId'', get s ''sourceEventId''),
          (''idempotencyKey'', JStr (''evidence-accepted:'' @ to_string (get s ''evidenceId''))),
          (''occurredAt'', get s ''acceptedAt''), (''recordedAt'', get s ''acceptedAt''), (''producer'', spread p []),
          (''payload'', obj
            [(''evidenceId'', get s ''evidenceId''), (''sourceId'', get s ''sourceId''), (''evidenceType'', get s ''evidenceType''),
             (''observedAt'', get s ''observedAt''), (''expiresAt'', get s ''expiresAt''), (''sourceSequence'', get s ''sourceSequence''),
             (''contentHashSha256'', get s ''contentHashSha256''), (''synthetic'', get s ''synthetic'')])])))"

definition evidence_event_binding :: "js \<Rightarrow> unit res" where
  "evidence_event_binding v =
     (if get v ''eventType'' \<noteq> JStr ''evidence.accepted.v1'' then Inl (evidence_error ''TYPE_INVALID'')
      else if \<not> strict_eq (get v ''aggregateId'') (get (get v ''payload'') ''evidenceId'') then Inl (evidence_error ''BINDING_INVALID'')
      else Inr ())"

definition evidence_family :: event_family where
  "evidence_family =
     \<lparr> ef_class = EvidenceEventError, ef_prefix = ''EVIDENCE_EVENT_'', ef_build = build_evidence_event,
       ef_binding = evidence_event_binding \<rparr>"

section \<open>Certificate lifecycle\<close>

abbreviation certificate_error :: "string \<Rightarrow> js_error" where
  "certificate_error r \<equiv> event_error CertificateEventError ''CERTIFICATE_EVENT_'' r"

definition lifecycle_event_types :: "(string \<times> string) list" where
  "lifecycle_event_types =
     [(''issued'', ''certificate.issued.v1''), (''renewed'', ''certificate.renewed.v1''), (''superseded'', ''certificate.superseded.v1''),
      (''revoked'', ''certificate.revoked.v1''), (''expired'', ''certificate.expired.v1'')]"

definition lifecycle_states :: "(string \<times> string) list" where
  "lifecycle_states =
     [(''issued'', ''active''), (''renewed'', ''active''), (''superseded'', ''superseded''), (''revoked'', ''revoked''), (''expired'', ''expired'')]"

text \<open>\<^verbatim>\<open>(?!0{32}$)[0-9A-F]{32}\<close> and \<^verbatim>\<open>[A-Za-z0-9][A-Za-z0-9._:/-]{7,255}\<close>\<close>

definition is_event_serial :: "string \<Rightarrow> bool" where
  "is_event_serial s \<longleftrightarrow> length s = 32 \<and> list_all upper_hex s \<and> \<not> list_all (\<lambda>c. c = CHR ''0'') s"

definition is_confirmation_id :: "string \<Rightarrow> bool" where
  "is_confirmation_id = head_tail (\<lambda>c. upper c \<or> lower c \<or> digit c) (\<lambda>c. upper c \<or> lower c \<or> digit c \<or> c \<in> set ''._:/-'') 7 255"

text \<open>The conditions on the record in the order of the code, each with its error.\<close>

definition lifecycle_source_ok :: "js \<Rightarrow> bool" where
  "lifecycle_source_ok v \<longleftrightarrow>
     re_test_or_empty (is_id ''tnt'') (get v ''tenantId'') \<and> re_test_or_empty (is_id ''sub'') (get v ''subjectId'')
     \<and> re_test_or_empty (is_id ''crt'') (get v ''certificateId'') \<and> re_test_or_empty (is_id ''iss'') (get v ''issuerId'')
     \<and> re_test_or_empty (is_id ''evt'') (get v ''eventId'') \<and> re_test_or_empty (is_id ''cor'') (get v ''correlationId'')
     \<and> re_test_or_empty is_event_serial (get v ''serialNumber'') \<and> re_test_or_empty is_sha256 (get v ''fingerprintSha256'')
     \<and> re_test_or_empty is_idempotency_key (get v ''idempotencyKey'')
     \<and> (case map_of lifecycle_states (to_string (get v ''eventType'')) of Some s \<Rightarrow> get v ''state'' = JStr s | None \<Rightarrow> False)"

definition validate_lifecycle_record :: "js \<Rightarrow> js res" where
  "validate_lifecycle_record record =
     and_then (require_event_record (certificate_error ''INVALID'') record) (\<lambda>v.
       if \<not> lifecycle_source_ok v then Inl (certificate_error ''SOURCE_INVALID'')
       else and_then (map_res (\<lambda>k. require_utc (certificate_error ''TIME_INVALID'') (get v k)) [''occurredAt'', ''recordedAt'']) (\<lambda>_.
         if parse_time (get v ''recordedAt'') < parse_time (get v ''occurredAt'') then Inl (certificate_error ''TIME_INVALID'')
         else if get v ''actorSubjectId'' \<noteq> JNull \<and> \<not> re_test_or_empty (is_id ''sub'') (get v ''actorSubjectId'')
         then Inl (certificate_error ''SOURCE_INVALID'')
         else if (if get v ''eventType'' = JStr ''issued'' then get v ''causationId'' \<noteq> JNull \<or> get v ''supersedesCertificateId'' \<noteq> JNull
                  else \<not> re_test_or_empty (is_id ''evt'') (get v ''causationId''))
         then Inl (certificate_error ''CAUSATION_INVALID'')
         else and_then
           (if one_of [''issued'', ''renewed''] (get v ''eventType'')
            then and_then (map_res (\<lambda>k. require_utc (certificate_error ''TIME_INVALID'') (get v k)) [''notBefore'', ''notAfter'']) (\<lambda>_.
                 if parse_time (get v ''notAfter'') \<le> parse_time (get v ''notBefore'') then Inl (certificate_error ''TIME_INVALID'') else Inr ())
            else Inr ()) (\<lambda>_.
         if get v ''eventType'' = JStr ''renewed'' \<and> \<not> re_test_or_empty (is_id ''crt'') (get v ''supersedesCertificateId'')
         then Inl (certificate_error ''CAUSATION_INVALID'')
         else if one_of [''superseded'', ''revoked'', ''expired''] (get v ''eventType'') \<and> \<not> re_test_or_empty is_reason_code (get v ''reasonCode'')
         then Inl (certificate_error ''REASON_INVALID'')
         else if get v ''eventType'' = JStr ''expired'' \<and> get v ''reasonCode'' \<noteq> JStr ''CERTIFICATE_EXPIRED''
         then Inl (certificate_error ''REASON_INVALID'')
         else if get v ''eventType'' = JStr ''revoked'' \<and> \<not> re_test_or_empty is_confirmation_id (get v ''issuerConfirmationId'')
         then Inl (certificate_error ''SOURCE_INVALID'')
         else Inr v)))"

definition lifecycle_payload :: "js \<Rightarrow> js res" where
  "lifecycle_payload s =
     and_then (if get s ''eventType'' = JStr ''expired'' then require_utc (certificate_error ''TIME_INVALID'') (get s ''notAfter'') else Inr JUndef) (\<lambda>_.
       Inr (obj
         ([(''certificateId'', get s ''certificateId''), (''issuerId'', get s ''issuerId''), (''serialNumber'', get s ''serialNumber''),
           (''fingerprintSha256'', get s ''fingerprintSha256''), (''state'', get s ''state''), (''actorSubjectId'', get s ''actorSubjectId'')]
          @ (if one_of [''issued'', ''renewed''] (get s ''eventType'')
             then [(''notBefore'', get s ''notBefore''), (''notAfter'', get s ''notAfter''),
                   (''supersedesCertificateId'', get s ''supersedesCertificateId'')] else [])
          @ (if get s ''eventType'' = JStr ''expired''
             then [(''notAfter'', get s ''notAfter''), (''reasonCode'', get s ''reasonCode'')] else [])
          @ (if one_of [''superseded'', ''revoked''] (get s ''eventType'') then [(''reasonCode'', get s ''reasonCode'')] else [])
          @ (if get s ''eventType'' = JStr ''revoked'' then [(''issuerConfirmationId'', get s ''issuerConfirmationId'')] else []))))"

definition build_lifecycle_event :: "js \<Rightarrow> js \<Rightarrow> js res" where
  "build_lifecycle_event record producer =
     and_then (validate_lifecycle_record record) (\<lambda>s.
     and_then (validate_event_producer (certificate_error ''PRODUCER_INVALID'') producer) (\<lambda>p.
     and_then (lifecycle_payload s) (\<lambda>payload.
       Inr (obj
         [(''schemaVersion'', JStr ''1.0.0''), (''eventId'', get s ''eventId''),
          (''eventType'', JStr (the (map_of lifecycle_event_types (to_string (get s ''eventType''))))),
          (''tenantId'', get s ''tenantId''), (''subjectId'', get s ''subjectId''), (''aggregateId'', get s ''certificateId''),
          (''correlationId'', get s ''correlationId''), (''causationId'', get s ''causationId''),
          (''idempotencyKey'', get s ''idempotencyKey''), (''occurredAt'', get s ''occurredAt''),
          (''recordedAt'', get s ''recordedAt''), (''producer'', spread p []), (''payload'', payload)]))))"

definition certificate_family :: event_family where
  "certificate_family =
     \<lparr> ef_class = CertificateEventError, ef_prefix = ''CERTIFICATE_EVENT_'', ef_build = build_lifecycle_event, ef_binding = (\<lambda>_. Inr ()) \<rparr>"

section \<open>Signing\<close>

record 'w event_signer =
  es_key :: js
  es_sign :: "bytes \<Rightarrow> js \<Rightarrow> ('w, bytes) act"
  es_sha256 :: "bytes \<Rightarrow> string"
  es_validate :: "(js \<Rightarrow> js res) option"

text \<open>\<open>validateEvent && validateEvent(event) !== true\<close>\<close>

definition check_contract :: "event_family \<Rightarrow> (js \<Rightarrow> js res) option \<Rightarrow> js \<Rightarrow> unit res" where
  "check_contract F contract v =
     (case contract of None \<Rightarrow> Inr ()
      | Some f \<Rightarrow> and_then (f v) (\<lambda>ok. if ok \<noteq> JBool True then Inl (family_error F ''CONTRACT_INVALID'') else Inr ()))"

definition source_authentication :: "js \<Rightarrow> string \<Rightarrow> bytes \<Rightarrow> js" where
  "source_authentication key digest signature = obj
     [(''algorithm'', JStr ''Ed25519''), (''canonicalization'', JStr ''tenant-trust-json-v1''), (''keyId'', key),
      (''signedContentSha256'', JStr digest), (''signatureBase64Url'', JStr (b64_encode signature))]"

definition sign_unsigned_event :: "event_family \<Rightarrow> 'w event_signer \<Rightarrow> js \<Rightarrow> ('w, js) act" where
  "sign_unsigned_event F S unsigned =
     act_bind (act_res (event_bytes F unsigned)) (\<lambda>content.
     act_bind (es_sign S content (obj [(''algorithm'', JStr ''Ed25519''), (''keyId'', es_key S), (''tenantId'', get unsigned ''tenantId'')])) (\<lambda>signature.
       if length signature \<noteq> 64 then act_fail (event_fault F ''SOURCE_SIGNATURE_INVALID'')
       else let event = spread unsigned [(''sourceAuthentication'', source_authentication (es_key S) (es_sha256 S content) signature)]
            in act_bind (act_res (check_contract F (es_validate S) event)) (\<lambda>_. act_ret event)))"

definition sign_event :: "event_family \<Rightarrow> 'w event_signer \<Rightarrow> js \<Rightarrow> js \<Rightarrow> ('w, js) act" where
  "sign_event F S producer record =
     (if \<not> re_test_or_empty is_idempotency_key (es_key S) then act_fail (event_fault F ''SOURCE_SIGNER_INVALID'')
      else act_bind (act_res (ef_build F record producer)) (sign_unsigned_event F S))"

section \<open>Verification\<close>

text \<open>\<open>'k\<close> is a public key.\<close>

record ('w, 'k) event_verifier =
  ev_resolve :: "js \<Rightarrow> ('w, 'k option) act"
  ev_check :: "'k \<Rightarrow> bytes \<Rightarrow> bytes \<Rightarrow> bool"
  ev_digest :: "bytes \<Rightarrow> string"
  ev_contract :: "(js \<Rightarrow> js res) option"

definition authentication_ok :: "js \<Rightarrow> bool" where
  "authentication_ok a \<longleftrightarrow>
     get a ''algorithm'' = JStr ''Ed25519'' \<and> get a ''canonicalization'' = JStr ''tenant-trust-json-v1''
     \<and> re_test_or_empty is_idempotency_key (get a ''keyId'') \<and> re_test_or_empty is_sha256 (get a ''signedContentSha256'')
     \<and> re_test_or_empty (\<lambda>s. length s = 86 \<and> list_all url_char s) (get a ''signatureBase64Url'')"

definition check_event :: "event_family \<Rightarrow> (js \<Rightarrow> js res) option \<Rightarrow> js \<Rightarrow> js \<Rightarrow> js res" where
  "check_event F contract expected event =
     and_then (require_event_record (family_error F ''INVALID'') event) (\<lambda>v.
     and_then (check_contract F contract v) (\<lambda>_.
     and_then (ef_binding F v) (\<lambda>_.
       if expected \<noteq> JUndef \<and> \<not> strict_eq (get v ''tenantId'') expected then Inl (family_error F ''TENANT_MISMATCH'')
       else and_then (require_event_record (event_fault F ''SOURCE_AUTHENTICATION_INVALID'') (get v ''sourceAuthentication'')) (\<lambda>a.
         if \<not> authentication_ok a then Inl (event_fault F ''SOURCE_AUTHENTICATION_INVALID'') else Inr a))))"

definition key_query :: "js \<Rightarrow> js" where
  "key_query v = obj
     [(''tenantId'', get v ''tenantId''), (''producer'', get v ''producer''), (''keyId'', get (get v ''sourceAuthentication'') ''keyId''),
      (''algorithm'', get (get v ''sourceAuthentication'') ''algorithm'')]"

text \<open>\<open>Buffer.from(value, "base64url")\<close> of a value that passed the test: a string, or an array that prints as
  one, whose only element is not a number.\<close>

definition signature_bytes :: "js \<Rightarrow> bytes" where
  "signature_bytes v = (case v of JStr s \<Rightarrow> b64_decode s | JArr vs \<Rightarrow> map (\<lambda>_. CHR 0x00) vs | _ \<Rightarrow> [])"

definition verify_event :: "event_family \<Rightarrow> ('w, 'k) event_verifier \<Rightarrow> js \<Rightarrow> js \<Rightarrow> ('w, js) act" where
  "verify_event F V expected event =
     act_bind (act_res (check_event F (ev_contract V) expected event)) (\<lambda>a.
     let unsigned = without_field ''sourceAuthentication'' event
     in act_bind (act_res (event_bytes F unsigned)) (\<lambda>content.
        if JStr (ev_digest V content) \<noteq> get a ''signedContentSha256'' then act_fail (event_fault F ''SOURCE_SIGNATURE_INVALID'')
        else act_bind (ev_resolve V (key_query event)) (\<lambda>key.
             case key of
               None \<Rightarrow> act_fail (event_fault F ''SOURCE_SIGNATURE_INVALID'')
             | Some k \<Rightarrow>
                 if \<not> ev_check V k content (signature_bytes (get a ''signatureBase64Url''))
                 then act_fail (event_fault F ''SOURCE_SIGNATURE_INVALID'') else act_ret unsigned)))"

section \<open>Publishing\<close>

record 'w event_publisher =
  ep_producer :: js
  ep_signer :: "'w event_signer"
  ep_publish :: "string \<Rightarrow> bytes \<Rightarrow> js \<Rightarrow> ('w, js) act"      \<comment> \<open>subject, payload, message ID\<close>
  ep_mark_published :: "js \<Rightarrow> ('w, js) act"
  ep_mark_failed :: "js \<Rightarrow> ('w, js) act"

definition create_event_publisher :: "event_family \<Rightarrow> 'w event_publisher \<Rightarrow> 'w event_publisher res" where
  "create_event_publisher F P =
     and_then (validate_event_producer (family_error F ''PRODUCER_INVALID'') (ep_producer P)) (\<lambda>_.
       if \<not> re_test_or_empty is_idempotency_key (es_key (ep_signer P)) then Inl TypeErrorThrown else Inr P)"

definition acknowledged :: "js \<Rightarrow> bool" where
  "acknowledged ack \<longleftrightarrow>
     truthy ack \<and> get ack ''stream'' = JStr event_stream \<and> safe_integer_from 1 (get ack ''sequence'') \<and> is_bool (get ack ''duplicate'')"

definition publication_request :: "js \<Rightarrow> js \<Rightarrow> js \<Rightarrow> string \<Rightarrow> js" where
  "publication_request event token ack digest = obj
     [(''tenantId'', get event ''tenantId''), (''eventId'', get event ''eventId''), (''claimToken'', token),
      (''streamSequence'', get ack ''sequence''), (''signedEventSha256'', JStr digest)]"

definition publication_stored :: "js \<Rightarrow> js \<Rightarrow> string \<Rightarrow> js \<Rightarrow> bool" where
  "publication_stored event ack digest stored \<longleftrightarrow>
     truthy stored \<and> strict_eq (get stored ''eventId'') (get event ''eventId'') \<and> get stored ''status'' = JStr ''published''
     \<and> strict_eq (get stored ''streamSequence'') (get ack ''sequence'') \<and> get stored ''signedEventSha256'' = JStr digest"

definition attempt_publication :: "event_family \<Rightarrow> 'w event_publisher \<Rightarrow> context_store \<Rightarrow> context_arg \<Rightarrow> js \<Rightarrow> ('w, js) act" where
  "attempt_publication F P st a claim =
     act_bind (sign_event F (ep_signer P) (ep_producer P) claim) (\<lambda>event.
     act_bind (act_res (subject_for_event st a event)) (\<lambda>subject.
     act_bind (act_res (event_bytes F event)) (\<lambda>payload.
     act_bind (ep_publish P subject payload (get event ''eventId'')) (\<lambda>ack.
       if \<not> acknowledged ack then act_fail (event_fault F ''JETSTREAM_ACK_INVALID'')
       else let digest = es_sha256 (ep_signer P) payload
            in act_bind (ep_mark_published P (publication_request event (get claim ''claimToken'') ack digest)) (\<lambda>stored.
               if \<not> publication_stored event ack digest stored then act_fail (event_fault F ''OUTBOX_CONFIRMATION_INVALID'')
               else act_ret (obj [(''event'', event), (''subject'', JStr subject), (''acknowledgement'', spread ack []),
                                  (''signedEventSha256'', JStr digest)]))))))"

text \<open>\<open>error instanceof ... ? error.reasonCode : ...\<close>\<close>

definition publication_failure_code :: "event_family \<Rightarrow> js_error \<Rightarrow> string" where
  "publication_failure_code F e =
     (case e of Thrown c r \<Rightarrow> if c = ef_class F then r else ef_prefix F @ ''PUBLISH_FAILED'' | _ \<Rightarrow> ef_prefix F @ ''PUBLISH_FAILED'')"

definition failed_publication :: "event_family \<Rightarrow> js \<Rightarrow> js_error \<Rightarrow> js" where
  "failed_publication F claim e = obj
     [(''tenantId'', get claim ''tenantId''), (''eventId'', get claim ''eventId''), (''claimToken'', get claim ''claimToken''),
      (''failureCode'', JStr (publication_failure_code F e))]"

definition publish_claim :: "event_family \<Rightarrow> 'w event_publisher \<Rightarrow> context_store \<Rightarrow> context_arg \<Rightarrow> js \<Rightarrow> ('w, js) act" where
  "publish_claim F P st a claim =
     (if \<not> is_record claim \<or> \<not> re_test_or_empty (is_id ''clm'') (get claim ''claimToken'')
      then act_fail (event_fault F ''OUTBOX_CLAIM_INVALID'')
      else act_catch (attempt_publication F P st a claim) (\<lambda>e.
             act_bind (ep_mark_failed P (failed_publication F claim e)) (\<lambda>_. act_fail e)))"

section \<open>Consuming\<close>

text \<open>\<open>con_once\<close> receives the delivery and what it holds of functions stays with its provider.\<close>

record 'w event_consumer =
  con_name :: js
  con_verify :: "js \<Rightarrow> js \<Rightarrow> ('w, js) act"       \<comment> \<open>expected tenant, event\<close>
  con_once :: "js \<Rightarrow> ('w, js) act"
  con_sha256 :: "bytes \<Rightarrow> string"

definition consume_event :: "event_family \<Rightarrow> 'w event_consumer \<Rightarrow> js \<Rightarrow> js \<Rightarrow> js \<Rightarrow> ('w, js) act" where
  "consume_event F C event sequence expected =
     (if \<not> safe_integer_from 1 sequence then act_fail (family_error F ''DELIVERY_INVALID'')
      else act_bind (con_verify C expected event) (\<lambda>verified.
           act_bind (act_res (event_bytes F event)) (\<lambda>payload.
           let digest = con_sha256 C payload
           in act_bind (con_once C (obj
                [(''consumerName'', con_name C), (''event'', event), (''verified'', verified), (''streamSequence'', sequence),
                 (''signedEventSha256'', JStr digest)])) (\<lambda>applied.
              if \<not> is_bool applied then act_fail (family_error F ''EFFECT_INVALID'')
              else act_ret (obj [(''applied'', applied), (''eventId'', get event ''eventId''), (''signedEventSha256'', JStr digest)])))))"

section \<open>The two services\<close>

text \<open>The operations of the certificate module are those of the evidence module over its own family.\<close>

definition sign_evidence_event :: "'w event_signer \<Rightarrow> js \<Rightarrow> js \<Rightarrow> ('w, js) act" where
  "sign_evidence_event = sign_event evidence_family"
definition verify_evidence_event :: "('w, 'k) event_verifier \<Rightarrow> js \<Rightarrow> js \<Rightarrow> ('w, js) act" where
  "verify_evidence_event = verify_event evidence_family"
definition publish_evidence_claim :: "'w event_publisher \<Rightarrow> context_store \<Rightarrow> context_arg \<Rightarrow> js \<Rightarrow> ('w, js) act" where
  "publish_evidence_claim = publish_claim evidence_family"
definition consume_accepted_evidence :: "'w event_consumer \<Rightarrow> js \<Rightarrow> js \<Rightarrow> js \<Rightarrow> ('w, js) act" where
  "consume_accepted_evidence = consume_event evidence_family"
definition sign_lifecycle_event :: "'w event_signer \<Rightarrow> js \<Rightarrow> js \<Rightarrow> ('w, js) act" where
  "sign_lifecycle_event = sign_event certificate_family"
definition verify_lifecycle_event :: "('w, 'k) event_verifier \<Rightarrow> js \<Rightarrow> js \<Rightarrow> ('w, js) act" where
  "verify_lifecycle_event = verify_event certificate_family"
definition publish_lifecycle_claim :: "'w event_publisher \<Rightarrow> context_store \<Rightarrow> context_arg \<Rightarrow> js \<Rightarrow> ('w, js) act" where
  "publish_lifecycle_claim = publish_claim certificate_family"

section \<open>Outbox repositories\<close>

text \<open>The templates of the certificate module begin with a line break, left out here.\<close>

definition evidence_claim_sql :: string where
  "evidence_claim_sql = ''SELECT * FROM trust.claim_evidence_event_outbox($1, $2, $3, $4)''"
definition evidence_published_sql :: string where
  "evidence_published_sql = ''SELECT * FROM trust.mark_evidence_event_published($1, $2, $3, $4, $5, $6)''"
definition evidence_failed_sql :: string where
  "evidence_failed_sql = ''SELECT * FROM trust.mark_evidence_event_publish_failed($1, $2, $3, $4, $5, $6)''"
definition evidence_effect_sql :: string where
  "evidence_effect_sql = ''SELECT trust.record_evidence_event_effect($1, $2, $3, $4, $5, $6, $7) AS recorded''"
definition certificate_claim_sql :: string where
  "certificate_claim_sql = ''SELECT * FROM identity.claim_certificate_event_outbox($1, $2, $3, $4)''"
definition certificate_published_sql :: string where
  "certificate_published_sql = ''SELECT * FROM identity.mark_certificate_event_published($1, $2, $3, $4, $5, $6)''"
definition certificate_failed_sql :: string where
  "certificate_failed_sql = ''SELECT * FROM identity.mark_certificate_event_publish_failed($1, $2, $3, $4, $5, $6)''"

text \<open>\<open>clock().toISOString()\<close>\<close>

definition clock_text :: "'w env \<Rightarrow> ('w, js) act" where
  "clock_text E =
     act_bind (env_clock E) (\<lambda>v. act_res (case v of
       JDate (Some t) \<Rightarrow> Inr (JStr (time_to_iso t)) | JDate None \<Rightarrow> Inl RangeErrorThrown | _ \<Rightarrow> Inl TypeErrorThrown))"

text \<open>The columns of a row under their new names, then the date columns, which may throw.\<close>

definition evidence_claim :: "(js \<Rightarrow> int option) \<Rightarrow> js \<Rightarrow> js res" where
  "evidence_claim pd row =
     (if \<not> truthy row then Inr JNull
      else and_then (map_res (\<lambda>k. iso_string pd (get row k)) [''observed_at'', ''expires_at'', ''accepted_at'']) (\<lambda>times. Inr (obj
        [(''tenantId'', get row ''tenant_id''), (''eventId'', get row ''event_id''), (''sourceEventId'', get row ''source_event_id''),
         (''evidenceId'', get row ''evidence_id''), (''correlationId'', get row ''correlation_id''),
         (''subjectId'', get row ''subject_id''), (''sourceId'', get row ''source_id''), (''evidenceType'', get row ''evidence_type''),
         (''sourceSequence'', js_number (get row ''source_sequence'')), (''contentHashSha256'', get row ''content_hash_sha256''),
         (''synthetic'', get row ''synthetic''), (''observedAt'', times ! 0), (''expiresAt'', times ! 1), (''acceptedAt'', times ! 2),
         (''claimToken'', get row ''claim_token''), (''attemptCount'', js_number (get row ''attempt_count''))])))"

definition certificate_claim :: "(js \<Rightarrow> int option) \<Rightarrow> js \<Rightarrow> js res" where
  "certificate_claim pd row =
     (if \<not> truthy row then Inr JNull
      else and_then (map_res (\<lambda>k. iso_string pd (get row k)) [''not_before'', ''not_after'', ''occurred_at'', ''recorded_at'']) (\<lambda>times. Inr (obj
        [(''tenantId'', get row ''tenant_id''), (''eventId'', get row ''event_id''), (''eventType'', get row ''event_type''),
         (''state'', get row ''certificate_state''), (''certificateId'', get row ''certificate_id''),
         (''subjectId'', get row ''subject_id''), (''issuerId'', get row ''issuer_id''), (''serialNumber'', get row ''serial_number''),
         (''fingerprintSha256'', get row ''fingerprint_sha256''), (''notBefore'', times ! 0), (''notAfter'', times ! 1),
         (''supersedesCertificateId'', get row ''supersedes_certificate_id''), (''requestId'', get row ''request_id''),
         (''correlationId'', get row ''correlation_id''), (''causationId'', get row ''causation_event_id''),
         (''idempotencyKey'', get row ''idempotency_key''), (''actorSubjectId'', get row ''actor_subject_id''),
         (''reasonCode'', get row ''reason_code''), (''issuerConfirmationId'', get row ''issuer_confirmation_id''),
         (''occurredAt'', times ! 2), (''recordedAt'', times ! 3), (''claimToken'', get row ''claim_token''),
         (''attemptCount'', js_number (get row ''attempt_count''))])))"

definition claim_next_event ::
  "event_family \<Rightarrow> string \<Rightarrow> ((js \<Rightarrow> int option) \<Rightarrow> js \<Rightarrow> js res) \<Rightarrow> 'w env \<Rightarrow> js \<Rightarrow> js \<Rightarrow> ('w, js) act" where
  "claim_next_event F sql row_to_claim E tenant worker =
     (if \<not> re_test_or_empty (is_id ''tnt'') tenant \<or> \<not> re_test_or_empty is_worker_id worker
      then act_fail (event_fault F ''OUTBOX_CLAIM_INVALID'')
      else act_bind (env_id E) (\<lambda>i. let token = ''clm_'' @ to_string i in
           if \<not> is_id ''clm'' token then act_fail (event_fault F ''OUTBOX_CLAIM_INVALID'')
           else act_bind (clock_text E) (\<lambda>now.
                act_bind (env_query E sql [tenant, worker, JStr token, now]) (\<lambda>result.
                act_res (and_then (maybe_one_row (event_fault F ''OUTBOX_SOURCE_INVALID'') result) (row_to_claim (env_date E)))))))"

definition mark_event_published :: "event_family \<Rightarrow> string \<Rightarrow> 'w env \<Rightarrow> js \<Rightarrow> ('w, js) act" where
  "mark_event_published F sql E v =
     act_bind (clock_text E) (\<lambda>now.
     act_bind (env_query E sql [get v ''tenantId'', get v ''eventId'', get v ''claimToken'', get v ''streamSequence'',
       get v ''signedEventSha256'', now]) (\<lambda>result.
     act_res (and_then (one_row (event_fault F ''OUTBOX_CONFIRMATION_INVALID'') result) (\<lambda>row.
              and_then (read row ''event_id'') (\<lambda>event. Inr (obj
                [(''eventId'', event), (''status'', get row ''status''), (''streamSequence'', js_number (get row ''stream_sequence'')),
                 (''signedEventSha256'', get row ''signed_event_sha256'')]))))))"

definition mark_event_failed :: "event_family \<Rightarrow> string \<Rightarrow> 'w env \<Rightarrow> js \<Rightarrow> ('w, js) act" where
  "mark_event_failed F sql E v =
     act_bind (clock_text E) (\<lambda>now.
     act_bind (env_query E sql [get v ''tenantId'', get v ''eventId'', get v ''claimToken'', get v ''failureCode'', now, num 5]) (\<lambda>result.
     act_res (and_then (one_row (event_fault F ''OUTBOX_FAILURE_RECORD_INVALID'') result) (\<lambda>row.
              and_then (read row ''event_id'') (\<lambda>event. Inr (obj [(''eventId'', event), (''status'', get row ''status'')]))))))"

text \<open>The four public repositories of the two modules.\<close>

definition evidence_claim_next :: "'w env \<Rightarrow> js \<Rightarrow> js \<Rightarrow> ('w, js) act" where
  "evidence_claim_next = claim_next_event evidence_family evidence_claim_sql evidence_claim"
definition evidence_mark_published :: "'w env \<Rightarrow> js \<Rightarrow> ('w, js) act" where
  "evidence_mark_published = mark_event_published evidence_family evidence_published_sql"
definition evidence_mark_failed :: "'w env \<Rightarrow> js \<Rightarrow> ('w, js) act" where
  "evidence_mark_failed = mark_event_failed evidence_family evidence_failed_sql"
definition certificate_claim_next :: "'w env \<Rightarrow> js \<Rightarrow> js \<Rightarrow> ('w, js) act" where
  "certificate_claim_next = claim_next_event certificate_family certificate_claim_sql certificate_claim"
definition certificate_mark_published :: "'w env \<Rightarrow> js \<Rightarrow> ('w, js) act" where
  "certificate_mark_published = mark_event_published certificate_family certificate_published_sql"
definition certificate_mark_failed :: "'w env \<Rightarrow> js \<Rightarrow> ('w, js) act" where
  "certificate_mark_failed = mark_event_failed certificate_family certificate_failed_sql"

text \<open>The exactly-once effect: the record of the effect and the effect itself share one transaction.\<close>

definition consume_evidence_once ::
  "(('w query \<Rightarrow> ('w, js) act) \<Rightarrow> ('w, js) act) \<Rightarrow> 'w env \<Rightarrow> (js \<Rightarrow> 'w query \<Rightarrow> ('w, unit) act) \<Rightarrow> js \<Rightarrow> ('w, js) act" where
  "consume_evidence_once with_transaction E apply_effect delivery =
     (let event = get delivery ''event'' in
      if \<not> re_test_or_empty is_worker_id (get delivery ''consumerName'') \<or> \<not> re_test_or_empty (is_id ''tnt'') (get event ''tenantId'')
         \<or> \<not> re_test_or_empty (is_id ''evt'') (get event ''eventId'') \<or> \<not> re_test_or_empty (is_id ''evd'') (get event ''aggregateId'')
         \<or> \<not> safe_integer_from 1 (get delivery ''streamSequence'')
         \<or> \<not> re_test_or_empty is_sha256 (get delivery ''signedEventSha256'')
      then act_fail (evidence_error ''EFFECT_INVALID'')
      else with_transaction (\<lambda>query.
        act_bind (clock_text E) (\<lambda>now.
        act_bind (query evidence_effect_sql
          [get delivery ''consumerName'', get event ''tenantId'', get event ''eventId'', get event ''aggregateId'',
           get delivery ''streamSequence'', get delivery ''signedEventSha256'', now]) (\<lambda>result.
        act_bind (act_res (one_row (evidence_error ''EFFECT_INVALID'') result)) (\<lambda>row.
        act_bind (act_res (read row ''recorded'')) (\<lambda>recorded.
          if \<not> is_bool recorded then act_fail (evidence_error ''EFFECT_INVALID'')
          else if recorded \<noteq> JBool True then act_ret (JBool False)
          else act_bind (apply_effect event query) (\<lambda>_. act_ret (JBool True))))))))"

section \<open>What the operations keep\<close>

lemma build_evidence_event_ok:
  assumes "build_evidence_event record producer = Inr u"
  shows "\<exists>fs. u = obj fs \<and> distinct (map fst fs) \<and> ''sourceAuthentication'' \<notin> set (map fst fs)"
    "get u ''tenantId'' = get record ''tenantId''" "get u ''eventType'' = JStr ''evidence.accepted.v1''"
    "get u ''aggregateId'' = get (get u ''payload'') ''evidenceId''" "get u ''eventId'' = get record ''eventId''"
  using assms by (auto simp: build_evidence_event_def validate_accepted_record_def require_event_record_def split: if_splits)

lemma build_lifecycle_event_ok:
  assumes "build_lifecycle_event record producer = Inr u"
  shows "\<exists>fs. u = obj fs \<and> distinct (map fst fs) \<and> ''sourceAuthentication'' \<notin> set (map fst fs)"
    "get u ''tenantId'' = get record ''tenantId''" "get u ''eventId'' = get record ''eventId''"
proof -
  have r: "validate_lifecycle_record record = Inr s \<Longrightarrow> s = record" for s
    by (auto simp: validate_lifecycle_record_def require_event_record_def Let_def split: if_splits)
  show "\<exists>fs. u = obj fs \<and> distinct (map fst fs) \<and> ''sourceAuthentication'' \<notin> set (map fst fs)"
    "get u ''tenantId'' = get record ''tenantId''" "get u ''eventId'' = get record ''eventId''"
    using assms by (auto simp: build_lifecycle_event_def dest!: r)
qed

definition known_family :: "event_family \<Rightarrow> bool" where
  "known_family F \<longleftrightarrow> F = evidence_family \<or> F = certificate_family"

lemma built_event:
  assumes "known_family F" "ef_build F record producer = Inr u"
  shows "\<exists>fs. u = obj fs \<and> distinct (map fst fs) \<and> ''sourceAuthentication'' \<notin> set (map fst fs)"
    "get u ''tenantId'' = get record ''tenantId''" "get u ''eventId'' = get record ''eventId''"
  using assms build_evidence_event_ok build_lifecycle_event_ok
  by (auto simp: known_family_def evidence_family_def certificate_family_def)

text \<open>Adding a field to an object that does not have it, and taking it out again.\<close>

lemma own_fields_distinct: "distinct (map fst fs) \<Longrightarrow> own_fields (JObj p fs) = fs"
proof -
  assume d: "distinct (map fst fs)"
  have "map (\<lambda>k. (k, the (own fs k))) (map fst fs) = fs"
    unfolding map_map by (intro map_idI) (auto simp: own_map_of map_of_is_SomeI[OF d])
  then show ?thesis using d by (simp add: distinct_remdups_id)
qed

lemma spread_new:
  "distinct (map fst fs) \<Longrightarrow> k \<notin> set (map fst fs) \<Longrightarrow> spread (obj fs) [(k, x)] = obj (fs @ [(k, x)])"
  by (simp add: spread_def own_fields_distinct update_new del: own_fields.simps)

lemma without_spread:
  assumes "distinct (map fst fs)" "k \<notin> set (map fst fs)"
  shows "without_field k (spread (obj fs) [(k, x)]) = obj fs"
proof -
  have "filter (\<lambda>f. fst f \<noteq> k) fs = fs" using assms(2) by (force simp: filter_id_conv)
  then show ?thesis using assms by (simp add: spread_new)
qed

lemma get_spread_other: "j \<noteq> k \<Longrightarrow> get (spread (obj fs) [(k, x)]) j = get (obj fs) j"
  by (simp add: get_spread del: get.simps)

lemma get_spread_same: "get (spread (obj fs) [(k, x)]) k = x"
  by (simp add: get_spread del: get.simps)

lemma sign_event_ok:
  assumes "sign_event F S producer record w = (w', Inr event)"
  obtains u content v signature where "ef_build F record producer = Inr u" "event_bytes F u = Inr content"
    "es_sign S content (obj [(''algorithm'', JStr ''Ed25519''), (''keyId'', es_key S), (''tenantId'', get u ''tenantId'')]) w = (w', Inr signature)"
    "length signature = 64" "re_test_or_empty is_idempotency_key (es_key S)"
    "event = spread u [(''sourceAuthentication'', source_authentication (es_key S) (es_sha256 S content) signature)]"
    "check_contract F (es_validate S) event = Inr ()"
  using assms by (auto simp: sign_event_def sign_unsigned_event_def act_bind_Inr Let_def split: if_splits)

lemma b64_encode_shape:
  "length bs = 3 * n + 1 \<Longrightarrow> length (b64_encode bs) = 4 * n + 2"
proof (induction n arbitrary: bs)
  case 0
  then obtain a where "bs = [a]" by (auto simp: length_Suc_conv)
  then show ?case by (simp add: Let_def)
next
  case (Suc n)
  then obtain a b c cs where bs: "bs = a # b # c # cs" "length cs = 3 * n + 1"
    by (auto simp: length_Suc_conv numeral_eq_Suc)
  then show ?case using Suc.IH[of cs] by (simp add: Let_def)
qed

lemma b64_char_url: "n < 64 \<Longrightarrow> url_char (b64_char n)"
proof -
  assume "n < 64"
  moreover have "list_all (\<lambda>k. url_char (b64_char k)) [0..<64]" by code_simp
  ultimately show ?thesis by (simp add: list_all_iff)
qed

lemma sextets_join:
  fixes m n :: nat
  assumes "m < 256" "n < 256"
  shows "m mod 4 * 16 + n div 16 < 64" "m mod 16 * 4 + n div 64 < 64"
proof -
  have "m mod 4 < 4" "m mod 16 < 16" "n div 16 < 16" "n div 64 < 4" using assms by auto
  then show "m mod 4 * 16 + n div 16 < 64" "m mod 16 * 4 + n div 64 < 64" by linarith+
qed

lemma byte_quotients: "of_char c div 4 < (64::nat)" "of_char c mod 64 < (64::nat)" "of_char c mod 4 * 16 < (64::nat)" "of_char c mod 16 * 4 < (64::nat)"
proof -
  have "(of_char c :: nat) mod 4 < 4" "(of_char c :: nat) mod 16 < 16" by simp_all
  then show "of_char c mod 4 * 16 < (64::nat)" "of_char c mod 16 * 4 < (64::nat)" by linarith+
  show "of_char c div 4 < (64::nat)" "of_char c mod 64 < (64::nat)" using div_bounds_256[OF of_char_lt[of c]] by simp_all
qed

lemma b64_encode_url: "list_all url_char (b64_encode bs)"
  by (induction bs rule: b64_encode.induct)
    (auto simp: Let_def intro!: b64_char_url sextets_join[OF of_char_lt of_char_lt] byte_quotients)

section \<open>Properties\<close>

text \<open>A digest that is one and a signature that its key accepts.\<close>

definition verifies_signer :: "('w, 'k) event_verifier \<Rightarrow> 'w event_signer \<Rightarrow> 'k \<Rightarrow> bool" where
  "verifies_signer V S k \<longleftrightarrow>
     ev_digest V = es_sha256 S \<and> ev_contract V = es_validate S \<and> (\<forall>t. is_sha256 (es_sha256 S t))
     \<and> (\<forall>content options w w' signature. es_sign S content options w = (w', Inr signature) \<longrightarrow> ev_check V k content signature)"

lemma signed_authentication_ok:
  assumes "re_test_or_empty is_idempotency_key key" "is_sha256 digest" "length signature = 64"
  shows "authentication_ok (source_authentication key digest signature)"
proof -
  have "length (b64_encode signature) = 86" using b64_encode_shape[of signature 21] assms(3) by simp
  then show ?thesis using assms b64_encode_url[of signature] by (simp add: authentication_ok_def source_authentication_def)
qed

lemma binding_survives:
  assumes "known_family F" "ef_build F record producer = Inr u" "is_string (get u ''aggregateId'')"
  shows "ef_binding F (spread u [(''sourceAuthentication'', x)]) = Inr ()"
proof (cases "F = evidence_family")
  case True
  then have b: "build_evidence_event record producer = Inr u" using assms(2) by (simp add: evidence_family_def)
  obtain fs where u: "u = obj fs" using build_evidence_event_ok(1)[OF b] by blast
  have o: "get (spread u [(''sourceAuthentication'', x)]) k = get u k" if "k \<noteq> ''sourceAuthentication''" for k
    unfolding u using that by (rule get_spread_other)
  obtain i where i: "get u ''aggregateId'' = JStr i" using assms(3) by (auto simp: is_string_iff)
  have p: "get (get u ''payload'') ''evidenceId'' = JStr i" "get u ''eventType'' = JStr ''evidence.accepted.v1''"
    using build_evidence_event_ok(3,4)[OF b] i by simp_all
  have "evidence_event_binding (spread u [(''sourceAuthentication'', x)]) = Inr ()"
    unfolding evidence_event_binding_def by (simp add: o i p del: get.simps)
  then show ?thesis using True by (simp add: evidence_family_def)
next
  case False
  then show ?thesis using assms(1) by (simp add: known_family_def certificate_family_def)
qed

text \<open>C35: what either service signs, its verifier accepts: with the digest and contract of the signer and a key that
  accepts its signatures, verification of a signed event returns the unsigned event that was built from the record.\<close>

theorem signed_event_verifies:
  assumes "known_family F" "sign_event F S producer record w = (w', Inr event)" "verifies_signer V S k"
    and "ev_resolve V (key_query event) v = (v', Inr (Some k))"
    and "is_string (get event ''aggregateId'')" "expected = JUndef \<or> (is_string expected \<and> expected = get event ''tenantId'')"
  shows "\<exists>u. ef_build F record producer = Inr u \<and> verify_event F V expected event v = (v', Inr u)"
proof -
  obtain u content x signature where s: "ef_build F record producer = Inr u" "event_bytes F u = Inr content"
    "es_sign S content x w = (w', Inr signature)" "length signature = 64" "re_test_or_empty is_idempotency_key (es_key S)"
    "event = spread u [(''sourceAuthentication'', source_authentication (es_key S) (es_sha256 S content) signature)]"
    "check_contract F (es_validate S) event = Inr ()"
    using assms(2) by (rule sign_event_ok) blast
  obtain fs where u: "u = obj fs" "distinct (map fst fs)" "''sourceAuthentication'' \<notin> set (map fst fs)"
    using built_event(1)[OF assms(1) s(1)] by blast
  let ?a = "source_authentication (es_key S) (es_sha256 S content) signature"
  have g: "get event ''sourceAuthentication'' = ?a" "get event ''aggregateId'' = get u ''aggregateId''" "get event ''tenantId'' = get u ''tenantId''"
    unfolding s(6) u(1) by (simp_all add: get_spread_same get_spread_other del: get.simps)
  have w: "without_field ''sourceAuthentication'' event = u" unfolding s(6) u(1) using u(2,3) by (rule without_spread)
  have b: "ef_binding F event = Inr ()" unfolding s(6) using assms(1) s(1) assms(5)[unfolded g(2)] by (rule binding_survives)
  have d: "is_sha256 (es_sha256 S content)" "ev_digest V = es_sha256 S" "ev_contract V = es_validate S" "ev_check V k content signature"
    using assms(3) s(3) by (auto simp: verifies_signer_def)
  have a: "authentication_ok ?a" using signed_authentication_ok[OF s(5) d(1) s(4)] .
  have r: "is_record event" "is_record ?a" unfolding s(6) by (simp_all add: spread_def is_record_def source_authentication_def)
  have t: "expected = JUndef \<or> strict_eq (get event ''tenantId'') expected" using assms(6) by (auto simp: is_string_iff)
  have "check_event F (ev_contract V) expected event = Inr ?a"
    using r a b t s(7) d(3) by (auto simp: check_event_def require_event_record_def g(1))
  moreover have "get ?a ''signedContentSha256'' = JStr (es_sha256 S content)" "get ?a ''signatureBase64Url'' = JStr (b64_encode signature)"
    by (simp_all add: source_authentication_def)
  ultimately have "verify_event F V expected event v = (v', Inr u)"
    using assms(4) s(2) d by (simp add: verify_event_def w act_bind_def signature_bytes_def)
  then show ?thesis using s(1) by blast
qed

text \<open>C36: an event passes only if it is authentic: it belongs to the expected tenant, its digest is that of its canonical text,
  and the key resolved for its own tenant, producer and key identifier accepts the signature of that text; any
  event with the same text has the same content.\<close>

theorem only_authentic_events_pass:
  assumes "verify_event F V expected event w = (w', Inr u)"
  shows "u = without_field ''sourceAuthentication'' event \<and> (expected = JUndef \<or> strict_eq (get event ''tenantId'') expected)
    \<and> ef_binding F event = Inr ()
    \<and> (\<exists>content k. event_bytes F u = Inr content \<and> get (get event ''sourceAuthentication'') ''signedContentSha256'' = JStr (ev_digest V content)
         \<and> ev_resolve V (key_query event) w = (w', Inr (Some k))
         \<and> ev_check V k content (signature_bytes (get (get event ''sourceAuthentication'') ''signatureBase64Url''))
         \<and> (\<forall>v. event_bytes F v = Inr content \<and> json_doubles u \<and> json_doubles v \<longrightarrow> json_normal v = json_normal u))"
proof -
  define sa where "sa = get event ''sourceAuthentication''"
  obtain a where a: "check_event F (ev_contract V) expected event = Inr a"
    using assms by (auto simp: verify_event_def act_bind_Inr)
  have c: "ef_binding F event = Inr ()" "expected = JUndef \<or> strict_eq (get event ''tenantId'') expected" "a = sa"
    using a by (auto simp: check_event_def require_event_record_def sa_def split: if_splits)
  obtain content k where k: "u = without_field ''sourceAuthentication'' event" "event_bytes F u = Inr content"
    "get sa ''signedContentSha256'' = JStr (ev_digest V content)" "ev_resolve V (key_query event) w = (w', Inr (Some k))"
    "ev_check V k content (signature_bytes (get sa ''signatureBase64Url''))"
    using assms unfolding verify_event_def a c(3) by (auto simp: act_bind_Inr Let_def split: if_splits option.splits)
  have same: "json_normal v = json_normal u" if v: "event_bytes F v = Inr content" "json_doubles u" "json_doubles v" for v
  proof -
    obtain s t where st: "canonical_value u = Inr s" "canonical_value v = Inr t" "utf8 s = utf8 t"
      using v(1) k(2) by (auto simp: event_bytes_def canonicalize_event_def catch_eq_Inr)
    have "canonical_value v = Inr s" using st utf8_inj by simp
    from canonical_json_determines[OF canonical_value_json[OF this] canonical_value_json[OF st(1)] v(3,2)] show ?thesis .
  qed
  show ?thesis unfolding sa_def[symmetric] using k c(1,2) same by blast
qed

text \<open>The same publisher, recording what it gives to the stream.\<close>

definition unlogged :: "('w, 'a) act \<Rightarrow> ('w \<times> 'l, 'a) act" where
  "unlogged m = (\<lambda>(w, l). case m w of (w', r) \<Rightarrow> ((w', l), r))"

definition traced_publisher :: "'w event_publisher \<Rightarrow> ('w \<times> (string \<times> bytes \<times> js) list) event_publisher" where
  "traced_publisher P =
     \<lparr> ep_producer = ep_producer P,
       ep_signer = \<lparr> es_key = es_key (ep_signer P), es_sign = (\<lambda>t v. unlogged (es_sign (ep_signer P) t v)),
                     es_sha256 = es_sha256 (ep_signer P), es_validate = es_validate (ep_signer P) \<rparr>,
       ep_publish = (\<lambda>s p i (w, l). case ep_publish P s p i w of (w', r) \<Rightarrow> ((w', l @ [(s, p, i)]), r)),
       ep_mark_published = (\<lambda>v. unlogged (ep_mark_published P v)), ep_mark_failed = (\<lambda>v. unlogged (ep_mark_failed P v)) \<rparr>"

lemma unlogged_iff: "unlogged m (w, l) = ((w', l'), r) \<longleftrightarrow> l' = l \<and> m w = (w', r)"
  by (auto simp: unlogged_def split: prod.splits)

lemma sign_event_log:
  assumes "sign_event F (ep_signer (traced_publisher P)) producer record (w, l) = ((w', l'), r)"
  shows "l' = l"
proof -
  have s: "snd (fst (sign_unsigned_event F (ep_signer (traced_publisher P)) u (w, l))) = l" for u
    by (cases "event_bytes F u")
      (auto simp: sign_unsigned_event_def act_bind_def traced_publisher_def unlogged_def Let_def split: prod.splits sum.splits)
  show ?thesis
    using assms s by (auto simp: sign_event_def act_bind_def split: if_splits sum.splits) (metis fst_conv snd_conv)+
qed

text \<open>The stream took the message and the outbox holds it as published, with the digest of its bytes.\<close>

definition publication_confirmed :: "'w event_publisher \<Rightarrow> js \<Rightarrow> js \<Rightarrow> string \<Rightarrow> bytes \<Rightarrow> bool" where
  "publication_confirmed P claim event subject payload \<longleftrightarrow>
     (\<exists>ack v v1 v2 stored. acknowledged ack
        \<and> ep_publish P subject payload (get event ''eventId'') v = (v1, Inr ack)
        \<and> ep_mark_published P (publication_request event (get claim ''claimToken'') ack (es_sha256 (ep_signer P) payload)) v1 = (v2, Inr stored)
        \<and> publication_stored event ack (es_sha256 (ep_signer P) payload) stored)"

lemma attempt_publication_log:
  assumes "attempt_publication F (traced_publisher P) st a claim (w, l) = ((w', l'), r)"
  shows "(l' = l \<and> isl r)
    \<or> (\<exists>v event subject payload. sign_event F (ep_signer (traced_publisher P)) (ep_producer P) claim (w, l) = ((v, l), Inr event)
         \<and> subject_for_event st a event = Inr subject \<and> event_bytes F event = Inr payload
         \<and> l' = l @ [(subject, payload, get event ''eventId'')]
         \<and> (\<not> isl r \<longrightarrow> publication_confirmed P claim event subject payload \<and> get (projr r) ''event'' = event))"
proof -
  let ?T = "traced_publisher P"
  obtain v k s where s: "sign_event F (ep_signer ?T) (ep_producer P) claim (w, l) = ((v, k), s)" by (metis surj_pair)
  have k: "k = l" using sign_event_log s by fast
  have pr: "ep_producer ?T = ep_producer P" "es_sha256 (ep_signer ?T) = es_sha256 (ep_signer P)" by (simp_all add: traced_publisher_def)
  note d = assms[unfolded attempt_publication_def pr]
  show ?thesis
  proof (cases s)
    case (Inl e)
    then show ?thesis using d s k by (cases r) (auto simp: act_bind_def)
  next
    case (Inr event)
    show ?thesis
    proof (cases "subject_for_event st a event")
      case (Inl e)
      then show ?thesis using d s k Inr by (cases r) (auto simp: act_bind_def)
    next
      case sb: (Inr subject)
      show ?thesis
      proof (cases "event_bytes F event")
        case (Inl e)
        then show ?thesis using d s k Inr sb by (cases r) (auto simp: act_bind_def)
      next
        case pl: (Inr payload)
        obtain v1 q where q: "ep_publish P subject payload (get event ''eventId'') v = (v1, q)" by fastforce
        have tq: "ep_publish ?T subject payload (get event ''eventId'') (v, l) = ((v1, l @ [(subject, payload, get event ''eventId'')]), q)"
          using q by (simp add: traced_publisher_def)
        show ?thesis
        proof (cases q)
          case (Inl e)
          then show ?thesis using d s k Inr sb pl tq by (auto simp: act_bind_def)
        next
          case ack: (Inr ack)
          let ?d = "es_sha256 (ep_signer P) payload"
          obtain v2 t where t: "ep_mark_published P (publication_request event (get claim ''claimToken'') ack ?d) v1 = (v2, t)" by fastforce
          have tt: "ep_mark_published ?T (publication_request event (get claim ''claimToken'') ack ?d) (v1, m) = ((v2, m), t)" for m
            using t by (simp add: traced_publisher_def unlogged_def)
          let ?m = "l @ [(subject, payload, get event ''eventId'')]"
          have run: "attempt_publication F ?T st a claim (w, l) = (if \<not> acknowledged ack then ((v1, ?m), Inl (event_fault F ''JETSTREAM_ACK_INVALID''))
              else case t of Inl e \<Rightarrow> ((v2, ?m), Inl e)
                | Inr stored \<Rightarrow> ((v2, ?m), if \<not> publication_stored event ack ?d stored then Inl (event_fault F ''OUTBOX_CONFIRMATION_INVALID'')
                    else Inr (obj [(''event'', event), (''subject'', JStr subject), (''acknowledgement'', spread ack []), (''signedEventSha256'', JStr ?d)])))"
            unfolding attempt_publication_def pr act_bind_def s[unfolded k Inr] prod.case sum.case act_simps sb pl tq[unfolded ack]
            by (cases t) (simp_all add: Let_def tt)
          note run = run[unfolded assms]
          have l': "l' = l @ [(subject, payload, get event ''eventId'')]" using run by (auto split: if_splits sum.splits)
          have ok: "acknowledged ack \<and> get (projr r) ''event'' = event \<and> (\<exists>stored. t = Inr stored \<and> publication_stored event ack ?d stored)"
            if "\<not> isl r" using run that by (cases t) (auto split: if_splits)
          have confirmed: "publication_confirmed P claim event subject payload \<and> get (projr r) ''event'' = event" if r: "\<not> isl r"
          proof -
            obtain stored where "t = Inr stored" "publication_stored event ack ?d stored" using ok[OF r] by blast
            then show ?thesis using ok[OF r] q[unfolded ack] t unfolding publication_confirmed_def by blast
          qed
          have "sign_event F (ep_signer ?T) (ep_producer P) claim (w, l) = ((v, l), Inr event)" using s k Inr by simp
          then show ?thesis using sb pl l' confirmed by blast
        qed
      qed
    qed
  qed
qed

text \<open>C37: one claim gives the stream at most one message, under the subject of the tenant of the resolved context, whose
  tenant the claim has, and that no consumer of another tenant can have as its prefix; success means that the
  stream acknowledged it and the outbox holds it as published with the digest of the bytes sent; a failed
  publication of a proper claim ends by recording the failure on that claim.\<close>

theorem published_events_stay_in_tenant:
  assumes "known_family F" "st = fst (run_machine context_step [] requests)"
    and "publish_claim F (traced_publisher P) st a claim (w, []) = ((w', l), r)"
  shows "((l = [] \<and> isl r) \<or>
     (\<exists>c event payload. trusted_context st a = Inr c \<and> get claim ''tenantId'' = JStr (ctx_tenant c) \<and> get event ''tenantId'' = JStr (ctx_tenant c)
        \<and> event_bytes F event = Inr payload
        \<and> l = [(event_subject (ctx_tenant c) (to_string (get event ''eventType'')), payload, get claim ''eventId'')]
        \<and> (\<forall>d rest. is_tenant_id d \<and> event_subject (ctx_tenant c) (to_string (get event ''eventType'')) = event_subject d rest \<longrightarrow> d = ctx_tenant c)
        \<and> (\<not> isl r \<longrightarrow> get (projr r) ''event'' = event
             \<and> publication_confirmed P claim event (event_subject (ctx_tenant c) (to_string (get event ''eventType''))) payload)))
   \<and> (isl r \<longrightarrow> \<not> is_record claim \<or> \<not> re_test_or_empty (is_id ''clm'') (get claim ''claimToken'')
        \<or> (\<exists>e v q. ep_mark_failed P (failed_publication F claim e) v = (w', q)))"
proof -
  let ?T = "traced_publisher P"
  let ?proper = "is_record claim \<and> re_test_or_empty (is_id ''clm'') (get claim ''claimToken'')"
  obtain v m s where s: "attempt_publication F ?T st a claim (w, []) = ((v, m), s)" by (metis surj_pair)
  show ?thesis
  proof (cases ?proper)
    case False
    then show ?thesis using assms(3) by (auto simp: publish_claim_def split: if_splits)
  next
    case True
    then have run: "act_catch (attempt_publication F ?T st a claim) (\<lambda>e.
        act_bind (ep_mark_failed ?T (failed_publication F claim e)) (\<lambda>_. act_fail e)) (w, []) = ((w', l), r)"
      using assms(3) by (simp add: publish_claim_def)
    have l: "l = m" "\<not> isl r \<Longrightarrow> s = r" "isl r = isl s"
      "isl r \<Longrightarrow> \<exists>e v q. ep_mark_failed P (failed_publication F claim e) v = (w', q)"
      using run s by (auto simp: act_catch_def act_bind_def traced_publisher_def unlogged_def split: sum.splits prod.splits)
    from attempt_publication_log[OF s] show ?thesis
    proof (rule disjE)
      assume "m = [] \<and> isl s"
      then show ?thesis using l by blast
    next
      assume "\<exists>u event subject payload. sign_event F (ep_signer ?T) (ep_producer P) claim (w, []) = ((u, []), Inr event)
         \<and> subject_for_event st a event = Inr subject \<and> event_bytes F event = Inr payload \<and> m = [] @ [(subject, payload, get event ''eventId'')]
         \<and> (\<not> isl s \<longrightarrow> publication_confirmed P claim event subject payload \<and> get (projr s) ''event'' = event)"
      then obtain u event subject payload where e: "sign_event F (ep_signer ?T) (ep_producer P) claim (w, []) = ((u, []), Inr event)"
        "subject_for_event st a event = Inr subject" "event_bytes F event = Inr payload" "m = [(subject, payload, get event ''eventId'')]"
        "\<not> isl s \<Longrightarrow> publication_confirmed P claim event subject payload \<and> get (projr s) ''event'' = event"
        unfolding append_Nil by blast
      obtain b y where b: "ef_build F claim (ep_producer P) = Inr b" "event = spread b [(''sourceAuthentication'', y)]"
        using e(1) by (rule sign_event_ok) blast
      obtain fs where fs: "b = obj fs" using built_event(1)[OF assms(1) b(1)] by blast
      have ids: "get event ''tenantId'' = get claim ''tenantId''" "get event ''eventId'' = get claim ''eventId''"
        using built_event(2,3)[OF assms(1) b(1)] unfolding b(2) fs by (simp_all add: get_spread_other del: get.simps)
      obtain c where c: "trusted_context st a = Inr c" "get event ''tenantId'' = JStr (ctx_tenant c)"
        "subject = event_subject (ctx_tenant c) (to_string (get event ''eventType''))"
        using subject_for_event_ok[OF e(2)] by blast
      have "list_all valid_context st" unfolding assms(2) by (rule contexts.run_inv) (simp_all add: list_all_iff)
      then have t: "is_tenant_id (ctx_tenant c)"
        using c(1) by (auto simp: trusted_context_def deny_context_def valid_context_def list_all_length split: context_arg.splits if_splits)
      have apart: "\<forall>d rest. is_tenant_id d \<and> subject = event_subject d rest \<longrightarrow> d = ctx_tenant c"
        using event_subject_inject[OF t] c(3) by metis
      have "\<not> isl r \<longrightarrow> get (projr r) ''event'' = event \<and> publication_confirmed P claim event subject payload" using e(5) l(2) by metis
      then show ?thesis using c(1,2) ids e(3) e(4)[folded l(1)] l(4) apart
        by (intro conjI disjI2 exI[of _ c] exI[of _ event] exI[of _ payload]) (simp_all add: c(3)[symmetric])
    qed
  qed
qed

subsection \<open>Witnesses\<close>

definition se_record :: js where
  "se_record = obj
     [(''tenantId'', JStr ''tnt_00000000-0000-4000-8000-000000000001''), (''subjectId'', JStr ''sub_00000000-0000-4000-8000-000000000001''),
      (''sourceId'', JStr ''src_00000000-0000-4000-8000-000000000001''), (''evidenceId'', JStr ''evd_00000000-0000-4000-8000-000000000001''),
      (''eventId'', JStr ''evt_00000000-0000-4000-8000-000000000001''), (''sourceEventId'', JStr ''evt_00000000-0000-4000-8000-000000000002''),
      (''correlationId'', JStr ''cor_00000000-0000-4000-8000-000000000001''), (''evidenceType'', JStr ''device''), (''sourceSequence'', num 3),
      (''contentHashSha256'', JStr (replicate 64 (CHR ''a''))), (''synthetic'', JBool False), (''observedAt'', JStr (time_to_iso 0)),
      (''expiresAt'', JStr (time_to_iso 100000)), (''acceptedAt'', JStr (time_to_iso 1000)),
      (''claimToken'', JStr ''clm_00000000-0000-4000-8000-000000000001'')]"

definition se_producer :: js where
  "se_producer = obj [(''service'', JStr ''evidence-service''), (''instanceId'', JStr ''one'')]"

definition se_signer :: "unit event_signer" where
  "se_signer =
     \<lparr> es_key = JStr ''evidence-key-1'', es_sign = (\<lambda>t v. act_ret (replicate 64 (CHR 0x01))), es_sha256 = (\<lambda>t. replicate 64 (CHR ''a'')),
       es_validate = Some (\<lambda>v. Inr (JBool True)) \<rparr>"

definition se_verifier :: "(unit, unit) event_verifier" where
  "se_verifier =
     \<lparr> ev_resolve = (\<lambda>q. act_ret (Some ())), ev_check = (\<lambda>k t s. s = replicate 64 (CHR 0x01)),
       ev_digest = (\<lambda>t. replicate 64 (CHR ''a'')), ev_contract = Some (\<lambda>v. Inr (JBool True)) \<rparr>"

lemma se_sha: "is_sha256 (replicate 64 (CHR ''a''))"
  by code_simp

lemma se_validated: "validate_accepted_record se_record = Inr se_record"
proof -
  have i: "is_id ''tnt'' ''tnt_00000000-0000-4000-8000-000000000001''" "is_id ''sub'' ''sub_00000000-0000-4000-8000-000000000001''"
    "is_id ''src'' ''src_00000000-0000-4000-8000-000000000001''" "is_id ''evd'' ''evd_00000000-0000-4000-8000-000000000001''"
    "is_id ''evt'' ''evt_00000000-0000-4000-8000-000000000001''" "is_id ''evt'' ''evt_00000000-0000-4000-8000-000000000002''"
    "is_id ''cor'' ''cor_00000000-0000-4000-8000-000000000001''"
    by code_simp+
  have v: "valid_time 100000" "valid_time 1000" by (simp_all add: valid_time_def max_time_def)
  then have t: "canonical_utc (JStr (time_to_iso 0))" "canonical_utc (JStr (time_to_iso 100000))" "canonical_utc (JStr (time_to_iso 1000))"
    using canonical_utc_iff valid_time_0 by blast+
  have p: "parse_time (JStr (time_to_iso 0)) = 0" "parse_time (JStr (time_to_iso 100000)) = 100000" "parse_time (JStr (time_to_iso 1000)) = 1000"
    by (simp_all add: parse_time_def time_of_iso[OF valid_time_0] time_of_iso[OF v(1)] time_of_iso[OF v(2)])
  show ?thesis
    using i t p se_sha
    by (simp add: validate_accepted_record_def require_event_record_def require_utc_def se_record_def one_of_def evidence_types_def is_record_def
        safe_integer_from_def is_safe_integer_def is_integer_rat_def max_safe_integer_def del: replicate.simps)
qed

lemma se_producer_valid: "validate_event_producer (evidence_error ''PRODUCER_INVALID'') se_producer = Inr se_producer"
proof -
  have "is_producer_service ''evidence-service''" by code_simp
  then show ?thesis by (simp add: validate_event_producer_def require_event_record_def se_producer_def is_record_def)
qed

definition se_unsigned :: js where
  "se_unsigned = (case build_evidence_event se_record se_producer of Inr u \<Rightarrow> u)"

lemma se_built: "build_evidence_event se_record se_producer = Inr se_unsigned"
  by (simp add: se_unsigned_def build_evidence_event_def se_validated se_producer_valid)

lemma se_unsigned_get:
  "get se_unsigned ''tenantId'' = JStr ''tnt_00000000-0000-4000-8000-000000000001''"
  "get se_unsigned ''aggregateId'' = JStr ''evd_00000000-0000-4000-8000-000000000001''"
  by (simp_all add: se_unsigned_def build_evidence_event_def se_validated se_producer_valid, simp_all add: se_record_def)

lemma se_bytes: "\<exists>t. event_bytes evidence_family se_unsigned = Inr t"
proof -
  have "jsonable se_unsigned"
    by (simp add: se_unsigned_def build_evidence_event_def se_validated se_producer_valid)
      (simp add: se_record_def se_producer_def spread_def)
  from canonical_total[OF this] show ?thesis by (auto simp: event_bytes_def canonicalize_event_def)
qed

definition se_event :: js where
  "se_event = spread se_unsigned
     [(''sourceAuthentication'', source_authentication (JStr ''evidence-key-1'') (replicate 64 (CHR ''a'')) (replicate 64 (CHR 0x01)))]"

lemma se_key: "is_idempotency_key ''evidence-key-1''"
  by code_simp

lemma se_signed: "sign_event evidence_family se_signer se_producer se_record () = ((), Inr se_event)"
proof -
  obtain t where "event_bytes evidence_family se_unsigned = Inr t" using se_bytes by blast
  then show ?thesis using se_built se_key
    by (simp add: sign_event_def sign_unsigned_event_def se_signer_def act_bind_def check_contract_def se_event_def evidence_family_def del: replicate.simps)
qed

lemma se_event_get:
  "get se_event ''tenantId'' = JStr ''tnt_00000000-0000-4000-8000-000000000001''"
  "get se_event ''aggregateId'' = JStr ''evd_00000000-0000-4000-8000-000000000001''"
proof -
  obtain fs where u: "se_unsigned = obj fs" using build_evidence_event_ok(1)[OF se_built] by blast
  show "get se_event ''tenantId'' = JStr ''tnt_00000000-0000-4000-8000-000000000001''"
    "get se_event ''aggregateId'' = JStr ''evd_00000000-0000-4000-8000-000000000001''"
    using se_unsigned_get unfolding se_event_def u by (simp_all add: get_spread_other del: get.simps)
qed

lemma signed_event_verifies_witness:
  "\<exists>event u. sign_event evidence_family se_signer se_producer se_record () = ((), Inr event)
     \<and> verify_event evidence_family se_verifier (JStr ''tnt_00000000-0000-4000-8000-000000000001'') event () = ((), Inr u)"
proof -
  have v: "verifies_signer se_verifier se_signer ()"
    using se_sha by (simp add: verifies_signer_def se_verifier_def se_signer_def del: replicate.simps)
  have k: "known_family evidence_family" by (simp add: known_family_def)
  have r: "ev_resolve se_verifier (key_query se_event) () = ((), Inr (Some ()))" by (simp add: se_verifier_def)
  from signed_event_verifies[OF k se_signed v r, of "JStr ''tnt_00000000-0000-4000-8000-000000000001''"] se_signed show ?thesis
    by (auto simp: se_event_get)
qed

lemma se_verified: "verify_event evidence_family se_verifier JUndef se_event () = ((), Inr se_unsigned)"
proof -
  obtain fs where u: "se_unsigned = obj fs" "distinct (map fst fs)" "''sourceAuthentication'' \<notin> set (map fst fs)"
    using build_evidence_event_ok(1)[OF se_built] by blast
  have w: "without_field ''sourceAuthentication'' se_event = se_unsigned" unfolding se_event_def u(1) using u(2,3) by (rule without_spread)
  let ?a = "source_authentication (JStr ''evidence-key-1'') (replicate 64 (CHR ''a'')) (replicate 64 (CHR 0x01))"
  have a: "get se_event ''sourceAuthentication'' = ?a" unfolding se_event_def u(1) by (rule get_spread_same)
  have "ef_binding evidence_family se_event = Inr ()"
    unfolding se_event_def by (rule binding_survives[of _ se_record se_producer])
      (use se_built se_unsigned_get in \<open>simp_all add: known_family_def evidence_family_def\<close>)
  moreover have "authentication_ok ?a" using se_key se_sha by (intro signed_authentication_ok) simp_all
  moreover have "is_record se_event" "is_record ?a" by (simp_all add: se_event_def spread_def is_record_def source_authentication_def)
  ultimately have c: "check_event evidence_family (ev_contract se_verifier) JUndef se_event = Inr ?a"
    by (simp add: check_event_def require_event_record_def check_contract_def se_verifier_def a)
  obtain t where "event_bytes evidence_family se_unsigned = Inr t" using se_bytes by blast
  then show ?thesis
    using c by (simp add: verify_event_def act_bind_def w) (simp add: se_verifier_def source_authentication_def signature_bytes_def del: replicate.simps)
qed

lemma only_authentic_events_pass_witness:
  "\<exists>u content. verify_event evidence_family se_verifier JUndef se_event () = ((), Inr u) \<and> event_bytes evidence_family u = Inr content
     \<and> ev_check se_verifier () content (signature_bytes (get (get se_event ''sourceAuthentication'') ''signatureBase64Url''))"
  using only_authentic_events_pass[OF se_verified] se_verified by (metis (full_types) old.unit.exhaust)

definition se_publisher :: "unit event_publisher" where
  "se_publisher =
     \<lparr> ep_producer = se_producer, ep_signer = se_signer,
       ep_publish = (\<lambda>s p i. act_ret (obj [(''stream'', JStr event_stream), (''sequence'', num 1), (''duplicate'', JBool False)])),
       ep_mark_published = (\<lambda>v. act_ret (spread v [(''status'', JStr ''published'')])), ep_mark_failed = (\<lambda>v. act_ret v) \<rparr>"

abbreviation se_contexts :: context_store where
  "se_contexts \<equiv> [example_context ''tenant-admin'']"

lemma se_subject: "subject_for_event se_contexts (Resolved 0) se_event
    = Inr (event_subject ''tnt_00000000-0000-4000-8000-000000000001'' ''evidence.accepted.v1'')"
proof -
  have t: "get se_event ''eventType'' = JStr ''evidence.accepted.v1''" "is_record se_event"
  proof -
    obtain fs where u: "se_unsigned = obj fs" using build_evidence_event_ok(1)[OF se_built] by blast
    show "get se_event ''eventType'' = JStr ''evidence.accepted.v1''"
      using build_evidence_event_ok(3)[OF se_built] unfolding se_event_def u by (simp add: get_spread_other del: get.simps)
    show "is_record se_event" by (simp add: se_event_def spread_def is_record_def)
  qed
  have e: "is_event_type ''evidence.accepted.v1''" by code_simp
  have "assert_no_tenant_switch se_contexts (Resolved 0)
      (JArr [obj [(''source'', JStr ''body''), (''tenantId'', JStr ''tnt_00000000-0000-4000-8000-000000000001'')]]) = Inr (example_context ''tenant-admin'')"
    by (simp add: assert_no_tenant_switch_def trusted_context_def is_record_def one_of_def claim_sources_def example_ids)
  then show ?thesis using t e se_event_get(1) by (simp add: subject_for_event_def)
qed

lemma se_event_bytes: "\<exists>t. event_bytes evidence_family se_event = Inr t"
proof -
  obtain fs where u: "se_unsigned = obj fs" "distinct (map fst fs)" "''sourceAuthentication'' \<notin> set (map fst fs)"
    using build_evidence_event_ok(1)[OF se_built] by blast
  have "jsonable se_unsigned"
    by (simp add: se_unsigned_def build_evidence_event_def se_validated se_producer_valid)
      (simp add: se_record_def se_producer_def spread_def)
  then have "jsonable se_event" unfolding se_event_def u(1) spread_new[OF u(2,3)] by (simp add: source_authentication_def)
  from canonical_total[OF this] show ?thesis by (auto simp: event_bytes_def canonicalize_event_def)
qed

lemma published_events_stay_in_tenant_witness:
  "\<exists>l r. publish_claim evidence_family (traced_publisher se_publisher) se_contexts (Resolved 0) se_record ((), []) = (((), l), r)
     \<and> \<not> isl r \<and> (\<exists>event payload. publication_confirmed se_publisher se_record event
          (event_subject ''tnt_00000000-0000-4000-8000-000000000001'' (to_string (get event ''eventType''))) payload)"
proof -
  have k: "known_family evidence_family" by (simp add: known_family_def)
  obtain t where t: "event_bytes evidence_family se_unsigned = Inr t" using se_bytes by blast
  have s: "sign_event evidence_family (ep_signer (traced_publisher se_publisher)) se_producer se_record ((), []) = (((), []), Inr se_event)"
    using se_built se_key t
    by (simp add: sign_event_def sign_unsigned_event_def traced_publisher_def se_publisher_def se_signer_def act_bind_def check_contract_def
        se_event_def evidence_family_def unlogged_def del: replicate.simps)
  obtain p where p: "event_bytes evidence_family se_event = Inr p" using se_event_bytes by blast
  define digest where "digest = es_sha256 (ep_signer (traced_publisher se_publisher)) p"
  let ?ack = "obj [(''stream'', JStr event_stream), (''sequence'', num 1), (''duplicate'', JBool False)]"
  have i: "get se_event ''eventId'' = JStr ''evt_00000000-0000-4000-8000-000000000001''"
  proof -
    obtain fs where u: "se_unsigned = obj fs" using build_evidence_event_ok(1)[OF se_built] by blast
    show ?thesis using build_evidence_event_ok(5)[OF se_built] unfolding se_event_def u
      by (simp add: get_spread_other del: get.simps) (simp add: se_record_def)
  qed
  have a: "acknowledged ?ack" by (simp add: acknowledged_def safe_integer_from_def is_safe_integer_def is_integer_rat_def max_safe_integer_def)
  have st: "publication_stored se_event ?ack digest (spread (publication_request se_event c ?ack digest) [(''status'', JStr ''published'')])" for c
    by (simp add: publication_stored_def publication_request_def spread_def i)
  have "\<exists>x. attempt_publication evidence_family (traced_publisher se_publisher) se_contexts (Resolved 0) se_record ((), [])
      = (((), [] @ [(event_subject ''tnt_00000000-0000-4000-8000-000000000001'' ''evidence.accepted.v1'', p, get se_event ''eventId'')]), Inr x)"
    using s a st se_subject p
    by (simp add: attempt_publication_def act_bind_def digest_def[symmetric])
      (simp add: traced_publisher_def se_publisher_def unlogged_def Let_def digest_def)
  moreover have "is_record se_record" "is_id ''clm'' ''clm_00000000-0000-4000-8000-000000000001''"
    by (simp add: se_record_def is_record_def) code_simp
  ultimately obtain l r where run: "publish_claim evidence_family (traced_publisher se_publisher) se_contexts (Resolved 0) se_record ((), []) = (((), l), r)" "\<not> isl r"
    by (auto simp: publish_claim_def act_catch_def se_record_def[THEN arg_cong, of "\<lambda>v. get v ''claimToken''"])
  from published_events_stay_in_tenant[OF k example_store[symmetric] run(1)] run show ?thesis by (auto simp: trusted_context_def)
qed

end
