(* ===== verification/EvidenceEffects.thy ===== *)
theory EvidenceEffects
  imports SignedEvents
begin

text \<open>
  \<open>services/trust/src/validated-evidence-consumer.mjs\<close> and \<open>certificate-lifecycle-feedback.mjs\<close>: how signed
  events change trust. Both verify the event, bind what the database stores to the verified event, and
  let the database decide inside one transaction whether the effect is new. The verifier, the component
  score resolver, the effect handler, the clock and the database are parameters. SQL templates that
  span lines are written on one.
\<close>

section \<open>Validated evidence\<close>

definition consumption_fault :: "string \<Rightarrow> js_error" where
  "consumption_fault r = Thrown ValidatedEvidenceConsumptionError r"

definition consumption_outcomes :: "string list" where
  "consumption_outcomes = [''duplicate'', ''superseded'', ''staged'', ''state_updated'']"

definition consume_sql :: string where
  "consume_sql = ''SELECT * FROM trust.consume_validated_evidence_component( $1, $2, $3, $4, $5, $6, $7, $8 )''"

definition consumption_policy :: js where
  "consumption_policy = obj
     [(''deliverySemantics'', JStr ''at-least-once-delivery-exactly-once-effect''), (''aggregateScope'', JStr ''tenant-and-subject''),
      (''concurrencyControl'', JStr ''transaction-advisory-lock-per-tenant-subject''),
      (''ordering'', JStr ''observed-at-then-stream-sequence-then-event-id''),
      (''incompleteEvidence'', JStr ''stage-until-all-five-components-exist''),
      (''olderEvidence'', JStr ''record-effect-without-state-rollback'')]"

definition component_score_value :: "js \<Rightarrow> js res" where
  "component_score_value v = (if number_between 0 100 v then Inr v else Inl (consumption_fault ''COMPONENT_SCORE_INVALID''))"

text \<open>The request of the database: the verified event and the delivery agree.\<close>

definition consumption_request :: "js \<Rightarrow> js \<Rightarrow> js res" where
  "consumption_request input processed_at =
     (let event = get input ''event''; verified = get input ''verified'';
          kind = get (get verified ''payload'') ''evidenceType''
      in if \<not> re_test_or_empty is_worker_id (get input ''consumerName'') \<or> \<not> re_test_or_empty (is_id ''tnt'') (get event ''tenantId'')
            \<or> \<not> re_test_or_empty (is_id ''sub'') (get verified ''subjectId'') \<or> \<not> re_test_or_empty (is_id ''evt'') (get event ''eventId'')
            \<or> \<not> re_test_or_empty (is_id ''evd'') (get event ''aggregateId'')
            \<or> \<not> strict_eq (get event ''tenantId'') (get verified ''tenantId'')
            \<or> \<not> strict_eq (get event ''eventId'') (get verified ''eventId'')
            \<or> \<not> strict_eq (get event ''aggregateId'') (get verified ''aggregateId'')
            \<or> \<not> one_of evidence_types kind \<or> \<not> strict_eq kind (get (get event ''payload'') ''evidenceType'')
            \<or> \<not> safe_integer_from 1 (get input ''streamSequence'') \<or> \<not> re_test_or_empty is_sha256 (get input ''signedEventSha256'')
            \<or> \<not> canonical_utc processed_at
         then Inl (consumption_fault ''CONSUMPTION_REQUEST_INVALID'')
         else and_then (component_score_value (get input ''componentScore'')) (\<lambda>score. Inr (obj
           [(''consumerName'', get input ''consumerName''), (''tenantId'', get event ''tenantId''), (''subjectId'', get verified ''subjectId''),
            (''eventId'', get event ''eventId''), (''evidenceId'', get event ''aggregateId''), (''evidenceType'', kind),
            (''streamSequence'', get input ''streamSequence''), (''signedEventSha256'', get input ''signedEventSha256''),
            (''componentScore'', score), (''processedAt'', processed_at)])))"

definition consumption_result :: "js \<Rightarrow> js \<Rightarrow> js res" where
  "consumption_result row request =
     (if \<not> truthy row \<or> \<not> is_bool (get row ''applied'') \<or> \<not> one_of consumption_outcomes (get row ''outcome_code'')
         \<or> \<not> strict_eq (get row ''tenant_id'') (get request ''tenantId'') \<or> \<not> strict_eq (get row ''subject_id'') (get request ''subjectId'')
         \<or> \<not> strict_eq (get row ''evidence_type'') (get request ''evidenceType'')
      then Inl (consumption_fault ''CONSUMPTION_RESULT_INVALID'')
      else let version = (if nullish (get row ''update_version'') then JNull else js_number (get row ''update_version''))
           in if (version \<noteq> JNull \<and> \<not> safe_integer_from 1 version)
                 \<or> (get row ''outcome_code'' = JStr ''state_updated'' \<and> version = JNull)
                 \<or> ((get row ''outcome_code'' = JStr ''duplicate'') \<noteq> (get row ''applied'' = JBool False))
              then Inl (consumption_fault ''CONSUMPTION_RESULT_INVALID'')
              else Inr (obj
                [(''applied'', get row ''applied''), (''outcome'', get row ''outcome_code''), (''tenantId'', get row ''tenant_id''),
                 (''subjectId'', get row ''subject_id''), (''evidenceType'', get row ''evidence_type''), (''updateVersion'', version)]))"

definition consumption_values :: "js \<Rightarrow> js list" where
  "consumption_values q =
     map (get q) [''consumerName'', ''tenantId'', ''eventId'', ''evidenceId'', ''streamSequence'', ''signedEventSha256'',
       ''componentScore'', ''processedAt'']"

definition consume_component :: "'w db \<Rightarrow> ('w, js) act \<Rightarrow> js \<Rightarrow> ('w, js) act" where
  "consume_component db clock input =
     act_bind clock (\<lambda>now. case now of
       JDate (Some t) \<Rightarrow>
         act_bind (act_res (consumption_request input (JStr (time_to_iso t)))) (\<lambda>request.
         in_role db ''tenant_trust_evidence_event_consumer'' (\<lambda>query.
           act_bind (query consume_sql (consumption_values request)) (\<lambda>result.
           act_res (and_then (one_row (consumption_fault ''CONSUMPTION_RESULT_INVALID'') result) (\<lambda>row. consumption_result row request)))))
     | _ \<Rightarrow> act_fail (consumption_fault ''CONSUMPTION_CLOCK_INVALID''))"

record 'w trust_consumer =
  tr_name :: js
  tr_verify :: "js \<Rightarrow> js \<Rightarrow> ('w, js) act"     \<comment> \<open>expected tenant, event\<close>
  tr_score :: "js \<Rightarrow> js \<Rightarrow> ('w, js) act"      \<comment> \<open>event, verified event\<close>
  tr_store :: "js \<Rightarrow> ('w, js) act"
  tr_sha256 :: "bytes \<Rightarrow> string"

text \<open>The delegate; \<open>persistenceResult\<close> is the second part of its state.\<close>

definition persist_once :: "'w trust_consumer \<Rightarrow> js \<Rightarrow> ('w \<times> js, js) act" where
  "persist_once T delivery =
     act_bind (unlogged (tr_score T (get delivery ''event'') (get delivery ''verified''))) (\<lambda>v.
     act_bind (act_res (component_score_value v)) (\<lambda>score.
     act_bind (unlogged (tr_store T (spread delivery [(''componentScore'', score)]))) (\<lambda>stored.
     act_bind (\<lambda>(w, p). ((w, stored), Inr ())) (\<lambda>_. act_res (read stored ''applied'')))))"

definition delegate :: "'w trust_consumer \<Rightarrow> ('w \<times> js) event_consumer" where
  "delegate T =
     \<lparr> con_name = tr_name T, con_verify = (\<lambda>x e. unlogged (tr_verify T x e)), con_once = persist_once T, con_sha256 = tr_sha256 T \<rparr>"

definition consume_trust_evidence :: "'w trust_consumer \<Rightarrow> js \<Rightarrow> js \<Rightarrow> js \<Rightarrow> ('w, js) act" where
  "consume_trust_evidence T event sequence expected w =
     (case consume_accepted_evidence (delegate T) event sequence expected (w, JUndef) of
        ((w', p), Inl e) \<Rightarrow> (w', Inl e)
      | ((w', p), Inr delivery) \<Rightarrow>
          (w', if \<not> truthy p then Inl (consumption_fault ''CONSUMPTION_RESULT_INVALID'')
               else Inr (spread delivery (map (\<lambda>k. (k, get p k)) [''outcome'', ''tenantId'', ''subjectId'', ''evidenceType'', ''updateVersion'']))))"

section \<open>Certificate lifecycle feedback\<close>



definition event_effect :: "string \<Rightarrow> string \<Rightarrow> rat \<Rightarrow> bool \<Rightarrow> js" where
  "event_effect state kind score terminal =
     obj [(''state'', JStr state), (''kind'', JStr kind), (''componentScore'', num score), (''terminal'', JBool terminal)]"

definition effect_table :: "(string \<times> string \<times> string \<times> rat \<times> bool) list" where
  "effect_table =
     [(''certificate.issued.v1'', ''active'', ''certificate-issued'', 100, False),
      (''certificate.renewed.v1'', ''active'', ''certificate-renewed'', 100, False),
      (''certificate.superseded.v1'', ''superseded'', ''certificate-superseded'', 100, True),
      (''certificate.revoked.v1'', ''revoked'', ''certificate-revoked'', 0, True),
      (''certificate.expired.v1'', ''expired'', ''certificate-expired'', 0, True)]"

definition event_effects :: js where
  "event_effects = obj (map (\<lambda>(t, s, k, x, b). (t, event_effect s k x b)) effect_table)"


definition feedback_policy :: js where
  "feedback_policy = obj
     [(''deliverySemantics'', JStr ''at-least-once-delivery-exactly-once-trust-effect''),
      (''acceptedEventTypes'', JArr (map JStr (keys event_effects))), (''evidenceType'', JStr ''certificate''),
      (''lifecycleAuthority'', JStr ''signed-published-certificate-event''), (''securityActionEligibility'', JBool False),
      (''causalParent'', JStr ''certificate-lifecycle-event-causation-id'')]"












section \<open>Properties\<close>

lemma verify_event_ok:
  assumes "verify_event F V expected event w = (w', Inr u)"
  shows "u = without_field ''sourceAuthentication'' event" "expected = JUndef \<or> strict_eq (get event ''tenantId'') expected"
proof -
  obtain a where a: "check_event F (ev_contract V) expected event = Inr a"
    using assms by (auto simp: verify_event_def act_bind_Inr)
  then show "expected = JUndef \<or> strict_eq (get event ''tenantId'') expected"
    by (auto simp: check_event_def split: if_splits) (auto simp: require_event_record_def split: if_splits)
  show "u = without_field ''sourceAuthentication'' event"
    using assms unfolding verify_event_def a by (auto simp: act_bind_Inr Let_def split: if_splits option.splits)
qed

lemma consumption_request_ok:
  assumes "consumption_request input now = Inr q"
  shows "get q ''tenantId'' = get (get input ''event'') ''tenantId''" "get q ''evidenceId'' = get (get input ''event'') ''aggregateId''"
    "get q ''subjectId'' = get (get input ''verified'') ''subjectId''" "get q ''eventId'' = get (get input ''event'') ''eventId''"
    "get q ''signedEventSha256'' = get input ''signedEventSha256''" "get q ''consumerName'' = get input ''consumerName''"
    "get q ''streamSequence'' = get input ''streamSequence''" "get q ''componentScore'' = get input ''componentScore''"
    "get q ''processedAt'' = now"
    "get q ''evidenceType'' = get (get (get input ''verified'') ''payload'') ''evidenceType''"
    "strict_eq (get (get input ''event'') ''tenantId'') (get (get input ''verified'') ''tenantId'')"
    "strict_eq (get (get input ''event'') ''eventId'') (get (get input ''verified'') ''eventId'')"
    "strict_eq (get (get input ''event'') ''aggregateId'') (get (get input ''verified'') ''aggregateId'')"
    "number_between 0 100 (get q ''componentScore'')"
  using assms by (auto simp: consumption_request_def component_score_value_def Let_def consumption_fault_def simp del: get.simps split: if_splits)
    simp_all

lemma consumption_result_ok:
  assumes "consumption_result row q = Inr r"
  shows "strict_eq (get r ''tenantId'') (get q ''tenantId'')" "strict_eq (get r ''subjectId'') (get q ''subjectId'')"
    "get r ''outcome'' = JStr ''duplicate'' \<longleftrightarrow> get r ''applied'' = JBool False" "is_bool (get r ''applied'')"
    "get r ''outcome'' = JStr ''state_updated'' \<Longrightarrow> safe_integer_from 1 (get r ''updateVersion'')" "truthy r"
  using assms by (auto simp: consumption_result_def Let_def consumption_fault_def js_number_def split: if_splits)

lemma consume_component_ok:
  assumes "consume_component db clock input w = (w', Inr r)"
  shows "\<exists>t q v row result. clock w = (v, Inr (JDate (Some t))) \<and> consumption_request input (JStr (time_to_iso t)) = Inr q
    \<and> consumption_result row q = Inr r
    \<and> committed_in_role db ''tenant_trust_evidence_event_consumer''
        (\<lambda>u u'. db_query db consume_sql (consumption_values q) u = (u', Inr result)) v w'"
proof -
  obtain now v where now: "clock w = (v, Inr now)" using assms by (auto simp: consume_component_def act_bind_Inr)
  have d: "(case now of JDate (Some t) \<Rightarrow>
         act_bind (act_res (consumption_request input (JStr (time_to_iso t)))) (\<lambda>request.
         in_role db ''tenant_trust_evidence_event_consumer'' (\<lambda>query.
           act_bind (query consume_sql (consumption_values request)) (\<lambda>result.
           act_res (and_then (one_row (consumption_fault ''CONSUMPTION_RESULT_INVALID'') result) (\<lambda>row. consumption_result row request)))))
     | _ \<Rightarrow> act_fail (consumption_fault ''CONSUMPTION_CLOCK_INVALID'')) v = (w', Inr r)"
    using assms now by (simp add: consume_component_def act_bind_def)
  obtain t where t: "now = JDate (Some t)"
    using d by (cases now) (auto split: option.splits)
  let ?op = "\<lambda>q query. act_bind (query consume_sql (consumption_values q)) (\<lambda>result.
       act_res (and_then (one_row (consumption_fault ''CONSUMPTION_RESULT_INVALID'') result) (\<lambda>row. consumption_result row q)))"
  obtain q where q: "consumption_request input (JStr (time_to_iso t)) = Inr q"
    "in_role db ''tenant_trust_evidence_event_consumer'' (?op q) v = (w', Inr r)"
    using d unfolding t by (auto simp: act_bind_Inr)
  have "committed_in_role db ''tenant_trust_evidence_event_consumer''
      (\<lambda>u u'. \<exists>result row. db_query db consume_sql (consumption_values q) u = (u', Inr result) \<and> consumption_result row q = Inr r) v w'"
    by (rule committed_in_role_mono[OF in_role_committed[OF q(2)]]) (auto simp: act_bind_Inr)
  then obtain result row where "consumption_result row q = Inr r"
    "committed_in_role db ''tenant_trust_evidence_event_consumer''
        (\<lambda>u u'. db_query db consume_sql (consumption_values q) u = (u', Inr result)) v w'"
    unfolding committed_in_role_def by blast
  then show ?thesis using q(1) now t by blast
qed

lemma unlogged_Inr: "unlogged m s = (s', Inr x) \<longleftrightarrow> (\<exists>w l w'. s = (w, l) \<and> s' = (w', l) \<and> m w = (w', Inr x))"
  by (auto simp: unlogged_def split: prod.splits)

text \<open>The delivery that the delegate makes of a verified event.\<close>

definition delivery_of :: "'w trust_consumer \<Rightarrow> js \<Rightarrow> js \<Rightarrow> js \<Rightarrow> string \<Rightarrow> js" where
  "delivery_of T event verified sequence digest = obj
     [(''consumerName'', tr_name T), (''event'', event), (''verified'', verified), (''streamSequence'', sequence),
      (''signedEventSha256'', JStr digest)]"

lemma persist_once_ok:
  assumes "persist_once T d s = ((w', p), Inr applied)"
  shows "\<exists>w l w2 score. s = (w, l) \<and> tr_score T (get d ''event'') (get d ''verified'') w = (w2, Inr score) \<and> number_between 0 100 score
    \<and> tr_store T (spread d [(''componentScore'', score)]) w2 = (w', Inr p) \<and> applied = get p ''applied''"
  using assms by (auto simp: persist_once_def act_bind_Inr unlogged_Inr component_score_value_def split: if_splits)

lemma consume_event_ok:
  assumes "consume_event F C event sequence expected s = (s', Inr d)"
  shows "\<exists>u verified content applied. con_verify C expected event s = (u, Inr verified) \<and> event_bytes F event = Inr content
    \<and> con_once C (obj [(''consumerName'', con_name C), (''event'', event), (''verified'', verified), (''streamSequence'', sequence),
         (''signedEventSha256'', JStr (con_sha256 C content))]) u = (s', Inr applied)
    \<and> d = obj [(''applied'', applied), (''eventId'', get event ''eventId''), (''signedEventSha256'', JStr (con_sha256 C content))]"
  using assms by (auto simp: consume_event_def act_bind_Inr Let_def split: if_splits)

lemma consume_trust_evidence_ok:
  assumes "consume_trust_evidence T event sequence expected w = (w', Inr r)"
  shows "\<exists>w1 w2 verified content score p. tr_verify T expected event w = (w1, Inr verified)
    \<and> event_bytes evidence_family event = Inr content \<and> tr_score T event verified w1 = (w2, Inr score) \<and> number_between 0 100 score
    \<and> tr_store T (spread (delivery_of T event verified sequence (tr_sha256 T content)) [(''componentScore'', score)]) w2 = (w', Inr p)
    \<and> truthy p \<and> list_all (\<lambda>k. get r k = get p k) [''applied'', ''outcome'', ''tenantId'', ''subjectId'', ''evidenceType'', ''updateVersion'']"
proof -
  obtain p d where c: "consume_event evidence_family (delegate T) event sequence expected (w, JUndef) = ((w', p), Inr d)" "truthy p"
    "r = spread d (map (\<lambda>k. (k, get p k)) [''outcome'', ''tenantId'', ''subjectId'', ''evidenceType'', ''updateVersion''])"
    using assms by (auto simp: consume_trust_evidence_def consume_accepted_evidence_def split: prod.splits sum.splits if_splits)
  obtain u verified content applied where e: "unlogged (tr_verify T expected event) (w, JUndef) = (u, Inr verified)"
    "event_bytes evidence_family event = Inr content"
    "persist_once T (delivery_of T event verified sequence (tr_sha256 T content)) u = ((w', p), Inr applied)"
    "d = obj [(''applied'', applied), (''eventId'', get event ''eventId''), (''signedEventSha256'', JStr (tr_sha256 T content))]"
    using consume_event_ok[OF c(1)] by (auto simp: delegate_def delivery_of_def)
  have g: "get (delivery_of T event verified sequence x) ''event'' = event" "get (delivery_of T event verified sequence x) ''verified'' = verified" for x
    by (simp_all add: delivery_of_def)
  obtain w1 l w2 score where s: "u = (w1, l)" "tr_score T event verified w1 = (w2, Inr score)" "number_between 0 100 score"
    "tr_store T (spread (delivery_of T event verified sequence (tr_sha256 T content)) [(''componentScore'', score)]) w2 = (w', Inr p)"
    "applied = get p ''applied''"
    using persist_once_ok[OF e(3)] unfolding g by blast
  have "tr_verify T expected event w = (w1, Inr verified)" using e(1) s(1) by (simp add: unlogged_Inr)
  moreover have "list_all (\<lambda>k. get r k = get p k) [''applied'', ''outcome'', ''tenantId'', ''subjectId'', ''evidenceType'', ''updateVersion'']"
    unfolding c(3) e(4) s(5) by (simp add: get_spread del: get.simps)
  ultimately show ?thesis using e(2) s(2-4) c(2) by blast
qed

text \<open>C38: a change of trust by evidence rests on an authentic event of the expected tenant: after the event was
  verified, its score resolved and the clock read, the database is asked once, for the tenant, the subject
  and the evidence of that event, with the digest of its text and a score between 0 and 100; this question is
  the only one between \<open>BEGIN\<close> with the role of the consumer and a \<open>COMMIT\<close> that was accepted, each step in
  the state the one before left. The outcome reported is of that tenant and subject, it is a duplicate
  exactly when nothing was applied, and a changed state has a version.\<close>

theorem trust_changes_rest_on_authentic_events:
  assumes "consume_trust_evidence T event sequence expected w = (w', Inr r)"
    and "tr_verify T = verify_evidence_event V" "tr_store T = consume_component db clock"
  shows "\<exists>w1 w2 w3 verified content score t result. verify_evidence_event V expected event w = (w1, Inr verified)
    \<and> verified = without_field ''sourceAuthentication'' event
    \<and> event_bytes evidence_family event = Inr content
    \<and> tr_score T event verified w1 = (w2, Inr score) \<and> number_between 0 100 score
    \<and> clock w2 = (w3, Inr (JDate (Some t)))
    \<and> committed_in_role db ''tenant_trust_evidence_event_consumer'' (\<lambda>u u'. db_query db consume_sql
          [tr_name T, get event ''tenantId'', get event ''eventId'', get event ''aggregateId'', sequence, JStr (tr_sha256 T content), score,
           JStr (time_to_iso t)] u = (u', Inr result)) w3 w'
    \<and> strict_eq (get r ''tenantId'') (get event ''tenantId'') \<and> strict_eq (get r ''subjectId'') (get verified ''subjectId'')
    \<and> (expected = JUndef \<or> strict_eq (get event ''tenantId'') expected)
    \<and> is_bool (get r ''applied'') \<and> (get r ''outcome'' = JStr ''duplicate'' \<longleftrightarrow> get r ''applied'' = JBool False)
    \<and> (get r ''outcome'' = JStr ''state_updated'' \<longrightarrow> safe_integer_from 1 (get r ''updateVersion''))"
proof -
  obtain w1 w2 verified content score p where c: "tr_verify T expected event w = (w1, Inr verified)"
    "event_bytes evidence_family event = Inr content" "tr_score T event verified w1 = (w2, Inr score)" "number_between 0 100 score"
    "tr_store T (spread (delivery_of T event verified sequence (tr_sha256 T content)) [(''componentScore'', score)]) w2 = (w', Inr p)"
    "truthy p" "list_all (\<lambda>k. get r k = get p k) [''applied'', ''outcome'', ''tenantId'', ''subjectId'', ''evidenceType'', ''updateVersion'']"
    using consume_trust_evidence_ok[OF assms(1)] by blast
  let ?input = "spread (delivery_of T event verified sequence (tr_sha256 T content)) [(''componentScore'', score)]"
  have i: "get ?input ''event'' = event" "get ?input ''verified'' = verified" "get ?input ''consumerName'' = tr_name T"
    "get ?input ''streamSequence'' = sequence" "get ?input ''signedEventSha256'' = JStr (tr_sha256 T content)" "get ?input ''componentScore'' = score"
    by (simp_all add: delivery_of_def get_spread)
  obtain t q w3 row result where d: "consumption_request ?input (JStr (time_to_iso t)) = Inr q"
    "clock w2 = (w3, Inr (JDate (Some t)))" "consumption_result row q = Inr p"
    "committed_in_role db ''tenant_trust_evidence_event_consumer''
        (\<lambda>u u'. db_query db consume_sql (consumption_values q) u = (u', Inr result)) w3 w'"
    using consume_component_ok[OF c(5)[unfolded assms(3)]] by blast
  note rq = consumption_request_ok[OF d(1), unfolded i]
  have v: "verify_event evidence_family V expected event w = (w1, Inr verified)" using c(1) assms(2) by (simp add: verify_evidence_event_def)
  have q: "consumption_values q = [tr_name T, get event ''tenantId'', get event ''eventId'', get event ''aggregateId'', sequence,
      JStr (tr_sha256 T content), score, JStr (time_to_iso t)]"
    by (simp add: consumption_values_def rq del: get.simps)
  have e: "get r ''tenantId'' = get p ''tenantId''" "get r ''subjectId'' = get p ''subjectId''" "get r ''outcome'' = get p ''outcome''"
    "get r ''updateVersion'' = get p ''updateVersion''" "get r ''applied'' = get p ''applied''"
    using c(7) by simp_all
  have rp: "strict_eq (get p ''tenantId'') (get event ''tenantId'')" "strict_eq (get p ''subjectId'') (get verified ''subjectId'')"
    using consumption_result_ok(1,2)[OF d(3)] rq(1,3) by simp_all
  show ?thesis
    unfolding e
  proof (intro exI conjI)
    show "verify_evidence_event V expected event w = (w1, Inr verified)" using v by (simp add: verify_evidence_event_def)
    show "committed_in_role db ''tenant_trust_evidence_event_consumer'' (\<lambda>u u'. db_query db consume_sql
          [tr_name T, get event ''tenantId'', get event ''eventId'', get event ''aggregateId'', sequence, JStr (tr_sha256 T content), score,
           JStr (time_to_iso t)] u = (u', Inr result)) w3 w'"
      using d(4) unfolding q .
    show "clock w2 = (w3, Inr (JDate (Some t)))" "tr_score T event verified w1 = (w2, Inr score)" by (fact d c)+
    show "event_bytes evidence_family event = Inr content" "number_between 0 100 score" by (fact c)+
  qed (use verify_event_ok[OF v] consumption_result_ok(3-5)[OF d(3)] rp in \<open>blast+\<close>)
qed











section \<open>Effects happen once\<close>

text \<open>
  What the delivery semantics rests on: the database says of a consumer, tenant and event whether it is
  new and remembers it; a transaction that fails leaves nothing; an effect that succeeds happens in the
  transaction. \<open>seen\<close> and \<open>effects\<close> are what the world has of both.
\<close>

definition ledger_database ::
  "'w query \<Rightarrow> (('w query \<Rightarrow> ('w, js) act) \<Rightarrow> ('w, js) act) \<Rightarrow> ('w, js) act \<Rightarrow> (js \<Rightarrow> 'w query \<Rightarrow> ('w, unit) act)
     \<Rightarrow> ('w \<Rightarrow> js list set) \<Rightarrow> ('w \<Rightarrow> js list) \<Rightarrow> bool" where
  "ledger_database query with_transaction clock apply_effect seen effects \<longleftrightarrow>
     (\<forall>vs w w' result row. query evidence_effect_sql vs w = (w', Inr result) \<and> one_row (evidence_error ''EFFECT_INVALID'') result = Inr row \<longrightarrow>
        effects w' = effects w
        \<and> (get row ''recorded'' = JBool True \<longrightarrow> take 3 vs \<notin> seen w \<and> seen w' = insert (take 3 vs) (seen w))
        \<and> (get row ''recorded'' = JBool False \<longrightarrow> seen w' = seen w))
     \<and> (\<forall>body w w' r. with_transaction body w = (w', r) \<longrightarrow>
        (\<exists>u y. body query w = (u, Inr y) \<and> r = Inr y \<and> seen w' = seen u \<and> effects w' = effects u)
        \<or> (isl r \<and> seen w' = seen w \<and> effects w' = effects w))
     \<and> (\<forall>w w' r. clock w = (w', r) \<longrightarrow> seen w' = seen w \<and> effects w' = effects w)
     \<and> (\<forall>event w w'. apply_effect event query w = (w', Inr ()) \<longrightarrow> seen w' = seen w \<and> effects w' = effects w @ [event])"

definition effect_key :: "js \<Rightarrow> js \<Rightarrow> js list" where
  "effect_key consumer event = [consumer, get event ''tenantId'', get event ''eventId'']"

definition effects_once :: "('w \<Rightarrow> js list set) \<Rightarrow> ('w \<Rightarrow> js list) \<Rightarrow> js \<Rightarrow> 'w \<Rightarrow> bool" where
  "effects_once seen effects consumer w \<longleftrightarrow>
     distinct (map (effect_key consumer) (effects w)) \<and> effect_key consumer ` set (effects w) \<subseteq> seen w"

lemma consume_once_step:
  assumes l: "ledger_database query wt (env_clock E) app seen effects" and inv: "effects_once seen effects n w"
    and n: "get d ''consumerName'' = n" and c: "consume_evidence_once wt E app d w = (w', r)"
  shows "effects_once seen effects n w' \<and> effects w' = effects w @ (if r = Inr (JBool True) then [get d ''event''] else [])"
proof (cases "isl r")
  case True
  have "seen w' = seen w \<and> effects w' = effects w"
  proof (cases "\<exists>body. wt body w = (w', r)")
    case True
    then show ?thesis using l \<open>isl r\<close> unfolding ledger_database_def by (metis sum.disc(2))
  next
    case False
    then show ?thesis using c by (auto simp: consume_evidence_once_def Let_def split: if_splits)
  qed
  then show ?thesis using inv True by (auto simp: effects_once_def)
next
  case False
  let ?e = "get d ''event''"
  let ?key = "effect_key n ?e"
  obtain body where b: "wt body w = (w', r)" "\<And>u y. body query w = (u, Inr y) \<Longrightarrow>
      \<exists>now u1 u2 result row. clock_text E w = (u1, Inr now)
      \<and> query evidence_effect_sql [get d ''consumerName'', get ?e ''tenantId'', get ?e ''eventId'', get ?e ''aggregateId'',
           get d ''streamSequence'', get d ''signedEventSha256'', now] u1 = (u2, Inr result)
      \<and> one_row (evidence_error ''EFFECT_INVALID'') result = Inr row
      \<and> ((get row ''recorded'' = JBool False \<and> y = JBool False \<and> u = u2)
         \<or> (get row ''recorded'' = JBool True \<and> y = JBool True \<and> app ?e query u2 = (u, Inr ())))"
  proof -
    let ?body = "\<lambda>query. act_bind (clock_text E) (\<lambda>now. act_bind (query evidence_effect_sql
          [get d ''consumerName'', get ?e ''tenantId'', get ?e ''eventId'', get ?e ''aggregateId'', get d ''streamSequence'', get d ''signedEventSha256'', now]) (\<lambda>result.
        act_bind (act_res (one_row (evidence_error ''EFFECT_INVALID'') result)) (\<lambda>row.
        act_bind (act_res (read row ''recorded'')) (\<lambda>recorded.
          if \<not> is_bool recorded then act_fail (evidence_error ''EFFECT_INVALID'')
          else if recorded \<noteq> JBool True then act_ret (JBool False)
          else act_bind (app ?e query) (\<lambda>_. act_ret (JBool True))))))"
    have run: "wt ?body w = (w', r)" using c False by (auto simp: consume_evidence_once_def Let_def split: if_splits)
    have bool: "is_bool v \<Longrightarrow> v \<noteq> JBool True \<Longrightarrow> v = JBool False" for v by (cases v) auto
    show ?thesis
    proof (rule that[OF run])
      fix u y assume "?body query w = (u, Inr y)"
      then show "\<exists>now u1 u2 result row. clock_text E w = (u1, Inr now)
      \<and> query evidence_effect_sql [get d ''consumerName'', get ?e ''tenantId'', get ?e ''eventId'', get ?e ''aggregateId'',
           get d ''streamSequence'', get d ''signedEventSha256'', now] u1 = (u2, Inr result)
      \<and> one_row (evidence_error ''EFFECT_INVALID'') result = Inr row
      \<and> ((get row ''recorded'' = JBool False \<and> y = JBool False \<and> u = u2)
         \<or> (get row ''recorded'' = JBool True \<and> y = JBool True \<and> app ?e query u2 = (u, Inr ())))"
        by (fastforce simp: act_bind_Inr dest: bool split: if_splits)
    qed
  qed
  have "\<exists>u y. body query w = (u, Inr y) \<and> r = Inr y \<and> seen w' = seen u \<and> effects w' = effects u"
    using l b(1) False unfolding ledger_database_def by blast
  then obtain u y where u: "body query w = (u, Inr y)" "r = Inr y" "seen w' = seen u" "effects w' = effects u" by blast
  obtain now u1 u2 result row where s: "clock_text E w = (u1, Inr now)"
    "query evidence_effect_sql [get d ''consumerName'', get ?e ''tenantId'', get ?e ''eventId'', get ?e ''aggregateId'',
           get d ''streamSequence'', get d ''signedEventSha256'', now] u1 = (u2, Inr result)"
    "one_row (evidence_error ''EFFECT_INVALID'') result = Inr row"
    "(get row ''recorded'' = JBool False \<and> y = JBool False \<and> u = u2) \<or> (get row ''recorded'' = JBool True \<and> y = JBool True \<and> app ?e query u2 = (u, Inr ()))"
    using b(2)[OF u(1)] by blast
  have k: "seen u1 = seen w" "effects u1 = effects w"
  proof -
    obtain x where x: "env_clock E w = (u1, Inr x)" using s(1) by (auto simp: clock_text_def act_bind_Inr)
    have "\<forall>w w' r. env_clock E w = (w', r) \<longrightarrow> seen w' = seen w \<and> effects w' = effects w" using l unfolding ledger_database_def by blast
    then show "seen u1 = seen w" "effects u1 = effects w" using x by blast+
  qed
  have q: "effects u2 = effects u1" "get row ''recorded'' = JBool True \<Longrightarrow> ?key \<notin> seen u1 \<and> seen u2 = insert ?key (seen u1)"
    "get row ''recorded'' = JBool False \<Longrightarrow> seen u2 = seen u1"
    using l s(2,3) n unfolding ledger_database_def effect_key_def by fastforce+
  from s(4) show ?thesis
  proof
    assume a: "get row ''recorded'' = JBool False \<and> y = JBool False \<and> u = u2"
    then show ?thesis using u k q(1,3) inv by (auto simp: effects_once_def)
  next
    assume a: "get row ''recorded'' = JBool True \<and> y = JBool True \<and> app ?e query u2 = (u, Inr ())"
    have "seen u = seen u2" "effects u = effects u2 @ [?e]" using a l unfolding ledger_database_def by blast+
    then show ?thesis using u k q(1,2) inv a by (auto simp: effects_once_def)
  qed
qed

lemma consume_once_run:
  assumes "ledger_database query wt (env_clock E) app seen effects" "effects_once seen effects n w"
    and "list_all (\<lambda>d. get d ''consumerName'' = n) ds"
  shows "effects_once seen effects n (fst (run_machine (\<lambda>w d. consume_evidence_once wt E app d w) w ds))
    \<and> effects (fst (run_machine (\<lambda>w d. consume_evidence_once wt E app d w) w ds))
      = effects w @ map (\<lambda>(d, r). get d ''event'') (filter (\<lambda>(d, r). r = Inr (JBool True))
          (zip ds (snd (run_machine (\<lambda>w d. consume_evidence_once wt E app d w) w ds))))"
  using assms(2,3)
proof (induction ds arbitrary: w)
  case (Cons d ds)
  obtain w' r where s: "consume_evidence_once wt E app d w = (w', r)" by fastforce
  have k: "effects_once seen effects n w'" "effects w' = effects w @ (if r = Inr (JBool True) then [get d ''event''] else [])"
    using consume_once_step[OF assms(1) Cons.prems(1) _ s] Cons.prems(2) by auto
  obtain w'' rs where t: "run_machine (\<lambda>w d. consume_evidence_once wt E app d w) w' ds = (w'', rs)" by fastforce
  from Cons.IH[OF k(1)] Cons.prems(2) show ?case using k(2) by (simp add: s t)
qed (simp add: effects_once_def)

text \<open>C40: exactly once: over any sequence of deliveries to one consumer, redelivered, reordered or failing, each event's effect
  happened at most once, and exactly for the deliveries that were answered with true.\<close>

theorem evidence_effects_happen_once:
  assumes "ledger_database query with_transaction (env_clock E) apply_effect seen effects"
    and "effects w = []" "list_all (\<lambda>d. get d ''consumerName'' = consumer) deliveries"
    and "run_machine (\<lambda>w d. consume_evidence_once with_transaction E apply_effect d w) w deliveries = (w', results)"
  shows "distinct (map (effect_key consumer) (effects w'))
    \<and> effects w' = map (\<lambda>(d, r). get d ''event'') (filter (\<lambda>(d, r). r = Inr (JBool True)) (zip deliveries results))"
proof -
  have "effects_once seen effects consumer w" using assms(2) by (simp add: effects_once_def)
  from consume_once_run[OF assms(1) this assms(3)] show ?thesis
    unfolding assms(2,4) fst_conv snd_conv append_Nil effects_once_def by blast
qed

subsection \<open>Witnesses\<close>

definition ee_delivery :: js where
  "ee_delivery = obj
     [(''consumerName'', JStr ''trust-consumer''),
      (''event'', obj [(''tenantId'', JStr ''tnt_00000000-0000-4000-8000-000000000001''), (''eventId'', JStr ''evt_00000000-0000-4000-8000-000000000001''),
        (''aggregateId'', JStr ''evd_00000000-0000-4000-8000-000000000001'')]),
      (''streamSequence'', num 1), (''signedEventSha256'', JStr (replicate 64 (CHR ''a'')))]"

definition ee_query :: "(js list list \<times> js list) query" where
  "ee_query sql vs s = ((take 3 vs # fst s, snd s), Inr (obj [(''rows'', JArr [obj [(''recorded'', JBool (take 3 vs \<notin> set (fst s)))]])]))"

definition ee_transaction :: "((js list list \<times> js list) query \<Rightarrow> (js list list \<times> js list, js) act) \<Rightarrow> (js list list \<times> js list, js) act" where
  "ee_transaction body s = (case body ee_query s of (s', Inl e) \<Rightarrow> (s, Inl e) | (s', Inr x) \<Rightarrow> (s', Inr x))"

definition ee_env :: "(js list list \<times> js list) env" where
  "ee_env = \<lparr> env_query = ee_query, env_id = act_ret (JStr ''x''), env_clock = act_ret (JDate (Some 0)), env_date = (\<lambda>v. None) \<rparr>"

definition ee_apply :: "js \<Rightarrow> (js list list \<times> js list) query \<Rightarrow> (js list list \<times> js list, unit) act" where
  "ee_apply event query s = ((fst s, snd s @ [event]), Inr ())"

lemma ee_ledger: "ledger_database ee_query ee_transaction (env_clock ee_env) ee_apply (\<lambda>s. set (fst s)) snd"
  unfolding ledger_database_def
proof (intro conjI)
  show "\<forall>body w w' r. ee_transaction body w = (w', r) \<longrightarrow>
        (\<exists>u y. body ee_query w = (u, Inr y) \<and> r = Inr y \<and> set (fst w') = set (fst u) \<and> snd w' = snd u)
        \<or> (isl r \<and> set (fst w') = set (fst w) \<and> snd w' = snd w)"
    by (auto simp: ee_transaction_def split: prod.splits sum.splits)
qed (auto simp: ee_query_def ee_env_def ee_apply_def one_row_def)

lemma evidence_effects_happen_once_witness:
  "\<exists>s results. run_machine (\<lambda>w d. consume_evidence_once ee_transaction ee_env ee_apply d w) ([], []) [ee_delivery, ee_delivery] = (s, results)
     \<and> distinct (map (effect_key (JStr ''trust-consumer'')) (snd s)) \<and> length (snd s) = 1"
proof -
  have i: "is_worker_id ''trust-consumer''" "is_id ''tnt'' ''tnt_00000000-0000-4000-8000-000000000001''" "is_id ''evt'' ''evt_00000000-0000-4000-8000-000000000001''"
    "is_id ''evd'' ''evd_00000000-0000-4000-8000-000000000001''" "is_sha256 (replicate 64 (CHR ''a''))"
    by code_simp+
  have n: "safe_integer_from 1 (num 1)" by (simp add: safe_integer_from_def is_safe_integer_def is_integer_rat_def max_safe_integer_def)
  obtain s results where r: "run_machine (\<lambda>w d. consume_evidence_once ee_transaction ee_env ee_apply d w) ([], []) [ee_delivery, ee_delivery] = (s, results)"
    by fastforce
  have "length (snd s) = 1"
    using r[symmetric] i n by (simp add: consume_evidence_once_def ee_delivery_def ee_transaction_def act_bind_def clock_text_def ee_env_def ee_query_def
        one_row_def ee_apply_def del: replicate.simps)
  moreover have "list_all (\<lambda>d. get d ''consumerName'' = JStr ''trust-consumer'') [ee_delivery, ee_delivery]" by (simp add: ee_delivery_def)
  ultimately show ?thesis using evidence_effects_happen_once[OF ee_ledger _ _ r] r by auto
qed

text \<open>A consumer of evidence over a database that stages what it is given.\<close>

definition ee_staging :: "unit db" where
  "ee_staging =
     \<lparr> db_connect = act_ret (),
       db_query = (\<lambda>sql vs. act_ret (if sql = consume_sql then obj [(''rows'', JArr [obj
         [(''applied'', JBool True), (''outcome_code'', JStr ''staged''), (''tenant_id'', vs ! 1),
          (''subject_id'', JStr ''sub_00000000-0000-4000-8000-000000000001''), (''evidence_type'', JStr ''device''), (''update_version'', JNull)]])]
         else JNull)),
       db_release = (\<lambda>w. w), db_aborted = (\<lambda>w. False) \<rparr>"

definition ee_trust :: "unit trust_consumer" where
  "ee_trust =
     \<lparr> tr_name = JStr ''trust-consumer'', tr_verify = verify_evidence_event se_verifier, tr_score = (\<lambda>e v. act_ret (num 80)),
       tr_store = consume_component ee_staging (act_ret (JDate (Some 0))), tr_sha256 = (\<lambda>t. replicate 64 (CHR ''a'')) \<rparr>"

lemma se_unsigned_fields:
  "get se_unsigned ''tenantId'' = JStr ''tnt_00000000-0000-4000-8000-000000000001''"
  "get se_unsigned ''subjectId'' = JStr ''sub_00000000-0000-4000-8000-000000000001''"
  "get se_unsigned ''eventId'' = JStr ''evt_00000000-0000-4000-8000-000000000001''"
  "get se_unsigned ''aggregateId'' = JStr ''evd_00000000-0000-4000-8000-000000000001''"
  "get (get se_unsigned ''payload'') ''evidenceType'' = JStr ''device''"
  by (simp_all add: se_unsigned_def build_evidence_event_def se_validated se_producer_valid, simp_all add: se_record_def)

lemma se_event_fields: "k \<noteq> ''sourceAuthentication'' \<Longrightarrow> get se_event k = get se_unsigned k"
proof -
  obtain fs where u: "se_unsigned = obj fs" using build_evidence_event_ok(1)[OF se_built] by blast
  show "k \<noteq> ''sourceAuthentication'' \<Longrightarrow> get se_event k = get se_unsigned k"
    unfolding se_event_def u by (rule get_spread_other)
qed

lemma trust_changes_rest_on_authentic_events_witness:
  "\<exists>r. consume_trust_evidence ee_trust se_event (num 1) JUndef () = ((), Inr r)
     \<and> strict_eq (get r ''tenantId'') (JStr ''tnt_00000000-0000-4000-8000-000000000001'')"
proof -
  have i: "is_worker_id ''trust-consumer''" "is_id ''tnt'' ''tnt_00000000-0000-4000-8000-000000000001''" "is_id ''evt'' ''evt_00000000-0000-4000-8000-000000000001''"
    "is_id ''evd'' ''evd_00000000-0000-4000-8000-000000000001''" "is_id ''sub'' ''sub_00000000-0000-4000-8000-000000000001''" "is_sha256 (replicate 64 (CHR ''a''))"
    by code_simp+
  have n: "safe_integer_from 1 (num 1)" by (simp add: safe_integer_from_def is_safe_integer_def is_integer_rat_def max_safe_integer_def)
  have s: "number_between 0 100 (num 80)" by (simp add: number_between_def is_finite_def)
  have u: "canonical_utc (JStr (time_to_iso 0))" using canonical_utc_iff valid_time_0 by blast
  obtain p where p: "event_bytes evidence_family se_event = Inr p" using se_event_bytes by blast
  let ?d = "delivery_of ee_trust se_event se_unsigned (num 1) (replicate 64 (CHR ''a''))"
  let ?input = "spread ?d [(''componentScore'', num 80)]"
  have g: "get ?input ''event'' = se_event" "get ?input ''verified'' = se_unsigned" "get ?input ''consumerName'' = JStr ''trust-consumer''"
    "get ?input ''streamSequence'' = num 1" "get ?input ''signedEventSha256'' = JStr (replicate 64 (CHR ''a''))" "get ?input ''componentScore'' = num 80"
    by (simp_all add: delivery_of_def get_spread ee_trust_def del: replicate.simps)
  have f: "get se_event ''tenantId'' = get se_unsigned ''tenantId''" "get se_event ''eventId'' = get se_unsigned ''eventId''"
    "get se_event ''aggregateId'' = get se_unsigned ''aggregateId''" "get se_event ''payload'' = get se_unsigned ''payload''"
    by (simp_all add: se_event_fields del: get.simps)
  obtain q where q: "consumption_request ?input (JStr (time_to_iso 0)) = Inr q"
    using i n s u unfolding consumption_request_def g Let_def f se_unsigned_fields component_score_value_def by (simp add: evidence_types_def one_of_def del: replicate.simps)
  note k = consumption_request_ok[OF q, unfolded g f se_unsigned_fields]
  define r where "r = obj [(''applied'', JBool True), (''outcome'', JStr ''staged''), (''tenantId'', JStr ''tnt_00000000-0000-4000-8000-000000000001''),
     (''subjectId'', JStr ''sub_00000000-0000-4000-8000-000000000001''), (''evidenceType'', JStr ''device''), (''updateVersion'', JNull)]"
  define row where "row = obj
         [(''applied'', JBool True), (''outcome_code'', JStr ''staged''), (''tenant_id'', JStr ''tnt_00000000-0000-4000-8000-000000000001''),
          (''subject_id'', JStr ''sub_00000000-0000-4000-8000-000000000001''), (''evidence_type'', JStr ''device''), (''update_version'', JNull)]"
  have "consumption_result row q = Inr r"
    unfolding consumption_result_def k(1,3,10) by (simp add: row_def r_def consumption_outcomes_def one_of_def Let_def)
  moreover have "db_query ee_staging consume_sql (consumption_values q) () = ((), Inr (obj [(''rows'', JArr [row])]))"
    by (simp add: ee_staging_def consumption_values_def k(1) row_def del: get.simps)
  ultimately have c: "tr_store ee_trust ?input () = ((), Inr r)"
    using q by (simp add: ee_trust_def consume_component_def act_bind_def in_role_def in_role_with_def one_row_def)
      (simp add: ee_staging_def act_bind_def)
  have v: "tr_verify ee_trust JUndef se_event () = ((), Inr se_unsigned)" using se_verified by (simp add: ee_trust_def verify_evidence_event_def)
  have "persist_once ee_trust ?d ((), JUndef) = (((), r), Inr (JBool True))"
    using c s unfolding persist_once_def
    by (simp add: act_bind_def unlogged_def component_score_value_def delivery_of_def) (simp add: ee_trust_def r_def)
  then have "\<exists>x. consume_event evidence_family (delegate ee_trust) se_event (num 1) JUndef ((), JUndef) = (((), r), Inr x)"
    using n p v by (simp add: consume_event_def delegate_def act_bind_def unlogged_def delivery_of_def Let_def) (simp add: ee_trust_def)
  then obtain x where run: "consume_trust_evidence ee_trust se_event (num 1) JUndef () = ((), Inr x)"
    by (auto simp: consume_trust_evidence_def consume_accepted_evidence_def r_def)
  have "tr_verify ee_trust = verify_evidence_event se_verifier" "tr_store ee_trust = consume_component ee_staging (act_ret (JDate (Some 0)))"
    by (simp_all add: ee_trust_def)
  from trust_changes_rest_on_authentic_events[OF run this] run show ?thesis by (auto simp: f se_unsigned_fields simp del: get.simps)
qed












end
