(* ===== verification/Spec2Isabelle.thy ===== *)
theory Spec2Isabelle
  imports TemporalSmoothing WeightedScore SecurityActions Authorization EvidencePersistence
    ActionOrchestration ActionOperations StateInvalidation GovernedRecovery
    TrustStorage ScoreLookup ConfigurationManagement TransitionExplanation CertificateStatus AdaptivePolicy EvidenceEffects
begin

text \<open>
  Verification development of the tenant trust platform, an adaptive security prototype for a
  multi-tenant service. It models the JavaScript modules under \<open>packages/\<close> and \<open>services/\<close> that decide:
  who acts in which tenant, which evidence counts, what a trust score is, which security action follows,
  and what is recorded and published about it.

  \<^bold>\<open>How the program works.\<close> A gateway authenticates a certificate. \<open>packages/tenant-context\<close> resolves the
  tenant context from it and \<open>packages/certificate-status\<close> says whether the certificate may be accepted;
  \<open>packages/authorization\<close> grants actions to roles. Signed evidence enters \<open>services/evidence\<close>, which verifies,
  seals and stores it behind a replay guard; \<open>packages/evidence-events\<close> and \<open>packages/certificate-events\<close> sign
  what happened, publish it through an outbox to the subjects of \<open>packages/messaging\<close>, and verify it again
  at the consumer. \<open>services/trust\<close> turns evidence into components (\<open>packages/trust-model\<close>), a weighted score, a
  smoothed score and a controlled band, stores them and explains every transition. \<open>services/policy\<close> checks the
  documents that adapt authorization to trust. \<open>services/orchestrator\<close> selects security actions, executes
  them, clears the sessions of a suspended subject from Redis and governs recovery. The services share
  no memory: they meet in PostgreSQL, Redis and the event stream, which are parameters here.

  \<^bold>\<open>The language.\<close>
  \<^item> \<open>Prelude\<close>: exceptions as values (\<open>'a res\<close>, an error class with its reason code), \<open>run_machine\<close>, and the two
    interfaces \<open>invariant_machine\<close> and \<open>monotone_machine\<close>, which the state machines below instantiate.
  \<^item> \<open>JsDouble\<close>, \<open>JsRounding\<close>: binary64 as rationals rounded to nearest, ties to even; the interface
    \<open>fp_rounding\<close>, discharged for binary64 and for exact arithmetic, gives the bounds of rounding a score.
  \<^item> \<open>JsText\<close>, \<open>JsDate\<close>, \<open>JsValues\<close>, \<open>JsDecimal\<close>, \<open>JsNumbers\<close>, \<open>JsBytes\<close>: regular expressions, dates, untyped
    values with prototypes, \<open>===\<close> and \<open>Set\<close>, the text of a number and back, base64url.
  \<^item> \<open>CanonicalJson\<close>: canonical JSON and \<open>JSON.parse\<close>; \<open>parse_canonical_json\<close> reads back what is written, so a signed
    text determines its value.
  \<^item> \<open>Transactions\<close>, \<open>JsEffects\<close>, \<open>RoleTransactions\<close>: an asynchronous function is a function of the state of the
    world that returns the state after it with its result; statement programs, the transaction
    brackets, and what their success says (\<open>committed_in_role\<close>: connection, \<open>BEGIN\<close>, the role, the operation, an accepted \<open>COMMIT\<close>
    and the release, each in the state the one before left).

  \<^bold>\<open>The program.\<close>
  \<^item> \<open>TenantContext\<close> (\<open>tenant-context/src/index.mjs\<close>, \<open>redis.mjs\<close>): the \<open>WeakSet\<close> of resolved contexts is a store, a
    context a reference into it. Only resolved contexts pass and agree with every claim of the request (C13); keys
    of tenants are disjoint (C14).
  \<^item> \<open>Authorization\<close> (\<open>authorization/src/index.mjs\<close>): the baseline mode admits exactly what the matrix grants (C15).
  \<^item> \<open>CertificateStatus\<close> (\<open>certificate-status/src/index.mjs\<close>): acceptance if and only if it is justified (C33).
  \<^item> \<open>TrustModel\<close>, \<open>WeightedScore\<close> (\<open>trust-model/src/index.mjs\<close>, \<open>weighted-score.mjs\<close>): the decimal and BigInt calculation is
    total and is the rounded mean (C8).
  \<^item> \<open>TemporalSmoothing\<close> (\<open>temporal-smoothing.mjs\<close>): the stored state is accepted again at any later time (C5), fresh observations
    smooth (C6), waiting twice is waiting once and decay lowers (C7).
  \<^item> \<open>TransitionControls\<close> (\<open>trust-transition-controls.mjs\<close>): the states kept are the states accepted (C1), recovery is
    corroborated (C2), a source is capped (C3), critical evidence forces the low band (C4).
  \<^item> \<open>TransitionExplanation\<close> (\<open>transition-explanation.mjs\<close>): a recorded transition is the composition of the three calculators,
    committed and confirmed (C31); when its state continues the chain (C32).
  \<^item> \<open>TrustStorage\<close>, \<open>ScoreLookup\<close>, \<open>ConfigurationManagement\<close> (\<open>services/trust/src/index.mjs\<close>, \<open>score-lookup.mjs\<close>,
    \<open>configuration-management.mjs\<close>): confirmed writes (C28), safe scores (C29), confirmed configurations (C30).
  \<^item> \<open>SecurityActions\<close> (\<open>orchestrator/src/index.mjs\<close>): the state machine of a subject (C9, C10, C11) and the triggers (C12).
  \<^item> \<open>ActionOrchestration\<close>, \<open>ActionOperations\<close>, \<open>GovernedRecovery\<close> (\<open>action-orchestration.mjs\<close>, \<open>action-operations.mjs\<close>,
    \<open>governed-recovery.mjs\<close>): success is confirmed (C22), failure recorded (C23), recovery justified (C27).
  \<^item> \<open>StateInvalidation\<close> (\<open>security-state-invalidation.mjs\<close>): both Lua scripts over a Redis with expiring keys, and the store as a
    machine with the passage of time. An entry stays within reach of its index (C24), an invalidation is one
    atomic update (C25) and happens once in the week of its marker (C26). Two limits of the store are
    lemmas: \<open>entry_outlives_index\<close> and \<open>superseded_marker_is_forgotten\<close>.
  \<^item> \<open>EvidenceProtection\<close>, \<open>EvidenceReplayGuard\<close>, \<open>EvidenceIngestion\<close>, \<open>EvidencePersistence\<close> (\<open>services/evidence/src/index.mjs\<close>, in the
    order of the file): sealed evidence comes back (C16), no replay (C17), freshness (C18), quotas (C19), only authentic evidence
    reaches the guard (C20), acceptance in PostgreSQL is durable (C21).
  \<^item> \<open>EventMessaging\<close>, \<open>SignedEvents\<close>, \<open>EvidenceEffects\<close> (\<open>messaging\<close>, \<open>evidence-events\<close>, \<open>certificate-events\<close>,
    \<open>validated-evidence-consumer.mjs\<close>, \<open>certificate-lifecycle-feedback.mjs\<close>): sign and verify (C35, C36), publishing stays in
    the tenant (C37), effects rest on authentic events (C38, C39) and happen once (C40). The two event modules
    share their code up to an \<open>event_family\<close>.
  \<^item> \<open>AdaptivePolicy\<close> (\<open>adaptive-authorization-policy.mjs\<close>): accepted documents are safe (C34).

  \<^bold>\<open>What is a parameter.\<close> PostgreSQL (a query function; statements are compared as text, templates that span
  lines are written on one line, and a stored procedure answers whatever it answers), Redis (\<open>redis_ok\<close>: the live
  keys, the milliseconds each has left, \<open>TTL\<close> within a second of that), NATS, SHA-256, Ed25519 and AES-256-GCM
  (\<open>gcm_correct\<close>: opening undoes sealing), clocks, ID factories, timers, the parsing of dates by \<open>new Date\<close>, JSON-schema
  validation, and \<open>2 ** x\<close> for fractions (\<open>unit_power\<close>: between 0 and 1 up to exponent 0; \<open>decay_power\<close>: also monotone there,
  which engines satisfy and ECMAScript does not promise, so C7 says where it is used). Every hypothesis on a
  parameter is instantiated by a concrete function in a witness.

  \<^bold>\<open>Conventions.\<close> Strings are lists of 8-bit units; every pattern of the code is ASCII. Negative zero is zero. Objects at
  different positions are different objects. \<open>structuredClone\<close> and freezing are the identity on immutable values.
  Checks of a factory that its arguments are functions are the typing of those parameters. Properties of
  an object that are constant policy descriptors are left out of calculators and written where
  \<open>TransitionExplanation\<close> stores them.

  \<^bold>\<open>Bounds.\<close> The search for the shortest decimal tries 17 digits at most, which \<open>digits_of_sound\<close> shows to be enough for every
  binary64 value. \<open>parse_json\<close> bounds the nesting by twice the length of the text and two; of two nested
  calls one consumes a character, and \<open>parse_canonical_json\<close> shows it enough for every canonical text. All other
  recursion is structural or has a termination proof, and no loop of the model can run out.

  \<^bold>\<open>What is not modelled\<close> is listed with its reason in the manifest: the HTTP and SQL glue of \<open>apps/api\<close>, the
  review console, the certificate authority clients, the evidence source registry, policy bundles, the Fabric gateway and chaincode, the
  audit services, simulators, evaluation and scripts, and the SQL, Rego and shell code.
\<close>

end
